(* ===== verification/Json.thy ===== *)
theory Json
  imports Prelude
begin

text \<open>
  JSON values, \<open>JSON.stringify\<close> on them, and \<open>Date.prototype.toISOString\<close>: the parts of the
  JavaScript standard library whose exact text the sources put into hashes, signatures, event
  payloads and response bodies.
\<close>

datatype json =
    JNull
  | JBool bool
  | JNum int
  | JStr string
  | JArr "json list"
  | JObj "(string \<times> json) list"

section \<open>JSON.stringify\<close>

definition hex_digit :: "nat \<Rightarrow> char" where
  "hex_digit d = (if d < 10 then digit_char d else char_of (87 + d))"

text \<open>The escape of one code unit inside a JSON string literal (34 is the quote, 92 the backslash).\<close>
definition esc_char :: "char \<Rightarrow> string" where
  "esc_char c =
     (let n = (of_char c :: nat) in
      if n = 34 then [char_of (92::nat), char_of (34::nat)]
      else if n = 92 then [char_of (92::nat), char_of (92::nat)]
      else if n = 8 then [char_of (92::nat), CHR ''b'']
      else if n = 9 then [char_of (92::nat), CHR ''t'']
      else if n = 10 then [char_of (92::nat), CHR ''n'']
      else if n = 12 then [char_of (92::nat), CHR ''f'']
      else if n = 13 then [char_of (92::nat), CHR ''r'']
      else if n < 32 then
        [char_of (92::nat), CHR ''u'', CHR ''0'', CHR ''0'', hex_digit (n div 16), hex_digit (n mod 16)]
      else [c])"

definition quote_json :: "string \<Rightarrow> string" where
  "quote_json s = char_of (34::nat) # concat (map esc_char s) @ [char_of (34::nat)]"

fun join_comma :: "string list \<Rightarrow> string" where
  "join_comma [] = []"
| "join_comma [s] = s"
| "join_comma (s # t # ss) = s @ '','' @ join_comma (t # ss)"

fun stringify :: "json \<Rightarrow> string" where
  "stringify JNull = ''null''"
| "stringify (JBool b) = (if b then ''true'' else ''false'')"
| "stringify (JNum i) = int_str i"
| "stringify (JStr s) = quote_json s"
| "stringify (JArr xs) = ''['' @ join_comma (map stringify xs) @ '']''"
| "stringify (JObj kvs) =
     ''{'' @ join_comma (map (\<lambda>(k, v). quote_json k @ '':'' @ stringify v) kvs) @ ''}''"

text \<open>
  A string literal can be cut off the front of a longer text in one way only: its escapes form a
  prefix code and none of them starts with the closing quote.
\<close>

lemma esc_char_nonempty: "esc_char c \<noteq> []"
  by (simp add: esc_char_def Let_def)

lemma esc_char_hd: "hd (esc_char c) \<noteq> char_of (34::nat)"
proof -
  have "of_char c = (34::nat)" if "c = char_of (34::nat)" using that by simp
  then show ?thesis by (auto simp: esc_char_def Let_def)
qed

section \<open>Date.prototype.toISOString\<close>

text \<open>
  Civil date of a day number (days since 1970-01-01 in the proleptic Gregorian calendar), by the
  usual era decomposition of 146097 days per 400 years.
\<close>
definition civil_from_days :: "int \<Rightarrow> int \<times> int \<times> int" where
  "civil_from_days days =
     (let z = days + 719468;
          era = z div 146097;
          doe = z mod 146097;
          yoe = (doe - doe div 1460 + doe div 36524 - doe div 146096) div 365;
          doy = doe - (365 * yoe + yoe div 4 - yoe div 100);
          mp = (5 * doy + 2) div 153;
          d = doy - (153 * mp + 2) div 5 + 1;
          m = (if mp < 10 then mp + 3 else mp - 9);
          y = yoe + era * 400 + (if m \<le> 2 then 1 else 0)
      in (y, m, d))"

definition pad :: "nat \<Rightarrow> int \<Rightarrow> string" where
  "pad w i = (let s = int_str i in replicate (w - length s) (CHR ''0'') @ s)"

definition iso_string :: "instant \<Rightarrow> string" where
  "iso_string t =
     (let days = t div 86400000; ms = t mod 86400000; (y, m, d) = civil_from_days days in
      (if 0 \<le> y \<and> y \<le> 9999 then pad 4 y
       else (if y < 0 then ''-'' else ''+'') @ pad 6 \<bar>y\<bar>)
      @ ''-'' @ pad 2 m @ ''-'' @ pad 2 d @ ''T''
      @ pad 2 (ms div 3600000) @ '':'' @ pad 2 (ms div 60000 mod 60) @ '':''
      @ pad 2 (ms div 1000 mod 60) @ ''.'' @ pad 3 (ms mod 1000) @ ''Z'')"

lemma iso_string_epoch: "iso_string 0 = ''1970-01-01T00:00:00.000Z''"
  by code_simp

lemma iso_string_leap_day: "iso_string 1709209845067 = ''2024-02-29T12:30:45.067Z''"
  by code_simp

end
