(* ===== verification/Exceptions.thy ===== *)
theory Exceptions
  imports Json
begin

text \<open>
  The exception hierarchy of \<open>src/common/exceptions/app.exception.ts\<close>, the RFC 7807 body of
  \<open>src/common/types/interfaces/problem-details.ts\<close> and the error middleware of
  \<open>src/common/middlewares/error-handler.middleware.ts\<close>.
  \<open>DbError\<close> is the driver's \<open>QueryFailedError\<close>, known to the sources by its SQLSTATE \<open>code\<close>;
  \<open>PlainError\<close> is a bare JavaScript \<open>Error\<close>, \<open>TypeError\<close> or \<open>RangeError\<close>.
\<close>

datatype exn =
    AppException nat string string "json option"
  | DbError string
  | PlainError string

definition BadRequestException :: "string \<Rightarrow> exn" where
  "BadRequestException m = AppException 400 ''BAD_REQUEST'' m None"

definition UnauthorizedException :: "string \<Rightarrow> exn" where
  "UnauthorizedException m = AppException 401 ''UNAUTHORIZED'' m None"

definition ForbiddenException :: "string \<Rightarrow> exn" where
  "ForbiddenException m = AppException 403 ''FORBIDDEN'' m None"

definition NotFoundException :: "string \<Rightarrow> exn" where
  "NotFoundException m = AppException 404 ''NOT_FOUND'' m None"

definition ConflictException :: "string \<Rightarrow> exn" where
  "ConflictException m = AppException 409 ''CONFLICT'' m None"

definition GoneException :: "string \<Rightarrow> exn" where
  "GoneException m = AppException 410 ''GONE'' m None"

definition PreconditionFailedException :: "string \<Rightarrow> exn" where
  "PreconditionFailedException m = AppException 412 ''PRECONDITION_FAILED'' m None"

definition UnprocessableStateException :: "string \<Rightarrow> exn" where
  "UnprocessableStateException m = AppException 422 ''INVALID_STATE_TRANSITION'' m None"

definition ValidationException :: "string \<Rightarrow> exn" where
  "ValidationException m = AppException 422 ''VALIDATION_ERROR'' m None"

lemmas exception_defs =
  BadRequestException_def UnauthorizedException_def ForbiddenException_def NotFoundException_def
  ConflictException_def GoneException_def PreconditionFailedException_def
  UnprocessableStateException_def ValidationException_def

text \<open>SQLSTATE codes the sources react to.\<close>
abbreviation unique_violation :: string where "unique_violation \<equiv> ''23505''"
abbreviation exclusion_violation :: string where "exclusion_violation \<equiv> ''23P01''"
abbreviation fk_violation :: string where "fk_violation \<equiv> ''23503''"
abbreviation rls_violation :: string where "rls_violation \<equiv> ''42501''"
abbreviation bad_datetime :: string where "bad_datetime \<equiv> ''22007''"
abbreviation bad_range :: string where "bad_range \<equiv> ''22000''"

text \<open>
  The shape of every repository's \<open>catch\<close>: \<open>if (error.code === code) throw replacement;
  throw error\<close>.
\<close>
definition on_code :: "string \<Rightarrow> exn \<Rightarrow> exn \<Rightarrow> exn" where
  "on_code code replacement e = (if e = DbError code then replacement else e)"

lemma on_code_simps [simp]:
  "on_code c r (DbError c) = r"
  "c \<noteq> c' \<Longrightarrow> on_code c r (DbError c') = DbError c'"
  "on_code c r (AppException s k m d) = AppException s k m d"
  "on_code c r (PlainError m) = PlainError m"
  by (simp_all add: on_code_def)

section \<open>Problem details\<close>

record problem =
  pb_type :: string
  pb_title :: string
  pb_status :: nat
  pb_detail :: string
  pb_instance :: "string option"
  pb_code :: string
  pb_errors :: "json option"
  pb_traceId :: "string option"

definition STATUS_TITLES :: "(nat \<times> string) list" where
  "STATUS_TITLES =
     [(400, ''Bad Request''), (401, ''Unauthorized''), (403, ''Forbidden''), (404, ''Not Found''),
      (409, ''Conflict''), (410, ''Gone''), (412, ''Precondition Failed''),
      (422, ''Unprocessable Entity''), (429, ''Too Many Requests''),
      (500, ''Internal Server Error'')]"

text \<open>The trace id is the active OpenTelemetry span's, an input here.\<close>
definition buildProblem ::
  "string option \<Rightarrow> nat \<Rightarrow> string \<Rightarrow> string \<Rightarrow> string option \<Rightarrow> json option \<Rightarrow> problem" where
  "buildProblem trace status code detail inst errs =
     \<lparr>pb_type = ''about:blank'',
      pb_title = (case map_of STATUS_TITLES status of None \<Rightarrow> ''Error'' | Some t \<Rightarrow> t),
      pb_status = status, pb_detail = detail, pb_instance = inst, pb_code = code,
      pb_errors = errs, pb_traceId = trace\<rparr>"

section \<open>The error middleware\<close>

text \<open>A class-validator error: the property, its violated constraints, nested errors.\<close>
datatype validation_error =
  ValidationError (ve_property: string)
                  (ve_constraints: "(string \<times> string) list option")
                  (ve_children: "validation_error list")

datatype errors_field = NoErrors | ValidationErrors "validation_error list" | OtherErrors json

text \<open>What the handler reads off a thrown value.\<close>
record thrown =
  th_httpCode :: "nat option"
  th_status :: "nat option"
  th_details :: "json option"
  th_errors :: errors_field
  th_errorCode :: "string option"
  th_message :: "string option"
  th_stack :: "string option"

definition isValidationErrors :: "errors_field \<Rightarrow> bool" where
  "isValidationErrors f = (case f of ValidationErrors es \<Rightarrow> es \<noteq> [] | _ \<Rightarrow> False)"

text \<open>
  \<open>undefined\<close> members disappear when the body is serialised, so an absent \<open>messages\<close> or
  \<open>children\<close> is no member at all.
\<close>
fun formatValidationError :: "validation_error \<Rightarrow> json" where
  "formatValidationError (ValidationError p cs ch) =
     JObj ([(''field'', JStr p)]
       @ (case cs of None \<Rightarrow> [] | Some kvs \<Rightarrow> [(''messages'', JArr (map (\<lambda>(_, m). JStr m) kvs))])
       @ (if ch = [] then [] else [(''children'', JArr (map formatValidationError ch))]))"

definition formatValidationErrors :: "validation_error list \<Rightarrow> json" where
  "formatValidationErrors es = JArr (map formatValidationError es)"

definition STATUS_CODE :: "(nat \<times> string) list" where
  "STATUS_CODE =
     [(400, ''BAD_REQUEST''), (401, ''UNAUTHORIZED''), (403, ''FORBIDDEN''), (404, ''NOT_FOUND''),
      (409, ''CONFLICT''), (422, ''VALIDATION_ERROR''), (500, ''INTERNAL_ERROR'')]"

text \<open>JavaScript \<open>||\<close> on numbers: an absent or zero left operand yields the right one.\<close>
definition js_or_num :: "nat option \<Rightarrow> nat option \<Rightarrow> nat option" where
  "js_or_num a b = (case a of Some n \<Rightarrow> if n = 0 then b else a | None \<Rightarrow> b)"

datatype handler_outcome =
    Forwarded thrown
  | Responded nat problem "string option" \<comment> \<open>status, body, line logged\<close>

definition error_handler ::
  "bool \<Rightarrow> string option \<Rightarrow> bool \<Rightarrow> string \<Rightarrow> thrown \<Rightarrow> handler_outcome" where
  "error_handler isProduction trace headersSent originalUrl e =
     (if headersSent then Forwarded e
      else
        let status0 = (case js_or_num (js_or_num (th_httpCode e) (th_status e)) (Some 500) of
                         None \<Rightarrow> 500 | Some n \<Rightarrow> n);
            detail0 = (case th_message e of None \<Rightarrow> ''Error'' | Some m \<Rightarrow> m);
            (status, errs1, detail1) =
              (case th_errors e of
                 ValidationErrors es \<Rightarrow>
                   if es \<noteq> [] then (422, Some (formatValidationErrors es), ''Validation failed'')
                   else (status0, (if th_details e = None then Some (JArr []) else th_details e), detail0)
               | OtherErrors j \<Rightarrow>
                   (status0, (if th_details e = None then Some j else th_details e), detail0)
               | NoErrors \<Rightarrow> (status0, th_details e, detail0));
            code = (case th_errorCode e of Some c \<Rightarrow> c
                    | None \<Rightarrow> (case map_of STATUS_CODE status of Some c \<Rightarrow> c | None \<Rightarrow> ''ERROR''));
            logged = (if 500 \<le> status
                      then Some (case th_stack e of Some s \<Rightarrow> s | None \<Rightarrow> detail0) else None);
            hide = (500 \<le> status \<and> isProduction);
            detail = (if hide then ''Internal Server Error'' else detail1);
            errs = (if hide then None else errs1)
        in Responded status (buildProblem trace status code detail (Some originalUrl) errs) logged)"

text \<open>What a thrown value of the model looks like to the handler.\<close>
fun thrown_of :: "exn \<Rightarrow> thrown" where
  "thrown_of (AppException s c m d) =
     \<lparr>th_httpCode = Some s, th_status = None, th_details = d, th_errors = NoErrors,
      th_errorCode = Some c, th_message = Some m, th_stack = None\<rparr>"
| "thrown_of (DbError c) =
     \<lparr>th_httpCode = None, th_status = None, th_details = None, th_errors = NoErrors,
      th_errorCode = None, th_message = Some (''query failed: '' @ c), th_stack = None\<rparr>"
| "thrown_of (PlainError m) =
     \<lparr>th_httpCode = None, th_status = None, th_details = None, th_errors = NoErrors,
      th_errorCode = None, th_message = Some m, th_stack = None\<rparr>"

fun response_status :: "handler_outcome \<Rightarrow> nat option" where
  "response_status (Responded s _ _) = Some s"
| "response_status (Forwarded _) = None"

fun response_body :: "handler_outcome \<Rightarrow> problem option" where
  "response_body (Responded _ b _) = Some b"
| "response_body (Forwarded _) = None"

end
