(* ===== verification/Schema.thy ===== *)
theory Schema
  imports Exceptions
begin

text \<open>
  The enums of \<open>src/common/types/enums\<close>, the entities of \<open>src/modules/*/*.entity.ts\<close> as records that
  extend the base entities the way the classes do, and the two halves of the database: \<open>tdb\<close>
  holds the tables written on a tenant (or relay) transaction, \<open>gdb\<close> those written on the pooled
  connection. \<open>updated_at\<close> is never read by the code and is left out.
\<close>

section \<open>Enums\<close>

datatype booking_status = Pending | Confirmed | Completed | Cancelled | NoShow

fun booking_status_str :: "booking_status \<Rightarrow> string" where
  "booking_status_str Pending = ''pending''"
| "booking_status_str Confirmed = ''confirmed''"
| "booking_status_str Completed = ''completed''"
| "booking_status_str Cancelled = ''cancelled''"
| "booking_status_str NoShow = ''no_show''"

definition ACTIVE_BOOKING_STATUSES :: "booking_status list" where
  "ACTIVE_BOOKING_STATUSES = [Pending, Confirmed]"

datatype membership_role = Owner | Staff

datatype auth_role = TenantRole membership_role | SuperAdmin

definition SUPER_ADMIN_ONLY :: "auth_role list" where "SUPER_ADMIN_ONLY = [SuperAdmin]"
definition OWNER_ONLY :: "auth_role list" where "OWNER_ONLY = [TenantRole Owner]"
definition TENANT_MEMBER :: "auth_role list" where
  "TENANT_MEMBER = [TenantRole Owner, TenantRole Staff]"

datatype outbox_status = OutPending | OutDispatched | OutDead

datatype subscription_status = Trialing | Active | PastDue | Canceled

datatype tenant_status = TenantActive | TenantSuspended

datatype plan_code = FreePlan | ProPlan

fun plan_code_str :: "plan_code \<Rightarrow> string" where
  "plan_code_str FreePlan = ''free''"
| "plan_code_str ProPlan = ''pro''"

datatype provider_name = Sepay | Stripe

text \<open>The finite enums as instances of the library's \<open>enum\<close>, so that facts about all states compute.\<close>

instantiation booking_status :: enum
begin

definition enum_booking_status :: "booking_status list" where
  "enum_booking_status = [Pending, Confirmed, Completed, Cancelled, NoShow]"

definition enum_all_booking_status :: "(booking_status \<Rightarrow> bool) \<Rightarrow> bool" where
  "enum_all_booking_status P \<longleftrightarrow> P Pending \<and> P Confirmed \<and> P Completed \<and> P Cancelled \<and> P NoShow"

definition enum_ex_booking_status :: "(booking_status \<Rightarrow> bool) \<Rightarrow> bool" where
  "enum_ex_booking_status P \<longleftrightarrow> P Pending \<or> P Confirmed \<or> P Completed \<or> P Cancelled \<or> P NoShow"

instance
proof
  have univ: "x = Pending \<or> x = Confirmed \<or> x = Completed \<or> x = Cancelled \<or> x = NoShow" for x
    by (cases x) auto
  show "(UNIV :: booking_status set) = set enum_class.enum"
    using univ by (auto simp: enum_booking_status_def)
  show "distinct (enum_class.enum :: booking_status list)"
    by (simp add: enum_booking_status_def)
  show "enum_class.enum_all P = Ball UNIV P" for P :: "booking_status \<Rightarrow> bool"
    unfolding enum_all_booking_status_def using univ by (metis UNIV_I)
  show "enum_class.enum_ex P = Bex UNIV P" for P :: "booking_status \<Rightarrow> bool"
    unfolding enum_ex_booking_status_def using univ by (metis UNIV_I)
qed

end

instantiation subscription_status :: enum
begin

definition enum_subscription_status :: "subscription_status list" where
  "enum_subscription_status = [Trialing, Active, PastDue, Canceled]"

definition enum_all_subscription_status :: "(subscription_status \<Rightarrow> bool) \<Rightarrow> bool" where
  "enum_all_subscription_status P \<longleftrightarrow> P Trialing \<and> P Active \<and> P PastDue \<and> P Canceled"

definition enum_ex_subscription_status :: "(subscription_status \<Rightarrow> bool) \<Rightarrow> bool" where
  "enum_ex_subscription_status P \<longleftrightarrow> P Trialing \<or> P Active \<or> P PastDue \<or> P Canceled"

instance
proof
  have univ: "x = Trialing \<or> x = Active \<or> x = PastDue \<or> x = Canceled" for x
    by (cases x) auto
  show "(UNIV :: subscription_status set) = set enum_class.enum"
    using univ by (auto simp: enum_subscription_status_def)
  show "distinct (enum_class.enum :: subscription_status list)"
    by (simp add: enum_subscription_status_def)
  show "enum_class.enum_all P = Ball UNIV P" for P :: "subscription_status \<Rightarrow> bool"
    unfolding enum_all_subscription_status_def using univ by (metis UNIV_I)
  show "enum_class.enum_ex P = Bex UNIV P" for P :: "subscription_status \<Rightarrow> bool"
    unfolding enum_ex_subscription_status_def using univ by (metis UNIV_I)
qed

end

section \<open>Constants of \<open>src/common/constants/index.ts\<close>\<close>

definition SECOND_MS :: int where "SECOND_MS = 1000"
definition MINUTE_MS :: int where "MINUTE_MS = 60 * SECOND_MS"
definition HOUR_MS :: int where "HOUR_MS = 60 * MINUTE_MS"
definition DAY_MS :: int where "DAY_MS = 24 * HOUR_MS"
definition MINUTES_PER_DAY :: int where "MINUTES_PER_DAY = 24 * 60"
definition OUTBOX_BATCH_SIZE :: nat where "OUTBOX_BATCH_SIZE = 20"
definition OUTBOX_MAX_ATTEMPTS :: nat where "OUTBOX_MAX_ATTEMPTS = 5"
definition OUTBOX_BACKOFF_BASE_MS :: int where "OUTBOX_BACKOFF_BASE_MS = 30 * SECOND_MS"
definition REPORT_MAX_RANGE_MS :: int where "REPORT_MAX_RANGE_MS = 366 * DAY_MS"
definition DEFAULT_PLAN_CODE :: plan_code where "DEFAULT_PLAN_CODE = FreePlan"

lemmas time_unit_defs = SECOND_MS_def MINUTE_MS_def HOUR_MS_def DAY_MS_def MINUTES_PER_DAY_def

lemma MINUTE_MS_val: "MINUTE_MS = 60000" by (simp add: time_unit_defs)
lemma DAY_MS_val: "DAY_MS = 86400000" by (simp add: time_unit_defs)

section \<open>Base entities\<close>

record base_entity =
  e_id :: uuid
  e_createdAt :: instant
  e_deletedAt :: "instant option"

record tenant_entity = base_entity +
  e_tenantId :: uuid

section \<open>Tenant-scoped entities\<close>

record service_row = tenant_entity +
  svc_name :: string
  svc_durationMin :: int
  svc_priceAmount :: int
  svc_priceCurrency :: string
  svc_bufferBeforeMin :: int
  svc_bufferAfterMin :: int
  svc_active :: bool

record customer_row = tenant_entity +
  cu_name :: string
  cu_email :: string
  cu_phone :: "string option"

record staff_row = tenant_entity +
  st_userId :: uuid
  st_displayName :: string
  st_active :: bool

record staff_service_row = tenant_entity +
  ss_staffId :: uuid
  ss_serviceId :: uuid

record working_hours_row = tenant_entity +
  wh_staffId :: uuid
  wh_weekday :: int
  wh_startMin :: int
  wh_endMin :: int

record time_off_row = tenant_entity +
  to_staffId :: uuid
  to_startsAt :: instant
  to_endsAt :: instant
  to_reason :: "string option"

record booking = tenant_entity +
  bk_staffId :: uuid
  bk_serviceId :: uuid
  bk_customerId :: uuid
  bk_startsAt :: instant
  bk_endsAt :: instant
  bk_status :: booking_status
  bk_priceAmount :: int
  bk_priceCurrency :: string
  bk_recurrenceId :: "uuid option"
  bk_version :: int

record idempotency_key = tenant_entity +
  ik_key :: string
  ik_requestHash :: string
  ik_responseBody :: "json option"

record outbox_event = tenant_entity +
  ob_aggregateType :: string
  ob_aggregateId :: uuid
  ob_eventType :: string
  ob_payload :: json
  ob_status :: outbox_status
  ob_attempts :: nat
  ob_availableAt :: instant

datatype recurrence_freq = Daily | Weekly

record recurrence_row = tenant_entity +
  rc_serviceId :: uuid
  rc_staffId :: uuid
  rc_customerId :: uuid
  rc_freq :: recurrence_freq
  rc_interval :: int
  rc_weekdays :: "int list option"
  rc_startDate :: string
  rc_startMinutes :: int
  rc_count :: "int option"
  rc_until :: "string option"
  rc_timezone :: string

record subscription = tenant_entity +
  sub_planId :: uuid
  sub_provider :: provider_name
  sub_providerReference :: string
  sub_status :: subscription_status

record webhook_endpoint = tenant_entity +
  we_url :: string
  we_secret :: string
  we_active :: bool

record invite = tenant_entity +
  inv_email :: string
  inv_role :: membership_role
  inv_tokenHash :: string
  inv_expiresAt :: instant
  inv_acceptedAt :: "instant option"

section \<open>Global entities\<close>

record plan = base_entity +
  pl_code :: string
  pl_name :: string
  pl_priceAmount :: int
  pl_priceCurrency :: string
  pl_maxStaff :: int
  pl_maxBookingsPerMonth :: int

record tenant = base_entity +
  tn_name :: string
  tn_slug :: string
  tn_timezone :: string
  tn_status :: tenant_status

record user = base_entity +
  us_email :: string
  us_name :: string
  us_passwordHash :: "string option"
  us_provider :: "string option"
  us_providerAccountId :: "string option"
  us_isSuperAdmin :: bool

record membership = base_entity +
  mb_userId :: uuid
  mb_tenantId :: uuid
  mb_role :: membership_role

record refresh_token = base_entity +
  rt_userId :: uuid
  rt_familyId :: uuid
  rt_tokenHash :: string
  rt_tenantId :: "uuid option"
  rt_role :: "membership_role option"
  rt_expiresAt :: instant
  rt_usedAt :: "instant option"
  rt_revokedAt :: "instant option"

record webhook_receipt =
  wr_id :: uuid
  wr_createdAt :: instant
  wr_provider :: provider_name
  wr_eventId :: string

datatype admin_action = TenantView | TenantSuspend | TenantReactivate

record audit_log =
  al_id :: uuid
  al_createdAt :: instant
  al_actorUserId :: uuid
  al_action :: admin_action
  al_targetTenantId :: uuid
  al_reason :: "string option"

section \<open>The database\<close>

record tdb =
  services :: "service_row list"
  customers :: "customer_row list"
  staff_tbl :: "staff_row list"
  staff_services :: "staff_service_row list"
  working_hours :: "working_hours_row list"
  time_off :: "time_off_row list"
  bookings :: "booking list"
  idempotency_keys :: "idempotency_key list"
  outbox_events :: "outbox_event list"
  recurrences :: "recurrence_row list"
  subscriptions :: "subscription list"
  webhook_endpoints :: "webhook_endpoint list"
  webhook_receipts :: "webhook_receipt list"

record gdb =
  plans :: "plan list"
  tenants :: "tenant list"
  users :: "user list"
  memberships :: "membership list"
  refresh_tokens :: "refresh_token list"
  invites :: "invite list"
  audit_logs :: "audit_log list"

definition empty_tdb :: tdb where
  "empty_tdb =
     \<lparr>services = [], customers = [], staff_tbl = [], staff_services = [], working_hours = [],
      time_off = [], bookings = [], idempotency_keys = [], outbox_events = [], recurrences = [],
      subscriptions = [], webhook_endpoints = [], webhook_receipts = []\<rparr>"

definition empty_gdb :: gdb where
  "empty_gdb =
     \<lparr>plans = [], tenants = [], users = [], memberships = [], refresh_tokens = [], invites = [],
      audit_logs = []\<rparr>"

definition live :: "'a base_entity_scheme \<Rightarrow> bool" where
  "live r \<longleftrightarrow> e_deletedAt r = None"

definition active_status :: "booking_status \<Rightarrow> bool" where
  "active_status s \<longleftrightarrow> s \<in> set ACTIVE_BOOKING_STATUSES"

lemma active_status_simps [simp]:
  "active_status Pending" "active_status Confirmed"
  "\<not> active_status Completed" "\<not> active_status Cancelled" "\<not> active_status NoShow"
  by (simp_all add: active_status_def ACTIVE_BOOKING_STATUSES_def)

end
