(* ===== verification/Constraints.thy ===== *)
theory Constraints
  imports Schema
begin

text \<open>
  The unique indexes and EXCLUDE constraints of \<open>src/database/migrations\<close>. A constraint is the
  SQLSTATE it raises and the relation of two rows that may not both be in the table; an INSERT or
  UPDATE is checked against them as one atomic statement. The locale \<open>table_constraints\<close> states
  what every table relies on (the relation is symmetric) and gives the laws the repositories use;
  \<open>keyed_table\<close> adds a primary key. Every table of the schema is an interpretation.
\<close>

type_synonym 'r constraint = "string \<times> ('r \<Rightarrow> 'r \<Rightarrow> bool)"

definition violates :: "('r \<Rightarrow> 'r \<Rightarrow> bool) \<Rightarrow> 'r list \<Rightarrow> bool" where
  "violates C rows \<longleftrightarrow> \<not> sorted_wrt (\<lambda>a b. \<not> C a b) rows"

definition sat_all :: "'r constraint list \<Rightarrow> 'r list \<Rightarrow> bool" where
  "sat_all cs rows \<longleftrightarrow> list_all (\<lambda>(code, C). \<not> violates C rows) cs"

text \<open>The SQLSTATE of the first constraint that \<open>v\<close> finds violated.\<close>
primrec first_code :: "('c \<Rightarrow> bool) \<Rightarrow> (string \<times> 'c) list \<Rightarrow> string option" where
  "first_code v [] = None"
| "first_code v (c # cs) = (if v (snd c) then Some (fst c) else first_code v cs)"

definition insert_checked :: "'r constraint list \<Rightarrow> 'r \<Rightarrow> 'r list \<Rightarrow> exn + 'r list" where
  "insert_checked cs r rows =
     (case first_code (\<lambda>C. list_ex (C r) rows) cs of
        Some code \<Rightarrow> Inl (DbError code)
      | None \<Rightarrow> Inr (rows @ [r]))"

definition update_checked ::
  "'r constraint list \<Rightarrow> ('r \<Rightarrow> bool) \<Rightarrow> ('r \<Rightarrow> 'r) \<Rightarrow> 'r list \<Rightarrow> exn + 'r list" where
  "update_checked cs p f rows =
     (case first_code (\<lambda>C. violates C (update_where p f rows)) cs of
        Some code \<Rightarrow> Inl (DbError code)
      | None \<Rightarrow> Inr (update_where p f rows))"

lemma first_code_None_snd: "first_code v cs = None \<longleftrightarrow> (\<forall>c \<in> set cs. \<not> v (snd c))"
  by (induction cs) auto

lemma first_code_None: "first_code v cs = None \<longleftrightarrow> (\<forall>code C. (code, C) \<in> set cs \<longrightarrow> \<not> v C)"
  by (force simp: first_code_None_snd)

lemma first_code_Some: "first_code v cs = Some code \<Longrightarrow> \<exists>C. (code, C) \<in> set cs \<and> v C"
  by (induction cs) (auto split: if_splits)

lemma sat_allD: "sat_all cs rows \<Longrightarrow> (code, C) \<in> set cs \<Longrightarrow> \<not> violates C rows"
  by (auto simp: sat_all_def list_all_iff)

lemma sat_allI: "(\<And>code C. (code, C) \<in> set cs \<Longrightarrow> \<not> violates C rows) \<Longrightarrow> sat_all cs rows"
  by (auto simp: sat_all_def list_all_iff)

lemma insert_checked_eq: "insert_checked cs r rows = Inr rows' \<Longrightarrow> rows' = rows @ [r]"
  by (auto simp: insert_checked_def split: option.splits)

lemma insert_checked_Inr_iff:
  "insert_checked cs r rows = Inr rows' \<longleftrightarrow>
     rows' = rows @ [r] \<and> (\<forall>code C. (code, C) \<in> set cs \<longrightarrow> (\<forall>r' \<in> set rows. \<not> C r r'))"
proof (cases "first_code (\<lambda>C. list_ex (C r) rows) cs")
  case None
  then show ?thesis
    by (auto simp: insert_checked_def) (auto simp: first_code_None list_ex_iff)
next
  case (Some code)
  then show ?thesis
    using first_code_Some [OF Some] by (auto simp: insert_checked_def list_ex_iff)
qed

lemma insert_checked_Inl:
  assumes "insert_checked cs r rows = Inl e"
  shows "\<exists>code C r'. e = DbError code \<and> (code, C) \<in> set cs \<and> r' \<in> set rows \<and> C r r'"
proof -
  obtain code where "first_code (\<lambda>C. list_ex (C r) rows) cs = Some code" "e = DbError code"
    using assms by (auto simp: insert_checked_def split: option.splits)
  then show ?thesis using first_code_Some by (fastforce simp: list_ex_iff)
qed

lemma update_checked_eq: "update_checked cs p f rows = Inr rows' \<Longrightarrow> rows' = update_where p f rows"
  by (auto simp: update_checked_def split: option.splits)

lemma update_checked_Inr_iff:
  "update_checked cs p f rows = Inr rows' \<longleftrightarrow>
     rows' = update_where p f rows \<and> sat_all cs (update_where p f rows)"
proof (cases "first_code (\<lambda>C. violates C (update_where p f rows)) cs")
  case None
  then show ?thesis
    by (auto simp: update_checked_def) (auto simp: first_code_None intro: sat_allI)
next
  case (Some code)
  then show ?thesis
    using first_code_Some [OF Some] by (auto simp: update_checked_def dest: sat_allD)
qed

lemma update_checked_Inl:
  assumes "update_checked cs p f rows = Inl e"
  shows "\<exists>code C. e = DbError code \<and> (code, C) \<in> set cs \<and> violates C (update_where p f rows)"
  using assms first_code_Some by (fastforce simp: update_checked_def split: option.splits)

lemma not_violates_append_one:
  "\<not> violates C (rows @ [r]) \<longleftrightarrow> \<not> violates C rows \<and> (\<forall>r' \<in> set rows. \<not> C r' r)"
  by (simp add: violates_def sorted_wrt_append)

lemma not_violates_nth:
  "\<not> violates C rows \<longleftrightarrow> (\<forall>i j. i < j \<longrightarrow> j < length rows \<longrightarrow> \<not> C (rows ! i) (rows ! j))"
  by (auto simp: violates_def sorted_wrt_iff_nth_less)

lemma not_violates_pair:
  assumes "\<not> violates C rows" "a \<in> set rows" "b \<in> set rows" "a \<noteq> b"
    and sym: "C b a \<Longrightarrow> C a b" "C a b \<Longrightarrow> C b a"
  shows "\<not> C a b"
proof -
  obtain i j where i: "i < length rows" "rows ! i = a" and j: "j < length rows" "rows ! j = b"
    using assms(2,3) by (metis in_set_conv_nth)
  have "i \<noteq> j" using i j assms(4) by auto
  then consider "i < j" | "j < i" by linarith
  then show ?thesis
  proof cases
    case 1
    then have "\<not> C (rows ! i) (rows ! j)" using assms(1) [unfolded not_violates_nth, rule_format, OF _ j(1)] by simp
    then show ?thesis using i j by simp
  next
    case 2
    then have "\<not> C (rows ! j) (rows ! i)" using assms(1) [unfolded not_violates_nth, rule_format, OF _ i(1)] by simp
    then have "\<not> C b a" using i j by simp
    then show ?thesis using sym by blast
  qed
qed

lemma not_violates_update:
  assumes "\<not> violates C rows"
    and step: "\<And>a b. a \<in> set rows \<Longrightarrow> b \<in> set rows \<Longrightarrow>
           C (if p a then f a else a) (if p b then f b else b) \<Longrightarrow> C a b"
  shows "\<not> violates C (update_where p f rows)"
  unfolding not_violates_nth
proof (intro allI impI notI)
  fix i j
  assume ij: "i < j" "j < length (update_where p f rows)"
    and c: "C (update_where p f rows ! i) (update_where p f rows ! j)"
  then have len: "i < length rows" "j < length rows" by simp_all
  have "C (if p (rows ! i) then f (rows ! i) else rows ! i)
          (if p (rows ! j) then f (rows ! j) else rows ! j)"
    using c len by (simp add: update_where_def)
  then have "C (rows ! i) (rows ! j)"
    using step [of "rows ! i" "rows ! j"] len by simp
  then show False
    using assms(1) [unfolded not_violates_nth, rule_format, OF ij(1) len(2)] by simp
qed

lemma not_violates_filter: "\<not> violates C rows \<Longrightarrow> \<not> violates C (filter p rows)"
  by (simp add: violates_def sorted_wrt_filter)

section \<open>The interface of a constrained table\<close>

locale table_constraints =
  fixes cs :: "'r constraint list"
  assumes conflict_sym: "(code, C) \<in> set cs \<Longrightarrow> C a b \<Longrightarrow> C b a"
begin

lemma insert_sat:
  assumes "sat_all cs rows" "insert_checked cs r rows = Inr rows'"
  shows "sat_all cs rows'"
proof -
  have eq: "rows' = rows @ [r]" using assms(2) by (rule insert_checked_eq)
  show ?thesis
  proof (rule sat_allI)
    fix code C
    assume mem: "(code, C) \<in> set cs"
    have "\<forall>r' \<in> set rows. \<not> C r r'"
      using assms(2) mem by (auto simp: insert_checked_Inr_iff)
    then have "\<forall>r' \<in> set rows. \<not> C r' r" using conflict_sym [OF mem] by blast
    moreover have "\<not> violates C rows" using assms(1) mem by (rule sat_allD)
    ultimately show "\<not> violates C rows'" by (simp add: eq not_violates_append_one)
  qed
qed

lemma update_sat: "update_checked cs p f rows = Inr rows' \<Longrightarrow> sat_all cs rows'"
  by (auto simp: update_checked_Inr_iff)

lemma update_harmless:
  assumes "sat_all cs rows"
    and "\<And>code C a b. (code, C) \<in> set cs \<Longrightarrow> a \<in> set rows \<Longrightarrow> b \<in> set rows \<Longrightarrow>
           C (if p a then f a else a) (if p b then f b else b) \<Longrightarrow> C a b"
  shows "sat_all cs (update_where p f rows)"
  by (intro sat_allI not_violates_update) (use assms in \<open>auto dest: sat_allD\<close>)

lemma delete_sat: "sat_all cs rows \<Longrightarrow> sat_all cs (delete_where p rows)"
  unfolding delete_where_def by (intro sat_allI not_violates_filter) (rule sat_allD)

lemma no_conflict:
  assumes "sat_all cs rows" "(code, C) \<in> set cs" "a \<in> set rows" "b \<in> set rows" "a \<noteq> b"
  shows "\<not> C a b"
  using assms by (intro not_violates_pair [of C rows]) (auto dest: sat_allD conflict_sym)

end

locale keyed_table = table_constraints cs for cs :: "'r constraint list" +
  fixes key :: "'r \<Rightarrow> 'k"
  assumes pk: "(unique_violation, \<lambda>a b. key a = key b) \<in> set cs"
begin

lemma key_inj: "sat_all cs rows \<Longrightarrow> a \<in> set rows \<Longrightarrow> b \<in> set rows \<Longrightarrow> key a = key b \<Longrightarrow> a = b"
  using no_conflict [OF _ pk] by blast

lemma distinct_keys: "sat_all cs rows \<Longrightarrow> distinct (map key rows)"
  using sat_allD [OF _ pk, of rows]
  by (auto simp: not_violates_nth distinct_conv_nth) (metis nat_neq_iff)

lemma find_key:
  "sat_all cs rows \<Longrightarrow> a \<in> set rows \<Longrightarrow> p a \<Longrightarrow> (\<And>r. p r \<Longrightarrow> key r = key a) \<Longrightarrow> find p rows = Some a"
  by (rule find_unique) (auto dest: key_inj)

text \<open>
  An UPDATE that hits one row and keeps its key violates a constraint exactly when the changed row
  conflicts with another.
\<close>
lemma update_one_violates:
  assumes "sat_all cs rows" "b \<in> set rows" "(code, C) \<in> set cs"
    and "\<And>x. x \<in> set rows \<Longrightarrow> p x \<longleftrightarrow> x = b"
  shows "violates C (update_where p f rows) \<longleftrightarrow> (\<exists>x \<in> set rows. x \<noteq> b \<and> C (f b) x)"
proof -
  obtain xs ys where rows: "rows = xs @ b # ys" using assms(2) by (meson split_list)
  have "distinct rows" using distinct_keys [OF assms(1)] by (simp add: distinct_map)
  then have nb: "b \<notin> set xs" "b \<notin> set ys" by (auto simp: rows)
  have "update_where p f xs = xs" "update_where p f ys = ys"
    using assms(4) nb by (auto simp: rows intro!: update_where_none)
  moreover have "p b" using assms(4) [OF assms(2)] by simp
  ultimately have up: "update_where p f rows = xs @ f b # ys"
    by (simp add: rows update_where_def)
  have sym: "C x y \<longleftrightarrow> C y x" for x y using conflict_sym [OF assms(3)] by blast
  have "\<not> violates C (xs @ b # ys)" using sat_allD [OF assms(1,3)] by (simp add: rows)
  then have "violates C (xs @ f b # ys) \<longleftrightarrow> (\<exists>x \<in> set xs. C (f b) x) \<or> (\<exists>y \<in> set ys. C (f b) y)"
    using sym by (auto simp: violates_def sorted_wrt_append)
  then show ?thesis using nb by (auto simp: up) (auto simp: rows)
qed

lemma insert_fresh: "insert_checked cs r rows = Inr rows' \<Longrightarrow> key r \<notin> key ` set rows"
  using pk by (auto simp: insert_checked_Inr_iff)

end

section \<open>The constraints of the schema\<close>

definition pk_conflict :: "'a base_entity_scheme \<Rightarrow> 'a base_entity_scheme \<Rightarrow> bool" where
  "pk_conflict a b \<longleftrightarrow> e_id a = e_id b"

lemma pk_conflict_alt: "pk_conflict = (\<lambda>a b. e_id a = e_id b)"
  by (intro ext) (simp add: pk_conflict_def)

text \<open>\<open>tstzrange(a, b) && tstzrange(c, d)\<close>, half-open; an empty range overlaps nothing.\<close>
definition range_overlap :: "int \<times> int \<Rightarrow> int \<times> int \<Rightarrow> bool" where
  "range_overlap r s \<longleftrightarrow>
     fst r < snd r \<and> fst s < snd s \<and> fst r < snd s \<and> fst s < snd r"

lemma range_overlap_sym: "range_overlap r s \<longleftrightarrow> range_overlap s r"
  by (auto simp: range_overlap_def)

text \<open>\<open>bookings_no_overlap\<close>: EXCLUDE over tenant, staff and time range of the active live rows.\<close>
definition booking_occupies :: "booking \<Rightarrow> bool" where
  "booking_occupies b \<longleftrightarrow> active_status (bk_status b) \<and> live b"

definition booking_conflict :: "booking \<Rightarrow> booking \<Rightarrow> bool" where
  "booking_conflict a b \<longleftrightarrow>
     booking_occupies a \<and> booking_occupies b \<and>
     e_tenantId a = e_tenantId b \<and> bk_staffId a = bk_staffId b \<and>
     range_overlap (bk_startsAt a, bk_endsAt a) (bk_startsAt b, bk_endsAt b)"

definition bookings_cs :: "booking constraint list" where
  "bookings_cs = [(unique_violation, pk_conflict), (exclusion_violation, booking_conflict)]"

definition working_hours_conflict :: "working_hours_row \<Rightarrow> working_hours_row \<Rightarrow> bool" where
  "working_hours_conflict a b \<longleftrightarrow>
     live a \<and> live b \<and> e_tenantId a = e_tenantId b \<and> wh_staffId a = wh_staffId b \<and>
     wh_weekday a = wh_weekday b \<and>
     range_overlap (wh_startMin a, wh_endMin a) (wh_startMin b, wh_endMin b)"

definition working_hours_cs :: "working_hours_row constraint list" where
  "working_hours_cs =
     [(unique_violation, pk_conflict), (exclusion_violation, working_hours_conflict)]"

definition services_cs :: "service_row constraint list" where
  "services_cs =
     [(unique_violation, pk_conflict),
      (unique_violation, \<lambda>a b. live a \<and> live b \<and> e_tenantId a = e_tenantId b \<and> svc_name a = svc_name b)]"

definition customers_cs :: "customer_row constraint list" where
  "customers_cs =
     [(unique_violation, pk_conflict),
      (unique_violation, \<lambda>a b. live a \<and> live b \<and> e_tenantId a = e_tenantId b \<and> cu_email a = cu_email b)]"

definition staff_cs :: "staff_row constraint list" where
  "staff_cs =
     [(unique_violation, pk_conflict),
      (unique_violation, \<lambda>a b. live a \<and> live b \<and> e_tenantId a = e_tenantId b \<and> st_userId a = st_userId b)]"

definition staff_services_cs :: "staff_service_row constraint list" where
  "staff_services_cs =
     [(unique_violation, pk_conflict),
      (unique_violation, \<lambda>a b. live a \<and> live b \<and> e_tenantId a = e_tenantId b \<and>
         ss_staffId a = ss_staffId b \<and> ss_serviceId a = ss_serviceId b)]"

definition time_off_cs :: "time_off_row constraint list" where
  "time_off_cs = [(unique_violation, pk_conflict)]"

definition recurrences_cs :: "recurrence_row constraint list" where
  "recurrences_cs = [(unique_violation, pk_conflict)]"

definition outbox_cs :: "outbox_event constraint list" where
  "outbox_cs = [(unique_violation, pk_conflict)]"

text \<open>The index on (tenant_id, key) is not partial: a soft-deleted key would still block.\<close>
definition idempotency_cs :: "idempotency_key constraint list" where
  "idempotency_cs =
     [(unique_violation, pk_conflict),
      (unique_violation, \<lambda>a b. e_tenantId a = e_tenantId b \<and> ik_key a = ik_key b)]"

definition live_subscription :: "subscription \<Rightarrow> bool" where
  "live_subscription s \<longleftrightarrow> sub_status s \<noteq> Canceled \<and> live s"

definition subscriptions_cs :: "subscription constraint list" where
  "subscriptions_cs =
     [(unique_violation, pk_conflict),
      (unique_violation, \<lambda>a b. sub_providerReference a = sub_providerReference b),
      (unique_violation, \<lambda>a b. live_subscription a \<and> live_subscription b \<and> e_tenantId a = e_tenantId b)]"

definition webhook_endpoints_cs :: "webhook_endpoint constraint list" where
  "webhook_endpoints_cs =
     [(unique_violation, pk_conflict),
      (unique_violation, \<lambda>a b. we_active a \<and> live a \<and> we_active b \<and> live b \<and>
         e_tenantId a = e_tenantId b)]"

definition webhook_receipts_cs :: "webhook_receipt constraint list" where
  "webhook_receipts_cs =
     [(unique_violation, \<lambda>a b. wr_id a = wr_id b),
      (unique_violation, \<lambda>a b. wr_provider a = wr_provider b \<and> wr_eventId a = wr_eventId b)]"

definition plans_cs :: "plan constraint list" where
  "plans_cs = [(unique_violation, pk_conflict), (unique_violation, \<lambda>a b. pl_code a = pl_code b)]"

definition tenants_cs :: "tenant constraint list" where
  "tenants_cs = [(unique_violation, pk_conflict), (unique_violation, \<lambda>a b. tn_slug a = tn_slug b)]"

text \<open>A NULL provider, or a NULL account id, is never equal to another.\<close>
definition users_cs :: "user constraint list" where
  "users_cs =
     [(unique_violation, pk_conflict),
      (unique_violation, \<lambda>a b. us_email a = us_email b),
      (unique_violation, \<lambda>a b. us_provider a \<noteq> None \<and> us_provider a = us_provider b \<and>
         us_providerAccountId a \<noteq> None \<and> us_providerAccountId a = us_providerAccountId b)]"

definition memberships_cs :: "membership constraint list" where
  "memberships_cs =
     [(unique_violation, pk_conflict),
      (unique_violation, \<lambda>a b. mb_userId a = mb_userId b \<and> mb_tenantId a = mb_tenantId b)]"

definition refresh_tokens_cs :: "refresh_token constraint list" where
  "refresh_tokens_cs =
     [(unique_violation, pk_conflict), (unique_violation, \<lambda>a b. rt_tokenHash a = rt_tokenHash b)]"

definition invites_cs :: "invite constraint list" where
  "invites_cs =
     [(unique_violation, pk_conflict), (unique_violation, \<lambda>a b. inv_tokenHash a = inv_tokenHash b)]"

lemmas table_cs_defs =
  bookings_cs_def working_hours_cs_def services_cs_def customers_cs_def staff_cs_def
  staff_services_cs_def time_off_cs_def recurrences_cs_def outbox_cs_def idempotency_cs_def
  subscriptions_cs_def webhook_endpoints_cs_def webhook_receipts_cs_def plans_cs_def tenants_cs_def
  users_cs_def memberships_cs_def refresh_tokens_cs_def invites_cs_def

lemma booking_conflict_sym: "booking_conflict a b \<Longrightarrow> booking_conflict b a"
  by (auto simp: booking_conflict_def range_overlap_sym)

lemma working_hours_conflict_sym: "working_hours_conflict a b \<Longrightarrow> working_hours_conflict b a"
  by (auto simp: working_hours_conflict_def range_overlap_sym)

interpretation bookings_tbl: keyed_table bookings_cs e_id
  by unfold_locales
     (auto simp: bookings_cs_def pk_conflict_alt dest: booking_conflict_sym)

interpretation working_hours_tbl: keyed_table working_hours_cs e_id
  by unfold_locales
     (auto simp: working_hours_cs_def pk_conflict_alt dest: working_hours_conflict_sym)

interpretation services_tbl: keyed_table services_cs e_id
  by unfold_locales (auto simp: services_cs_def pk_conflict_alt)

interpretation customers_tbl: keyed_table customers_cs e_id
  by unfold_locales (auto simp: customers_cs_def pk_conflict_alt)

interpretation staff_tbl_t: keyed_table staff_cs e_id
  by unfold_locales (auto simp: staff_cs_def pk_conflict_alt)

interpretation staff_services_tbl: keyed_table staff_services_cs e_id
  by unfold_locales (auto simp: staff_services_cs_def pk_conflict_alt)

interpretation time_off_tbl: keyed_table time_off_cs e_id
  by unfold_locales (auto simp: time_off_cs_def pk_conflict_alt)

interpretation recurrences_tbl: keyed_table recurrences_cs e_id
  by unfold_locales (auto simp: recurrences_cs_def pk_conflict_alt)

interpretation outbox_tbl: keyed_table outbox_cs e_id
  by unfold_locales (auto simp: outbox_cs_def pk_conflict_alt)

interpretation idempotency_tbl: keyed_table idempotency_cs e_id
  by unfold_locales (auto simp: idempotency_cs_def pk_conflict_alt)

interpretation subscriptions_tbl: keyed_table subscriptions_cs e_id
  by unfold_locales (auto simp: subscriptions_cs_def pk_conflict_alt)

interpretation webhook_endpoints_tbl: keyed_table webhook_endpoints_cs e_id
  by unfold_locales (auto simp: webhook_endpoints_cs_def pk_conflict_alt)

interpretation webhook_receipts_tbl: keyed_table webhook_receipts_cs wr_id
  by unfold_locales (auto simp: webhook_receipts_cs_def)

interpretation plans_tbl: keyed_table plans_cs e_id
  by unfold_locales (auto simp: plans_cs_def pk_conflict_alt)

interpretation tenants_tbl: keyed_table tenants_cs e_id
  by unfold_locales (auto simp: tenants_cs_def pk_conflict_alt)

lemma users_cs_sym: "(code, C) \<in> set users_cs \<Longrightarrow> C a b \<Longrightarrow> C b a"
  by (auto simp: users_cs_def pk_conflict_alt) metis

interpretation users_tbl: keyed_table users_cs e_id
  by unfold_locales (erule (1) users_cs_sym, simp add: users_cs_def pk_conflict_alt)

interpretation memberships_tbl: keyed_table memberships_cs e_id
  by unfold_locales (auto simp: memberships_cs_def pk_conflict_alt)

interpretation refresh_tokens_tbl: keyed_table refresh_tokens_cs e_id
  by unfold_locales (auto simp: refresh_tokens_cs_def pk_conflict_alt)

interpretation invites_tbl: keyed_table invites_cs e_id
  by unfold_locales (auto simp: invites_cs_def pk_conflict_alt)

section \<open>A consistent database\<close>

definition tdb_ok :: "tdb \<Rightarrow> bool" where
  "tdb_ok db \<longleftrightarrow>
     sat_all services_cs (services db) \<and> sat_all customers_cs (customers db) \<and>
     sat_all staff_cs (staff_tbl db) \<and> sat_all staff_services_cs (staff_services db) \<and>
     sat_all working_hours_cs (working_hours db) \<and> sat_all time_off_cs (time_off db) \<and>
     sat_all bookings_cs (bookings db) \<and> sat_all idempotency_cs (idempotency_keys db) \<and>
     sat_all outbox_cs (outbox_events db) \<and> sat_all recurrences_cs (recurrences db) \<and>
     sat_all subscriptions_cs (subscriptions db) \<and>
     sat_all webhook_endpoints_cs (webhook_endpoints db) \<and>
     sat_all webhook_receipts_cs (webhook_receipts db)"

lemma sat_all_Nil [simp]: "sat_all cs []"
  by (simp add: sat_all_def violates_def list_all_iff)

lemma tdb_ok_empty: "tdb_ok empty_tdb"
  by (simp add: tdb_ok_def empty_tdb_def)

end
