(* ===== verification/Tenancy.thy ===== *)
theory Tenancy
  imports Constraints
begin

text \<open>
  Tenant isolation: the ambient context of \<open>src/common/tenant/tenant-context.ts\<close>, the
  transactions of \<open>tenant-transaction.ts\<close>, the row-level security policies of the migrations and
  \<open>BaseTenantRepository\<close> (\<open>src/common/base/tenant-repository.base.ts\<close>). Layer 1 is the tenant id
  the repository adds to every \<open>where\<close>; layer 2 is the policy, which compares \<open>tenant_id\<close> with
  the connection's \<open>app.tenant_id\<close> setting.
\<close>

section \<open>The ambient context\<close>

text \<open>
  An \<open>EntityManager\<close> is known by the \<open>app.tenant_id\<close> of its connection: \<open>None\<close> is unset, as on
  the pooled manager, where \<open>current_setting('app.tenant_id', true)\<close> is NULL.
\<close>
datatype manager = Manager (app_tenant_id: "uuid option")

record tenant_context =
  tc_tenantId :: uuid
  tc_manager :: "manager option"

type_synonym ctx = "tenant_context option"

definition getTenantId :: "ctx \<Rightarrow> exn + uuid" where
  "getTenantId c =
     (case c of
        None \<Rightarrow> Inl (UnauthorizedException ''Tenant context is not set'')
      | Some tc \<Rightarrow> if tc_tenantId tc = [] then Inl (UnauthorizedException ''Tenant context is not set'')
                   else Inr (tc_tenantId tc))"

definition getTenantIdOrNull :: "ctx \<Rightarrow> uuid option" where
  "getTenantIdOrNull c = map_option tc_tenantId c"

definition getTenantManager :: "ctx \<Rightarrow> manager option" where
  "getTenantManager c = (case c of None \<Rightarrow> None | Some tc \<Rightarrow> tc_manager tc)"

definition pooled_manager :: manager where
  "pooled_manager = Manager None"

text \<open>\<open>getTenantManager() ?? this.dataSource.manager\<close>\<close>
definition repo_manager :: "ctx \<Rightarrow> manager" where
  "repo_manager c = (case getTenantManager c of None \<Rightarrow> pooled_manager | Some m \<Rightarrow> m)"

text \<open>The context inside a transaction pinned to tenant \<open>t\<close>.\<close>
definition tenant_tx :: "uuid \<Rightarrow> ctx" where
  "tenant_tx t = Some \<lparr>tc_tenantId = t, tc_manager = Some (Manager (Some t))\<rparr>"

text \<open>
  \<open>runInTenantContext\<close>: \<open>dataSource.transaction\<close> commits the state of work that returns and rolls
  back when it throws, which the result type of \<open>work\<close> already says.
\<close>
definition runInTenantContext ::
  "uuid \<Rightarrow> (ctx \<Rightarrow> 's \<Rightarrow> exn + 'a \<times> 's) \<Rightarrow> 's \<Rightarrow> exn + 'a \<times> 's" where
  "runInTenantContext t work s = work (tenant_tx t) s"

lemma tenant_tx_simps [simp]:
  "t \<noteq> [] \<Longrightarrow> getTenantId (tenant_tx t) = Inr t"
  "getTenantManager (tenant_tx t) = Some (Manager (Some t))"
  "repo_manager (tenant_tx t) = Manager (Some t)"
  by (simp_all add: getTenantId_def getTenantManager_def repo_manager_def tenant_tx_def)

lemma no_context_simps [simp]:
  "getTenantId None = Inl (UnauthorizedException ''Tenant context is not set'')"
  "getTenantManager None = None"
  "repo_manager None = Manager None"
  by (simp_all add: getTenantId_def getTenantManager_def repo_manager_def pooled_manager_def)

section \<open>Row-level security\<close>

text \<open>\<open>USING/WITH CHECK (tenant_id = current_setting('app.tenant_id', true)::uuid)\<close>\<close>
definition rls_visible :: "manager \<Rightarrow> 'a tenant_entity_scheme \<Rightarrow> bool" where
  "rls_visible m r \<longleftrightarrow> app_tenant_id m = Some (e_tenantId r)"

lemma rls_visible_simps [simp]:
  "rls_visible (Manager (Some t)) r \<longleftrightarrow> e_tenantId r = t"
  "\<not> rls_visible (Manager None) r"
  by (auto simp: rls_visible_def)

section \<open>BaseTenantRepository\<close>

definition scopedWhere ::
  "ctx \<Rightarrow> ('a tenant_entity_scheme \<Rightarrow> bool) \<Rightarrow> exn + ('a tenant_entity_scheme \<Rightarrow> bool)" where
  "scopedWhere c p = bindE (getTenantId c) (\<lambda>t. Inr (\<lambda>r. p r \<and> e_tenantId r = t))"

text \<open>The array form: a disjunction of branches, each carrying the tenant id.\<close>
definition scopedWhereAny ::
  "ctx \<Rightarrow> ('a tenant_entity_scheme \<Rightarrow> bool) list \<Rightarrow> exn + ('a tenant_entity_scheme \<Rightarrow> bool)" where
  "scopedWhereAny c ps =
     bindE (getTenantId c) (\<lambda>t. Inr (\<lambda>r. list_ex (\<lambda>p. p r \<and> e_tenantId r = t) ps))"

text \<open>\<open>find*\<close> of TypeORM skips soft-deleted rows.\<close>
definition findOne ::
  "ctx \<Rightarrow> ('a tenant_entity_scheme \<Rightarrow> bool) \<Rightarrow> 'a tenant_entity_scheme list \<Rightarrow>
     exn + 'a tenant_entity_scheme option" where
  "findOne c p rows =
     bindE (scopedWhere c p) (\<lambda>q. Inr (find (\<lambda>r. rls_visible (repo_manager c) r \<and> live r \<and> q r) rows))"

definition findMany ::
  "ctx \<Rightarrow> ('a tenant_entity_scheme \<Rightarrow> bool) \<Rightarrow> 'a tenant_entity_scheme list \<Rightarrow>
     exn + 'a tenant_entity_scheme list" where
  "findMany c p rows =
     bindE (scopedWhere c p) (\<lambda>q. Inr (filter (\<lambda>r. rls_visible (repo_manager c) r \<and> live r \<and> q r) rows))"

text \<open>
  \<open>findAndCount\<close> with \<open>skip\<close>, \<open>take\<close> and an ORDER BY; the database's collation is the parameter
  \<open>ord\<close>, which sorts the matching rows.
\<close>
definition findAndCount ::
  "('a tenant_entity_scheme list \<Rightarrow> 'a tenant_entity_scheme list) \<Rightarrow> ctx \<Rightarrow> nat \<Rightarrow> nat \<Rightarrow>
     'a tenant_entity_scheme list \<Rightarrow> exn + 'a tenant_entity_scheme list \<times> nat" where
  "findAndCount ord c skip n rows =
     bindE (findMany c (\<lambda>_. True) rows) (\<lambda>rs. Inr (take n (drop skip (ord rs)), length rs))"

text \<open>\<open>persist\<close>: the row is stamped with the context's tenant, then INSERTed under the policy.\<close>
definition persist ::
  "ctx \<Rightarrow> 'a tenant_entity_scheme constraint list \<Rightarrow> 'a tenant_entity_scheme \<Rightarrow>
     'a tenant_entity_scheme list \<Rightarrow> exn + 'a tenant_entity_scheme \<times> 'a tenant_entity_scheme list" where
  "persist c cs r rows =
     bindE (getTenantId c) (\<lambda>t.
       let r' = r\<lparr>e_tenantId := t\<rparr> in
       if \<not> rls_visible (repo_manager c) r' then Inl (DbError rls_violation)
       else bindE (insert_checked cs r' rows) (\<lambda>rows'. Inr (r', rows')))"

text \<open>An UPDATE on the repository's manager: the policy hides other tenants' rows from it.\<close>
definition rls_update ::
  "ctx \<Rightarrow> 'a tenant_entity_scheme constraint list \<Rightarrow> ('a tenant_entity_scheme \<Rightarrow> bool) \<Rightarrow>
     ('a tenant_entity_scheme \<Rightarrow> 'a tenant_entity_scheme) \<Rightarrow> 'a tenant_entity_scheme list \<Rightarrow>
     exn + nat \<times> 'a tenant_entity_scheme list" where
  "rls_update c cs p f rows =
     (let q = (\<lambda>r. rls_visible (repo_manager c) r \<and> p r) in
      bindE (update_checked cs q f rows) (\<lambda>rows'. Inr (affected q rows, rows')))"

definition rls_delete ::
  "ctx \<Rightarrow> ('a tenant_entity_scheme \<Rightarrow> bool) \<Rightarrow> 'a tenant_entity_scheme list \<Rightarrow>
     nat \<times> 'a tenant_entity_scheme list" where
  "rls_delete c p rows =
     (let q = (\<lambda>r. rls_visible (repo_manager c) r \<and> p r) in
      (affected q rows, delete_where q rows))"

lemma findOne_tx [simp]:
  "t \<noteq> [] \<Longrightarrow> findOne (tenant_tx t) p rows = Inr (find (\<lambda>r. e_tenantId r = t \<and> live r \<and> p r) rows)"
  by (simp add: findOne_def scopedWhere_def) (rule find_cong_on, auto)

lemma findMany_tx [simp]:
  "t \<noteq> [] \<Longrightarrow> findMany (tenant_tx t) p rows = Inr (filter (\<lambda>r. e_tenantId r = t \<and> live r \<and> p r) rows)"
  by (auto simp: findMany_def scopedWhere_def intro: filter_cong)

lemma persist_tx [simp]:
  "t \<noteq> [] \<Longrightarrow> persist (tenant_tx t) cs r rows =
     bindE (insert_checked cs (r\<lparr>e_tenantId := t\<rparr>) rows) (\<lambda>rows'. Inr (r\<lparr>e_tenantId := t\<rparr>, rows'))"
  by (simp add: persist_def Let_def)

section \<open>Isolation\<close>

text \<open>The rows of every tenant but \<open>t\<close>, and the rows of \<open>t\<close>.\<close>
definition foreign_rows :: "uuid \<Rightarrow> 'a tenant_entity_scheme list \<Rightarrow> 'a tenant_entity_scheme list" where
  "foreign_rows t rows = filter (\<lambda>r. e_tenantId r \<noteq> t) rows"

definition own_rows :: "uuid \<Rightarrow> 'a tenant_entity_scheme list \<Rightarrow> 'a tenant_entity_scheme list" where
  "own_rows t rows = filter (\<lambda>r. e_tenantId r = t) rows"

definition foreign_unchanged :: "uuid \<Rightarrow> tdb \<Rightarrow> tdb \<Rightarrow> bool" where
  "foreign_unchanged t db db' \<longleftrightarrow>
     foreign_rows t (services db') = foreign_rows t (services db) \<and>
     foreign_rows t (customers db') = foreign_rows t (customers db) \<and>
     foreign_rows t (staff_tbl db') = foreign_rows t (staff_tbl db) \<and>
     foreign_rows t (staff_services db') = foreign_rows t (staff_services db) \<and>
     foreign_rows t (working_hours db') = foreign_rows t (working_hours db) \<and>
     foreign_rows t (time_off db') = foreign_rows t (time_off db) \<and>
     foreign_rows t (bookings db') = foreign_rows t (bookings db) \<and>
     foreign_rows t (idempotency_keys db') = foreign_rows t (idempotency_keys db) \<and>
     foreign_rows t (outbox_events db') = foreign_rows t (outbox_events db) \<and>
     foreign_rows t (recurrences db') = foreign_rows t (recurrences db) \<and>
     foreign_rows t (subscriptions db') = foreign_rows t (subscriptions db) \<and>
     foreign_rows t (webhook_endpoints db') = foreign_rows t (webhook_endpoints db)"

lemma foreign_unchanged_refl [simp]: "foreign_unchanged t db db"
  by (simp add: foreign_unchanged_def)

lemma foreign_unchanged_trans:
  "foreign_unchanged t a b \<Longrightarrow> foreign_unchanged t b c \<Longrightarrow> foreign_unchanged t a c"
  by (simp add: foreign_unchanged_def)

lemma foreign_rows_append_own [simp]:
  "e_tenantId r = t \<Longrightarrow> foreign_rows t (rows @ [r]) = foreign_rows t rows"
  by (simp add: foreign_rows_def)

lemma foreign_rows_persist:
  assumes "persist c cs r rows = Inr (r', rows')" "repo_manager c = Manager (Some t)"
  shows "foreign_rows t rows' = foreign_rows t rows"
  using assms by (auto simp: persist_def Let_def result_simps split: if_splits dest!: insert_checked_eq)

lemma foreign_rows_update:
  assumes "rls_update c cs p f rows = Inr (n, rows')" "repo_manager c = Manager (Some t)"
    and "\<And>r. e_tenantId (f r) = e_tenantId r"
  shows "foreign_rows t rows' = foreign_rows t rows"
  using assms unfolding foreign_rows_def
  by (auto simp: rls_update_def Let_def result_simps dest!: update_checked_eq
      intro!: filter_update_where_other)

lemma foreign_rows_delete:
  assumes "repo_manager c = Manager (Some t)"
  shows "foreign_rows t (snd (rls_delete c p rows)) = foreign_rows t rows"
  using assms by (auto simp: rls_delete_def foreign_rows_def delete_where_def Let_def intro: filter_cong)

text \<open>
  Reads are functions of the tenant's own rows: two tables that agree on them give the same answer.
\<close>

lemma findMany_own:
  assumes "repo_manager c = Manager (Some t)" "own_rows t rows = own_rows t rows'"
  shows "findMany c p rows = findMany c p rows'"
proof -
  have "filter (\<lambda>r. e_tenantId r = t \<and> live r \<and> q r) rows =
        filter (\<lambda>r. e_tenantId r = t \<and> live r \<and> q r) rows'" for q
    using arg_cong [OF assms(2), of "filter (\<lambda>r. live r \<and> q r)"]
    by (simp add: own_rows_def conj_commute conj_left_commute)
  then show ?thesis using assms(1) by (simp add: findMany_def scopedWhere_def bindE_assoc cong: bindE_cong)
qed

lemma findOne_own:
  assumes "repo_manager c = Manager (Some t)" "own_rows t rows = own_rows t rows'"
  shows "findOne c p rows = findOne c p rows'"
proof -
  have "find (\<lambda>r. e_tenantId r = t \<and> live r \<and> q r) rows =
        find (\<lambda>r. e_tenantId r = t \<and> live r \<and> q r) rows'" for q
    using arg_cong [OF assms(2), of "find (\<lambda>r. live r \<and> q r)"]
    by (simp add: own_rows_def find_filter)
  then show ?thesis using assms(1) by (simp add: findOne_def scopedWhere_def bindE_assoc cong: bindE_cong)
qed

text \<open>Without a tenant context every scoped operation is refused.\<close>

lemma findOne_no_context: "findOne None p rows = Inl (UnauthorizedException ''Tenant context is not set'')"
  by (simp add: findOne_def scopedWhere_def)

lemma findMany_no_context: "findMany None p rows = Inl (UnauthorizedException ''Tenant context is not set'')"
  by (simp add: findMany_def scopedWhere_def)

lemma persist_no_context: "persist None cs r rows = Inl (UnauthorizedException ''Tenant context is not set'')"
  by (simp add: persist_def)

section \<open>Paging\<close>

record 'a page_meta =
  pm_page :: nat
  pm_limit :: nat
  pm_total :: nat
  pm_totalPages :: nat

text \<open>\<open>Math.ceil(total / limit)\<close>; a validated query has \<open>1 \<le> limit\<close>.\<close>
definition total_pages :: "nat \<Rightarrow> nat \<Rightarrow> nat" where
  "total_pages cnt limit = (cnt + limit - 1) div limit"

record base_query =
  q_page :: nat
  q_limit :: nat

text \<open>class-validator on \<open>BaseQuery\<close>.\<close>
definition valid_base_query :: "base_query \<Rightarrow> bool" where
  "valid_base_query q \<longleftrightarrow> 1 \<le> q_page q \<and> 1 \<le> q_limit q \<and> q_limit q \<le> 100"

definition paginated :: "'a list \<Rightarrow> nat \<Rightarrow> nat \<Rightarrow> nat \<Rightarrow> 'a list \<times> unit page_meta" where
  "paginated items page limit cnt =
     (items, \<lparr>pm_page = page, pm_limit = limit, pm_total = cnt,
              pm_totalPages = total_pages cnt limit\<rparr>)"

text \<open>\<open>skip: (query.page - 1) * query.limit, take: query.limit\<close>\<close>
definition page_skip :: "base_query \<Rightarrow> nat" where
  "page_skip q = (q_page q - 1) * q_limit q"

lemma total_pages_bounds:
  assumes "1 \<le> limit"
  shows "cnt \<le> total_pages cnt limit * limit"
    and "0 < cnt \<Longrightarrow> (total_pages cnt limit - 1) * limit < cnt"
    and "total_pages 0 limit = 0"
proof -
  let ?k = "total_pages cnt limit"
  have e: "?k * limit + (cnt + limit - 1) mod limit = cnt + limit - 1"
    unfolding total_pages_def by (rule div_mult_mod_eq)
  have m: "(cnt + limit - 1) mod limit < limit" using assms by simp
  show "cnt \<le> ?k * limit" using e m assms by linarith
  show "(?k - 1) * limit < cnt" if "0 < cnt"
  proof (cases "?k = 0")
    case True
    then show ?thesis using that by simp
  next
    case False
    then have "(?k - 1) * limit + limit = ?k * limit"
      by (metis Suc_diff_1 add.commute bot_nat_0.not_eq_extremum mult_Suc)
    then show ?thesis using e assms that by linarith
  qed
  show "total_pages 0 limit = 0" using assms by (simp add: total_pages_def)
qed

text \<open>Consecutive pages glue back to the list.\<close>

lemma pages_concat:
  "concat (map (\<lambda>k. take n (drop (k * n) xs)) [0..<m]) = take (m * n) xs"
proof (induction m)
  case 0
  then show ?case by simp
next
  case (Suc m)
  have "take (Suc m * n) xs = take (m * n) xs @ take n (drop (m * n) xs)"
    by (metis add.commute mult_Suc take_add)
  then show ?case using Suc by simp
qed

end
