(* ===== verification/Catalog.thy ===== *)
theory Catalog
  imports Tenancy
begin

text \<open>
  The service catalog (\<open>src/modules/service\<close>) and the customers (\<open>src/modules/customer\<close>): their
  DTOs with the class-validator rules, repositories and services. Ids and clock readings that the
  database generates (\<open>uuid_generate_v4()\<close>, \<open>now()\<close>) are arguments.
\<close>

text \<open>An \<open>integer\<close> column holds 32-bit values; anything else is refused with SQLSTATE 22003.\<close>
definition int4 :: "int \<Rightarrow> bool" where
  "int4 i \<longleftrightarrow> -2147483648 \<le> i \<and> i \<le> 2147483647"

abbreviation numeric_out_of_range :: string where "numeric_out_of_range \<equiv> ''22003''"

section \<open>DTOs\<close>

record create_service_dto =
  cs_name :: string
  cs_durationMin :: int
  cs_priceAmount :: int
  cs_priceCurrency :: "string option"
  cs_bufferBeforeMin :: "int option"
  cs_bufferAfterMin :: "int option"

record update_service_dto =
  up_name :: "string option"
  up_durationMin :: "int option"
  up_priceAmount :: "int option"
  up_priceCurrency :: "string option"
  up_bufferBeforeMin :: "int option"
  up_bufferAfterMin :: "int option"
  up_active :: "bool option"

definition between :: "int \<Rightarrow> int \<Rightarrow> int \<Rightarrow> bool" where
  "between lo hi x \<longleftrightarrow> lo \<le> x \<and> x \<le> hi"

definition len_between :: "nat \<Rightarrow> nat \<Rightarrow> string \<Rightarrow> bool" where
  "len_between lo hi s \<longleftrightarrow> lo \<le> length s \<and> length s \<le> hi"

text \<open>\<open>@IsOptional\<close>: absent, or the other rules hold.\<close>
definition opt :: "('a \<Rightarrow> bool) \<Rightarrow> 'a option \<Rightarrow> bool" where
  "opt p x \<longleftrightarrow> (case x of None \<Rightarrow> True | Some v \<Rightarrow> p v)"

definition valid_create_service :: "create_service_dto \<Rightarrow> bool" where
  "valid_create_service d \<longleftrightarrow>
     len_between 2 120 (cs_name d) \<and> between 1 1440 (cs_durationMin d) \<and> 0 \<le> cs_priceAmount d \<and>
     opt (len_between 3 3) (cs_priceCurrency d) \<and>
     opt (between 0 240) (cs_bufferBeforeMin d) \<and> opt (between 0 240) (cs_bufferAfterMin d)"

definition valid_update_service :: "update_service_dto \<Rightarrow> bool" where
  "valid_update_service d \<longleftrightarrow>
     opt (len_between 2 120) (up_name d) \<and> opt (between 1 1440) (up_durationMin d) \<and>
     opt (\<lambda>p. 0 \<le> p) (up_priceAmount d) \<and> opt (len_between 3 3) (up_priceCurrency d) \<and>
     opt (between 0 240) (up_bufferBeforeMin d) \<and> opt (between 0 240) (up_bufferAfterMin d)"

record create_customer_dto =
  cc_name :: string
  cc_email :: string
  cc_phone :: "string option"

text \<open>\<open>isEmail\<close> is the validator library's, a parameter.\<close>
definition valid_create_customer :: "(string \<Rightarrow> bool) \<Rightarrow> create_customer_dto \<Rightarrow> bool" where
  "valid_create_customer isEmail d \<longleftrightarrow>
     len_between 2 120 (cc_name d) \<and> isEmail (cc_email d) \<and> opt (len_between 0 32) (cc_phone d)"

section \<open>Services\<close>

definition or_default :: "'a \<Rightarrow> 'a option \<Rightarrow> 'a" where
  "or_default d x = (case x of None \<Rightarrow> d | Some v \<Rightarrow> v)"

lemma or_default_simps [simp]: "or_default d None = d" "or_default d (Some v) = v"
  by (simp_all add: or_default_def)

text \<open>The row a DTO becomes, with the column defaults; the tenant is stamped by \<open>persist\<close>.\<close>
definition service_of_dto :: "uuid \<Rightarrow> instant \<Rightarrow> create_service_dto \<Rightarrow> service_row" where
  "service_of_dto new_id now d =
     \<lparr>e_id = new_id, e_createdAt = now, e_deletedAt = None, e_tenantId = [],
      svc_name = cs_name d, svc_durationMin = cs_durationMin d, svc_priceAmount = cs_priceAmount d,
      svc_priceCurrency = or_default ''VND'' (cs_priceCurrency d),
      svc_bufferBeforeMin = or_default 0 (cs_bufferBeforeMin d),
      svc_bufferAfterMin = or_default 0 (cs_bufferAfterMin d), svc_active = True\<rparr>"

definition service_mapUniqueViolation :: "exn \<Rightarrow> exn" where
  "service_mapUniqueViolation =
     on_code unique_violation (ConflictException ''A service with this name already exists'')"

definition service_create ::
  "ctx \<Rightarrow> uuid \<Rightarrow> instant \<Rightarrow> create_service_dto \<Rightarrow> tdb \<Rightarrow> exn + service_row \<times> tdb" where
  "service_create c new_id now d db =
     mapErr service_mapUniqueViolation
       (if \<not> int4 (cs_priceAmount d) then Inl (DbError numeric_out_of_range)
        else bindE (persist c services_cs (service_of_dto new_id now d) (services db))
               (\<lambda>(r, rows). Inr (r, db\<lparr>services := rows\<rparr>)))"

definition service_findById :: "ctx \<Rightarrow> uuid \<Rightarrow> tdb \<Rightarrow> exn + service_row option" where
  "service_findById c i db = findOne c (\<lambda>r. e_id r = i) (services db)"

definition service_getById :: "ctx \<Rightarrow> uuid \<Rightarrow> tdb \<Rightarrow> exn + service_row" where
  "service_getById c i db =
     bindE (service_findById c i db) (\<lambda>r. requireE r (NotFoundException ''Service not found''))"

definition service_paginate ::
  "(service_row list \<Rightarrow> service_row list) \<Rightarrow> ctx \<Rightarrow> base_query \<Rightarrow> tdb \<Rightarrow> exn + service_row list \<times> nat" where
  "service_paginate ord c q db = findAndCount ord c (page_skip q) (q_limit q) (services db)"

text \<open>Only the provided columns are written.\<close>
definition apply_service_update :: "update_service_dto \<Rightarrow> service_row \<Rightarrow> service_row" where
  "apply_service_update d r =
     r\<lparr>svc_name := or_default (svc_name r) (up_name d),
       svc_durationMin := or_default (svc_durationMin r) (up_durationMin d),
       svc_priceAmount := or_default (svc_priceAmount r) (up_priceAmount d),
       svc_priceCurrency := or_default (svc_priceCurrency r) (up_priceCurrency d),
       svc_bufferBeforeMin := or_default (svc_bufferBeforeMin r) (up_bufferBeforeMin d),
       svc_bufferAfterMin := or_default (svc_bufferAfterMin r) (up_bufferAfterMin d),
       svc_active := or_default (svc_active r) (up_active d)\<rparr>"

definition service_repo_update ::
  "ctx \<Rightarrow> uuid \<Rightarrow> update_service_dto \<Rightarrow> tdb \<Rightarrow> exn + service_row option \<times> tdb" where
  "service_repo_update c i d db =
     bindE (scopedWhere c (\<lambda>r. e_id r = i)) (\<lambda>q.
       if \<not> opt int4 (up_priceAmount d) then Inl (DbError numeric_out_of_range)
       else bindE (rls_update c services_cs q (apply_service_update d) (services db)) (\<lambda>(n, rows).
         let db' = db\<lparr>services := rows\<rparr> in
         if n = 0 then Inr (None, db')
         else bindE (service_findById c i db') (\<lambda>r. Inr (r, db'))))"

definition service_update ::
  "ctx \<Rightarrow> uuid \<Rightarrow> update_service_dto \<Rightarrow> tdb \<Rightarrow> exn + service_row \<times> tdb" where
  "service_update c i d db =
     mapErr service_mapUniqueViolation
       (bindE (service_repo_update c i d db) (\<lambda>(r, db').
          bindE (requireE r (NotFoundException ''Service not found'')) (\<lambda>u. Inr (u, db'))))"

definition service_softRemove :: "ctx \<Rightarrow> instant \<Rightarrow> uuid \<Rightarrow> tdb \<Rightarrow> exn + bool \<times> tdb" where
  "service_softRemove c now i db =
     bindE (scopedWhere c (\<lambda>r. e_id r = i)) (\<lambda>q.
     bindE (rls_update c services_cs q (\<lambda>r. r\<lparr>e_deletedAt := Some now\<rparr>) (services db)) (\<lambda>(n, rows).
       Inr (0 < n, db\<lparr>services := rows\<rparr>)))"

definition service_remove :: "ctx \<Rightarrow> instant \<Rightarrow> uuid \<Rightarrow> tdb \<Rightarrow> exn + unit \<times> tdb" where
  "service_remove c now i db =
     bindE (service_softRemove c now i db) (\<lambda>(ok, db').
       if ok then Inr ((), db') else Inl (NotFoundException ''Service not found''))"

section \<open>Customers\<close>

definition customer_of_dto :: "uuid \<Rightarrow> instant \<Rightarrow> create_customer_dto \<Rightarrow> customer_row" where
  "customer_of_dto new_id now d =
     \<lparr>e_id = new_id, e_createdAt = now, e_deletedAt = None, e_tenantId = [],
      cu_name = cc_name d, cu_email = to_lower (cc_email d), cu_phone = cc_phone d\<rparr>"

definition customer_create ::
  "ctx \<Rightarrow> uuid \<Rightarrow> instant \<Rightarrow> create_customer_dto \<Rightarrow> tdb \<Rightarrow> exn + customer_row \<times> tdb" where
  "customer_create c new_id now d db =
     mapErr (on_code unique_violation (ConflictException ''A customer with this email already exists''))
       (bindE (persist c customers_cs (customer_of_dto new_id now d) (customers db))
          (\<lambda>(r, rows). Inr (r, db\<lparr>customers := rows\<rparr>)))"

definition customer_getById :: "ctx \<Rightarrow> uuid \<Rightarrow> tdb \<Rightarrow> exn + customer_row" where
  "customer_getById c i db =
     bindE (findOne c (\<lambda>r. e_id r = i) (customers db))
       (\<lambda>r. requireE r (NotFoundException ''Customer not found''))"

definition customer_paginate ::
  "(customer_row list \<Rightarrow> customer_row list) \<Rightarrow> ctx \<Rightarrow> base_query \<Rightarrow> tdb \<Rightarrow> exn + customer_row list \<times> nat" where
  "customer_paginate ord c q db = findAndCount ord c (page_skip q) (q_limit q) (customers db)"

section \<open>Facts about the catalog\<close>

lemma service_getById_tx:
  "t \<noteq> [] \<Longrightarrow> service_getById (tenant_tx t) i db =
     requireE (find (\<lambda>r. e_tenantId r = t \<and> live r \<and> e_id r = i) (services db))
       (NotFoundException ''Service not found'')"
  by (simp add: service_getById_def service_findById_def)

lemma customer_getById_tx:
  "t \<noteq> [] \<Longrightarrow> customer_getById (tenant_tx t) i db =
     requireE (find (\<lambda>r. e_tenantId r = t \<and> live r \<and> e_id r = i) (customers db))
       (NotFoundException ''Customer not found'')"
  by (simp add: customer_getById_def)

lemma service_getById_Inr:
  assumes "t \<noteq> []" "service_getById (tenant_tx t) i db = Inr s"
  shows "s \<in> set (services db)" "e_tenantId s = t" "live s" "e_id s = i"
  using assms by (auto simp: service_getById_tx result_simps dest!: find_Some_mem)

lemma apply_service_update_frame [simp]:
  "e_id (apply_service_update d r) = e_id r"
  "e_tenantId (apply_service_update d r) = e_tenantId r"
  "e_deletedAt (apply_service_update d r) = e_deletedAt r"
  by (simp_all add: apply_service_update_def)

text \<open>
  The well-formedness the DTO rules buy: every stored service has a positive duration and
  non-negative price and buffers, which the slot loop and the booking intervals rely on.
\<close>
definition service_wf :: "service_row \<Rightarrow> bool" where
  "service_wf s \<longleftrightarrow>
     between 1 1440 (svc_durationMin s) \<and> 0 \<le> svc_priceAmount s \<and>
     between 0 240 (svc_bufferBeforeMin s) \<and> between 0 240 (svc_bufferAfterMin s)"

definition services_wf :: "tdb \<Rightarrow> bool" where
  "services_wf db \<longleftrightarrow> list_all service_wf (services db)"

lemma service_create_wf:
  assumes "valid_create_service d" "services_wf db" "service_create c i now d db = Inr (s, db')"
  shows "services_wf db'"
  using assms
  by (auto simp: service_create_def result_simps persist_def Let_def services_wf_def service_wf_def
      service_of_dto_def valid_create_service_def between_def opt_def
      split: if_splits option.splits dest!: insert_checked_eq)

lemma service_update_wf:
  assumes "valid_update_service d" "services_wf db" "service_update c i d db = Inr (s, db')"
  shows "services_wf db'"
proof -
  have "service_wf (apply_service_update d r)" if "service_wf r" for r
    using that assms(1)
    by (auto simp: service_wf_def apply_service_update_def valid_update_service_def opt_def between_def
        split: option.splits)
  then show ?thesis using assms(2,3)
    by (auto simp: service_update_def service_repo_update_def result_simps rls_update_def Let_def
        services_wf_def list_all_iff set_update_where split: if_splits dest!: update_checked_eq)
qed

end
