(* ===== verification/Text_Codec.thy ===== *)
theory Text_Codec
  imports Exceptions Complex_Main "HOL-Library.Word"
begin

text \<open>
  The text conversions of the JavaScript runtime that signatures and webhooks rest on:
  \<open>Buffer.from(s)\<close> (UTF-8), \<open>.digest('hex')\<close>, \<open>crypto.timingSafeEqual\<close>, \<open>Number(s)\<close>,
  \<open>Number.parseInt(s, 10)\<close>, the serialisation of URL search parameters and the truthiness of JSON
  members. Strings hold code units below 256, as Node's header and path strings do.
\<close>

section \<open>Bytes\<close>

type_synonym byte = "8 word"

definition utf8_char :: "char \<Rightarrow> byte list" where
  "utf8_char c =
     (let n = (of_char c :: nat) in
      if n < 128 then [of_nat n] else [of_nat (192 + n div 64), of_nat (128 + n mod 64)])"

definition utf8 :: "string \<Rightarrow> byte list" where
  "utf8 s = concat (map utf8_char s)"

definition hex_byte :: "byte \<Rightarrow> string" where
  "hex_byte w = [hex_digit (unat w div 16), hex_digit (unat w mod 16)]"

definition hex_of :: "byte list \<Rightarrow> string" where
  "hex_of bs = concat (map hex_byte bs)"

definition is_hex :: "char \<Rightarrow> bool" where
  "is_hex c \<longleftrightarrow> is_digit c \<or> (97 \<le> (of_char c :: nat) \<and> (of_char c :: nat) \<le> 102)"

lemma hex_digit_is_hex: "d < 16 \<Longrightarrow> is_hex (hex_digit d)"
  by (auto simp: is_hex_def hex_digit_def is_digit_def digit_char_def)

lemma hex_of_is_hex: "list_all is_hex (hex_of bs)"
proof -
  have "unat w div 16 < 16" for w :: byte
    using unsigned_less [of w, where 'a = nat] by (simp add: less_mult_imp_div_less)
  then show ?thesis
    by (induction bs) (simp_all add: hex_of_def hex_byte_def hex_digit_is_hex)
qed

lemma is_hex_no_separator: "list_all is_hex s \<Longrightarrow> CHR '','' \<notin> set s \<and> CHR ''='' \<notin> set s"
  by (induction s) (auto simp: is_hex_def is_digit_def)

text \<open>ASCII text encodes to as many bytes as it has characters.\<close>
definition ascii :: "string \<Rightarrow> bool" where
  "ascii s \<longleftrightarrow> list_all (\<lambda>c. (of_char c :: nat) < 128) s"

lemma is_hex_ascii: "list_all is_hex s \<Longrightarrow> ascii s"
  by (induction s) (auto simp: ascii_def is_hex_def is_digit_def)

lemma length_utf8_ascii: "ascii s \<Longrightarrow> length (utf8 s) = length s"
  by (induction s) (auto simp: ascii_def utf8_def utf8_char_def Let_def)

lemma length_utf8_ge: "length s \<le> length (utf8 s)"
  by (induction s) (auto simp: utf8_def utf8_char_def Let_def)

lemma length_utf8_eq_imp_ascii: "length (utf8 s) = length s \<Longrightarrow> ascii s"
proof (induction s)
  case Nil
  then show ?case by (simp add: ascii_def)
next
  case (Cons c s)
  have "length (utf8 (c # s)) = length (utf8_char c) + length (utf8 s)" by (simp add: utf8_def)
  moreover have "length s \<le> length (utf8 s)" by (rule length_utf8_ge)
  ultimately have "length (utf8_char c) = 1" "length (utf8 s) = length s"
    using Cons.prems by (auto simp: utf8_char_def Let_def split: if_splits)
  then show ?case using Cons.IH by (auto simp: ascii_def utf8_char_def Let_def split: if_splits)
qed

lemma utf8_ascii_inj: "ascii s \<Longrightarrow> ascii u \<Longrightarrow> utf8 s = utf8 u \<Longrightarrow> s = u"
proof (induction s arbitrary: u)
  case Nil
  then have "length u = length (utf8 u)" "utf8 u = []"
    by (simp_all add: length_utf8_ascii) (simp add: utf8_def)
  then show ?case by simp
next
  case (Cons c s)
  have "length u = length (c # s)" using Cons.prems length_utf8_ascii by metis
  then obtain d v where u: "u = d # v" by (cases u) auto
  have lt: "(of_char c :: nat) < 128" "(of_char d :: nat) < 128" and asc: "ascii s" "ascii v"
    using Cons.prems by (auto simp: u ascii_def)
  have "(of_nat (of_char c) :: byte) = of_nat (of_char d)" "utf8 s = utf8 v"
    using Cons.prems(3) lt by (auto simp: u utf8_def utf8_char_def Let_def)
  moreover have "unat (of_nat n :: byte) = n" if "n < 128" for n
    using that by (simp add: unat_of_nat)
  ultimately have "(of_char c :: nat) = of_char d" using lt by metis
  then show ?case using Cons.IH [OF asc \<open>utf8 s = utf8 v\<close>] by (simp add: u)
qed

text \<open>\<open>timingSafeEqual\<close> throws on buffers of different lengths.\<close>
definition timingSafeEqual :: "byte list \<Rightarrow> byte list \<Rightarrow> exn + bool" where
  "timingSafeEqual a b =
     (if length a \<noteq> length b then Inl (PlainError ''Input buffers must have the same byte length'')
      else Inr (a = b))"

lemma timingSafeEqual_eq: "timingSafeEqual a b = Inr r \<longleftrightarrow> length a = length b \<and> r = (a = b)"
  by (auto simp: timingSafeEqual_def)

section \<open>Numbers\<close>

definition js_is_ws :: "char \<Rightarrow> bool" where
  "js_is_ws c = (let n = (of_char c :: nat) in (9 \<le> n \<and> n \<le> 13) \<or> n = 32 \<or> n = 160)"

definition js_trim :: "string \<Rightarrow> string" where
  "js_trim s = rev (dropWhile js_is_ws (rev (dropWhile js_is_ws s)))"

definition pow10 :: "int \<Rightarrow> rat" where
  "pow10 k = (if 0 \<le> k then 10 ^ nat k else 1 / 10 ^ nat (- k))"

text \<open>The exponent part of a decimal literal: absent, or e with an optional sign and digits.\<close>
fun js_exponent :: "string \<Rightarrow> int option" where
  "js_exponent [] = Some 0"
| "js_exponent (c # s) =
     (if c \<noteq> CHR ''e'' \<and> c \<noteq> CHR ''E'' then None
      else
        let neg = starts_with ''-'' s;
            ds = (if neg \<or> starts_with ''+'' s then tl s else s) in
        if ds = [] \<or> \<not> list_all is_digit ds then None
        else Some (if neg then - int (dec_val ds) else int (dec_val ds)))"

definition js_decimal :: "string \<Rightarrow> rat option" where
  "js_decimal s =
     (let ip = takeWhile is_digit s;
          r1 = dropWhile is_digit s;
          dot = starts_with ''.'' r1;
          fp = (if dot then takeWhile is_digit (tl r1) else []);
          r2 = (if dot then dropWhile is_digit (tl r1) else r1) in
      if ip = [] \<and> fp = [] then None
      else map_option (\<lambda>e. of_nat (dec_val (ip @ fp)) * pow10 (e - int (length fp)))
             (js_exponent r2))"

text \<open>The value of a digit in any radix up to 16; 16 for a character that is none.\<close>
definition radix_digit :: "char \<Rightarrow> nat" where
  "radix_digit c =
     (let n = (of_char c :: nat) in
      if is_digit c then n - 48
      else if 97 \<le> n \<and> n \<le> 102 then n - 87
      else if 65 \<le> n \<and> n \<le> 70 then n - 55 else 16)"

definition js_radix :: "nat \<Rightarrow> string \<Rightarrow> rat option" where
  "js_radix r ds =
     (if ds = [] \<or> \<not> list_all (\<lambda>c. radix_digit c < r) ds then None
      else Some (of_nat (fold (\<lambda>c acc. r * acc + radix_digit c) ds 0)))"

text \<open>\<open>Number(s)\<close>; \<open>None\<close> stands for \<open>NaN\<close> and the infinities, which no caller tells apart.\<close>
definition js_Number :: "string \<Rightarrow> rat option" where
  "js_Number s =
     (let t = js_trim s in
      if t = [] then Some 0
      else if starts_with ''0x'' t \<or> starts_with ''0X'' t then js_radix 16 (drop 2 t)
      else if starts_with ''0o'' t \<or> starts_with ''0O'' t then js_radix 8 (drop 2 t)
      else if starts_with ''0b'' t \<or> starts_with ''0B'' t then js_radix 2 (drop 2 t)
      else if starts_with ''-'' t then map_option uminus (js_decimal (tl t))
      else if starts_with ''+'' t then js_decimal (tl t)
      else js_decimal t)"

text \<open>\<open>Number.parseInt(s, 10)\<close>: the longest digit prefix; \<open>None\<close> is \<open>NaN\<close>.\<close>
definition js_parseInt :: "string \<Rightarrow> int option" where
  "js_parseInt s =
     (let t = dropWhile js_is_ws s;
          neg = starts_with ''-'' t;
          ds = takeWhile is_digit (if neg \<or> starts_with ''+'' t then tl t else t) in
      if ds = [] then None else Some (if neg then - int (dec_val ds) else int (dec_val ds)))"

lemma digit_not_ws: "is_digit c \<Longrightarrow> \<not> js_is_ws c"
  by (auto simp: is_digit_def js_is_ws_def Let_def)

lemma digits_no_ws: "list_all is_digit s \<Longrightarrow> dropWhile js_is_ws s = s"
  by (cases s) (auto dest: digit_not_ws)

lemma digits_takeWhile:
  assumes "list_all is_digit s" "r = [] \<or> \<not> is_digit (hd r)"
  shows "takeWhile is_digit (s @ r) = s" "dropWhile is_digit (s @ r) = r"
  using assms by (induction s) (cases r; auto)+

lemma digits_trim: "list_all is_digit s \<Longrightarrow> js_trim s = s"
  by (simp add: js_trim_def digits_no_ws)

lemma starts_with_hd: "starts_with [c] s \<longleftrightarrow> s \<noteq> [] \<and> hd s = c"
  by (cases s) (auto simp: starts_with_def)

lemma starts_with_set: "starts_with p s \<Longrightarrow> set p \<subseteq> set s"
  by (metis set_take_subset starts_with_def)

lemma list_all_hd: "list_all P s \<Longrightarrow> s \<noteq> [] \<Longrightarrow> P (hd s)"
  by (cases s) auto

lemma digits_no_prefix:
  "list_all is_digit s \<Longrightarrow> d \<in> set p \<Longrightarrow> \<not> is_digit d \<Longrightarrow> \<not> starts_with p s"
  using starts_with_set [of p s] by (auto simp: list_all_iff)

lemma digit_prefixes:
  assumes "list_all is_digit s"
  shows "\<not> starts_with ''-'' s" "\<not> starts_with ''+'' s"
    "\<not> starts_with ''0x'' s" "\<not> starts_with ''0X'' s" "\<not> starts_with ''0o'' s"
    "\<not> starts_with ''0O'' s" "\<not> starts_with ''0b'' s" "\<not> starts_with ''0B'' s"
  using digits_no_prefix [OF assms, of "CHR ''-''" "''-''"]
    digits_no_prefix [OF assms, of "CHR ''+''" "''+''"]
    digits_no_prefix [OF assms, of "CHR ''x''" "''0x''"]
    digits_no_prefix [OF assms, of "CHR ''X''" "''0X''"]
    digits_no_prefix [OF assms, of "CHR ''o''" "''0o''"]
    digits_no_prefix [OF assms, of "CHR ''O''" "''0O''"]
    digits_no_prefix [OF assms, of "CHR ''b''" "''0b''"]
    digits_no_prefix [OF assms, of "CHR ''B''" "''0B''"]
  by (simp_all add: is_digit_def)

lemma js_Number_digits:
  assumes "list_all is_digit s" "s \<noteq> []"
  shows "js_Number s = Some (of_nat (dec_val s))"
proof -
  have split: "takeWhile is_digit s = s" "dropWhile is_digit s = []"
    using assms(1) digits_takeWhile [of s "[]"] by simp_all
  have "js_decimal s = Some (of_nat (dec_val s))"
    using assms(2) by (simp only: js_decimal_def Let_def split) (simp add: starts_with_hd pow10_def)
  then show ?thesis using assms by (simp add: js_Number_def digits_trim digit_prefixes)
qed

lemma js_Number_nat_str: "js_Number (nat_str n) = Some (of_nat n)"
  by (simp add: js_Number_digits nat_str_digits nat_str_nonempty dec_val_nat_str)

lemma js_parseInt_nat_str:
  assumes "r = [] \<or> \<not> is_digit (hd r)"
  shows "js_parseInt (nat_str n @ r) = Some (int n)"
proof -
  have d: "list_all is_digit (nat_str n)" and ne: "nat_str n \<noteq> []"
    by (rule nat_str_digits, rule nat_str_nonempty)
  then have h: "is_digit (hd (nat_str n))" by (rule list_all_hd)
  then have "dropWhile js_is_ws (nat_str n @ r) = nat_str n @ r"
    using ne digit_not_ws by (cases "nat_str n") auto
  moreover have "\<not> starts_with ''-'' (nat_str n @ r)" "\<not> starts_with ''+'' (nat_str n @ r)"
    using h ne by (auto simp: starts_with_hd is_digit_def)
  ultimately show ?thesis
    using digits_takeWhile [OF d assms] ne
    by (simp add: js_parseInt_def Let_def dec_val_nat_str)
qed

section \<open>Search parameters\<close>

definition upper_hex_byte :: "byte \<Rightarrow> string" where
  "upper_hex_byte w =
     map (\<lambda>d. if d < 10 then digit_char d else char_of (55 + d)) [unat w div 16, unat w mod 16]"

text \<open>application/x-www-form-urlencoded: alphanumerics and \<open>* - . _\<close> stand for themselves.\<close>
definition form_encode :: "string \<Rightarrow> string" where
  "form_encode s = concat (map (\<lambda>c.
     let n = (of_char c :: nat) in
     if is_digit c \<or> (65 \<le> n \<and> n \<le> 90) \<or> (97 \<le> n \<and> n \<le> 122) \<or> n \<in> {42, 45, 46, 95} then [c]
     else if n = 32 then ''+''
     else concat (map (\<lambda>b. ''%'' @ upper_hex_byte b) (utf8_char c))) s)"

section \<open>JSON members\<close>

text \<open>Reading a member: of \<open>null\<close> it is a TypeError, of any other non-object \<open>undefined\<close>.\<close>
definition js_member :: "json \<Rightarrow> string \<Rightarrow> exn + json option" where
  "js_member j k =
     (case j of
        JNull \<Rightarrow> Inl (PlainError ''Cannot read properties of null'')
      | JObj kvs \<Rightarrow> Inr (map_of (rev kvs) k)
      | _ \<Rightarrow> Inr None)"

text \<open>\<open>x?.k\<close> on a value that may be absent or null.\<close>
definition js_opt_member :: "json option \<Rightarrow> string \<Rightarrow> json option" where
  "js_opt_member j k = (case j of Some (JObj kvs) \<Rightarrow> map_of (rev kvs) k | _ \<Rightarrow> None)"

definition js_truthy :: "json option \<Rightarrow> bool" where
  "js_truthy v =
     (case v of None \<Rightarrow> False | Some JNull \<Rightarrow> False | Some (JBool b) \<Rightarrow> b
      | Some (JNum n) \<Rightarrow> n \<noteq> 0 | Some (JStr s) \<Rightarrow> s \<noteq> [] | Some (JArr _) \<Rightarrow> True | Some (JObj _) \<Rightarrow> True)"

end
