(* ===== verification/Claims_Once.thy ===== *)
theory Claims_Once
  imports Prelude
begin

text \<open>
  The interface behind every "only the first wins" statement of the program: the unique-index
  claims (idempotency keys, webhook receipts) and the compare-and-set updates
  (\<open>markUsedIfUnused\<close>, \<open>markAcceptedIfPending\<close>). A claim on a key succeeds exactly when the key
  was free, and a key once taken stays taken.
\<close>

primrec count_wins :: "('k \<Rightarrow> 's \<Rightarrow> bool \<times> 's) \<Rightarrow> 'k \<Rightarrow> 's \<Rightarrow> 'k list \<Rightarrow> nat" where
  "count_wins claim k s [] = 0"
| "count_wins claim k s (x # xs) =
     (let (won, s') = claim x s in
      (if won \<and> x = k then 1 else 0) + count_wins claim k s' xs)"

locale claim_once =
  fixes claim :: "'k \<Rightarrow> 's \<Rightarrow> bool \<times> 's"
    and taken :: "'s \<Rightarrow> 'k \<Rightarrow> bool"
    and inv :: "'s \<Rightarrow> bool"
  assumes claim_inv: "inv s \<Longrightarrow> inv (snd (claim k s))"
    and claim_wins: "inv s \<Longrightarrow> fst (claim k s) \<Longrightarrow> \<not> taken s k"
    and win_takes: "inv s \<Longrightarrow> fst (claim k s) \<Longrightarrow> taken (snd (claim k s)) k"
    and stays_taken: "inv s \<Longrightarrow> taken s j \<Longrightarrow> taken (snd (claim k s)) j"
begin

lemma taken_never_wins: "inv s \<Longrightarrow> taken s k \<Longrightarrow> count_wins claim k s ks = 0"
proof (induction ks arbitrary: s)
  case Nil
  then show ?case by simp
next
  case (Cons x ks)
  have "inv (snd (claim x s))" "taken (snd (claim x s)) k"
    using Cons.prems by (auto intro: claim_inv stays_taken)
  then have "count_wins claim k (snd (claim x s)) ks = 0" by (rule Cons.IH)
  moreover have "\<not> (fst (claim x s) \<and> x = k)" using Cons.prems claim_wins by blast
  ultimately show ?case by (simp add: case_prod_beta)
qed

text \<open>However often and in whatever order keys are claimed, each is won at most once.\<close>
lemma at_most_one_winner: "inv s \<Longrightarrow> count_wins claim k s ks \<le> 1"
proof (induction ks arbitrary: s)
  case Nil
  then show ?case by simp
next
  case (Cons x ks)
  have i: "inv (snd (claim x s))" using Cons.prems by (rule claim_inv)
  show ?case
  proof (cases "fst (claim x s) \<and> x = k")
    case True
    then have "taken (snd (claim x s)) k" using Cons.prems by (auto intro: win_takes)
    then show ?thesis using taken_never_wins [OF i] by (simp add: case_prod_beta)
  next
    case False
    then show ?thesis using Cons.IH [OF i] by (auto simp: case_prod_beta)
  qed
qed

end

end
