(* ===== verification/Payments.thy ===== *)
theory Payments
  imports Text_Codec Tenancy Claims_Once
begin

text \<open>
  The payment providers of \<open>src/modules/payment\<close>: the SePay and Stripe adapters (checkout links,
  signature verification, webhook parsing), the registry, the receipt table that makes consuming
  an event idempotent, and \<open>PaymentService\<close>. HMAC-SHA256 is the parameter \<open>hmac\<close> (secret and message
  to a byte string), \<open>JSON.parse\<close> the parameter \<open>parse\<close> (\<open>None\<close>: it throws). The locale
  \<open>payment_provider\<close> is the \<open>PaymentProvider\<close> interface with the law its signatures promise.
\<close>

record checkout_input =
  ci_reference :: string
  ci_amount :: int
  ci_currency :: string
  ci_description :: string

record checkout_session =
  co_provider :: provider_name
  co_reference :: string
  co_checkoutUrl :: string

datatype payment_event_type = PaymentSucceeded | PaymentFailed

text \<open>The id and the reference come out of a parsed body unchecked, so they are JSON values.\<close>
record payment_event =
  pe_id :: json
  pe_type :: payment_event_type
  pe_subscriptionReference :: json

type_synonym hmac_fun = "string \<Rightarrow> string \<Rightarrow> byte list"

section \<open>SePay\<close>

text \<open>\<open>new URL(`${APP_URL}/pay/sepay`)\<close> in normal form is the parameter \<open>base\<close>.\<close>
definition sepay_createCheckout :: "string \<Rightarrow> checkout_input \<Rightarrow> checkout_session" where
  "sepay_createCheckout base i =
     \<lparr>co_provider = Sepay, co_reference = ci_reference i,
      co_checkoutUrl = base @ ''?ref='' @ form_encode (ci_reference i) @
        ''&amount='' @ form_encode (int_str (ci_amount i))\<rparr>"

definition sepay_verifyWebhook :: "hmac_fun \<Rightarrow> string \<Rightarrow> string \<Rightarrow> string \<Rightarrow> exn + bool" where
  "sepay_verifyWebhook hmac secret rawBody signature =
     (let expected = hex_of (hmac secret rawBody);
          received = (if starts_with ''sha256='' signature then drop 7 signature else signature) in
      if length expected \<noteq> length received then Inr False
      else timingSafeEqual (utf8 expected) (utf8 received))"

definition sepay_parseEvent :: "(string \<Rightarrow> json option) \<Rightarrow> string \<Rightarrow> exn + payment_event option" where
  "sepay_parseEvent parse rawBody =
     (case parse rawBody of
        None \<Rightarrow> Inr None
      | Some body \<Rightarrow>
          bindE (js_member body ''id'') (\<lambda>i.
          bindE (js_member body ''content'') (\<lambda>content.
          bindE (js_member body ''status'') (\<lambda>st.
            if \<not> js_truthy i \<or> \<not> js_truthy content then Inr None
            else if st = Some (JStr ''success'') then
              Inr (Some \<lparr>pe_id = the i, pe_type = PaymentSucceeded, pe_subscriptionReference = the content\<rparr>)
            else if st = Some (JStr ''failed'') then
              Inr (Some \<lparr>pe_id = the i, pe_type = PaymentFailed, pe_subscriptionReference = the content\<rparr>)
            else Inr None))))"

section \<open>Stripe\<close>

definition stripe_createCheckout :: "string \<Rightarrow> checkout_input \<Rightarrow> checkout_session" where
  "stripe_createCheckout base i =
     \<lparr>co_provider = Stripe, co_reference = ci_reference i,
      co_checkoutUrl = base @ ''?ref='' @ form_encode (ci_reference i)\<rparr>"

text \<open>\<open>pair[1]\<close>: \<open>None\<close> is \<open>undefined\<close>, for a segment without an equals sign.\<close>
definition pair_value :: "string list \<Rightarrow> string option" where
  "pair_value p = (case p of _ # v # _ \<Rightarrow> Some v | _ \<Rightarrow> None)"

definition stripe_pairs :: "string \<Rightarrow> string list list" where
  "stripe_pairs signature = map (split_on (CHR ''='')) (split_on (CHR '','') signature)"

text \<open>\<open>received.some(..)\<close>, left to right, stopping at the first match or throw.\<close>
fun some_signature :: "string \<Rightarrow> string option list \<Rightarrow> exn + bool" where
  "some_signature expected [] = Inr False"
| "some_signature expected (None # sigs) = Inl (PlainError ''Cannot read properties of undefined'')"
| "some_signature expected (Some sig # sigs) =
     (if length sig = length expected then
        bindE (timingSafeEqual (utf8 sig) (utf8 expected)) (\<lambda>b.
          if b then Inr True else some_signature expected sigs)
      else some_signature expected sigs)"

text \<open>\<open>now\<close> is \<open>Date.now()\<close>, \<open>tolerance\<close> is \<open>STRIPE_WEBHOOK_TOLERANCE_SECONDS\<close>.\<close>
definition stripe_verifyWebhook ::
  "hmac_fun \<Rightarrow> string \<Rightarrow> nat \<Rightarrow> nat \<Rightarrow> string \<Rightarrow> string \<Rightarrow> exn + bool" where
  "stripe_verifyWebhook hmac secret tolerance now rawBody signature =
     (let pairs = stripe_pairs signature;
          timestamp = (case find (\<lambda>p. hd p = ''t'') pairs of None \<Rightarrow> None | Some p \<Rightarrow> pair_value p);
          received = map pair_value (filter (\<lambda>p. hd p = ''v1'') pairs) in
      case timestamp of
        None \<Rightarrow> Inr False
      | Some ts \<Rightarrow>
          if ts = [] \<or> received = [] then Inr False
          else (case js_Number ts of
              None \<Rightarrow> Inr False
            | Some n \<Rightarrow>
                if of_nat tolerance < \<bar>of_nat (now div 1000) - n\<bar> then Inr False
                else some_signature (hex_of (hmac secret (ts @ ''.'' @ rawBody))) received))"

definition stripe_parseEvent :: "(string \<Rightarrow> json option) \<Rightarrow> string \<Rightarrow> exn + payment_event option" where
  "stripe_parseEvent parse rawBody =
     (case parse rawBody of
        None \<Rightarrow> Inr None
      | Some body \<Rightarrow>
          bindE (js_member body ''data'') (\<lambda>data.
            let reference = js_opt_member (js_opt_member (js_opt_member data ''object'') ''metadata'') ''reference'' in
          bindE (js_member body ''id'') (\<lambda>i.
          bindE (js_member body ''type'') (\<lambda>ty.
            if \<not> js_truthy i \<or> \<not> js_truthy reference then Inr None
            else if ty = Some (JStr ''checkout.session.completed'') \<or> ty = Some (JStr ''invoice.paid'') then
              Inr (Some \<lparr>pe_id = the i, pe_type = PaymentSucceeded, pe_subscriptionReference = the reference\<rparr>)
            else if ty = Some (JStr ''invoice.payment_failed'') then
              Inr (Some \<lparr>pe_id = the i, pe_type = PaymentFailed, pe_subscriptionReference = the reference\<rparr>)
            else Inr None))))"

section \<open>Registry and service\<close>

definition registry_get :: "string \<Rightarrow> exn + provider_name" where
  "registry_get name =
     (if name = ''sepay'' then Inr Sepay
      else if name = ''stripe'' then Inr Stripe
      else Inl (BadRequestException (''Unknown payment provider: '' @ name)))"

text \<open>The environment the adapters read, with the runtime's functions they call.\<close>
record payment_env =
  en_hmac :: hmac_fun
  en_parse :: "string \<Rightarrow> json option"
  en_sepay_secret :: string
  en_stripe_secret :: string
  en_tolerance :: nat
  en_sepay_base :: string
  en_stripe_base :: string

fun provider_createCheckout :: "payment_env \<Rightarrow> provider_name \<Rightarrow> checkout_input \<Rightarrow> checkout_session" where
  "provider_createCheckout env Sepay i = sepay_createCheckout (en_sepay_base env) i"
| "provider_createCheckout env Stripe i = stripe_createCheckout (en_stripe_base env) i"

fun provider_verifyWebhook :: "payment_env \<Rightarrow> nat \<Rightarrow> provider_name \<Rightarrow> string \<Rightarrow> string \<Rightarrow> exn + bool" where
  "provider_verifyWebhook env now Sepay raw sig =
     sepay_verifyWebhook (en_hmac env) (en_sepay_secret env) raw sig"
| "provider_verifyWebhook env now Stripe raw sig =
     stripe_verifyWebhook (en_hmac env) (en_stripe_secret env) (en_tolerance env) now raw sig"

fun provider_parseEvent :: "payment_env \<Rightarrow> provider_name \<Rightarrow> string \<Rightarrow> exn + payment_event option" where
  "provider_parseEvent env Sepay raw = sepay_parseEvent (en_parse env) raw"
| "provider_parseEvent env Stripe raw = stripe_parseEvent (en_parse env) raw"

definition payment_createCheckout :: "payment_env \<Rightarrow> string \<Rightarrow> checkout_input \<Rightarrow> exn + checkout_session" where
  "payment_createCheckout env name i =
     bindE (registry_get name) (\<lambda>p. Inr (provider_createCheckout env p i))"

definition payment_verifyWebhook :: "payment_env \<Rightarrow> nat \<Rightarrow> string \<Rightarrow> string \<Rightarrow> string \<Rightarrow> exn + bool" where
  "payment_verifyWebhook env now name raw sig =
     bindE (registry_get name) (\<lambda>p. provider_verifyWebhook env now p raw sig)"

definition payment_parseEvent :: "payment_env \<Rightarrow> string \<Rightarrow> string \<Rightarrow> exn + payment_event option" where
  "payment_parseEvent env name raw = bindE (registry_get name) (\<lambda>p. provider_parseEvent env p raw)"

text \<open>\<open>WebhookReceiptRepository.claim\<close>: the table has no tenant column and no policy.\<close>
definition claimEvent :: "uuid \<Rightarrow> instant \<Rightarrow> provider_name \<Rightarrow> string \<Rightarrow> tdb \<Rightarrow> bool \<times> tdb" where
  "claimEvent new_id now p event_id db =
     (case insert_checked webhook_receipts_cs
             \<lparr>wr_id = new_id, wr_createdAt = now, wr_provider = p, wr_eventId = event_id\<rparr>
             (webhook_receipts db) of
        Inl _ \<Rightarrow> (False, db)
      | Inr rows \<Rightarrow> (True, db\<lparr>webhook_receipts := rows\<rparr>))"

section \<open>Receipts are claimed once\<close>

definition receipt_taken :: "tdb \<Rightarrow> provider_name \<times> string \<Rightarrow> bool" where
  "receipt_taken db k \<longleftrightarrow>
     list_ex (\<lambda>r. wr_provider r = fst k \<and> wr_eventId r = snd k) (webhook_receipts db)"

definition receipt_claim ::
  "(tdb \<Rightarrow> uuid) \<Rightarrow> instant \<Rightarrow> provider_name \<times> string \<Rightarrow> tdb \<Rightarrow> bool \<times> tdb" where
  "receipt_claim gen now k db = claimEvent (gen db) now (fst k) (snd k) db"

lemma claimEvent_won:
  assumes "claimEvent i now p e db = (True, db')"
  shows "\<not> receipt_taken db (p, e)" "receipt_taken db' (p, e)"
    "db' = db\<lparr>webhook_receipts := webhook_receipts db @
       [\<lparr>wr_id = i, wr_createdAt = now, wr_provider = p, wr_eventId = e\<rparr>]\<rparr>"
  using assms
  by (auto simp: claimEvent_def insert_checked_Inr_iff receipt_taken_def list_ex_iff webhook_receipts_cs_def
      split: sum.splits)

lemma claimEvent_lost: "claimEvent i now p e db = (False, db') \<Longrightarrow> db' = db"
  by (auto simp: claimEvent_def split: sum.splits)

lemma claimEvent_taken: "receipt_taken db (p, e) \<Longrightarrow> claimEvent i now p e db = (False, db)"
  by (metis (full_types) claimEvent_lost claimEvent_won(1) surj_pair)

interpretation receipt_once: claim_once "receipt_claim gen now" receipt_taken "\<lambda>_. True"
  for gen :: "tdb \<Rightarrow> uuid" and now :: instant
proof
  fix db :: tdb and k :: "provider_name \<times> string"
  obtain p e where k: "k = (p, e)" by fastforce
  obtain w db' where c: "claimEvent (gen db) now p e db = (w, db')" by fastforce
  show True ..
  show "\<not> receipt_taken db k" if "fst (receipt_claim gen now k db)"
    using that claimEvent_won(1) c by (auto simp: k receipt_claim_def)
  show "receipt_taken (snd (receipt_claim gen now k db)) k" if "fst (receipt_claim gen now k db)"
    using that claimEvent_won(2) c by (auto simp: k receipt_claim_def)
next
  fix db :: tdb and j k :: "provider_name \<times> string"
  assume "receipt_taken db j"
  then show "receipt_taken (snd (receipt_claim gen now k db)) j"
    by (auto simp: receipt_claim_def claimEvent_def receipt_taken_def list_ex_iff
        dest!: insert_checked_eq split: sum.splits)
qed

section \<open>The provider interface\<close>

text \<open>
  \<open>genuine raw sig\<close> says that the signature carries the MAC of the body under the provider's
  secret; a verifier accepts nothing else, and accepts what the provider itself sends.
\<close>
locale payment_provider =
  fixes verify :: "string \<Rightarrow> string \<Rightarrow> exn + bool"
    and genuine :: "string \<Rightarrow> string \<Rightarrow> bool"
    and sign :: "string \<Rightarrow> string"
  assumes sound: "verify raw sig = Inr True \<Longrightarrow> genuine raw sig"
    and complete: "verify raw (sign raw) = Inr True"
begin

lemma sign_genuine: "genuine raw (sign raw)"
  using complete by (rule sound)

lemma forged_rejected: "\<not> genuine raw sig \<Longrightarrow> verify raw sig \<noteq> Inr True"
  using sound by blast

end

definition sepay_genuine :: "hmac_fun \<Rightarrow> string \<Rightarrow> string \<Rightarrow> string \<Rightarrow> bool" where
  "sepay_genuine hmac secret raw sig \<longleftrightarrow>
     (let mac = hex_of (hmac secret raw) in sig = mac \<or> sig = ''sha256='' @ mac)"

text \<open>A fresh timestamp, and among the \<open>v1\<close> values the MAC of that timestamp and the body.\<close>
definition stripe_genuine :: "hmac_fun \<Rightarrow> string \<Rightarrow> nat \<Rightarrow> nat \<Rightarrow> string \<Rightarrow> string \<Rightarrow> bool" where
  "stripe_genuine hmac secret tolerance now raw sig \<longleftrightarrow>
     list_ex (\<lambda>t. hd t = ''t'' \<and>
       (case pair_value t of None \<Rightarrow> False | Some ts \<Rightarrow>
         (case js_Number ts of None \<Rightarrow> False | Some n \<Rightarrow>
            \<bar>of_nat (now div 1000) - n\<bar> \<le> of_nat tolerance \<and>
            list_ex (\<lambda>p. hd p = ''v1'' \<and> pair_value p = Some (hex_of (hmac secret (ts @ ''.'' @ raw))))
              (stripe_pairs sig))))
       (stripe_pairs sig)"

definition sepay_sign :: "hmac_fun \<Rightarrow> string \<Rightarrow> string \<Rightarrow> string" where
  "sepay_sign hmac secret raw = ''sha256='' @ hex_of (hmac secret raw)"

definition stripe_sign :: "hmac_fun \<Rightarrow> string \<Rightarrow> nat \<Rightarrow> string \<Rightarrow> string" where
  "stripe_sign hmac secret now raw =
     (let ts = nat_str (now div 1000) in
      ''t='' @ ts @ '',v1='' @ hex_of (hmac secret (ts @ ''.'' @ raw)))"

lemma hex_of_ascii: "ascii (hex_of bs)"
  by (rule is_hex_ascii) (rule hex_of_is_hex)

text \<open>A comparison of the hex digest with text of the same length that says yes is an equality.\<close>
lemma timingSafeEqual_hex:
  assumes "timingSafeEqual (utf8 a) (utf8 b) = Inr True" "length a = length b" "ascii a"
  shows "a = b"
proof -
  have l: "length (utf8 a) = length (utf8 b)" and e: "utf8 a = utf8 b"
    using assms(1) by (auto simp: timingSafeEqual_eq)
  have "length (utf8 b) = length b"
    using assms(2) l length_utf8_ascii [OF assms(3)] by simp
  then have "ascii b" by (rule length_utf8_eq_imp_ascii)
  then show ?thesis using utf8_ascii_inj assms(3) e by blast
qed

lemma some_signature_sound:
  "some_signature (hex_of bs) sigs = Inr True \<Longrightarrow> Some (hex_of bs) \<in> set sigs"
proof (induction "hex_of bs" sigs rule: some_signature.induct)
  case (3 sig sigs)
  show ?case
  proof (cases "length sig = length (hex_of bs)")
    case True
    obtain b where b: "timingSafeEqual (utf8 sig) (utf8 (hex_of bs)) = Inr b"
      using 3(3) True by (auto simp: result_simps)
    show ?thesis
    proof (cases b)
      case True
      then have "timingSafeEqual (utf8 (hex_of bs)) (utf8 sig) = Inr True"
        using b by (auto simp: timingSafeEqual_eq)
      then show ?thesis
        using timingSafeEqual_hex [OF _ _ hex_of_ascii] \<open>length sig = length (hex_of bs)\<close> by fastforce
    next
      case False
      then show ?thesis using 3 b True by simp
    qed
  next
    case False
    then show ?thesis using 3 by simp
  qed
qed simp_all

interpretation sepay: payment_provider
    "sepay_verifyWebhook hmac secret" "sepay_genuine hmac secret" "sepay_sign hmac secret"
  for hmac :: hmac_fun and secret :: string
proof
  fix raw sig
  let ?mac = "hex_of (hmac secret raw)"
  let ?rec = "if starts_with ''sha256='' sig then drop 7 sig else sig"
  assume v: "sepay_verifyWebhook hmac secret raw sig = Inr True"
  then have l: "length ?mac = length ?rec"
    unfolding sepay_verifyWebhook_def Let_def by (simp only: split: if_splits) simp_all
  moreover from this v have "timingSafeEqual (utf8 ?mac) (utf8 ?rec) = Inr True"
    unfolding sepay_verifyWebhook_def Let_def by simp
  ultimately have eq: "?mac = ?rec" by (intro timingSafeEqual_hex hex_of_ascii)
  have "starts_with ''sha256='' sig \<Longrightarrow> sig = ''sha256='' @ drop 7 sig"
    using starts_with_drop [of "''sha256=''" sig] by (simp add: numeral_eq_Suc)
  then show "sepay_genuine hmac secret raw sig"
    using eq by (auto simp: sepay_genuine_def Let_def split: if_splits)
next
  fix raw
  show "sepay_verifyWebhook hmac secret raw (sepay_sign hmac secret raw) = Inr True"
    by (simp add: sepay_verifyWebhook_def sepay_sign_def Let_def timingSafeEqual_def starts_with_def)
qed

lemma stripe_sound:
  assumes "stripe_verifyWebhook hmac secret tol now raw sig = Inr True"
  shows "stripe_genuine hmac secret tol now raw sig"
proof -
  let ?pairs = "stripe_pairs sig"
  obtain p ts n where p: "find (\<lambda>p. hd p = ''t'') ?pairs = Some p" "pair_value p = Some ts"
      "js_Number ts = Some n" "\<not> of_nat tol < \<bar>of_nat (now div 1000) - n\<bar>"
      "some_signature (hex_of (hmac secret (ts @ ''.'' @ raw)))
         (map pair_value (filter (\<lambda>p. hd p = ''v1'') ?pairs)) = Inr True"
    using assms by (auto simp: stripe_verifyWebhook_def Let_def split: option.splits if_splits)
  have m: "p \<in> set ?pairs" "hd p = ''t''" using find_Some_mem [OF p(1)] by auto
  obtain v where v: "v \<in> set ?pairs" "hd v = ''v1''"
      "pair_value v = Some (hex_of (hmac secret (ts @ ''.'' @ raw)))"
    using some_signature_sound [OF p(5)] by auto
  show ?thesis
    unfolding stripe_genuine_def list_ex_iff
    by (rule bexI [OF _ m(1)]) (use m(2) p(2-4) v in \<open>auto simp: not_less\<close>)
qed

lemma stripe_complete:
  "stripe_verifyWebhook hmac secret tol now raw (stripe_sign hmac secret now raw) = Inr True"
proof -
  let ?ts = "nat_str (now div 1000)" and ?mac = "hex_of (hmac secret (nat_str (now div 1000) @ ''.'' @ raw))"
  have ts: "CHR '','' \<notin> set ?ts" "CHR ''='' \<notin> set ?ts" and mac: "CHR '','' \<notin> set ?mac" "CHR ''='' \<notin> set ?mac"
    using nat_str_digits [of "now div 1000"] is_hex_no_separator [OF hex_of_is_hex]
    by (auto simp: list_all_iff is_digit_def)
  have "split_on (CHR '','') ((''t='' @ ?ts) @ CHR '','' # (''v1='' @ ?mac)) = [''t='' @ ?ts, ''v1='' @ ?mac]"
    using ts(1) mac(1) by (subst split_on_sep) (auto simp: split_on_no_sep)
  then have sp: "split_on (CHR '','') (stripe_sign hmac secret now raw) = [''t='' @ ?ts, ''v1='' @ ?mac]"
    by (simp add: stripe_sign_def Let_def)
  have "split_on (CHR ''='') (''t'' @ CHR ''='' # ?ts) = [''t'', ?ts]"
    "split_on (CHR ''='') (''v1'' @ CHR ''='' # ?mac) = [''v1'', ?mac]"
    using ts(2) mac(2) by (subst split_on_sep; auto simp: split_on_no_sep)+
  then have "stripe_pairs (stripe_sign hmac secret now raw) = [[''t'', ?ts], [''v1'', ?mac]]"
    by (simp add: stripe_pairs_def sp)
  then show ?thesis
    by (simp add: stripe_verifyWebhook_def pair_value_def js_Number_nat_str nat_str_nonempty timingSafeEqual_def)
qed

interpretation stripe: payment_provider
    "stripe_verifyWebhook hmac secret tol now" "stripe_genuine hmac secret tol now"
    "stripe_sign hmac secret now"
  for hmac :: hmac_fun and secret :: string and tol now :: nat
  by unfold_locales (rule stripe_sound, assumption, rule stripe_complete)

fun provider_genuine :: "payment_env \<Rightarrow> nat \<Rightarrow> provider_name \<Rightarrow> string \<Rightarrow> string \<Rightarrow> bool" where
  "provider_genuine env now Sepay raw sig = sepay_genuine (en_hmac env) (en_sepay_secret env) raw sig"
| "provider_genuine env now Stripe raw sig =
     stripe_genuine (en_hmac env) (en_stripe_secret env) (en_tolerance env) now raw sig"

fun provider_sign :: "payment_env \<Rightarrow> nat \<Rightarrow> provider_name \<Rightarrow> string \<Rightarrow> string" where
  "provider_sign env now Sepay raw = sepay_sign (en_hmac env) (en_sepay_secret env) raw"
| "provider_sign env now Stripe raw = stripe_sign (en_hmac env) (en_stripe_secret env) now raw"

interpretation providers: payment_provider
    "provider_verifyWebhook env now p" "provider_genuine env now p" "provider_sign env now p"
  for env :: payment_env and now :: nat and p :: provider_name
  by unfold_locales
    (cases p; auto dest: sepay.sound stripe.sound simp: sepay.complete stripe.complete)+

section \<open>Known gaps\<close>

text \<open>A SePay signature carries no time: a recorded webhook verifies at any later moment.\<close>
lemma sepay_replay_verifies:
  "provider_verifyWebhook env now p raw sig = provider_verifyWebhook env later p raw sig"
  if "p = Sepay"
  using that by simp

text \<open>Lengths are compared in characters and then in bytes: a character above 127 makes the comparison throw.\<close>
lemma sepay_non_ascii_throws:
  "sepay_verifyWebhook (\<lambda>_ _. [0xab]) ''k'' ''{}'' (''a'' @ [CHR 0xe9]) =
     Inl (PlainError ''Input buffers must have the same byte length'')"
  by code_simp

end
