(* ===== verification/Lifecycle.thy ===== *)
theory Lifecycle
  imports Schema
begin

text \<open>
  The two status tables of the program, \<open>booking-state-machine.ts\<close> and
  \<open>subscription-state-machine.ts\<close>, behind one interface: a table of successors. The locale
  \<open>lifecycle\<close> gives what holds of any such table, \<open>ranked_lifecycle\<close> adds that every move makes
  progress, which the booking table satisfies and the subscription table (active and past_due
  alternate) does not.
\<close>

section \<open>The interface\<close>

text \<open>A history is a list of statuses in which each is reached from the one before.\<close>
fun history :: "('s \<Rightarrow> 's list) \<Rightarrow> 's \<Rightarrow> 's list \<Rightarrow> bool" where
  "history next s [] = True"
| "history next s (x # xs) = (x \<in> set (next s) \<and> history next x xs)"

locale lifecycle =
  fixes successors :: "'s \<Rightarrow> 's list" and terminal :: "'s \<Rightarrow> bool"
  assumes terminal_iff: "terminal s \<longleftrightarrow> successors s = []"
begin

lemma terminal_stuck: "terminal s \<Longrightarrow> history successors s xs \<Longrightarrow> xs = []"
  by (cases xs) (auto simp: terminal_iff)

lemma history_append:
  "history successors s (xs @ ys) \<longleftrightarrow>
     history successors s xs \<and> history successors (if xs = [] then s else last xs) ys"
  by (induction xs arbitrary: s) auto

text \<open>A terminal status can only be the last of a history.\<close>
lemma terminal_only_last:
  assumes "history successors s xs" "i < length xs" "terminal (xs ! i)"
  shows "i = length xs - 1"
proof -
  have "history successors (xs ! i) (drop (Suc i) xs)"
    using assms(1,2)
  proof (induction xs arbitrary: s i)
    case Nil
    then show ?case by simp
  next
    case (Cons x xs)
    then show ?case by (cases i) auto
  qed
  then have "drop (Suc i) xs = []" using assms(3) terminal_stuck by blast
  then show ?thesis using assms(2) by simp
qed

end

locale ranked_lifecycle = lifecycle +
  fixes rank :: "'s \<Rightarrow> nat" and bound :: nat
  assumes rank_step: "t \<in> set (successors s) \<Longrightarrow> rank s < rank t"
    and rank_bound: "rank s \<le> bound"
begin

lemma history_rank: "history successors s xs \<Longrightarrow> rank s + length xs \<le> bound"
proof (induction xs arbitrary: s)
  case Nil
  then show ?case by (simp add: rank_bound)
next
  case (Cons x xs)
  then have "rank x + length xs \<le> bound" "rank s < rank x" by (auto intro: rank_step)
  then show ?case by simp
qed

lemma no_return: "history successors s xs \<Longrightarrow> s \<notin> set xs"
proof -
  have "x \<in> set xs \<Longrightarrow> rank s < rank x" if "history successors s xs" for s xs x
    using that by (induction xs arbitrary: s) (auto dest: rank_step intro: less_trans)
  then show "history successors s xs \<Longrightarrow> s \<notin> set xs" by blast
qed

end

section \<open>Bookings\<close>

fun booking_TRANSITIONS :: "booking_status \<Rightarrow> booking_status list" where
  "booking_TRANSITIONS Pending = [Confirmed, Cancelled, NoShow]"
| "booking_TRANSITIONS Confirmed = [Completed, Cancelled, NoShow]"
| "booking_TRANSITIONS Completed = []"
| "booking_TRANSITIONS Cancelled = []"
| "booking_TRANSITIONS NoShow = []"

definition booking_canTransition :: "booking_status \<Rightarrow> booking_status \<Rightarrow> bool" where
  "booking_canTransition from to \<longleftrightarrow> to \<in> set (booking_TRANSITIONS from)"

definition booking_assertCanTransition :: "booking_status \<Rightarrow> booking_status \<Rightarrow> exn + unit" where
  "booking_assertCanTransition from to =
     (if booking_canTransition from to then Inr ()
      else Inl (UnprocessableStateException
        (''Cannot change a '' @ booking_status_str from @ '' booking to '' @ booking_status_str to)))"

text \<open>A status that no longer occupies its slot.\<close>
definition booking_closed :: "booking_status \<Rightarrow> bool" where
  "booking_closed s \<longleftrightarrow> \<not> active_status s"

fun booking_rank :: "booking_status \<Rightarrow> nat" where
  "booking_rank Pending = 0"
| "booking_rank Confirmed = 1"
| "booking_rank _ = 2"

interpretation booking_cycle: ranked_lifecycle booking_TRANSITIONS booking_closed booking_rank 2
proof
  show "booking_closed s \<longleftrightarrow> booking_TRANSITIONS s = []" for s
    by (cases s) (auto simp: booking_closed_def)
  show "t \<in> set (booking_TRANSITIONS s) \<Longrightarrow> booking_rank s < booking_rank t" for s t
    by (cases s; cases t) auto
  show "booking_rank s \<le> 2" for s by (cases s) auto
qed

section \<open>Subscriptions\<close>

fun subscription_TRANSITIONS :: "subscription_status \<Rightarrow> subscription_status list" where
  "subscription_TRANSITIONS Trialing = [Active, PastDue, Canceled]"
| "subscription_TRANSITIONS Active = [PastDue, Canceled]"
| "subscription_TRANSITIONS PastDue = [Active, Canceled]"
| "subscription_TRANSITIONS Canceled = []"

definition subscription_canTransition :: "subscription_status \<Rightarrow> subscription_status \<Rightarrow> bool" where
  "subscription_canTransition from to \<longleftrightarrow> from = to \<or> to \<in> set (subscription_TRANSITIONS from)"

interpretation subscription_cycle: lifecycle subscription_TRANSITIONS "\<lambda>s. s = Canceled"
proof
  show "s = Canceled \<longleftrightarrow> subscription_TRANSITIONS s = []" for s by (cases s) auto
qed

lemma subscription_canTransition_table:
  "subscription_canTransition Trialing t \<longleftrightarrow> True"
  "subscription_canTransition Active t \<longleftrightarrow> t \<noteq> Trialing"
  "subscription_canTransition PastDue t \<longleftrightarrow> t \<noteq> Trialing"
  "subscription_canTransition Canceled t \<longleftrightarrow> t = Canceled"
  by (cases t; simp add: subscription_canTransition_def)+

end
