(* ===== verification/Billing.thy ===== *)
theory Billing
  imports Payments Lifecycle
begin

text \<open>
  Plans and subscriptions: \<open>src/modules/plan\<close>, \<open>src/modules/subscription\<close> and the webhook endpoint
  \<open>src/modules/payment/payment.controller.ts\<close> that drives a subscription's status. Plans are global
  rows; a subscription is written on the tenant's transaction, on the webhook path on a transaction
  pinned to the tenant its reference names. class-validator's \<open>isUUID\<close> and the text node-postgres
  sends for a parameter are the parameters \<open>isUUID\<close> and \<open>pg_text\<close>.
\<close>

section \<open>Plans\<close>

definition plan_findById :: "uuid \<Rightarrow> gdb \<Rightarrow> plan option" where
  "plan_findById i g = find (\<lambda>p. live p \<and> e_id p = i) (plans g)"

definition plan_findByCode :: "string \<Rightarrow> gdb \<Rightarrow> plan option" where
  "plan_findByCode code g = find (\<lambda>p. live p \<and> pl_code p = code) (plans g)"

definition plan_list :: "gdb \<Rightarrow> plan list" where
  "plan_list g = sort_key pl_priceAmount (filter live (plans g))"

definition getDefaultPlan :: "gdb \<Rightarrow> plan option" where
  "getDefaultPlan g = plan_findByCode (plan_code_str DEFAULT_PLAN_CODE) g"

section \<open>The subscription reference\<close>

definition buildReference :: "uuid \<Rightarrow> uuid \<Rightarrow> string" where
  "buildReference nonce tenantId = ''sub_'' @ tenantId @ ''_'' @ nonce"

definition tenantFromReference :: "(string \<Rightarrow> bool) \<Rightarrow> string \<Rightarrow> uuid option" where
  "tenantFromReference isUUID reference =
     (case split_on (CHR ''_'') reference of
        pre # tenantId # nonce # _ \<Rightarrow>
          if pre \<noteq> ''sub'' \<or> tenantId = [] \<or> nonce = [] \<or> \<not> isUUID tenantId then None
          else Some tenantId
      | _ \<Rightarrow> None)"

lemma tenantFromReference_buildReference:
  assumes "CHR ''_'' \<notin> set t" "t \<noteq> []" "CHR ''_'' \<notin> set nonce" "nonce \<noteq> []" "isUUID t"
  shows "tenantFromReference isUUID (buildReference nonce t) = Some t"
proof -
  have "split_on (CHR ''_'') (''sub'' @ CHR ''_'' # t @ CHR ''_'' # nonce) = [''sub'', t, nonce]"
    using assms by (subst split_on_sep, simp, subst split_on_sep) (auto simp: split_on_no_sep)
  then show ?thesis using assms by (simp add: tenantFromReference_def buildReference_def)
qed

lemma tenantFromReference_uuid: "tenantFromReference isUUID r = Some t \<Longrightarrow> t \<noteq> [] \<and> isUUID t"
  by (auto simp: tenantFromReference_def split: list.splits if_splits)

section \<open>Repository\<close>

definition subscription_row ::
  "uuid \<Rightarrow> instant \<Rightarrow> uuid \<Rightarrow> provider_name \<Rightarrow> string \<Rightarrow> subscription_status \<Rightarrow> subscription" where
  "subscription_row new_id now plan p reference st =
     \<lparr>e_id = new_id, e_createdAt = now, e_deletedAt = None, e_tenantId = [],
      sub_planId = plan, sub_provider = p, sub_providerReference = reference, sub_status = st\<rparr>"

definition subscription_create :: "ctx \<Rightarrow> subscription \<Rightarrow> tdb \<Rightarrow> exn + subscription \<times> tdb" where
  "subscription_create c r db =
     bindE (persist c subscriptions_cs r (subscriptions db))
       (\<lambda>(s, rows). Inr (s, db\<lparr>subscriptions := rows\<rparr>))"

text \<open>\<open>findOne\<close> with \<open>order: createdAt DESC\<close>; rows created at the same instant in table order.\<close>
definition subscription_findActive :: "ctx \<Rightarrow> tdb \<Rightarrow> exn + subscription option" where
  "subscription_findActive c db =
     bindE (getTenantId c) (\<lambda>t.
       case sort_key (\<lambda>s. - e_createdAt s)
              (filter (\<lambda>s. rls_visible (repo_manager c) s \<and> live s \<and> e_tenantId s = t) (subscriptions db)) of
         [] \<Rightarrow> Inr None | s # _ \<Rightarrow> Inr (Some s))"

definition subscription_findByReference :: "ctx \<Rightarrow> string \<Rightarrow> tdb \<Rightarrow> subscription option" where
  "subscription_findByReference c reference db =
     find (\<lambda>s. rls_visible (repo_manager c) s \<and> live s \<and> sub_providerReference s = reference)
       (subscriptions db)"

definition subscription_updateStatus ::
  "ctx \<Rightarrow> uuid \<Rightarrow> subscription_status \<Rightarrow> tdb \<Rightarrow> exn + unit \<times> tdb" where
  "subscription_updateStatus c i st db =
     bindE (rls_update c subscriptions_cs (\<lambda>s. e_id s = i) (\<lambda>s. s\<lparr>sub_status := st\<rparr>) (subscriptions db))
       (\<lambda>(_, rows). Inr ((), db\<lparr>subscriptions := rows\<rparr>))"

section \<open>Service\<close>

fun provider_str :: "provider_name \<Rightarrow> string" where
  "provider_str Sepay = ''sepay''" | "provider_str Stripe = ''stripe''"

definition already_subscribed :: exn where
  "already_subscribed = ConflictException ''Tenant already has a subscription''"

definition subscribe ::
  "payment_env \<Rightarrow> ctx \<Rightarrow> uuid \<Rightarrow> uuid \<Rightarrow> instant \<Rightarrow> uuid \<Rightarrow> provider_name \<Rightarrow> gdb \<Rightarrow> tdb \<Rightarrow>
     exn + (subscription \<times> checkout_session) \<times> tdb" where
  "subscribe env c nonce new_id now planId p g db =
     bindE (requireE (plan_findById planId g) (NotFoundException ''Plan not found'')) (\<lambda>pl.
     bindE (subscription_findActive c db) (\<lambda>existing.
     bindE (guardE (case existing of None \<Rightarrow> True | Some s \<Rightarrow> sub_status s = Canceled) already_subscribed) (\<lambda>_.
     bindE (getTenantId c) (\<lambda>t.
     let reference = buildReference nonce t in
     bindE (payment_createCheckout env (provider_str p)
              \<lparr>ci_reference = reference, ci_amount = pl_priceAmount pl,
               ci_currency = pl_priceCurrency pl, ci_description = pl_name pl\<rparr>) (\<lambda>checkout.
     mapErr (on_code unique_violation already_subscribed)
       (bindE (subscription_create c (subscription_row new_id now (e_id pl) p reference Trialing) db)
          (\<lambda>(s, db'). Inr ((s, checkout), db'))))))))"

fun status_of_event :: "payment_event_type \<Rightarrow> subscription_status" where
  "status_of_event PaymentSucceeded = Active"
| "status_of_event PaymentFailed = PastDue"

text \<open>The body of \<open>consumeWebhook\<close>'s transaction; every \<open>return\<close> in it commits.\<close>
definition apply_event ::
  "uuid \<Rightarrow> instant \<Rightarrow> provider_name \<Rightarrow> string \<Rightarrow> payment_event_type \<Rightarrow> string \<Rightarrow> ctx \<Rightarrow> tdb \<Rightarrow>
     exn + unit \<times> tdb" where
  "apply_event new_id now p event_id ty reference c db =
     (let (claimed, db1) = claimEvent new_id now p event_id db in
      if \<not> claimed then Inr ((), db1)
      else case subscription_findByReference c reference db1 of
             None \<Rightarrow> Inr ((), db1)
           | Some s \<Rightarrow>
               if \<not> subscription_canTransition (sub_status s) (status_of_event ty) then Inr ((), db1)
               else subscription_updateStatus c (e_id s) (status_of_event ty) db1)"

text \<open>\<open>reference.split\<close> of anything but a string is a TypeError.\<close>
definition consumeWebhook ::
  "(string \<Rightarrow> bool) \<Rightarrow> (json \<Rightarrow> string) \<Rightarrow> uuid \<Rightarrow> instant \<Rightarrow> provider_name \<Rightarrow> payment_event \<Rightarrow> tdb \<Rightarrow>
     exn + unit \<times> tdb" where
  "consumeWebhook isUUID pg_text new_id now p ev db =
     (case pe_subscriptionReference ev of
        JStr reference \<Rightarrow>
          (case tenantFromReference isUUID reference of
             None \<Rightarrow> Inr ((), db)
           | Some t \<Rightarrow> runInTenantContext t
               (apply_event new_id now p (pg_text (pe_id ev)) (pe_type ev) reference) db)
      | _ \<Rightarrow> Inl (PlainError ''reference.split is not a function''))"

section \<open>Entitlement\<close>

datatype staff_entitlement = Unmetered | Unlimited | Capped int

definition resolveStaffEntitlement :: "ctx \<Rightarrow> gdb \<Rightarrow> tdb \<Rightarrow> exn + staff_entitlement" where
  "resolveStaffEntitlement c g db =
     bindE (subscription_findActive c db) (\<lambda>s.
       let pl = (case s of
                   Some s' \<Rightarrow> if sub_status s' \<noteq> Canceled then plan_findById (sub_planId s') g
                              else getDefaultPlan g
                 | None \<Rightarrow> getDefaultPlan g) in
       Inr (case pl of None \<Rightarrow> Unmetered
            | Some p \<Rightarrow> if pl_maxStaff p < 0 then Unlimited else Capped (pl_maxStaff p)))"

definition plan_limit_exceeded :: "int \<Rightarrow> exn" where
  "plan_limit_exceeded n =
     AppException 402 ''PLAN_LIMIT_EXCEEDED'' (''Plan allows at most '' @ int_str n @ '' staff'') None"

definition assertWithinStaffLimit :: "ctx \<Rightarrow> nat \<Rightarrow> gdb \<Rightarrow> tdb \<Rightarrow> exn + unit" where
  "assertWithinStaffLimit c n g db =
     bindE (resolveStaffEntitlement c g db) (\<lambda>e.
       case e of Capped m \<Rightarrow> guardE (int n < m) (plan_limit_exceeded m) | _ \<Rightarrow> Inr ())"

section \<open>The webhook endpoint\<close>

text \<open>\<open>req.rawBody ?? ''\<close> and \<open>String(header ?? '')\<close>; \<open>now_ms\<close> is \<open>Date.now()\<close>, \<open>now\<close> the database's clock.\<close>
definition handleWebhook ::
  "payment_env \<Rightarrow> (string \<Rightarrow> bool) \<Rightarrow> (json \<Rightarrow> string) \<Rightarrow> nat \<Rightarrow> uuid \<Rightarrow> instant \<Rightarrow> string \<Rightarrow>
     string option \<Rightarrow> string option \<Rightarrow> tdb \<Rightarrow> exn + unit \<times> tdb" where
  "handleWebhook env isUUID pg_text now_ms new_id now provider rawBody header db =
     (let raw = (case rawBody of None \<Rightarrow> [] | Some b \<Rightarrow> b);
          sig = (case header of None \<Rightarrow> [] | Some h \<Rightarrow> h) in
      bindE (payment_verifyWebhook env now_ms provider raw sig) (\<lambda>ok.
      bindE (guardE ok (UnauthorizedException ''Invalid webhook signature'')) (\<lambda>_.
      bindE (payment_parseEvent env provider raw) (\<lambda>ev.
      bindE (requireE ev (BadRequestException ''Unrecognised webhook payload'')) (\<lambda>event.
      bindE (registry_get provider) (\<lambda>p.
        consumeWebhook isUUID pg_text new_id now p event db))))))"

section \<open>Facts\<close>

lemma subscription_findActive_tx:
  "t \<noteq> [] \<Longrightarrow> subscription_findActive (tenant_tx t) db =
     Inr (case sort_key (\<lambda>s. - e_createdAt s) (filter (\<lambda>s. live s \<and> e_tenantId s = t) (subscriptions db)) of
            [] \<Rightarrow> None | s # _ \<Rightarrow> Some s)"
  by (auto simp: subscription_findActive_def intro!: arg_cong [where f = "case_list _ _"]
      split: list.splits) (metis (mono_tags, lifting) filter_cong list.distinct(1) list.inject)+

lemma payment_createCheckout_known:
  "payment_createCheckout env (provider_str p) inp = Inr (provider_createCheckout env p inp)"
  by (cases p) (simp_all add: payment_createCheckout_def registry_get_def)

lemma provider_createCheckout_reference [simp]:
  "co_reference (provider_createCheckout env p inp) = ci_reference inp"
  by (cases p) (simp_all add: sepay_createCheckout_def stripe_createCheckout_def)

lemma subscribe_Inr:
  assumes "t \<noteq> []" "subscribe env (tenant_tx t) nonce i now planId p g db = Inr ((s, co), db')"
  obtains pl rows where "plan_findById planId g = Some pl"
    "insert_checked subscriptions_cs
        (subscription_row i now (e_id pl) p (buildReference nonce t) Trialing\<lparr>e_tenantId := t\<rparr>)
        (subscriptions db) = Inr rows"
    "s = subscription_row i now (e_id pl) p (buildReference nonce t) Trialing\<lparr>e_tenantId := t\<rparr>"
    "db' = db\<lparr>subscriptions := rows\<rparr>" "co_reference co = buildReference nonce t"
proof -
  obtain pl where pl: "plan_findById planId g = Some pl"
    using assms(2) by (auto simp: subscribe_def result_simps)
  obtain ex where ex: "subscription_findActive (tenant_tx t) db = Inr ex"
    using assms(1) by (simp add: subscription_findActive_tx)
  let ?ok = "case ex of None \<Rightarrow> True | Some s \<Rightarrow> sub_status s = Canceled"
  let ?row = "subscription_row i now (e_id pl) p (buildReference nonce t) Trialing"
  have ok: ?ok
  proof (rule ccontr)
    assume "\<not> ?ok"
    then show False using assms(2) by (simp add: subscribe_def pl ex)
  qed
  have sub: "subscribe env (tenant_tx t) nonce i now planId p g db =
      mapErr (on_code unique_violation already_subscribed)
        (bindE (insert_checked subscriptions_cs (?row\<lparr>e_tenantId := t\<rparr>) (subscriptions db))
           (\<lambda>rows. Inr ((?row\<lparr>e_tenantId := t\<rparr>, provider_createCheckout env p
              \<lparr>ci_reference = buildReference nonce t, ci_amount = pl_priceAmount pl,
               ci_currency = pl_priceCurrency pl, ci_description = pl_name pl\<rparr>),
              db\<lparr>subscriptions := rows\<rparr>)))"
    using assms(1) ok
    by (simp add: subscribe_def pl ex Let_def payment_createCheckout_known subscription_create_def bindE_assoc)
  show thesis
  proof (cases "insert_checked subscriptions_cs (?row\<lparr>e_tenantId := t\<rparr>) (subscriptions db)")
    case (Inl e)
    then show ?thesis using assms(2) by (simp add: sub)
  next
    case (Inr rows)
    show ?thesis using assms(2) by (intro that [OF pl Inr]) (auto simp: sub Inr)
  qed
qed

lemma some_signature_error: "some_signature x sigs = Inl e \<Longrightarrow> \<exists>m. e = PlainError m"
  by (induction x sigs rule: some_signature.induct)
    (auto simp: timingSafeEqual_def split: if_splits)

lemma provider_verify_error: "provider_verifyWebhook env now p raw sig = Inl e \<Longrightarrow> \<exists>m. e = PlainError m"
  by (cases p) (auto simp: sepay_verifyWebhook_def stripe_verifyWebhook_def timingSafeEqual_def Let_def
      split: if_splits option.splits dest: some_signature_error)

lemma claimEvent_frame:
  assumes "claimEvent i now p e db = (w, db')"
  shows "subscriptions db' = subscriptions db" "bookings db' = bookings db"
    "sat_all webhook_receipts_cs (webhook_receipts db) \<Longrightarrow> sat_all webhook_receipts_cs (webhook_receipts db')"
  using assms by (auto simp: claimEvent_def split: sum.splits intro: webhook_receipts_tbl.insert_sat)

lemma subscription_updateStatus_tx:
  assumes "subscription_updateStatus (tenant_tx t) i st db = Inr (u, db')"
  shows "db' = db\<lparr>subscriptions := update_where (\<lambda>s. e_tenantId s = t \<and> e_id s = i)
                   (\<lambda>s. s\<lparr>sub_status := st\<rparr>) (subscriptions db)\<rparr>"
    and "sat_all subscriptions_cs (subscriptions db')"
  using assms
  by (auto simp: subscription_updateStatus_def rls_update_def Let_def result_simps
      dest: update_checked_eq subscriptions_tbl.update_sat)

lemma apply_event_cases:
  assumes "apply_event i now p e ty r (tenant_tx t) db = Inr (u, db')"
  obtains (dropped) "db' = db" "\<And>db''. claimEvent i now p e db \<noteq> (True, db'')"
    | (noted) "claimEvent i now p e db = (True, db')"
    | (applied) s db1 where "claimEvent i now p e db = (True, db1)"
        "subscription_findByReference (tenant_tx t) r db1 = Some s"
        "subscription_canTransition (sub_status s) (status_of_event ty)"
        "subscription_updateStatus (tenant_tx t) (e_id s) (status_of_event ty) db1 = Inr (u, db')"
proof -
  obtain w db1 where c: "claimEvent i now p e db = (w, db1)" by fastforce
  show thesis
  proof (cases w)
    case False
    then have "db1 = db" using c claimEvent_lost by auto
    then show thesis using assms c False dropped by (auto simp: apply_event_def)
  next
    case True
    then show thesis using assms c noted applied
      by (auto simp: apply_event_def split: option.splits if_splits)
  qed
qed

lemma apply_event_taken:
  "receipt_taken db (p, e) \<Longrightarrow> apply_event i now p e ty r (tenant_tx t) db = Inr ((), db)"
  by (simp add: apply_event_def claimEvent_taken)

lemma receipt_taken_frame:
  "webhook_receipts db' = webhook_receipts db \<Longrightarrow> receipt_taken db' k = receipt_taken db k"
  by (simp add: receipt_taken_def)

lemma receipt_taken_mono:
  "receipt_taken db k \<Longrightarrow> set (webhook_receipts db) \<subseteq> set (webhook_receipts db') \<Longrightarrow> receipt_taken db' k"
  by (auto simp: receipt_taken_def list_ex_iff)

text \<open>A successful application leaves the receipt behind, unless the generated row id collided.\<close>
lemma apply_event_takes:
  assumes "apply_event i now p e ty r (tenant_tx t) db = Inr (u, db')"
    and "i \<notin> wr_id ` set (webhook_receipts db)"
  shows "receipt_taken db' (p, e)"
  using assms(1)
proof (cases rule: apply_event_cases)
  case dropped
  then obtain err where "insert_checked webhook_receipts_cs
      \<lparr>wr_id = i, wr_createdAt = now, wr_provider = p, wr_eventId = e\<rparr> (webhook_receipts db) = Inl err"
    by (fastforce simp: claimEvent_def split: sum.splits)
  from insert_checked_Inl [OF this] have "receipt_taken db (p, e)"
    using assms(2) by (auto simp: webhook_receipts_cs_def receipt_taken_def list_ex_iff)
  then show ?thesis using dropped by simp
next
  case noted
  then show ?thesis by (rule claimEvent_won)
next
  case (applied s db1)
  have "receipt_taken db1 (p, e)" using applied(1) by (rule claimEvent_won)
  moreover have "webhook_receipts db' = webhook_receipts db1"
    using subscription_updateStatus_tx(1) [OF applied(4)] by simp
  ultimately show ?thesis using receipt_taken_frame by blast
qed

text \<open>What an applied event does to the subscriptions: one legal status change at most.\<close>
definition event_step ::
  "uuid \<Rightarrow> string \<Rightarrow> subscription_status \<Rightarrow> subscription \<Rightarrow> subscription \<Rightarrow> bool" where
  "event_step t r st s s' \<longleftrightarrow> s' = s \<or>
     (e_tenantId s = t \<and> sub_providerReference s = r \<and>
      subscription_canTransition (sub_status s) st \<and> s' = s\<lparr>sub_status := st\<rparr>)"

lemma apply_event_subscriptions:
  assumes "t \<noteq> []" "sat_all subscriptions_cs (subscriptions db)"
    and "apply_event i now p e ty r (tenant_tx t) db = Inr (u, db')"
  shows "list_all2 (event_step t r (status_of_event ty)) (subscriptions db) (subscriptions db')"
    and "sat_all subscriptions_cs (subscriptions db')"
proof -
  have refl: "list_all2 (event_step t r (status_of_event ty)) rows rows" for rows
    by (rule list_all2_refl) (simp add: event_step_def)
  have "list_all2 (event_step t r (status_of_event ty)) (subscriptions db) (subscriptions db') \<and>
        sat_all subscriptions_cs (subscriptions db')"
    using assms(3)
  proof (cases rule: apply_event_cases)
    case dropped
    then show ?thesis using refl assms(2) by simp
  next
    case noted
    then show ?thesis using refl assms(2) claimEvent_frame(1) by simp
  next
    case (applied s db1)
    let ?q = "\<lambda>x. e_tenantId x = t \<and> e_id x = e_id s"
    let ?f = "\<lambda>x. x\<lparr>sub_status := status_of_event ty\<rparr>"
    have rows: "subscriptions db1 = subscriptions db" using applied(1) by (rule claimEvent_frame)
    have s: "s \<in> set (subscriptions db)" "e_tenantId s = t" "sub_providerReference s = r"
      using find_Some_mem [OF applied(2) [unfolded subscription_findByReference_def]] by (auto simp: rows)
    have only: "x = s" if "x \<in> set (subscriptions db)" "?q x" for x
      using subscriptions_tbl.key_inj [OF assms(2) that(1) s(1)] that(2) by simp
    have "event_step t r (status_of_event ty) x (if ?q x then ?f x else x)"
      if "x \<in> set (subscriptions db)" for x
      using only [OF that] s applied(3) by (auto simp: event_step_def)
    then have "list_all2 (event_step t r (status_of_event ty)) (subscriptions db)
                 (update_where ?q ?f (subscriptions db))"
      by (simp add: update_where_def list_all2_conv_all_nth)
    then show ?thesis using subscription_updateStatus_tx [OF applied(4)] by (simp add: rows)
  qed
  then show "list_all2 (event_step t r (status_of_event ty)) (subscriptions db) (subscriptions db')"
    "sat_all subscriptions_cs (subscriptions db')" by simp_all
qed

lemma consumeWebhook_tx:
  "pe_subscriptionReference ev = JStr r \<Longrightarrow> tenantFromReference isUUID r = Some t \<Longrightarrow>
     consumeWebhook isUUID pg_text i now p ev db =
       apply_event i now p (pg_text (pe_id ev)) (pe_type ev) r (tenant_tx t) db"
  by (simp add: consumeWebhook_def runInTenantContext_def)

lemma consumeWebhook_cases:
  assumes "consumeWebhook isUUID pg_text i now p ev db = Inr (u, db')"
  obtains (ignored) r where "pe_subscriptionReference ev = JStr r" "tenantFromReference isUUID r = None"
      "db' = db"
    | (consumed) r t where "pe_subscriptionReference ev = JStr r" "tenantFromReference isUUID r = Some t"
      "apply_event i now p (pg_text (pe_id ev)) (pe_type ev) r (tenant_tx t) db = Inr (u, db')"
  using assms by (auto simp: consumeWebhook_def runInTenantContext_def split: json.splits option.splits)

section \<open>Properties\<close>

text \<open>
  The correlation id built for a tenant gives that tenant back: a webhook that echoes it enters
  exactly the scope of the tenant that subscribed.
\<close>
theorem reference_roundtrip:
  assumes "isUUID t" "isUUID nonce" "\<And>u. isUUID u \<Longrightarrow> u \<noteq> [] \<and> CHR ''_'' \<notin> set u"
  shows "tenantFromReference isUUID (buildReference nonce t) = Some t"
  using assms by (intro tenantFromReference_buildReference) auto

theorem reference_roundtrip_witness:
  "tenantFromReference (\<lambda>u. u \<in> {''a1-b2'', ''c3-d4''}) (buildReference ''c3-d4'' ''a1-b2'') = Some ''a1-b2''"
  by (rule reference_roundtrip) auto

text \<open>
  C20. Delivering the same provider event again changes nothing, at any later time: once a webhook was
  consumed, a second delivery of it (whatever ids and clock the database would use) commits without
  touching the state, in every state that still holds the receipts of that moment, whatever has
  happened to the subscriptions since: a late duplicate of a payment does not revive a subscription that has fallen
  past due.
\<close>
theorem webhook_redelivery_noop:
  assumes "consumeWebhook isUUID pg_text i now p ev db = Inr (u, db')"
    and "i \<notin> wr_id ` set (webhook_receipts db)"
    and "set (webhook_receipts db') \<subseteq> set (webhook_receipts later)"
  shows "consumeWebhook isUUID pg_text j now2 p ev later = Inr ((), later)"
  using assms(1)
proof (cases rule: consumeWebhook_cases)
  case (ignored r)
  then show ?thesis by (simp add: consumeWebhook_def)
next
  case (consumed r t)
  then have "receipt_taken db' (p, pg_text (pe_id ev))" using assms(2) apply_event_takes by blast
  then have "receipt_taken later (p, pg_text (pe_id ev))" using assms(3) by (rule receipt_taken_mono)
  then show ?thesis using consumed by (simp add: consumeWebhook_tx apply_event_taken)
qed

text \<open>
  C21. A webhook moves subscriptions only along the state machine: each stored subscription is kept as
  it is, or is the one the event's reference names, in that reference's tenant, and only its status
  changes, by a transition the table allows; the indexes still hold afterwards.
\<close>
theorem webhook_effect:
  assumes "consumeWebhook isUUID pg_text i now p ev db = Inr (u, db')"
    and "pe_subscriptionReference ev = JStr r" "tenantFromReference isUUID r = Some t"
    and "sat_all subscriptions_cs (subscriptions db)"
  shows "list_all2 (event_step t r (status_of_event (pe_type ev))) (subscriptions db) (subscriptions db') \<and>
         sat_all subscriptions_cs (subscriptions db')"
proof -
  have "t \<noteq> []" using tenantFromReference_uuid [OF assms(3)] by simp
  moreover have "apply_event i now p (pg_text (pe_id ev)) (pe_type ev) r (tenant_tx t) db = Inr (u, db')"
    using assms(1-3) by (simp add: consumeWebhook_tx)
  ultimately show ?thesis using apply_event_subscriptions assms(4) by blast
qed

text \<open>
  C23. After a successful \<open>subscribe\<close> the tenant has exactly one subscription that is not cancelled,
  the new one: trialing, on the requested plan, with a reference that names the tenant.
\<close>
theorem subscribe_single_live:
  assumes "t \<noteq> []" "sat_all subscriptions_cs (subscriptions db)"
    and "subscribe env (tenant_tx t) nonce i now planId p g db = Inr ((s, co), db')"
  shows "filter (\<lambda>x. live_subscription x \<and> e_tenantId x = t) (subscriptions db') = [s] \<and>
         sub_status s = Trialing \<and> sub_planId s = planId \<and>
         sub_providerReference s = buildReference nonce t \<and> co_reference co = buildReference nonce t"
proof -
  obtain pl rows where pl: "plan_findById planId g = Some pl"
    and ins: "insert_checked subscriptions_cs
        (subscription_row i now (e_id pl) p (buildReference nonce t) Trialing\<lparr>e_tenantId := t\<rparr>)
        (subscriptions db) = Inr rows"
    and res: "s = subscription_row i now (e_id pl) p (buildReference nonce t) Trialing\<lparr>e_tenantId := t\<rparr>"
      "db' = db\<lparr>subscriptions := rows\<rparr>" "co_reference co = buildReference nonce t"
    using assms(1,3) by (rule subscribe_Inr)
  have id: "e_id pl = planId" using pl find_Some_mem unfolding plan_findById_def by fastforce
  have none: "\<not> (live_subscription x \<and> e_tenantId x = t)" if "x \<in> set (subscriptions db)" for x
    using ins that
    by (auto simp: insert_checked_Inr_iff subscriptions_cs_def subscription_row_def live_subscription_def live_def)
  then have "filter (\<lambda>x. live_subscription x \<and> e_tenantId x = t) (subscriptions db) = []"
    by (simp add: filter_empty_conv)
  moreover have "rows = subscriptions db @ [s]" using insert_checked_eq [OF ins] res(1) by simp
  moreover have "live_subscription s" "e_tenantId s = t"
    by (simp_all add: res(1) subscription_row_def live_subscription_def live_def)
  ultimately show ?thesis using id res by (simp add: subscription_row_def)
qed

text \<open>
  The staff entitlement fails closed on overage: the guard refuses with 402 exactly when a plan
  with a non-negative cap is in force and the count has reached it; the plan in force is the one of
  the tenant's newest subscription unless that is cancelled, else the free plan.
\<close>
theorem staff_limit_spec:
  assumes "t \<noteq> []"
  shows "assertWithinStaffLimit (tenant_tx t) n g db =
    (let newest = sort_key (\<lambda>s. - e_createdAt s)
                    (filter (\<lambda>s. live s \<and> e_tenantId s = t) (subscriptions db));
         inforce = (if newest = [] \<or> sub_status (hd newest) = Canceled then getDefaultPlan g
                    else plan_findById (sub_planId (hd newest)) g) in
     case inforce of
       None \<Rightarrow> Inr ()
     | Some pl \<Rightarrow> if 0 \<le> pl_maxStaff pl \<and> pl_maxStaff pl \<le> int n
                  then Inl (plan_limit_exceeded (pl_maxStaff pl)) else Inr ())"
  using assms
  by (auto simp: assertWithinStaffLimit_def resolveStaffEntitlement_def subscription_findActive_tx Let_def
      guardE_def split: option.splits list.splits)

definition sample_plan :: plan where
  "sample_plan =
     \<lparr>e_id = ''p1'', e_createdAt = 0, e_deletedAt = None, pl_code = ''free'', pl_name = ''Free'',
      pl_priceAmount = 0, pl_priceCurrency = ''VND'', pl_maxStaff = 2, pl_maxBookingsPerMonth = 50\<rparr>"

definition sample_plans :: gdb where
  "sample_plans = empty_gdb\<lparr>plans := [sample_plan]\<rparr>"

definition sample_env :: payment_env where
  "sample_env =
     \<lparr>en_hmac = (\<lambda>_ _. [171]), en_parse = (\<lambda>_. None), en_sepay_secret = ''s'', en_stripe_secret = ''t'',
      en_tolerance = 300, en_sepay_base = ''https://x/pay/sepay'', en_stripe_base = ''https://x/pay/stripe''\<rparr>"

definition sample_subscription :: subscription where
  "sample_subscription =
     \<lparr>e_id = ''s1'', e_createdAt = 7, e_deletedAt = None, e_tenantId = ''t1'', sub_planId = ''p1'',
      sub_provider = Sepay, sub_providerReference = ''sub_t1_n1'', sub_status = Trialing\<rparr>"

definition sample_event :: payment_event where
  "sample_event =
     \<lparr>pe_id = JStr ''ev1'', pe_type = PaymentSucceeded, pe_subscriptionReference = JStr ''sub_t1_n1''\<rparr>"

definition sample_billing :: tdb where
  "sample_billing = empty_tdb\<lparr>subscriptions := [sample_subscription]\<rparr>"

lemmas sample_billing_defs =
  sample_plan_def sample_plans_def sample_env_def sample_subscription_def sample_event_def
  sample_billing_def empty_gdb_def empty_tdb_def

lemma sample_consume:
  "consumeWebhook (\<lambda>u. u = ''t1'') (\<lambda>_. ''ev1'') ''w1'' 9 Sepay sample_event sample_billing =
     Inr ((), sample_billing\<lparr>
       subscriptions := [sample_subscription\<lparr>sub_status := Active\<rparr>],
       webhook_receipts := [\<lparr>wr_id = ''w1'', wr_createdAt = 9, wr_provider = Sepay, wr_eventId = ''ev1''\<rparr>]\<rparr>)"
  by code_simp

definition sample_lapsed :: tdb where
  "sample_lapsed = sample_billing\<lparr>
     subscriptions := [sample_subscription\<lparr>sub_status := PastDue\<rparr>],
     webhook_receipts :=
       [\<lparr>wr_id = ''w1'', wr_createdAt = 9, wr_provider = Sepay, wr_eventId = ''ev1''\<rparr>,
        \<lparr>wr_id = ''w7'', wr_createdAt = 50, wr_provider = Sepay, wr_eventId = ''ev2''\<rparr>]\<rparr>"

theorem webhook_redelivery_noop_witness:
  "consumeWebhook (\<lambda>u. u = ''t1'') (\<lambda>_. ''ev1'') ''w2'' 99 Sepay sample_event sample_lapsed =
     Inr ((), sample_lapsed)"
  by (rule webhook_redelivery_noop [OF sample_consume])
    (simp_all add: sample_lapsed_def sample_billing_defs)

lemma sample_billing_sat: "sat_all subscriptions_cs (subscriptions sample_billing)"
  by (simp add: sample_billing_defs sat_all_def violates_def list_all_iff)

theorem webhook_effect_witness:
  "list_all2 (event_step ''t1'' ''sub_t1_n1'' Active) [sample_subscription]
     [sample_subscription\<lparr>sub_status := Active\<rparr>]"
  using webhook_effect [OF sample_consume, of "''sub_t1_n1''" "''t1''"] sample_billing_sat
  by (simp add: sample_event_def tenantFromReference_def) (simp add: sample_billing_defs)

theorem subscribe_single_live_witness:
  "filter (\<lambda>x. live_subscription x \<and> e_tenantId x = ''t1'')
     (subscriptions (snd (projr (subscribe sample_env (tenant_tx ''t1'') ''n1'' ''s1'' 7 ''p1'' Sepay
        sample_plans empty_tdb)))) = [sample_subscription]"
proof -
  have "case subscribe sample_env (tenant_tx ''t1'') ''n1'' ''s1'' 7 ''p1'' Sepay sample_plans empty_tdb of
     Inr ((s, _), _) \<Rightarrow> s = sample_subscription | Inl _ \<Rightarrow> False"
    by code_simp
  then obtain co db' where "subscribe sample_env (tenant_tx ''t1'') ''n1'' ''s1'' 7 ''p1'' Sepay
     sample_plans empty_tdb = Inr ((sample_subscription, co), db')"
    by (auto split: sum.splits prod.splits)
  from subscribe_single_live [OF _ _ this] this show ?thesis by (simp add: empty_tdb_def)
qed

theorem staff_limit_spec_witness:
  "assertWithinStaffLimit (tenant_tx ''t1'') 2 sample_plans sample_billing = Inl (plan_limit_exceeded 2) \<and>
   assertWithinStaffLimit (tenant_tx ''t1'') 1 sample_plans sample_billing = Inr ()"
  by (simp add: staff_limit_spec Let_def)
    (simp add: sample_billing_defs live_def plan_findById_def)

text \<open>
  C22. An unauthentic webhook is refused before anything is read or written: whatever the request
  carries as its body and its signature header, either of them possibly missing, unless the signature carries
  the MAC of the raw body under the provider's secret (for Stripe with a fresh timestamp), the endpoint
  fails, with 401 or, where the runtime's comparison itself throws, with an unhandled error. A missing
  header or body counts as the empty text, as in the code.
\<close>
theorem forged_webhook_refused:
  assumes "registry_get name = Inr p"
    and "\<not> provider_genuine env now_ms p
      (case rawBody of None \<Rightarrow> [] | Some b \<Rightarrow> b) (case header of None \<Rightarrow> [] | Some h \<Rightarrow> h)"
  shows "\<exists>e. handleWebhook env isUUID pg_text now_ms i now name rawBody header db = Inl e \<and>
           (e = UnauthorizedException ''Invalid webhook signature'' \<or> (\<exists>m. e = PlainError m))"
proof -
  let ?raw = "case rawBody of None \<Rightarrow> [] | Some b \<Rightarrow> b"
  let ?sig = "case header of None \<Rightarrow> [] | Some h \<Rightarrow> h"
  have no: "provider_verifyWebhook env now_ms p ?raw ?sig \<noteq> Inr True"
    using assms(2) by (rule providers.forged_rejected)
  show ?thesis
  proof (cases "provider_verifyWebhook env now_ms p ?raw ?sig")
    case (Inl e)
    then have "\<exists>m. e = PlainError m" by (rule provider_verify_error)
    then show ?thesis using assms(1) Inl
      by (auto simp: handleWebhook_def payment_verifyWebhook_def Let_def)
  next
    case (Inr ok)
    then show ?thesis using assms(1) no
      by (cases ok) (auto simp: handleWebhook_def payment_verifyWebhook_def Let_def)
  qed
qed

theorem forged_webhook_refused_witness:
  "(\<exists>e. handleWebhook sample_env (\<lambda>_. True) (\<lambda>_. []) 0 ''w1'' 0 ''sepay'' (Some ''{}'') (Some ''ac'') empty_tdb = Inl e) \<and>
   (\<exists>e. handleWebhook sample_env (\<lambda>_. True) (\<lambda>_. []) 0 ''w1'' 0 ''stripe'' (Some ''{}'') None empty_tdb = Inl e)"
proof
  have "\<not> provider_genuine sample_env 0 Sepay
      (case Some ''{}'' of None \<Rightarrow> [] | Some b \<Rightarrow> b) (case Some ''ac'' of None \<Rightarrow> [] | Some h \<Rightarrow> h)"
    by code_simp
  moreover have "registry_get ''sepay'' = Inr Sepay" by (simp add: registry_get_def)
  ultimately show "\<exists>e. handleWebhook sample_env (\<lambda>_. True) (\<lambda>_. []) 0 ''w1'' 0 ''sepay''
      (Some ''{}'') (Some ''ac'') empty_tdb = Inl e"
    using forged_webhook_refused by blast
next
  have "\<not> provider_genuine sample_env 0 Stripe
      (case Some ''{}'' of None \<Rightarrow> [] | Some b \<Rightarrow> b) (case None of None \<Rightarrow> [] | Some h \<Rightarrow> h)"
    by code_simp
  moreover have "registry_get ''stripe'' = Inr Stripe" by (simp add: registry_get_def)
  ultimately show "\<exists>e. handleWebhook sample_env (\<lambda>_. True) (\<lambda>_. []) 0 ''w1'' 0 ''stripe''
      (Some ''{}'') None empty_tdb = Inl e"
    using forged_webhook_refused by blast
qed

section \<open>Known gaps\<close>

text \<open>\<open>findActive\<close> has no filter on the status: the latest subscription is found when it is canceled too.\<close>
lemma canceled_found:
  "subscription_findActive (tenant_tx ''t1'') (empty_tdb\<lparr>subscriptions := [sample_subscription\<lparr>sub_status := Canceled\<rparr>]\<rparr>) =
     Inr (Some (sample_subscription\<lparr>sub_status := Canceled\<rparr>))"
  by code_simp

end
