(* ===== verification/Directory.thy ===== *)
theory Directory
  imports Catalog Billing
begin

text \<open>
  Who works for a tenant and what they can do: memberships (\<open>src/modules/membership\<close>, global rows
  looked up before any tenant context exists), the staff directory (\<open>src/modules/staff\<close>), the staff
  to service links (\<open>src/modules/staff-service\<close>), weekly working hours (\<open>src/modules/working-hours\<close>)
  and time off (\<open>src/modules/time-off\<close>).
\<close>

section \<open>Memberships\<close>

definition membership_findByUser :: "uuid \<Rightarrow> gdb \<Rightarrow> membership list" where
  "membership_findByUser u g =
     sort_key e_createdAt (filter (\<lambda>m. live m \<and> mb_userId m = u) (memberships g))"

definition resolveRole :: "uuid \<Rightarrow> uuid \<Rightarrow> gdb \<Rightarrow> membership_role option" where
  "resolveRole u t g =
     map_option mb_role (find (\<lambda>m. live m \<and> mb_userId m = u \<and> mb_tenantId m = t) (memberships g))"

definition membership_create ::
  "uuid \<Rightarrow> instant \<Rightarrow> uuid \<Rightarrow> uuid \<Rightarrow> membership_role \<Rightarrow> gdb \<Rightarrow> exn + membership \<times> gdb" where
  "membership_create new_id now u t role g =
     (let m = \<lparr>e_id = new_id, e_createdAt = now, e_deletedAt = None, mb_userId = u, mb_tenantId = t,
               mb_role = role\<rparr> in
      bindE (insert_checked memberships_cs m (memberships g))
        (\<lambda>rows. Inr (m, g\<lparr>memberships := rows\<rparr>)))"

section \<open>Staff\<close>

record create_staff_dto =
  csd_userId :: uuid
  csd_displayName :: string

record update_staff_dto =
  usd_displayName :: "string option"
  usd_active :: "bool option"

definition valid_create_staff :: "(string \<Rightarrow> bool) \<Rightarrow> create_staff_dto \<Rightarrow> bool" where
  "valid_create_staff isUUID d \<longleftrightarrow> isUUID (csd_userId d) \<and> len_between 2 120 (csd_displayName d)"

definition valid_update_staff :: "update_staff_dto \<Rightarrow> bool" where
  "valid_update_staff d \<longleftrightarrow> opt (len_between 2 120) (usd_displayName d)"

definition staff_count :: "ctx \<Rightarrow> tdb \<Rightarrow> exn + nat" where
  "staff_count c db = bindE (findMany c (\<lambda>_. True) (staff_tbl db)) (\<lambda>rs. Inr (length rs))"

definition staff_of_dto :: "uuid \<Rightarrow> instant \<Rightarrow> create_staff_dto \<Rightarrow> staff_row" where
  "staff_of_dto new_id now d =
     \<lparr>e_id = new_id, e_createdAt = now, e_deletedAt = None, e_tenantId = [],
      st_userId = csd_userId d, st_displayName = csd_displayName d, st_active = True\<rparr>"

definition staff_create ::
  "ctx \<Rightarrow> uuid \<Rightarrow> instant \<Rightarrow> create_staff_dto \<Rightarrow> gdb \<Rightarrow> tdb \<Rightarrow> exn + staff_row \<times> tdb" where
  "staff_create c new_id now d g db =
     bindE (getTenantId c) (\<lambda>t.
     bindE (guardE (resolveRole (csd_userId d) t g \<noteq> None)
              (BadRequestException ''User is not a member of this tenant'')) (\<lambda>_.
     bindE (staff_count c db) (\<lambda>n.
     bindE (assertWithinStaffLimit c n g db) (\<lambda>_.
     mapErr (on_code unique_violation (ConflictException ''This user is already a staff member''))
       (bindE (persist c staff_cs (staff_of_dto new_id now d) (staff_tbl db))
          (\<lambda>(r, rows). Inr (r, db\<lparr>staff_tbl := rows\<rparr>)))))))"

definition staff_findById :: "ctx \<Rightarrow> uuid \<Rightarrow> tdb \<Rightarrow> exn + staff_row option" where
  "staff_findById c i db = findOne c (\<lambda>r. e_id r = i) (staff_tbl db)"

definition staff_getById :: "ctx \<Rightarrow> uuid \<Rightarrow> tdb \<Rightarrow> exn + staff_row" where
  "staff_getById c i db =
     bindE (staff_findById c i db) (\<lambda>r. requireE r (NotFoundException ''Staff not found''))"

definition staff_list ::
  "(staff_row list \<Rightarrow> staff_row list) \<Rightarrow> ctx \<Rightarrow> base_query \<Rightarrow> tdb \<Rightarrow> exn + staff_row list \<times> nat" where
  "staff_list ord c q db = findAndCount ord c (page_skip q) (q_limit q) (staff_tbl db)"

definition apply_staff_update :: "update_staff_dto \<Rightarrow> staff_row \<Rightarrow> staff_row" where
  "apply_staff_update d r =
     r\<lparr>st_displayName := or_default (st_displayName r) (usd_displayName d),
       st_active := or_default (st_active r) (usd_active d)\<rparr>"

definition staff_repo_update ::
  "ctx \<Rightarrow> uuid \<Rightarrow> update_staff_dto \<Rightarrow> tdb \<Rightarrow> exn + staff_row option \<times> tdb" where
  "staff_repo_update c i d db =
     bindE (scopedWhere c (\<lambda>r. e_id r = i)) (\<lambda>q.
     bindE (rls_update c staff_cs q (apply_staff_update d) (staff_tbl db)) (\<lambda>(n, rows).
       let db' = db\<lparr>staff_tbl := rows\<rparr> in
       if n = 0 then Inr (None, db')
       else bindE (staff_findById c i db') (\<lambda>r. Inr (r, db'))))"

definition staff_update :: "ctx \<Rightarrow> uuid \<Rightarrow> update_staff_dto \<Rightarrow> tdb \<Rightarrow> exn + staff_row \<times> tdb" where
  "staff_update c i d db =
     bindE (staff_repo_update c i d db) (\<lambda>(r, db').
     bindE (requireE r (NotFoundException ''Staff not found'')) (\<lambda>u. Inr (u, db')))"

definition staff_softRemove :: "ctx \<Rightarrow> instant \<Rightarrow> uuid \<Rightarrow> tdb \<Rightarrow> exn + bool \<times> tdb" where
  "staff_softRemove c now i db =
     bindE (scopedWhere c (\<lambda>r. e_id r = i)) (\<lambda>q.
     bindE (rls_update c staff_cs q (\<lambda>r. r\<lparr>e_deletedAt := Some now\<rparr>) (staff_tbl db)) (\<lambda>(n, rows).
       Inr (0 < n, db\<lparr>staff_tbl := rows\<rparr>)))"

definition staff_remove :: "ctx \<Rightarrow> instant \<Rightarrow> uuid \<Rightarrow> tdb \<Rightarrow> exn + unit \<times> tdb" where
  "staff_remove c now i db =
     bindE (staff_softRemove c now i db) (\<lambda>(ok, db').
       if ok then Inr ((), db') else Inl (NotFoundException ''Staff not found''))"

section \<open>Staff to service links\<close>

definition link_row :: "uuid \<Rightarrow> instant \<Rightarrow> uuid \<Rightarrow> uuid \<Rightarrow> staff_service_row" where
  "link_row new_id now staffId serviceId =
     \<lparr>e_id = new_id, e_createdAt = now, e_deletedAt = None, e_tenantId = [],
      ss_staffId = staffId, ss_serviceId = serviceId\<rparr>"

definition link ::
  "ctx \<Rightarrow> uuid \<Rightarrow> instant \<Rightarrow> uuid \<Rightarrow> uuid \<Rightarrow> tdb \<Rightarrow> exn + staff_service_row \<times> tdb" where
  "link c new_id now staffId serviceId db =
     bindE (staff_getById c staffId db) (\<lambda>_.
     bindE (service_getById c serviceId db) (\<lambda>_.
     mapErr (on_code unique_violation (ConflictException ''Service already linked to this staff''))
       (bindE (persist c staff_services_cs (link_row new_id now staffId serviceId) (staff_services db))
          (\<lambda>(r, rows). Inr (r, db\<lparr>staff_services := rows\<rparr>)))))"

definition capability_repo_unlink :: "ctx \<Rightarrow> uuid \<Rightarrow> uuid \<Rightarrow> tdb \<Rightarrow> exn + bool \<times> tdb" where
  "capability_repo_unlink c staffId serviceId db =
     bindE (scopedWhere c (\<lambda>r. ss_staffId r = staffId \<and> ss_serviceId r = serviceId)) (\<lambda>q.
       let (n, rows) = rls_delete c q (staff_services db) in
       Inr (0 < n, db\<lparr>staff_services := rows\<rparr>))"

definition unlink :: "ctx \<Rightarrow> uuid \<Rightarrow> uuid \<Rightarrow> tdb \<Rightarrow> exn + unit \<times> tdb" where
  "unlink c staffId serviceId db =
     bindE (capability_repo_unlink c staffId serviceId db) (\<lambda>(ok, db').
       if ok then Inr ((), db') else Inl (NotFoundException ''Capability not found''))"

definition capability_list :: "ctx \<Rightarrow> uuid \<Rightarrow> tdb \<Rightarrow> exn + staff_service_row list" where
  "capability_list c staffId db = findMany c (\<lambda>r. ss_staffId r = staffId) (staff_services db)"

definition capability_findLink :: "ctx \<Rightarrow> uuid \<Rightarrow> uuid \<Rightarrow> tdb \<Rightarrow> exn + staff_service_row option" where
  "capability_findLink c staffId serviceId db =
     findOne c (\<lambda>r. ss_staffId r = staffId \<and> ss_serviceId r = serviceId) (staff_services db)"

definition canPerform :: "ctx \<Rightarrow> uuid \<Rightarrow> uuid \<Rightarrow> tdb \<Rightarrow> exn + bool" where
  "canPerform c staffId serviceId db =
     bindE (capability_findLink c staffId serviceId db) (\<lambda>r. Inr (r \<noteq> None))"

definition capability_findByService :: "ctx \<Rightarrow> uuid \<Rightarrow> tdb \<Rightarrow> exn + staff_service_row list" where
  "capability_findByService c serviceId db = findMany c (\<lambda>r. ss_serviceId r = serviceId) (staff_services db)"

definition capableStaffIds :: "ctx \<Rightarrow> uuid \<Rightarrow> tdb \<Rightarrow> exn + uuid list" where
  "capableStaffIds c serviceId db =
     bindE (capability_findByService c serviceId db) (\<lambda>rs. Inr (map ss_staffId rs))"

section \<open>Working hours\<close>

record create_working_hours_dto =
  cwh_weekday :: int
  cwh_startMin :: int
  cwh_endMin :: int

definition valid_create_working_hours :: "create_working_hours_dto \<Rightarrow> bool" where
  "valid_create_working_hours d \<longleftrightarrow>
     between 0 6 (cwh_weekday d) \<and> between 0 1440 (cwh_startMin d) \<and> between 0 1440 (cwh_endMin d)"

definition hours_overlap :: exn where
  "hours_overlap = ConflictException ''Working hours overlap an existing interval''"

definition working_hours_row_of ::
  "uuid \<Rightarrow> instant \<Rightarrow> uuid \<Rightarrow> create_working_hours_dto \<Rightarrow> working_hours_row" where
  "working_hours_row_of new_id now staffId d =
     \<lparr>e_id = new_id, e_createdAt = now, e_deletedAt = None, e_tenantId = [], wh_staffId = staffId,
      wh_weekday = cwh_weekday d, wh_startMin = cwh_startMin d, wh_endMin = cwh_endMin d\<rparr>"

definition forStaffWeekday :: "ctx \<Rightarrow> uuid \<Rightarrow> int \<Rightarrow> tdb \<Rightarrow> exn + working_hours_row list" where
  "forStaffWeekday c staffId weekday db =
     findMany c (\<lambda>h. wh_staffId h = staffId \<and> wh_weekday h = weekday) (working_hours db)"

definition working_hours_create ::
  "ctx \<Rightarrow> uuid \<Rightarrow> instant \<Rightarrow> uuid \<Rightarrow> create_working_hours_dto \<Rightarrow> tdb \<Rightarrow> exn + working_hours_row \<times> tdb" where
  "working_hours_create c new_id now staffId d db =
     bindE (staff_getById c staffId db) (\<lambda>_.
     bindE (guardE (cwh_startMin d < cwh_endMin d) (BadRequestException ''startMin must be before endMin'')) (\<lambda>_.
     bindE (forStaffWeekday c staffId (cwh_weekday d) db) (\<lambda>sameDay.
     bindE (guardE (\<not> list_ex (\<lambda>h. cwh_startMin d < wh_endMin h \<and> wh_startMin h < cwh_endMin d) sameDay)
              hours_overlap) (\<lambda>_.
     mapErr (on_code exclusion_violation hours_overlap)
       (bindE (persist c working_hours_cs (working_hours_row_of new_id now staffId d) (working_hours db))
          (\<lambda>(r, rows). Inr (r, db\<lparr>working_hours := rows\<rparr>)))))))"

definition working_hours_list :: "ctx \<Rightarrow> uuid \<Rightarrow> tdb \<Rightarrow> exn + working_hours_row list" where
  "working_hours_list c staffId db =
     bindE (findMany c (\<lambda>h. wh_staffId h = staffId) (working_hours db))
       (\<lambda>hs. Inr (sort_key wh_weekday (sort_key wh_startMin hs)))"

definition working_hours_repo_remove :: "ctx \<Rightarrow> uuid \<Rightarrow> tdb \<Rightarrow> exn + bool \<times> tdb" where
  "working_hours_repo_remove c i db =
     bindE (scopedWhere c (\<lambda>r. e_id r = i)) (\<lambda>q.
       let (n, rows) = rls_delete c q (working_hours db) in Inr (0 < n, db\<lparr>working_hours := rows\<rparr>))"

definition working_hours_remove :: "ctx \<Rightarrow> uuid \<Rightarrow> tdb \<Rightarrow> exn + unit \<times> tdb" where
  "working_hours_remove c i db =
     bindE (working_hours_repo_remove c i db) (\<lambda>(ok, db').
       if ok then Inr ((), db') else Inl (NotFoundException ''Working hours not found''))"

section \<open>Time off\<close>

text \<open>The two dates are \<open>new Date(..)\<close> of the DTO's strings.\<close>
record create_time_off_dto =
  cto_startsAt :: js_date
  cto_endsAt :: js_date
  cto_reason :: "string option"

definition time_off_row_of ::
  "uuid \<Rightarrow> instant \<Rightarrow> uuid \<Rightarrow> instant \<Rightarrow> instant \<Rightarrow> string option \<Rightarrow> time_off_row" where
  "time_off_row_of new_id now staffId s e reason =
     \<lparr>e_id = new_id, e_createdAt = now, e_deletedAt = None, e_tenantId = [], to_staffId = staffId,
      to_startsAt = s, to_endsAt = e, to_reason = reason\<rparr>"

text \<open>\<open>NaN <= x\<close> is false, so an invalid date passes the comparison and fails in the database.\<close>
definition js_date_le :: "js_date \<Rightarrow> js_date \<Rightarrow> bool" where
  "js_date_le a b = (case (a, b) of (Some x, Some y) \<Rightarrow> x \<le> y | _ \<Rightarrow> False)"

definition time_off_create ::
  "ctx \<Rightarrow> uuid \<Rightarrow> instant \<Rightarrow> uuid \<Rightarrow> create_time_off_dto \<Rightarrow> tdb \<Rightarrow> exn + time_off_row \<times> tdb" where
  "time_off_create c new_id now staffId d db =
     bindE (staff_getById c staffId db) (\<lambda>_.
     bindE (guardE (\<not> js_date_le (cto_endsAt d) (cto_startsAt d))
              (BadRequestException ''endsAt must be after startsAt'')) (\<lambda>_.
     case (cto_startsAt d, cto_endsAt d) of
       (Some s, Some e) \<Rightarrow>
          bindE (persist c time_off_cs (time_off_row_of new_id now staffId s e (cto_reason d)) (time_off db))
            (\<lambda>(r, rows). Inr (r, db\<lparr>time_off := rows\<rparr>))
     | _ \<Rightarrow> bindE (getTenantId c) (\<lambda>_. Inl (DbError bad_datetime))))"

definition time_off_list :: "ctx \<Rightarrow> uuid \<Rightarrow> tdb \<Rightarrow> exn + time_off_row list" where
  "time_off_list c staffId db =
     bindE (findMany c (\<lambda>r. to_staffId r = staffId) (time_off db))
       (\<lambda>rs. Inr (sort_key to_startsAt rs))"

definition time_off_overlapping :: "ctx \<Rightarrow> uuid \<Rightarrow> instant \<Rightarrow> instant \<Rightarrow> tdb \<Rightarrow> exn + time_off_row list" where
  "time_off_overlapping c staffId from to db =
     findMany c (\<lambda>r. to_staffId r = staffId \<and> to_startsAt r < to \<and> from < to_endsAt r) (time_off db)"

definition time_off_repo_remove :: "ctx \<Rightarrow> uuid \<Rightarrow> tdb \<Rightarrow> exn + bool \<times> tdb" where
  "time_off_repo_remove c i db =
     bindE (scopedWhere c (\<lambda>r. e_id r = i)) (\<lambda>q.
       let (n, rows) = rls_delete c q (time_off db) in Inr (0 < n, db\<lparr>time_off := rows\<rparr>))"

definition time_off_remove :: "ctx \<Rightarrow> uuid \<Rightarrow> tdb \<Rightarrow> exn + unit \<times> tdb" where
  "time_off_remove c i db =
     bindE (time_off_repo_remove c i db) (\<lambda>(ok, db').
       if ok then Inr ((), db') else Inl (NotFoundException ''Time-off not found''))"

section \<open>Facts\<close>

lemma staff_getById_tx:
  "t \<noteq> [] \<Longrightarrow> staff_getById (tenant_tx t) i db =
     requireE (find (\<lambda>r. e_tenantId r = t \<and> live r \<and> e_id r = i) (staff_tbl db))
       (NotFoundException ''Staff not found'')"
  by (simp add: staff_getById_def staff_findById_def)

lemma find_not_None: "find p xs \<noteq> None \<longleftrightarrow> list_ex p xs"
  by (induction xs) auto

lemma canPerform_tx:
  "t \<noteq> [] \<Longrightarrow> canPerform (tenant_tx t) staffId serviceId db =
     Inr (list_ex (\<lambda>r. e_tenantId r = t \<and> live r \<and> ss_staffId r = staffId \<and> ss_serviceId r = serviceId)
            (staff_services db))"
  by (simp add: canPerform_def capability_findLink_def find_not_None del: not_None_eq)

text \<open>The weekly intervals of the live rows: what the DTO guard and the constraint keep.\<close>
definition working_hours_wf :: "working_hours_row list \<Rightarrow> bool" where
  "working_hours_wf hs \<longleftrightarrow> list_all (\<lambda>h. wh_startMin h < wh_endMin h) hs"

lemma working_hours_create_Inr:
  assumes "t \<noteq> []" "working_hours_create (tenant_tx t) i now staffId d db = Inr (r, db')"
  shows "r = working_hours_row_of i now staffId d\<lparr>e_tenantId := t\<rparr>"
    and "db' = db\<lparr>working_hours := working_hours db @ [r]\<rparr>" "cwh_startMin d < cwh_endMin d"
    and "insert_checked working_hours_cs r (working_hours db) = Inr (working_hours db')"
    and "\<And>h. h \<in> set (working_hours db) \<Longrightarrow> e_tenantId h = t \<Longrightarrow> live h \<Longrightarrow> wh_staffId h = staffId \<Longrightarrow>
           wh_weekday h = cwh_weekday d \<Longrightarrow> \<not> (cwh_startMin d < wh_endMin h \<and> wh_startMin h < cwh_endMin d)"
proof -
  let ?r = "working_hours_row_of i now staffId d\<lparr>e_tenantId := t\<rparr>"
  have "\<exists>rows. insert_checked working_hours_cs ?r (working_hours db) = Inr rows \<and>
           r = ?r \<and> db' = db\<lparr>working_hours := rows\<rparr>"
    and lt: "cwh_startMin d < cwh_endMin d"
    and free: "\<And>h. h \<in> set (working_hours db) \<Longrightarrow> e_tenantId h = t \<Longrightarrow> live h \<Longrightarrow> wh_staffId h = staffId \<Longrightarrow>
           wh_weekday h = cwh_weekday d \<Longrightarrow> \<not> (cwh_startMin d < wh_endMin h \<and> wh_startMin h < cwh_endMin d)"
    using assms
    by (auto simp: working_hours_create_def result_simps forStaffWeekday_def list_ex_iff)
  then obtain rows where rows: "insert_checked working_hours_cs ?r (working_hours db) = Inr rows"
      "r = ?r" "db' = db\<lparr>working_hours := rows\<rparr>" by blast
  show "r = ?r" by (rule rows)
  show "db' = db\<lparr>working_hours := working_hours db @ [r]\<rparr>"
    using rows insert_checked_eq [OF rows(1)] by simp
  show "insert_checked working_hours_cs r (working_hours db) = Inr (working_hours db')"
    using rows by simp
  show "cwh_startMin d < cwh_endMin d" by (rule lt)
  show "\<And>h. h \<in> set (working_hours db) \<Longrightarrow> e_tenantId h = t \<Longrightarrow> live h \<Longrightarrow> wh_staffId h = staffId \<Longrightarrow>
           wh_weekday h = cwh_weekday d \<Longrightarrow> \<not> (cwh_startMin d < wh_endMin h \<and> wh_startMin h < cwh_endMin d)"
    by (rule free)
qed

lemma working_hours_insert_checked:
  assumes "e_id r \<notin> e_id ` set rows"
  shows "insert_checked working_hours_cs r rows =
     (if list_ex (working_hours_conflict r) rows then Inl (DbError exclusion_violation) else Inr (rows @ [r]))"
proof -
  have "\<not> list_ex (pk_conflict r) rows" using assms by (auto simp: list_ex_iff pk_conflict_def)
  then show ?thesis by (simp add: insert_checked_def working_hours_cs_def)
qed

section \<open>Properties\<close>

text \<open>
  Working hours of one staff member on one weekday never overlap, and the friendly check and the
  database constraint agree: for non-empty stored intervals the request is refused with 409 exactly when
  it overlaps a live interval, is otherwise stored, and the constraint then still holds of the table.
\<close>
theorem working_hours_create_spec:
  assumes "t \<noteq> []" "i \<notin> e_id ` set (working_hours db)" "working_hours_wf (working_hours db)"
  shows "working_hours_create (tenant_tx t) i now staffId d db =
    (if find (\<lambda>r. e_tenantId r = t \<and> live r \<and> e_id r = staffId) (staff_tbl db) = None
       then Inl (NotFoundException ''Staff not found'')
     else if \<not> cwh_startMin d < cwh_endMin d
       then Inl (BadRequestException ''startMin must be before endMin'')
     else if list_ex (\<lambda>h. e_tenantId h = t \<and> live h \<and> wh_staffId h = staffId \<and> wh_weekday h = cwh_weekday d \<and>
               range_overlap (cwh_startMin d, cwh_endMin d) (wh_startMin h, wh_endMin h)) (working_hours db)
       then Inl hours_overlap
     else let r = working_hours_row_of i now staffId d\<lparr>e_tenantId := t\<rparr> in
       Inr (r, db\<lparr>working_hours := working_hours db @ [r]\<rparr>))"
proof -
  let ?r = "working_hours_row_of i now staffId d\<lparr>e_tenantId := t\<rparr>"
  let ?same = "\<lambda>h. e_tenantId h = t \<and> live h \<and> wh_staffId h = staffId \<and> wh_weekday h = cwh_weekday d"
  let ?clash = "\<lambda>h. cwh_startMin d < wh_endMin h \<and> wh_startMin h < cwh_endMin d"
  have wf: "wh_startMin h < wh_endMin h" if "h \<in> set (working_hours db)" for h
    using assms(3) that by (auto simp: working_hours_wf_def list_all_iff)
  have ov: "list_ex (\<lambda>h. ?same h \<and> range_overlap (cwh_startMin d, cwh_endMin d) (wh_startMin h, wh_endMin h))
      (working_hours db) = list_ex ?clash (filter ?same (working_hours db))"
    if "cwh_startMin d < cwh_endMin d"
    using that wf by (auto simp: list_ex_iff range_overlap_def)
  have ins: "insert_checked working_hours_cs ?r (working_hours db) = Inr (working_hours db @ [?r])"
    if "cwh_startMin d < cwh_endMin d" "\<not> list_ex ?clash (filter ?same (working_hours db))"
  proof -
    have "e_id ?r \<notin> e_id ` set (working_hours db)" using assms(2) by (simp add: working_hours_row_of_def)
    moreover have "\<not> list_ex (working_hours_conflict ?r) (working_hours db)"
      using that(2) by (auto simp: list_ex_iff working_hours_conflict_def working_hours_row_of_def range_overlap_def)
    ultimately show ?thesis by (simp add: working_hours_insert_checked)
  qed
  show ?thesis
  proof (cases "find (\<lambda>r. e_tenantId r = t \<and> live r \<and> e_id r = staffId) (staff_tbl db)")
    case None
    then show ?thesis using assms(1) by (simp add: working_hours_create_def staff_getById_tx)
  next
    case (Some st)
    show ?thesis
    proof (cases "cwh_startMin d < cwh_endMin d")
      case False
      then show ?thesis using assms(1) Some by (simp add: working_hours_create_def staff_getById_tx)
    next
      case lt: True
      show ?thesis
      proof (cases "list_ex ?clash (filter ?same (working_hours db))")
        case True
        then show ?thesis using assms(1) Some lt ov [OF lt]
          by (simp add: working_hours_create_def staff_getById_tx forStaffWeekday_def)
      next
        case False
        then show ?thesis using assms(1) Some lt ov [OF lt] ins [OF lt False]
          by (simp add: working_hours_create_def staff_getById_tx forStaffWeekday_def Let_def)
      qed
    qed
  qed
qed

theorem working_hours_create_spec_witness:
  "working_hours_create (tenant_tx ''t1'') ''w2'' 0 ''s1'' \<lparr>cwh_weekday = 1, cwh_startMin = 600, cwh_endMin = 660\<rparr>
     (empty_tdb\<lparr>staff_tbl := [\<lparr>e_id = ''s1'', e_createdAt = 0, e_deletedAt = None, e_tenantId = ''t1'',
                              st_userId = ''u1'', st_displayName = ''An'', st_active = True\<rparr>],
       working_hours := [\<lparr>e_id = ''w1'', e_createdAt = 0, e_deletedAt = None, e_tenantId = ''t1'',
                          wh_staffId = ''s1'', wh_weekday = 1, wh_startMin = 540, wh_endMin = 620\<rparr>]\<rparr>) =
   Inl hours_overlap"
  by (subst working_hours_create_spec)
    (simp_all add: working_hours_wf_def range_overlap_def live_def)

end
