(* ===== verification/Idempotency.thy ===== *)
theory Idempotency
  imports Tenancy Claims_Once
begin

text \<open>
  Idempotency-Key handling, \<open>src/modules/idempotency\<close>. \<open>run\<close> claims the key with an INSERT .. ON
  CONFLICT DO NOTHING, runs the operation on the same transaction and stores its serialised result;
  a request that finds the key taken replays the stored result. SHA-256, class-transformer's
  \<open>instanceToPlain\<close> followed by \<open>JSON.stringify\<close>, and the jsonb normalisation of the database are
  the parameters \<open>sha256\<close>, \<open>toPlain\<close> and \<open>jsonb\<close>.
\<close>

definition idem_row :: "uuid \<Rightarrow> instant \<Rightarrow> uuid \<Rightarrow> string \<Rightarrow> string \<Rightarrow> idempotency_key" where
  "idem_row new_id now t key h =
     \<lparr>e_id = new_id, e_createdAt = now, e_deletedAt = None, e_tenantId = t,
      ik_key = key, ik_requestHash = h, ik_responseBody = None\<rparr>"

text \<open>\<open>IdempotencyRepository.claim\<close>: a conflict on any unique index ignores the row.\<close>
definition idem_claim ::
  "ctx \<Rightarrow> uuid \<Rightarrow> instant \<Rightarrow> string \<Rightarrow> string \<Rightarrow> tdb \<Rightarrow> exn + uuid option \<times> tdb" where
  "idem_claim c new_id now key h db =
     bindE (getTenantId c) (\<lambda>t.
       let r = idem_row new_id now t key h in
       if \<not> rls_visible (repo_manager c) r then Inl (DbError rls_violation)
       else case insert_checked idempotency_cs r (idempotency_keys db) of
              Inl _ \<Rightarrow> Inr (None, db)
            | Inr rows \<Rightarrow> Inr (Some new_id, db\<lparr>idempotency_keys := rows\<rparr>))"

definition idem_findByKey :: "ctx \<Rightarrow> string \<Rightarrow> tdb \<Rightarrow> exn + idempotency_key option" where
  "idem_findByKey c key db = findOne c (\<lambda>r. ik_key r = key) (idempotency_keys db)"

definition idem_complete :: "(json \<Rightarrow> json) \<Rightarrow> ctx \<Rightarrow> uuid \<Rightarrow> json \<Rightarrow> tdb \<Rightarrow> exn + unit \<times> tdb" where
  "idem_complete jsonb c i body db =
     bindE (rls_update c idempotency_cs (\<lambda>r. e_id r = i)
              (\<lambda>r. r\<lparr>ik_responseBody := Some (jsonb body)\<rparr>) (idempotency_keys db))
       (\<lambda>(_, rows). Inr ((), db\<lparr>idempotency_keys := rows\<rparr>))"

text \<open>\<open>JSON.stringify(body ?? {})\<close>, hashed.\<close>
definition hashBody :: "(string \<Rightarrow> string) \<Rightarrow> json option \<Rightarrow> string" where
  "hashBody sha256 body = sha256 (stringify (case body of None \<Rightarrow> JObj [] | Some j \<Rightarrow> j))"

definition key_reused :: exn where
  "key_reused = AppException 422 ''IDEMPOTENCY_KEY_REUSED''
     ''Idempotency-Key was already used with a different request'' None"

definition idem_replay :: "ctx \<Rightarrow> string \<Rightarrow> string \<Rightarrow> tdb \<Rightarrow> exn + json" where
  "idem_replay c key h db =
     bindE (idem_findByKey c key db) (\<lambda>r. case r of
       None \<Rightarrow> Inl key_reused
     | Some existing \<Rightarrow>
         if ik_requestHash existing \<noteq> h then Inl key_reused
         else (case ik_responseBody existing of
             None \<Rightarrow> Inl (ConflictException ''A request with this Idempotency-Key is still in progress'')
           | Some JNull \<Rightarrow> Inl (ConflictException ''A request with this Idempotency-Key is still in progress'')
           | Some j \<Rightarrow> Inr j))"

text \<open>\<open>existing.responseBody as T\<close> is the stored JSON, not an entity.\<close>
datatype 'a run_result = Fresh 'a | Replayed json

definition idem_run ::
  "(string \<Rightarrow> string) \<Rightarrow> (json \<Rightarrow> json) \<Rightarrow> ('a \<Rightarrow> json) \<Rightarrow> ctx \<Rightarrow> uuid \<Rightarrow> instant \<Rightarrow> string option \<Rightarrow>
     json option \<Rightarrow> (tdb \<Rightarrow> exn + 'a \<times> tdb) \<Rightarrow> tdb \<Rightarrow> exn + 'a run_result \<times> tdb" where
  "idem_run sha256 jsonb toPlain c new_id now key body oper db =
     (if key = None \<or> key = Some [] then bindE (oper db) (\<lambda>(r, db'). Inr (Fresh r, db'))
      else
        let k = the key; h = hashBody sha256 body in
        bindE (idem_claim c new_id now k h db) (\<lambda>(claimed, db1).
          case claimed of
            None \<Rightarrow> bindE (idem_replay c k h db1) (\<lambda>j. Inr (Replayed j, db1))
          | Some i \<Rightarrow>
              bindE (oper db1) (\<lambda>(r, db2).
              bindE (idem_complete jsonb c i (toPlain r) db2) (\<lambda>(_, db3). Inr (Fresh r, db3)))))"

section \<open>The claim, in a tenant's transaction\<close>

definition idem_taken :: "uuid \<Rightarrow> tdb \<Rightarrow> string \<Rightarrow> bool" where
  "idem_taken t db k \<longleftrightarrow> list_ex (\<lambda>r. e_tenantId r = t \<and> ik_key r = k) (idempotency_keys db)"

lemma idem_claim_tx:
  "t \<noteq> [] \<Longrightarrow> idem_claim (tenant_tx t) i now k h db =
     (case insert_checked idempotency_cs (idem_row i now t k h) (idempotency_keys db) of
        Inl _ \<Rightarrow> Inr (None, db)
      | Inr rows \<Rightarrow> Inr (Some i, db\<lparr>idempotency_keys := rows\<rparr>))"
  by (simp add: idem_claim_def idem_row_def Let_def)

lemma idem_claim_won:
  assumes "t \<noteq> []" "idem_claim (tenant_tx t) i now k h db = Inr (Some i', db')"
  shows "i' = i" "db' = db\<lparr>idempotency_keys := idempotency_keys db @ [idem_row i now t k h]\<rparr>"
    and "\<not> idem_taken t db k" and "i \<notin> e_id ` set (idempotency_keys db)"
proof -
  obtain rows where rows:
      "insert_checked idempotency_cs (idem_row i now t k h) (idempotency_keys db) = Inr rows"
      "i' = i" "db' = db\<lparr>idempotency_keys := rows\<rparr>"
    using assms by (auto simp: idem_claim_tx split: sum.splits)
  then show "i' = i" by simp
  show "db' = db\<lparr>idempotency_keys := idempotency_keys db @ [idem_row i now t k h]\<rparr>"
    using rows(3) insert_checked_eq [OF rows(1)] by simp
  show "\<not> idem_taken t db k"
    using rows(1) by (auto simp: insert_checked_Inr_iff idempotency_cs_def idem_row_def
        idem_taken_def list_ex_iff)
  show "i \<notin> e_id ` set (idempotency_keys db)"
    using idempotency_tbl.insert_fresh [OF rows(1)] by (simp add: idem_row_def)
qed

lemma idem_claim_lost:
  assumes "t \<noteq> []" "idem_taken t db k"
  shows "idem_claim (tenant_tx t) i now k h db = Inr (None, db)"
proof (cases "insert_checked idempotency_cs (idem_row i now t k h) (idempotency_keys db)")
  case (Inl e)
  then show ?thesis using assms by (simp add: idem_claim_tx)
next
  case (Inr rows)
  then have "\<not> idem_taken t db k"
    by (auto simp: insert_checked_Inr_iff idempotency_cs_def idem_row_def idem_taken_def list_ex_iff)
  then show ?thesis using assms by simp
qed

text \<open>
  The claim as the interface \<open>claim_once\<close> sees it: the id the database generates is a function of
  the state, the clock and the hash are whatever they are.
\<close>
definition idem_claim_step ::
  "uuid \<Rightarrow> (tdb \<Rightarrow> uuid) \<Rightarrow> instant \<Rightarrow> string \<Rightarrow> string \<Rightarrow> tdb \<Rightarrow> bool \<times> tdb" where
  "idem_claim_step t gen now h k db =
     (case idem_claim (tenant_tx t) (gen db) now k h db of
        Inr (Some _, db') \<Rightarrow> (True, db') | Inr (None, db') \<Rightarrow> (False, db') | Inl _ \<Rightarrow> (False, db))"

interpretation idem_once: claim_once "idem_claim_step t gen now h" "idem_taken t" "\<lambda>db. t \<noteq> []"
  for t :: uuid and gen :: "tdb \<Rightarrow> uuid" and now :: instant and h :: string
proof
  fix db k
  assume t: "t \<noteq> []"
  show "t \<noteq> []" by (rule t)
  assume w: "fst (idem_claim_step t gen now h k db)"
  then obtain i' db' where c: "idem_claim (tenant_tx t) (gen db) now k h db = Inr (Some i', db')"
    by (auto simp: idem_claim_step_def split: sum.splits option.splits)
  show "\<not> idem_taken t db k" using idem_claim_won [OF t c] by simp
  show "idem_taken t (snd (idem_claim_step t gen now h k db)) k"
    using c idem_claim_won(2) [OF t c] by (simp add: idem_claim_step_def idem_taken_def idem_row_def)
next
  fix db j k
  assume t: "t \<noteq> []" and j: "idem_taken t db j"
  show "idem_taken t (snd (idem_claim_step t gen now h k db)) j"
    using j t by (auto simp: idem_claim_step_def idem_claim_tx idem_taken_def
        dest!: insert_checked_eq split: sum.splits)
qed

section \<open>What a completed run leaves behind\<close>

text \<open>The row of key \<open>k\<close> holds the hash of the request and the result.\<close>
definition idem_recorded :: "uuid \<Rightarrow> string \<Rightarrow> string \<Rightarrow> json \<Rightarrow> tdb \<Rightarrow> bool" where
  "idem_recorded t k h j db \<longleftrightarrow>
     list_ex (\<lambda>r. e_tenantId r = t \<and> ik_key r = k) (idempotency_keys db) \<and>
     list_all (\<lambda>r. e_tenantId r = t \<and> ik_key r = k \<longrightarrow>
        live r \<and> ik_requestHash r = h \<and> ik_responseBody r = Some j) (idempotency_keys db)"

text \<open>The operation behind a key must leave the key table alone, as every operation of the program does.\<close>
definition keeps_keys :: "(tdb \<Rightarrow> exn + 'a \<times> tdb) \<Rightarrow> bool" where
  "keeps_keys oper \<longleftrightarrow> (\<forall>db r db'. oper db = Inr (r, db') \<longrightarrow> idempotency_keys db' = idempotency_keys db)"

lemma keeps_keysD: "keeps_keys oper \<Longrightarrow> oper db = Inr (r, db') \<Longrightarrow> idempotency_keys db' = idempotency_keys db"
  by (auto simp: keeps_keys_def)

lemma idem_run_cases:
  assumes "t \<noteq> []" "k \<noteq> []"
    and "idem_run sha256 jsonb toPlain (tenant_tx t) i now (Some k) body oper db = Inr (res, db')"
  obtains (fresh) r db2 where "res = Fresh r" "\<not> idem_taken t db k"
      "i \<notin> e_id ` set (idempotency_keys db)"
      "oper (db\<lparr>idempotency_keys := idempotency_keys db @ [idem_row i now t k (hashBody sha256 body)]\<rparr>)
         = Inr (r, db2)"
      "idem_complete jsonb (tenant_tx t) i (toPlain r) db2 = Inr ((), db')"
    | (replayed) j where "res = Replayed j" "db' = db"
      "idem_replay (tenant_tx t) k (hashBody sha256 body) db = Inr j"
proof -
  let ?h = "hashBody sha256 body"
  obtain cl db1 where cl: "idem_claim (tenant_tx t) i now k ?h db = Inr (cl, db1)"
    using assms by (auto simp: idem_run_def Let_def result_simps)
  show thesis
  proof (cases cl)
    case None
    then have "db1 = db" using cl assms(1) by (auto simp: idem_claim_tx split: sum.splits)
    then show thesis using assms None cl replayed
      by (auto simp: idem_run_def Let_def result_simps)
  next
    case (Some i')
    note won = idem_claim_won [OF assms(1) cl [unfolded Some]]
    show thesis using assms(2,3) Some cl won
      by (auto simp: idem_run_def Let_def result_simps intro!: fresh)
  qed
qed

lemma idem_complete_tx:
  assumes "idem_complete jsonb (tenant_tx t) i j db = Inr (u, db')"
  shows "db' = db\<lparr>idempotency_keys :=
           update_where (\<lambda>r. e_tenantId r = t \<and> e_id r = i)
             (\<lambda>r. r\<lparr>ik_responseBody := Some (jsonb j)\<rparr>) (idempotency_keys db)\<rparr>"
  using assms
  by (auto simp: idem_complete_def rls_update_def Let_def result_simps dest!: update_checked_eq)

lemma idem_run_records:
  assumes "t \<noteq> []" "k \<noteq> []" "keeps_keys oper"
    and "idem_run sha256 jsonb toPlain (tenant_tx t) i now (Some k) body oper db = Inr (Fresh r, db')"
  shows "idem_recorded t k (hashBody sha256 body) (jsonb (toPlain r)) db'"
  using assms(1,2,4)
proof (cases rule: idem_run_cases)
  case (fresh r' db2)
  let ?row = "idem_row i now t k (hashBody sha256 body)"
  have keys: "idempotency_keys db2 = idempotency_keys db @ [?row]"
    using keeps_keysD [OF assms(3) fresh(4)] by simp
  have other: "\<not> (e_tenantId x = t \<and> ik_key x = k)" if "x \<in> set (idempotency_keys db)" for x
    using fresh(2) that by (auto simp: idem_taken_def list_ex_iff)
  have db': "db' = db2\<lparr>idempotency_keys :=
           update_where (\<lambda>r. e_tenantId r = t \<and> e_id r = i)
             (\<lambda>x. x\<lparr>ik_responseBody := Some (jsonb (toPlain r'))\<rparr>) (idempotency_keys db2)\<rparr>"
    using fresh(5) by (rule idem_complete_tx)
  let ?done = "\<lambda>r. e_tenantId r = t \<and> ik_key r = k \<longrightarrow> live r \<and>
           ik_requestHash r = hashBody sha256 body \<and> ik_responseBody r = Some (jsonb (toPlain r'))"
  let ?set = "\<lambda>x. x\<lparr>ik_responseBody := Some (jsonb (toPlain r'))\<rparr>"
  have row: "?done (if e_tenantId x = t \<and> e_id x = i then ?set x else x)"
    if x: "x \<in> set (idempotency_keys db) \<or> x = ?row" for x
  proof (cases "x = ?row")
    case True
    then show ?thesis by (simp add: idem_row_def live_def)
  next
    case False
    then show ?thesis using x other [of x] by (cases "e_tenantId x = t") simp_all
  qed
  have "list_all ?done (update_where (\<lambda>x. e_tenantId x = t \<and> e_id x = i) ?set
          (idempotency_keys db @ [?row]))"
    by (rule list_all_update_where, rule row) auto
  then have "list_all ?done (idempotency_keys db')" by (simp add: db' keys)
  moreover have "list_ex (\<lambda>r. e_tenantId r = t \<and> ik_key r = k) (idempotency_keys db')"
    by (simp add: db' keys update_where_def idem_row_def)
  ultimately show ?thesis using fresh(1) by (simp add: idem_recorded_def)
next
  case (replayed j)
  then show ?thesis by simp
qed

lemma idem_recorded_row:
  assumes "filter (\<lambda>r. e_tenantId r = t \<and> ik_key r = k) (idempotency_keys later) =
    filter (\<lambda>r. e_tenantId r = t \<and> ik_key r = k) (idempotency_keys db)"
  shows "idem_recorded t k h j db \<longleftrightarrow> idem_recorded t k h j later"
proof -
  let ?p = "\<lambda>r. e_tenantId r = t \<and> ik_key r = k"
  have ex: "list_ex ?p rows \<longleftrightarrow> filter ?p rows \<noteq> []" for rows by (induction rows) auto
  have all: "list_all (\<lambda>r. e_tenantId r = t \<and> ik_key r = k \<longrightarrow> q r) rows \<longleftrightarrow>
      list_all q (filter ?p rows)" for q rows
    by (induction rows) auto
  show ?thesis unfolding idem_recorded_def ex all assms by (rule refl)
qed

lemma idem_recorded_taken: "idem_recorded t k h j db \<Longrightarrow> idem_taken t db k"
  by (simp add: idem_recorded_def idem_taken_def)

lemma idem_recorded_find:
  assumes "idem_recorded t k h j db" "t \<noteq> []"
  obtains r where "idem_findByKey (tenant_tx t) k db = Inr (Some r)"
    "ik_requestHash r = h" "ik_responseBody r = Some j"
proof -
  let ?p = "\<lambda>r. e_tenantId r = t \<and> live r \<and> ik_key r = k"
  have "\<exists>r \<in> set (idempotency_keys db). ?p r"
    using assms(1) by (auto simp: idem_recorded_def list_ex_iff list_all_iff)
  then obtain r where r: "find ?p (idempotency_keys db) = Some r"
    by (metis (mono_tags, lifting) find_None_iff2 option.exhaust)
  then have "?p r" "r \<in> set (idempotency_keys db)" by (auto dest: find_Some_mem)
  then show thesis using that [of r] r assms
    by (auto simp: idem_findByKey_def idem_recorded_def list_all_iff)
qed

text \<open>A recorded key answers every later request: the same body with the stored result.\<close>
lemma idem_run_recorded:
  assumes "t \<noteq> []" "k \<noteq> []" "idem_recorded t k h j db"
  shows "idem_run sha256 jsonb toPlain (tenant_tx t) i now (Some k) body oper db =
     (if hashBody sha256 body \<noteq> h then Inl key_reused
      else if j = JNull then Inl (ConflictException ''A request with this Idempotency-Key is still in progress'')
      else Inr (Replayed j, db))"
proof -
  obtain r where r: "idem_findByKey (tenant_tx t) k db = Inr (Some r)"
      "ik_requestHash r = h" "ik_responseBody r = Some j"
    using assms(3,1) by (rule idem_recorded_find)
  have "idem_claim (tenant_tx t) i now k (hashBody sha256 body) db = Inr (None, db)"
    using assms(1) idem_recorded_taken [OF assms(3)] by (rule idem_claim_lost)
  then show ?thesis using r assms(2)
    by (simp add: idem_run_def Let_def idem_replay_def split: json.splits)
qed

end
