(* ===== verification/Outbox.thy ===== *)
theory Outbox
  imports Tenancy "HOL-Library.List_Lexorder" "HOL-Library.Char_ord"
begin

text \<open>
  The transactional outbox: \<open>src/modules/outbox\<close> and the relay of
  \<open>src/jobs/workers/outbox-relay.worker.ts\<close>. \<open>record\<close> writes an event on the caller's transaction,
  \<open>processBatch\<close> claims due events and delivers each through the injected \<open>dispatch\<close>, whose effect
  on the queues is the parameter \<open>'q\<close>. The table carries no row-level security.
\<close>

section \<open>Recording\<close>

record record_event_input =
  ri_aggregateType :: string
  ri_aggregateId :: uuid
  ri_eventType :: string
  ri_payload :: json

definition outbox_row :: "uuid \<Rightarrow> instant \<Rightarrow> uuid \<Rightarrow> record_event_input \<Rightarrow> outbox_event" where
  "outbox_row new_id now t i =
     \<lparr>e_id = new_id, e_createdAt = now, e_deletedAt = None, e_tenantId = t,
      ob_aggregateType = ri_aggregateType i, ob_aggregateId = ri_aggregateId i,
      ob_eventType = ri_eventType i, ob_payload = ri_payload i,
      ob_status = OutPending, ob_attempts = 0, ob_availableAt = now\<rparr>"

definition outbox_record ::
  "ctx \<Rightarrow> uuid \<Rightarrow> instant \<Rightarrow> record_event_input \<Rightarrow> tdb \<Rightarrow> exn + outbox_event \<times> tdb" where
  "outbox_record c new_id now i db =
     (case getTenantManager c of
        None \<Rightarrow> Inl (PlainError ''Outbox record must run inside a tenant transaction'')
      | Some m \<Rightarrow>
          bindE (getTenantId c) (\<lambda>t.
            let e = outbox_row new_id now t i in
            bindE (insert_checked outbox_cs e (outbox_events db))
              (\<lambda>rows. Inr (e, db\<lparr>outbox_events := rows\<rparr>))))"

section \<open>Draining\<close>

definition due :: "instant \<Rightarrow> (uuid \<Rightarrow> bool) \<Rightarrow> outbox_event \<Rightarrow> bool" where
  "due now locked e \<longleftrightarrow>
     live e \<and> ob_status e = OutPending \<and> ob_availableAt e \<le> now \<and> \<not> locked (e_id e)"

text \<open>
  \<open>ORDER BY created_at, id LIMIT n FOR UPDATE SKIP LOCKED\<close>; \<open>locked\<close> says which rows a concurrent
  relay holds. Uuids compare as their text.
\<close>
definition claimBatch :: "instant \<Rightarrow> (uuid \<Rightarrow> bool) \<Rightarrow> nat \<Rightarrow> outbox_event list \<Rightarrow> outbox_event list" where
  "claimBatch now locked limit rows =
     take limit (sort_key e_createdAt (sort_key e_id (filter (due now locked) rows)))"

definition set_dispatched :: "outbox_event \<Rightarrow> outbox_event" where
  "set_dispatched e = e\<lparr>ob_status := OutDispatched\<rparr>"

definition markDispatched :: "uuid \<Rightarrow> outbox_event list \<Rightarrow> outbox_event list" where
  "markDispatched i rows = update_where (\<lambda>e. e_id e = i) set_dispatched rows"

definition backoff_ms :: "nat \<Rightarrow> int" where
  "backoff_ms attempts = OUTBOX_BACKOFF_BASE_MS * 2 ^ (attempts - 1)"

text \<open>The columns \<open>markFailed\<close> writes, from the claimed snapshot \<open>ev\<close> and the clock \<open>Date.now()\<close>.\<close>
definition set_failed :: "instant \<Rightarrow> outbox_event \<Rightarrow> outbox_event \<Rightarrow> outbox_event" where
  "set_failed js_now ev e =
     (let attempts = ob_attempts ev + 1 in
      if OUTBOX_MAX_ATTEMPTS \<le> attempts then e\<lparr>ob_attempts := attempts, ob_status := OutDead\<rparr>
      else e\<lparr>ob_attempts := attempts, ob_availableAt := js_now + backoff_ms attempts\<rparr>)"

definition markFailed :: "instant \<Rightarrow> outbox_event \<Rightarrow> outbox_event list \<Rightarrow> outbox_event list" where
  "markFailed js_now ev rows = update_where (\<lambda>e. e_id e = e_id ev) (set_failed js_now ev) rows"

text \<open>
  The loop of \<open>processBatch\<close>. \<open>dispatch ev q\<close> returns whether the delivery resolved (\<open>False\<close>: it
  threw) and the queues after it; \<open>clk ev\<close> is the clock when a failure of \<open>ev\<close> is recorded.
\<close>
fun process_events ::
  "(outbox_event \<Rightarrow> 'q \<Rightarrow> bool \<times> 'q) \<Rightarrow> (outbox_event \<Rightarrow> instant) \<Rightarrow> outbox_event list \<Rightarrow> 'q \<Rightarrow>
     outbox_event list \<Rightarrow> nat \<Rightarrow> nat \<times> 'q \<times> outbox_event list" where
  "process_events dispatch clk [] q rows n = (n, q, rows)"
| "process_events dispatch clk (ev # evs) q rows n =
     (let (ok, q') = dispatch ev q in
      if ok then process_events dispatch clk evs q' (markDispatched (e_id ev) rows) (n + 1)
      else process_events dispatch clk evs q' (markFailed (clk ev) ev rows) n)"

definition processBatch ::
  "(outbox_event \<Rightarrow> 'q \<Rightarrow> bool \<times> 'q) \<Rightarrow> (outbox_event \<Rightarrow> instant) \<Rightarrow> instant \<Rightarrow> (uuid \<Rightarrow> bool) \<Rightarrow> nat \<Rightarrow>
     'q \<Rightarrow> outbox_event list \<Rightarrow> nat \<times> 'q \<times> outbox_event list" where
  "processBatch dispatch clk now locked batchSize q rows =
     process_events dispatch clk (claimBatch now locked batchSize rows) q rows 0"

text \<open>The age is in milliseconds; the gauge shows it in seconds.\<close>
definition backlogStats :: "instant \<Rightarrow> outbox_event list \<Rightarrow> nat \<times> int" where
  "backlogStats now rows =
     (let ps = filter (\<lambda>e. live e \<and> ob_status e = OutPending) rows in
      (length ps, if ps = [] then 0 else now - Min (set (map e_createdAt ps))))"

definition pending_count :: "outbox_event list \<Rightarrow> nat" where
  "pending_count rows = length (filter (\<lambda>e. ob_status e = OutPending) rows)"

section \<open>What a batch does to the table\<close>

lemma pending_count_map_le:
  "(\<And>e. ob_status (f e) = OutPending \<Longrightarrow> ob_status e = OutPending) \<Longrightarrow>
     pending_count (map f rows) \<le> pending_count rows"
  by (induction rows) (auto simp: pending_count_def)

lemma pending_count_map_less:
  assumes "\<And>e. ob_status (f e) = OutPending \<Longrightarrow> ob_status e = OutPending"
    and "e \<in> set rows" "ob_status e = OutPending" "ob_status (f e) \<noteq> OutPending"
  shows "pending_count (map f rows) < pending_count rows"
proof -
  obtain xs ys where rows: "rows = xs @ e # ys" using assms(2) by (meson split_list)
  have "pending_count (map f xs) \<le> pending_count xs" "pending_count (map f ys) \<le> pending_count ys"
    using assms(1) by (auto intro: pending_count_map_le)
  then show ?thesis using assms(3,4) by (simp add: rows pending_count_def)
qed

lemma set_failed_status:
  "ob_status (set_failed n ev e) = OutPending \<Longrightarrow> ob_status e = OutPending"
  by (auto simp: set_failed_def Let_def split: if_splits)

lemma set_dispatched_status [simp]: "ob_status (set_dispatched e) = OutDispatched"
  by (simp add: set_dispatched_def)

lemma pending_count_markFailed: "pending_count (markFailed n ev rows) \<le> pending_count rows"
  unfolding markFailed_def update_where_def
  by (rule pending_count_map_le) (auto split: if_splits dest: set_failed_status)

lemma pending_count_markDispatched: "pending_count (markDispatched i rows) \<le> pending_count rows"
  unfolding markDispatched_def update_where_def
  by (rule pending_count_map_le) (auto split: if_splits)

lemma pending_count_markDispatched_less:
  "e \<in> set rows \<Longrightarrow> ob_status e = OutPending \<Longrightarrow>
     pending_count (markDispatched (e_id e) rows) < pending_count rows"
  unfolding markDispatched_def update_where_def
  by (rule pending_count_map_less) (auto split: if_splits)

text \<open>
  A batch in two halves: what the deliveries did, and the updates they cause on each row.
\<close>
fun outcomes ::
  "(outbox_event \<Rightarrow> 'q \<Rightarrow> bool \<times> 'q) \<Rightarrow> outbox_event list \<Rightarrow> 'q \<Rightarrow> (outbox_event \<times> bool) list \<times> 'q" where
  "outcomes dispatch [] q = ([], q)"
| "outcomes dispatch (ev # evs) q =
     (let (ok, q') = dispatch ev q; (os, q'') = outcomes dispatch evs q' in ((ev, ok) # os, q''))"

definition row_outcome ::
  "(outbox_event \<Rightarrow> instant) \<Rightarrow> outbox_event \<times> bool \<Rightarrow> outbox_event \<Rightarrow> outbox_event" where
  "row_outcome clk o' e =
     (if e_id e \<noteq> e_id (fst o') then e
      else if snd o' then set_dispatched e else set_failed (clk (fst o')) (fst o') e)"

definition row_outcomes ::
  "(outbox_event \<Rightarrow> instant) \<Rightarrow> (outbox_event \<times> bool) list \<Rightarrow> outbox_event \<Rightarrow> outbox_event" where
  "row_outcomes clk os e = fold (row_outcome clk) os e"

lemma set_failed_frame [simp]:
  "e_id (set_failed n ev e) = e_id e" "e_tenantId (set_failed n ev e) = e_tenantId e"
  "e_deletedAt (set_failed n ev e) = e_deletedAt e" "ob_payload (set_failed n ev e) = ob_payload e"
  "ob_eventType (set_failed n ev e) = ob_eventType e"
  by (simp_all add: set_failed_def Let_def)

lemma set_dispatched_frame [simp]:
  "e_id (set_dispatched e) = e_id e" "e_tenantId (set_dispatched e) = e_tenantId e"
  "e_deletedAt (set_dispatched e) = e_deletedAt e" "ob_payload (set_dispatched e) = ob_payload e"
  "ob_eventType (set_dispatched e) = ob_eventType e" "ob_attempts (set_dispatched e) = ob_attempts e"
  by (simp_all add: set_dispatched_def)

lemma row_outcome_id [simp]: "e_id (row_outcome clk o' e) = e_id e"
  by (simp add: row_outcome_def)

lemma row_outcomes_id [simp]: "e_id (row_outcomes clk os e) = e_id e"
  unfolding row_outcomes_def by (induction os arbitrary: e) simp_all

lemma row_outcome_pending:
  "ob_status (row_outcome clk o' e) = OutPending \<Longrightarrow> ob_status e = OutPending"
  by (auto simp: row_outcome_def dest: set_failed_status split: if_splits)

lemma row_outcomes_pending:
  "ob_status (row_outcomes clk os e) = OutPending \<Longrightarrow> ob_status e = OutPending"
  unfolding row_outcomes_def by (induction os arbitrary: e) (auto dest: row_outcome_pending)

lemma row_outcomes_Cons: "row_outcomes clk (o' # os) e = row_outcomes clk os (row_outcome clk o' e)"
  by (simp add: row_outcomes_def)

lemma row_outcomes_absent:
  "e_id e \<notin> e_id ` fst ` set os \<Longrightarrow> row_outcomes clk os e = e"
  by (induction os) (auto simp: row_outcomes_def row_outcome_def)

lemma row_outcomes_claimed:
  assumes "distinct (map (e_id \<circ> fst) os)" "(ev, ok) \<in> set os" "e_id e = e_id ev"
  shows "row_outcomes clk os e = (if ok then set_dispatched e else set_failed (clk ev) ev e)"
  using assms
proof (induction os)
  case Nil
  then show ?case by simp
next
  case (Cons o' os)
  show ?case
  proof (cases "o' = (ev, ok)")
    case True
    then have "row_outcomes clk os (row_outcome clk o' e) = row_outcome clk o' e"
      using Cons.prems by (intro row_outcomes_absent) force
    then show ?thesis using True Cons.prems(3) by (simp add: row_outcomes_Cons row_outcome_def)
  next
    case False
    then have mem: "(ev, ok) \<in> set os" using Cons.prems(2) by auto
    then have "e_id (fst o') \<noteq> e_id ev" using Cons.prems(1) by force
    then have "row_outcome clk o' e = e" using Cons.prems(3) by (simp add: row_outcome_def)
    then show ?thesis using Cons mem by (simp add: row_outcomes_Cons)
  qed
qed

lemma mark_as_row_outcome:
  "markDispatched (e_id ev) rows = map (row_outcome clk (ev, True)) rows"
  "markFailed (clk ev) ev rows = map (row_outcome clk (ev, False)) rows"
  by (auto simp: markDispatched_def markFailed_def update_where_def row_outcome_def)

lemma process_events_eq:
  "process_events dispatch clk evs q rows n =
     (let (os, q') = outcomes dispatch evs q in
      (n + length (filter snd os), q', map (row_outcomes clk os) rows))"
proof (induction evs arbitrary: q rows n)
  case Nil
  then show ?case by (simp add: row_outcomes_def)
next
  case (Cons ev evs)
  obtain ok q' where d: "dispatch ev q = (ok, q')" by fastforce
  obtain os q'' where os: "outcomes dispatch evs q' = (os, q'')" by fastforce
  have "map (row_outcomes clk os) (map (row_outcome clk (ev, ok)) rows) =
        map (row_outcomes clk ((ev, ok) # os)) rows" for ok
    by (simp add: row_outcomes_Cons)
  then show ?case
    using Cons [of q' "markDispatched (e_id ev) rows" "n + 1"]
      Cons [of q' "markFailed (clk ev) ev rows" n]
    by (cases ok)
      (simp_all add: d os mark_as_row_outcome [where clk = clk] del: map_map)
qed

lemma outcomes_events: "map fst (fst (outcomes dispatch evs q)) = evs"
  by (induction evs arbitrary: q) (auto simp: case_prod_beta Let_def)

lemma set_claimBatch: "ev \<in> set (claimBatch now locked limit rows) \<Longrightarrow> ev \<in> set rows \<and> due now locked ev"
  using set_take_subset [of limit "sort_key e_createdAt (sort_key e_id (filter (due now locked) rows))"]
  by (auto simp: claimBatch_def)

lemma distinct_claimBatch:
  assumes "distinct (map e_id rows)"
  shows "distinct (map e_id (claimBatch now locked limit rows))"
proof -
  let ?s = "sort_key e_createdAt (sort_key e_id (filter (due now locked) rows))"
  have "distinct (map e_id (filter (due now locked) rows))"
    using assms by (rule distinct_map_filter)
  then have "distinct (map e_id ?s)" by (simp add: distinct_map)
  then show ?thesis unfolding claimBatch_def take_map [symmetric] by (rule distinct_take)
qed

text \<open>A batch that delivers anything leaves strictly fewer pending rows.\<close>
lemma processBatch_decreases:
  assumes "processBatch dispatch clk now locked limit q rows = (n, q', rows')" "0 < n"
  shows "pending_count rows' < pending_count rows"
proof -
  let ?evs = "claimBatch now locked limit rows"
  obtain os q2 where os: "outcomes dispatch ?evs q = (os, q2)" by fastforce
  have eq: "n = length (filter snd os)" "rows' = map (row_outcomes clk os) rows"
    using assms(1) by (simp_all add: processBatch_def process_events_eq os)
  then have "filter snd os \<noteq> []" using assms(2) by auto
  then obtain ev where mem: "(ev, True) \<in> set os"
    by (auto simp: filter_empty_conv)
  then have "ev \<in> set ?evs"
    using outcomes_events [of dispatch ?evs q] by (metis fst_conv image_eqI list.set_map os)
  then have ev: "ev \<in> set rows" "ob_status ev = OutPending"
    using set_claimBatch [of ev now locked limit rows] by (auto simp: due_def)
  have hit: "ob_status (row_outcomes clk os e) \<noteq> OutPending"
    if "(ev, True) \<in> set os" "e_id e = e_id ev" for os e
    using that
  proof (induction os arbitrary: e)
    case Nil
    then show ?case by simp
  next
    case (Cons o' os)
    show ?case
    proof (cases "(ev, True) \<in> set os")
      case True
      then show ?thesis using Cons by (simp add: row_outcomes_Cons)
    next
      case False
      then have "o' = (ev, True)" using Cons.prems(1) by simp
      then have "ob_status (row_outcome clk o' e) = OutDispatched"
        using Cons.prems(2) by (simp add: row_outcome_def)
      then have "ob_status (row_outcomes clk os (row_outcome clk o' e)) \<noteq> OutPending"
        using row_outcomes_pending [of clk os "row_outcome clk o' e"] by auto
      then show ?thesis by (simp add: row_outcomes_Cons)
    qed
  qed
  show ?thesis unfolding eq(2)
    by (rule pending_count_map_less [of "row_outcomes clk os", OF _ ev hit [OF mem refl]])
      (rule row_outcomes_pending)
qed

section \<open>The relay\<close>

text \<open>What one iteration of the relay sees: the clocks, rows locked by others, the stop flag.\<close>
record relay_env =
  re_now :: instant
  re_clk :: "outbox_event \<Rightarrow> instant"
  re_locked :: "uuid \<Rightarrow> bool"
  re_stopped :: bool

text \<open>The \<open>do .. while (processed > 0 && !stopped)\<close> of one tick; \<open>i\<close> numbers its iterations.\<close>
function relay_tick ::
  "(outbox_event \<Rightarrow> 'q \<Rightarrow> bool \<times> 'q) \<Rightarrow> (nat \<Rightarrow> relay_env) \<Rightarrow> nat \<Rightarrow> 'q \<Rightarrow> outbox_event list \<Rightarrow>
     'q \<times> outbox_event list" where
  "relay_tick dispatch env i q rows =
     (case processBatch dispatch (re_clk (env i)) (re_now (env i)) (re_locked (env i))
             OUTBOX_BATCH_SIZE q rows of
        (processed, q', rows') \<Rightarrow>
          if 0 < processed \<and> \<not> re_stopped (env i) then relay_tick dispatch env (i + 1) q' rows'
          else (q', rows'))"
  by pat_completeness auto
termination
  by (relation "measure (\<lambda>(_, _, _, _, rows). pending_count rows)")
     (auto dest: processBatch_decreases [OF sym])

declare relay_tick.simps [simp del]

text \<open>\<open>String(v)\<close> of a JSON member; \<open>None\<close> is \<open>undefined\<close>.\<close>
fun js_String_json :: "json \<Rightarrow> string" where
  "js_String_json JNull = ''null''"
| "js_String_json (JBool b) = (if b then ''true'' else ''false'')"
| "js_String_json (JNum i) = int_str i"
| "js_String_json (JStr s) = s"
| "js_String_json (JArr xs) =
     join_comma (map (\<lambda>x. case x of JNull \<Rightarrow> [] | _ \<Rightarrow> js_String_json x) xs)"
| "js_String_json (JObj _) = ''[object Object]''"

definition js_String :: "json option \<Rightarrow> string" where
  "js_String v = (case v of None \<Rightarrow> ''undefined'' | Some j \<Rightarrow> js_String_json j)"

definition json_member :: "json \<Rightarrow> string \<Rightarrow> json option" where
  "json_member j k = (case j of JObj kvs \<Rightarrow> map_of kvs k | _ \<Rightarrow> None)"

record booking_email_job =
  bej_eventType :: string
  bej_tenantId :: uuid
  bej_bookingId :: string
  bej_customerId :: string

record webhook_job =
  whj_tenantId :: uuid
  whj_eventType :: string
  whj_aggregateType :: string
  whj_aggregateId :: uuid
  whj_data :: json

datatype queued_job = EmailJob booking_email_job | WebhookJob webhook_job

text \<open>\<open>add job jobId q\<close> is BullMQ's \<open>Queue.add\<close>: whether it resolved, and the queues after it.\<close>
definition relay_dispatch ::
  "(queued_job \<Rightarrow> string \<Rightarrow> 'q \<Rightarrow> bool \<times> 'q) \<Rightarrow> outbox_event \<Rightarrow> 'q \<Rightarrow> bool \<times> 'q" where
  "relay_dispatch add e q =
     (if ob_aggregateType e \<noteq> ''booking'' then (True, q)
      else
        let (ok, q') = add (EmailJob
              \<lparr>bej_eventType = ob_eventType e, bej_tenantId = e_tenantId e,
               bej_bookingId = js_String (json_member (ob_payload e) ''bookingId''),
               bej_customerId = js_String (json_member (ob_payload e) ''customerId'')\<rparr>)
              (''email-'' @ e_id e) q
        in if \<not> ok then (False, q')
           else add (WebhookJob
              \<lparr>whj_tenantId = e_tenantId e, whj_eventType = ob_eventType e,
               whj_aggregateType = ob_aggregateType e, whj_aggregateId = ob_aggregateId e,
               whj_data = ob_payload e\<rparr>)
              (''webhook-'' @ e_id e) q')"

section \<open>Invariant\<close>

text \<open>Delivery attempts: a dead event has used exactly the cap, any other fewer.\<close>
definition outbox_wf :: "outbox_event \<Rightarrow> bool" where
  "outbox_wf e \<longleftrightarrow>
     (if ob_status e = OutDead then ob_attempts e = OUTBOX_MAX_ATTEMPTS
      else ob_attempts e < OUTBOX_MAX_ATTEMPTS)"

lemma outbox_row_wf: "outbox_wf (outbox_row i now t inp)"
  by (simp add: outbox_wf_def outbox_row_def OUTBOX_MAX_ATTEMPTS_def)

lemma set_dispatched_wf: "outbox_wf e \<Longrightarrow> ob_status e = OutPending \<Longrightarrow> outbox_wf (set_dispatched e)"
  by (simp add: outbox_wf_def)

lemma set_failed_wf:
  "outbox_wf e \<Longrightarrow> ob_status e = OutPending \<Longrightarrow> outbox_wf (set_failed n e e)"
  by (auto simp: outbox_wf_def set_failed_def Let_def OUTBOX_MAX_ATTEMPTS_def)

text \<open>What a batch does to each row: a claimed one is dispatched or failed, any other is left.\<close>
lemma processBatch_rows:
  assumes "distinct (map e_id rows)"
    and "processBatch dispatch clk now locked limit q rows = (n, q', rows')"
    and "outcomes dispatch (claimBatch now locked limit rows) q = (os, q2)"
  shows "rows' = map (\<lambda>e. case map_of os e of
           None \<Rightarrow> e | Some True \<Rightarrow> set_dispatched e | Some False \<Rightarrow> set_failed (clk e) e e) rows"
    and "n = length (filter snd os)" and "q' = q2"
proof -
  let ?evs = "claimBatch now locked limit rows"
  have evs: "map fst os = ?evs" using outcomes_events [of dispatch ?evs q] assms(3) by simp
  have d: "distinct (map e_id ?evs)" using assms(1) by (rule distinct_claimBatch)
  then have dos: "distinct (map (e_id \<circ> fst) os)" by (simp flip: evs)
  have inj: "a = b" if "a \<in> set rows" "b \<in> set rows" "e_id a = e_id b" for a b
    using assms(1) that by (auto simp: distinct_map dest: inj_onD)
  have "row_outcomes clk os e = (case map_of os e of
          None \<Rightarrow> e | Some True \<Rightarrow> set_dispatched e | Some False \<Rightarrow> set_failed (clk e) e e)"
    if e: "e \<in> set rows" for e
  proof (cases "map_of os e")
    case None
    then have "e \<notin> set ?evs" by (simp add: map_of_eq_None_iff flip: evs)
    then have "e_id e \<notin> e_id ` fst ` set os"
      using inj [OF e] set_claimBatch [of _ now locked limit rows]
      by (metis (no_types, lifting) evs image_iff list.set_map)
    then show ?thesis using None by (simp add: row_outcomes_absent)
  next
    case (Some ok)
    then show ?thesis
      using row_outcomes_claimed [OF dos, of e ok e clk] map_of_SomeD [OF Some]
      by (cases ok) auto
  qed
  then show "rows' = map (\<lambda>e. case map_of os e of
      None \<Rightarrow> e | Some True \<Rightarrow> set_dispatched e | Some False \<Rightarrow> set_failed (clk e) e e) rows"
    "n = length (filter snd os)" "q' = q2"
    using assms(2,3) by (auto simp: processBatch_def process_events_eq)
qed

lemma outcomes_all_ok:
  assumes "\<And>ev q. fst (dispatch ev q)"
  shows "list_all snd (fst (outcomes dispatch evs q))"
  using assms by (induction evs arbitrary: q) (simp_all add: case_prod_beta Let_def)

lemma row_outcomes_all_ok:
  "list_all snd os \<Longrightarrow> row_outcomes clk os e = e \<or> row_outcomes clk os e = set_dispatched e"
proof (induction os arbitrary: e)
  case Nil
  then show ?case by (simp add: row_outcomes_def)
next
  case (Cons o' os)
  have "set_dispatched (set_dispatched e) = set_dispatched e" by (simp add: set_dispatched_def)
  then show ?case using Cons.prems Cons.IH [of e] Cons.IH [of "set_dispatched e"]
    by (auto simp: row_outcomes_Cons row_outcome_def)
qed

lemma claimBatch_empty: "claimBatch now locked (Suc n) rows = [] \<Longrightarrow> e \<in> set rows \<Longrightarrow> \<not> due now locked e"
  by (simp add: claimBatch_def) (metis filter_empty_conv length_0_conv length_sort)

section \<open>Properties\<close>

definition sample_event_row :: "uuid \<Rightarrow> outbox_status \<Rightarrow> nat \<Rightarrow> outbox_event" where
  "sample_event_row i st n =
     \<lparr>e_id = i, e_createdAt = 1, e_deletedAt = None, e_tenantId = ''t1'', ob_aggregateType = ''booking'',
      ob_aggregateId = ''b1'', ob_eventType = ''booking.created'', ob_payload = JObj [],
      ob_status = st, ob_attempts = n, ob_availableAt = 1\<rparr>"

text \<open>
  C15. A relay batch settles each event it claimed on its own outcome: a delivered one becomes dispatched,
  a failed one uses up one attempt and is put off by 30 s times two to the number of earlier attempts,
  or is dead at the fifth; every other row is untouched and the batch returns the number delivered.
\<close>
theorem batch_effect:
  assumes "distinct (map e_id rows)"
    and "processBatch dispatch clk now locked limit q rows = (n, q', rows')"
    and "outcomes dispatch (claimBatch now locked limit rows) q = (os, q2)"
  shows "rows' = map (\<lambda>e. case map_of os e of
             None \<Rightarrow> e
           | Some True \<Rightarrow> e\<lparr>ob_status := OutDispatched\<rparr>
           | Some False \<Rightarrow>
               if ob_attempts e + 1 < 5
               then e\<lparr>ob_attempts := ob_attempts e + 1, ob_availableAt := clk e + 30000 * 2 ^ ob_attempts e\<rparr>
               else e\<lparr>ob_attempts := ob_attempts e + 1, ob_status := OutDead\<rparr>) rows \<and>
         n = length (filter snd os) \<and> map fst os = claimBatch now locked limit rows"
proof -
  have sf: "set_failed (clk e) e e =
      (if ob_attempts e + 1 < 5
       then e\<lparr>ob_attempts := ob_attempts e + 1, ob_availableAt := clk e + 30000 * 2 ^ ob_attempts e\<rparr>
       else e\<lparr>ob_attempts := ob_attempts e + 1, ob_status := OutDead\<rparr>)" for e
    by (simp add: set_failed_def Let_def OUTBOX_MAX_ATTEMPTS_def backoff_ms_def OUTBOX_BACKOFF_BASE_MS_def
        SECOND_MS_def)
  show ?thesis
    using processBatch_rows [OF assms] outcomes_events [of dispatch "claimBatch now locked limit rows" q]
    by (simp only: assms(3) sf set_dispatched_def fst_conv simp_thms)
qed

theorem batch_effect_witness:
  "snd (snd (processBatch (\<lambda>ev q. (e_id ev = ''e1'', q)) (\<lambda>_. 1000) 5 (\<lambda>_. False) 20 ()
     [sample_event_row ''e1'' OutPending 0, sample_event_row ''e2'' OutPending 4])) =
   [sample_event_row ''e1'' OutDispatched 0, sample_event_row ''e2'' OutDead 5]"
proof -
  let ?rows = "[sample_event_row ''e1'' OutPending 0, sample_event_row ''e2'' OutPending 4]"
  let ?d = "\<lambda>ev q::unit. (e_id ev = ''e1'', q)"
  have c: "claimBatch 5 (\<lambda>_. False) 20 ?rows = ?rows" by code_simp
  have os: "outcomes ?d (claimBatch 5 (\<lambda>_. False) 20 ?rows) () =
      ([(sample_event_row ''e1'' OutPending 0, True), (sample_event_row ''e2'' OutPending 4, False)], ())"
    unfolding c by (simp add: sample_event_row_def)
  obtain n q' rows' where p: "processBatch ?d (\<lambda>_. 1000) 5 (\<lambda>_. False) 20 () ?rows = (n, q', rows')"
    by (metis prod_cases3)
  have "distinct (map e_id ?rows)" by (simp add: sample_event_row_def)
  from conjunct1 [OF batch_effect [OF this p os]] show ?thesis
    by (simp add: p) (simp add: sample_event_row_def)
qed

text \<open>
  No event is lost or duplicated by the relay, and the attempt counter is honest: a batch keeps every
  row with its tenant, type and payload, in place; rows whose counter respected the cap (dead exactly at
  five attempts, fewer otherwise) still do.
\<close>
theorem batch_keeps_events:
  assumes "distinct (map e_id rows)" "list_all outbox_wf rows"
    and "processBatch dispatch clk now locked limit q rows = (n, q', rows')"
  shows "map (\<lambda>e. (e_id e, e_tenantId e, ob_eventType e, ob_payload e)) rows' =
           map (\<lambda>e. (e_id e, e_tenantId e, ob_eventType e, ob_payload e)) rows \<and> list_all outbox_wf rows'"
proof -
  let ?evs = "claimBatch now locked limit rows"
  obtain os q2 where os: "outcomes dispatch ?evs q = (os, q2)" by fastforce
  note r = processBatch_rows(1) [OF assms(1,3) os]
  have wf: "outbox_wf (case map_of os e of None \<Rightarrow> e | Some True \<Rightarrow> set_dispatched e
      | Some False \<Rightarrow> set_failed (clk e) e e)" if "e \<in> set rows" for e
  proof (cases "map_of os e")
    case None
    then show ?thesis using assms(2) that by (simp add: list_all_iff)
  next
    case (Some ok)
    have "map fst os = ?evs" using outcomes_events [of dispatch ?evs q] os by simp
    then have "e \<in> set ?evs" using map_of_SomeD [OF Some] by (metis fst_conv image_eqI list.set_map)
    then have "ob_status e = OutPending"
      using set_claimBatch [of e now locked limit rows] by (simp add: due_def)
    moreover have "outbox_wf e" using assms(2) that by (simp add: list_all_iff)
    ultimately show ?thesis using Some by (cases ok) (simp_all add: set_dispatched_wf set_failed_wf)
  qed
  show ?thesis unfolding r using wf
    by (auto simp: list_all_iff split: option.splits bool.splits)
qed

theorem batch_keeps_events_witness:
  "list_all outbox_wf (snd (snd (processBatch (\<lambda>ev q. (False, q)) (\<lambda>_. 1000) 5 (\<lambda>_. False) 20 ()
     [sample_event_row ''e1'' OutPending 0, sample_event_row ''e2'' OutPending 4])))"
proof -
  let ?rows = "[sample_event_row ''e1'' OutPending 0, sample_event_row ''e2'' OutPending 4]"
  obtain n q' rows' where p: "processBatch (\<lambda>ev q. (False, q)) (\<lambda>_. 1000) 5 (\<lambda>_. False) 20 () ?rows = (n, q', rows')"
    by (metis prod_cases3)
  have "list_all outbox_wf ?rows" "distinct (map e_id ?rows)"
    by (simp_all add: sample_event_row_def outbox_wf_def OUTBOX_MAX_ATTEMPTS_def)
  from batch_keeps_events [OF this(2,1) p] show ?thesis by (simp add: p)
qed

text \<open>
  The relay drains: when deliveries succeed, nothing is locked by another relay and the process is not
  stopping, one tick (which always ends) dispatches every event that was due when it started, in however
  many batches that takes, and changes no other row.
\<close>
theorem relay_tick_drains:
  assumes "\<And>ev q. fst (dispatch ev q)"
    and "\<And>j. \<not> re_stopped (env j) \<and> now \<le> re_now (env j) \<and> re_locked (env j) = (\<lambda>_. False)"
    and "relay_tick dispatch env i q rows = (q', rows')"
  shows "list_all2 (\<lambda>e e'. (due now (\<lambda>_. False) e \<longrightarrow> e' = set_dispatched e) \<and>
           (e' = e \<or> e' = set_dispatched e)) rows rows'"
proof -
  have "list_all2 (\<lambda>e e'. \<not> due now (\<lambda>_. False) e' \<and> (e' = e \<or> e' = set_dispatched e)) rows rows'"
    using assms
  proof (induction dispatch env i q rows rule: relay_tick.induct)
    case (1 dispatch env i q rows)
    obtain n q1 rows1 where p: "processBatch dispatch (re_clk (env i)) (re_now (env i)) (re_locked (env i))
        OUTBOX_BATCH_SIZE q rows = (n, q1, rows1)"
      by (metis prod_cases3)
    let ?evs = "claimBatch (re_now (env i)) (re_locked (env i)) OUTBOX_BATCH_SIZE rows"
    obtain os q2 where os: "outcomes dispatch ?evs q = (os, q2)" by fastforce
    have ok: "list_all snd os" using outcomes_all_ok [of dispatch ?evs q] "1.prems"(1) os by simp
    have n: "n = length ?evs"
    proof -
      have "n = length (filter snd os)" using p by (simp add: processBatch_def process_events_eq os)
      also have "filter snd os = os" using ok by (simp add: list_all_iff filter_id_conv)
      also have "length os = length ?evs"
        using outcomes_events [of dispatch ?evs q] os by (metis fst_conv length_map)
      finally show ?thesis .
    qed
    have rows1: "rows1 = map (row_outcomes (re_clk (env i)) os) rows"
      using p by (simp add: processBatch_def process_events_eq os)
    have once: "list_all2 (\<lambda>e e'. e' = e \<or> e' = set_dispatched e) rows rows1"
      using row_outcomes_all_ok [OF ok] by (auto simp: rows1 list_all2_conv_all_nth)
    have ns: "\<not> re_stopped (env i)" using "1.prems"(2) by simp
    show ?case
    proof (cases "0 < n")
      case True
      have rec: "relay_tick dispatch env (i + 1) q1 rows1 = (q', rows')"
        using "1.prems"(3) True ns by (subst (asm) relay_tick.simps) (simp add: p)
      have "list_all2 (\<lambda>e e'. \<not> due now (\<lambda>_. False) e' \<and> (e' = e \<or> e' = set_dispatched e)) rows1 rows'"
        by (rule "1.IH" [OF p [symmetric] refl _ "1.prems"(1,2) rec]) (use True "1.prems"(2) in auto)
      with once show ?thesis
        by (rule list_all2_trans [rotated]) (auto simp: set_dispatched_def)
    next
      case False
      then have "rows' = rows1"
        using "1.prems"(3) by (subst (asm) relay_tick.simps) (simp add: p)
      moreover have "os = []"
        using False n outcomes_events [of dispatch ?evs q] os by simp
      moreover have "\<not> due now (\<lambda>_. False) e" if "e \<in> set rows" for e
      proof -
        have "?evs = []" using False n by simp
        then have "\<not> due (re_now (env i)) (re_locked (env i)) e"
          using that claimBatch_empty [of "re_now (env i)" "re_locked (env i)" 19 rows e]
          by (simp add: OUTBOX_BATCH_SIZE_def)
        then show ?thesis using "1.prems"(2) [of i] by (auto simp: due_def)
      qed
      ultimately show ?thesis
        by (auto simp: rows1 row_outcomes_def list_all2_conv_all_nth)
    qed
  qed
  then show ?thesis by (rule list_all2_mono) auto
qed

theorem relay_tick_drains_witness:
  "list_all2 (\<lambda>e e'. (due 5 (\<lambda>_. False) e \<longrightarrow> e' = set_dispatched e) \<and> (e' = e \<or> e' = set_dispatched e))
     [sample_event_row ''e1'' OutPending 0]
     (snd (relay_tick (\<lambda>ev q. (True, q))
        (\<lambda>_. \<lparr>re_now = 5, re_clk = (\<lambda>_. 6), re_locked = (\<lambda>_. False), re_stopped = False\<rparr>) 0 ()
        [sample_event_row ''e1'' OutPending 0]))"
  by (rule relay_tick_drains [OF _ _ prod.collapse [symmetric]]) simp_all

end
