(* ===== verification/Booking.thy ===== *)
theory Booking
  imports Directory Idempotency Outbox
begin

text \<open>
  Bookings: \<open>src/modules/booking\<close>, its repository, service and controller. Every operation runs on
  the request's tenant transaction: it is a function from the tenant tables to an error (rolled back)
  or a result and the new tables. The ids and the clock the database generates are arguments.
\<close>

section \<open>DTOs\<close>

text \<open>\<open>startsAt\<close> is \<open>new Date(dto.startsAt)\<close>.\<close>
record create_booking_dto =
  cb_staffId :: uuid
  cb_serviceId :: uuid
  cb_customerId :: uuid
  cb_startsAt :: js_date

record reschedule_booking_dto =
  rb_version :: "int option"
  rb_startsAt :: js_date

definition valid_transition_version :: "int \<Rightarrow> bool" where
  "valid_transition_version v \<longleftrightarrow> 1 \<le> v"

definition valid_reschedule :: "reschedule_booking_dto \<Rightarrow> bool" where
  "valid_reschedule d \<longleftrightarrow> opt valid_transition_version (rb_version d)"

section \<open>Repository\<close>

definition slot_taken :: exn where
  "slot_taken = AppException 409 ''BOOKING_SLOT_TAKEN'' ''This time slot is no longer available'' None"

definition mapSlotConflict :: "exn \<Rightarrow> exn" where
  "mapSlotConflict = on_code exclusion_violation slot_taken"

text \<open>What the callers of \<open>create\<close> pass; the dates may be invalid.\<close>
record booking_data =
  bd_staffId :: uuid
  bd_serviceId :: uuid
  bd_customerId :: uuid
  bd_startsAt :: js_date
  bd_endsAt :: js_date
  bd_priceAmount :: int
  bd_priceCurrency :: string
  bd_recurrenceId :: "uuid option"

definition booking_row :: "uuid \<Rightarrow> instant \<Rightarrow> booking_data \<Rightarrow> instant \<Rightarrow> instant \<Rightarrow> booking" where
  "booking_row new_id now d s e =
     \<lparr>e_id = new_id, e_createdAt = now, e_deletedAt = None, e_tenantId = [],
      bk_staffId = bd_staffId d, bk_serviceId = bd_serviceId d, bk_customerId = bd_customerId d,
      bk_startsAt = s, bk_endsAt = e, bk_status = Pending, bk_priceAmount = bd_priceAmount d,
      bk_priceCurrency = bd_priceCurrency d, bk_recurrenceId = bd_recurrenceId d, bk_version = 1\<rparr>"

definition booking_repo_create ::
  "ctx \<Rightarrow> uuid \<Rightarrow> instant \<Rightarrow> booking_data \<Rightarrow> tdb \<Rightarrow> exn + booking \<times> tdb" where
  "booking_repo_create c new_id now d db =
     mapErr mapSlotConflict
       (case (bd_startsAt d, bd_endsAt d) of
          (Some s, Some e) \<Rightarrow>
            bindE (persist c bookings_cs (booking_row new_id now d s e) (bookings db))
              (\<lambda>(b, rows). Inr (b, db\<lparr>bookings := rows\<rparr>))
        | _ \<Rightarrow> bindE (getTenantId c) (\<lambda>_. Inl (DbError bad_datetime)))"

definition booking_findById :: "ctx \<Rightarrow> uuid \<Rightarrow> tdb \<Rightarrow> exn + booking option" where
  "booking_findById c i db = findOne c (\<lambda>b. e_id b = i) (bookings db)"

text \<open>
  The column \<open>version\<close> is a 32-bit integer: \<open>SET "version" = "version" + 1\<close> fails with 22003 when a row the
  statement reaches holds the largest one.
\<close>
definition version_overflows :: "ctx \<Rightarrow> (booking \<Rightarrow> bool) \<Rightarrow> booking list \<Rightarrow> bool" where
  "version_overflows c p rows \<longleftrightarrow>
     list_ex (\<lambda>b. rls_visible (repo_manager c) b \<and> p b \<and> \<not> int4 (bk_version b + 1)) rows"

text \<open>The UPDATE has no \<open>deleted_at\<close> filter; RETURNING gives the ids in table order.\<close>
definition cancelFutureSeries ::
  "ctx \<Rightarrow> uuid \<Rightarrow> instant \<Rightarrow> tdb \<Rightarrow> exn + uuid list \<times> tdb" where
  "cancelFutureSeries c recurrenceId now db =
     bindE (getTenantId c) (\<lambda>t.
       let p = (\<lambda>b. bk_recurrenceId b = Some recurrenceId \<and> e_tenantId b = t \<and>
                    active_status (bk_status b) \<and> now < bk_startsAt b) in
       if version_overflows c p (bookings db) then Inl (DbError numeric_out_of_range)
       else bindE (rls_update c bookings_cs p
                (\<lambda>b. b\<lparr>bk_status := Cancelled, bk_version := bk_version b + 1\<rparr>) (bookings db))
         (\<lambda>(_, rows).
            Inr (map e_id (filter (\<lambda>b. rls_visible (repo_manager c) b \<and> p b) (bookings db)),
                 db\<lparr>bookings := rows\<rparr>)))"

definition findActiveForStaffBetween ::
  "ctx \<Rightarrow> uuid \<Rightarrow> instant \<Rightarrow> instant \<Rightarrow> tdb \<Rightarrow> exn + booking list" where
  "findActiveForStaffBetween c staffId from to db =
     findMany c (\<lambda>b. bk_staffId b = staffId \<and> active_status (bk_status b) \<and>
                    bk_startsAt b < to \<and> from < bk_endsAt b) (bookings db)"

text \<open>\<open>WHERE id = .. AND tenant_id = .. AND version = ..\<close>; a version outside 32 bits is refused, as is a next one.\<close>
definition versioned_update ::
  "ctx \<Rightarrow> uuid \<Rightarrow> int \<Rightarrow> (booking \<Rightarrow> booking) \<Rightarrow> tdb \<Rightarrow> exn + bool \<times> tdb" where
  "versioned_update c i version f db =
     bindE (getTenantId c) (\<lambda>t.
       let p = (\<lambda>b. e_id b = i \<and> e_tenantId b = t \<and> bk_version b = version) in
       if \<not> int4 version then Inl (DbError numeric_out_of_range)
       else if version_overflows c p (bookings db) then Inl (DbError numeric_out_of_range)
       else bindE (rls_update c bookings_cs p f (bookings db))
              (\<lambda>(n, rows). Inr (0 < n, db\<lparr>bookings := rows\<rparr>)))"

definition applyStatus :: "ctx \<Rightarrow> uuid \<Rightarrow> int \<Rightarrow> booking_status \<Rightarrow> tdb \<Rightarrow> exn + bool \<times> tdb" where
  "applyStatus c i version st db =
     versioned_update c i version (\<lambda>b. b\<lparr>bk_status := st, bk_version := bk_version b + 1\<rparr>) db"

definition applyReschedule ::
  "ctx \<Rightarrow> uuid \<Rightarrow> int \<Rightarrow> js_date \<Rightarrow> js_date \<Rightarrow> tdb \<Rightarrow> exn + bool \<times> tdb" where
  "applyReschedule c i version startsAt endsAt db =
     mapErr mapSlotConflict
       (case (startsAt, endsAt) of
          (Some s, Some e) \<Rightarrow>
            versioned_update c i version
              (\<lambda>b. b\<lparr>bk_startsAt := s, bk_endsAt := e, bk_version := bk_version b + 1\<rparr>) db
        | _ \<Rightarrow> bindE (getTenantId c) (\<lambda>_. Inl (DbError bad_datetime)))"

section \<open>Service\<close>

definition booking_payload :: "booking \<Rightarrow> json" where
  "booking_payload b =
     JObj [(''bookingId'', JStr (e_id b)), (''staffId'', JStr (bk_staffId b)),
           (''serviceId'', JStr (bk_serviceId b)), (''customerId'', JStr (bk_customerId b)),
           (''startsAt'', JStr (iso_string (bk_startsAt b))),
           (''status'', JStr (booking_status_str (bk_status b)))]"

definition booking_event :: "booking \<Rightarrow> string \<Rightarrow> record_event_input" where
  "booking_event b eventType =
     \<lparr>ri_aggregateType = ''booking'', ri_aggregateId = e_id b, ri_eventType = eventType,
      ri_payload = booking_payload b\<rparr>"

definition emit :: "ctx \<Rightarrow> uuid \<Rightarrow> instant \<Rightarrow> booking \<Rightarrow> string \<Rightarrow> tdb \<Rightarrow> exn + outbox_event \<times> tdb" where
  "emit c ev_id now b eventType db = outbox_record c ev_id now (booking_event b eventType) db"

text \<open>\<open>new Date(startsAt.getTime() + durationMin * MINUTE_MS)\<close>\<close>
definition js_add_minutes :: "js_date \<Rightarrow> int \<Rightarrow> js_date" where
  "js_add_minutes d m = map_option (\<lambda>x. x + m * MINUTE_MS) d"

definition cannot_perform :: exn where
  "cannot_perform = BadRequestException ''This staff member cannot perform the selected service''"

definition doCreate ::
  "ctx \<Rightarrow> uuid \<Rightarrow> uuid \<Rightarrow> instant \<Rightarrow> create_booking_dto \<Rightarrow> tdb \<Rightarrow> exn + booking \<times> tdb" where
  "doCreate c new_id ev_id now dto db =
     bindE (service_getById c (cb_serviceId dto) db) (\<lambda>service.
     bindE (canPerform c (cb_staffId dto) (cb_serviceId dto) db) (\<lambda>ok.
     bindE (guardE ok cannot_perform) (\<lambda>_.
     bindE (customer_getById c (cb_customerId dto) db) (\<lambda>_.
     bindE (booking_repo_create c new_id now
              \<lparr>bd_staffId = cb_staffId dto, bd_serviceId = cb_serviceId dto,
               bd_customerId = cb_customerId dto, bd_startsAt = cb_startsAt dto,
               bd_endsAt = js_add_minutes (cb_startsAt dto) (svc_durationMin service),
               bd_priceAmount = svc_priceAmount service,
               bd_priceCurrency = svc_priceCurrency service, bd_recurrenceId = None\<rparr> db) (\<lambda>(b, db1).
     bindE (emit c ev_id now b ''booking.created'' db1) (\<lambda>(_, db2). Inr (b, db2)))))))"

text \<open>\<open>create\<close>: deduplicated by the Idempotency-Key; \<open>body\<close> is the request body as JSON.\<close>
definition booking_create ::
  "(string \<Rightarrow> string) \<Rightarrow> (json \<Rightarrow> json) \<Rightarrow> (booking \<Rightarrow> json) \<Rightarrow> ctx \<Rightarrow> uuid \<Rightarrow> uuid \<Rightarrow> uuid \<Rightarrow> instant \<Rightarrow>
     string option \<Rightarrow> json \<Rightarrow> create_booking_dto \<Rightarrow> tdb \<Rightarrow> exn + booking run_result \<times> tdb" where
  "booking_create sha256 jsonb toPlain c key_id new_id ev_id now key body dto db =
     idem_run sha256 jsonb toPlain c key_id now key (Some body) (doCreate c new_id ev_id now dto) db"

definition createOccurrence ::
  "ctx \<Rightarrow> uuid \<Rightarrow> uuid \<Rightarrow> instant \<Rightarrow> booking_data \<Rightarrow> uuid \<Rightarrow> tdb \<Rightarrow> exn + booking \<times> tdb" where
  "createOccurrence c new_id ev_id now spec recurrenceId db =
     bindE (booking_repo_create c new_id now (spec\<lparr>bd_recurrenceId := Some recurrenceId\<rparr>) db) (\<lambda>(b, db1).
     bindE (emit c ev_id now b ''booking.created'' db1) (\<lambda>(_, db2). Inr (b, db2)))"

definition isSlotTaken :: "exn \<Rightarrow> bool" where
  "isSlotTaken e = (case e of AppException _ code _ _ \<Rightarrow> code = ''BOOKING_SLOT_TAKEN'' | _ \<Rightarrow> False)"

definition booking_getOrThrow :: "ctx \<Rightarrow> uuid \<Rightarrow> tdb \<Rightarrow> exn + booking" where
  "booking_getOrThrow c i db =
     bindE (booking_findById c i db) (\<lambda>b. requireE b (NotFoundException ''Booking not found''))"

text \<open>One \<open>booking.cancelled\<close> event per id; \<open>gen k\<close> is the id of the k-th event row.\<close>
fun emit_cancelled ::
  "ctx \<Rightarrow> (nat \<Rightarrow> uuid) \<Rightarrow> nat \<Rightarrow> instant \<Rightarrow> uuid list \<Rightarrow> tdb \<Rightarrow> exn + unit \<times> tdb" where
  "emit_cancelled c gen k now [] db = Inr ((), db)"
| "emit_cancelled c gen k now (i # is) db =
     bindE (booking_getOrThrow c i db) (\<lambda>b.
     bindE (emit c (gen k) now b ''booking.cancelled'' db) (\<lambda>(_, db1).
       emit_cancelled c gen (k + 1) now is db1))"

text \<open>\<open>js_now\<close> is \<open>new Date()\<close> in the process, \<open>now\<close> the database's clock.\<close>
definition cancelSeries ::
  "ctx \<Rightarrow> (nat \<Rightarrow> uuid) \<Rightarrow> instant \<Rightarrow> instant \<Rightarrow> uuid \<Rightarrow> tdb \<Rightarrow> exn + nat \<times> tdb" where
  "cancelSeries c gen js_now now recurrenceId db =
     bindE (cancelFutureSeries c recurrenceId js_now db) (\<lambda>(ids, db1).
     bindE (emit_cancelled c gen 0 now ids db1) (\<lambda>(_, db2). Inr (length ids, db2)))"

definition staleError :: exn where
  "staleError = AppException 409 ''STALE_BOOKING'' ''Booking was modified concurrently; reload and retry'' None"

definition transition ::
  "ctx \<Rightarrow> uuid \<Rightarrow> instant \<Rightarrow> uuid \<Rightarrow> int \<Rightarrow> booking_status \<Rightarrow> tdb \<Rightarrow> exn + booking \<times> tdb" where
  "transition c ev_id now i version to db =
     bindE (booking_getOrThrow c i db) (\<lambda>b.
     bindE (booking_assertCanTransition (bk_status b) to) (\<lambda>_.
     bindE (applyStatus c i version to db) (\<lambda>(applied, db1).
     bindE (guardE applied staleError) (\<lambda>_.
     bindE (booking_getOrThrow c i db1) (\<lambda>updated.
     bindE (emit c ev_id now updated (''booking.'' @ booking_status_str to) db1) (\<lambda>(_, db2).
       Inr (updated, db2)))))))"

definition confirm where "confirm c ev now i v db = transition c ev now i v Confirmed db"
definition complete_booking where "complete_booking c ev now i v db = transition c ev now i v Completed db"
definition cancel where "cancel c ev now i v db = transition c ev now i v Cancelled db"
definition noShow where "noShow c ev now i v db = transition c ev now i v NoShow db"

definition reschedule ::
  "ctx \<Rightarrow> uuid \<Rightarrow> instant \<Rightarrow> uuid \<Rightarrow> reschedule_booking_dto \<Rightarrow> int option \<Rightarrow> tdb \<Rightarrow> exn + booking \<times> tdb" where
  "reschedule c ev_id now i dto ifMatchVersion db =
     bindE (requireE (case ifMatchVersion of None \<Rightarrow> rb_version dto | Some v \<Rightarrow> Some v)
        (BadRequestException ''A version is required, via the If-Match header or the body'')) (\<lambda>version.
     bindE (booking_getOrThrow c i db) (\<lambda>b.
     bindE (guardE (active_status (bk_status b))
        (UnprocessableStateException ''Only active bookings can be rescheduled'')) (\<lambda>_.
     bindE (service_getById c (bk_serviceId b) db) (\<lambda>service.
     bindE (applyReschedule c i version (rb_startsAt dto)
              (js_add_minutes (rb_startsAt dto) (svc_durationMin service)) db) (\<lambda>(applied, db1).
     bindE (guardE applied
        (if ifMatchVersion \<noteq> None
         then PreconditionFailedException ''Booking version does not match If-Match''
         else staleError)) (\<lambda>_.
     bindE (booking_getOrThrow c i db1) (\<lambda>updated.
     bindE (emit c ev_id now updated ''booking.rescheduled'' db1) (\<lambda>(_, db2).
       Inr (updated, db2)))))))))"

section \<open>Controller\<close>

definition quote_char :: char where "quote_char = char_of (34::nat)"

definition etag :: "booking \<Rightarrow> string" where
  "etag b = quote_char # int_str (bk_version b) @ [quote_char]"

definition booking_get :: "ctx \<Rightarrow> uuid \<Rightarrow> tdb \<Rightarrow> exn + booking \<times> string" where
  "booking_get c i db = bindE (booking_getOrThrow c i db) (\<lambda>b. Inr (b, etag b))"

text \<open>\<open>Number.parseInt(ifMatch.replace(/^W\//, '').replace(/"/g, ''), 10)\<close>, \<open>NaN\<close> as absent.\<close>
definition parse_if_match :: "string option \<Rightarrow> int option" where
  "parse_if_match h =
     (case h of
        None \<Rightarrow> None
      | Some s \<Rightarrow> if s = [] then None
          else js_parseInt (filter (\<lambda>x. x \<noteq> quote_char) (if starts_with ''W/'' s then drop 2 s else s)))"

definition reschedule_endpoint ::
  "ctx \<Rightarrow> uuid \<Rightarrow> instant \<Rightarrow> uuid \<Rightarrow> reschedule_booking_dto \<Rightarrow> string option \<Rightarrow> tdb \<Rightarrow> exn + booking \<times> tdb" where
  "reschedule_endpoint c ev_id now i dto ifMatch db =
     reschedule c ev_id now i dto (parse_if_match ifMatch) db"

section \<open>In a tenant's transaction\<close>

lemma outbox_record_tx:
  "t \<noteq> [] \<Longrightarrow> outbox_record (tenant_tx t) i now inp db =
     bindE (insert_checked outbox_cs (outbox_row i now t inp) (outbox_events db))
       (\<lambda>rows. Inr (outbox_row i now t inp, db\<lparr>outbox_events := rows\<rparr>))"
  by (simp add: outbox_record_def Let_def)

lemma emit_Inr:
  assumes "t \<noteq> []" "emit (tenant_tx t) ev now b ty db = Inr (e, db')"
  shows "e = outbox_row ev now t (booking_event b ty)"
    and "db' = db\<lparr>outbox_events := outbox_events db @ [e]\<rparr>"
    and "ev \<notin> e_id ` set (outbox_events db)"
proof -
  obtain rows where rows:
      "insert_checked outbox_cs (outbox_row ev now t (booking_event b ty)) (outbox_events db) = Inr rows"
      "e = outbox_row ev now t (booking_event b ty)" "db' = db\<lparr>outbox_events := rows\<rparr>"
    using assms by (auto simp: emit_def outbox_record_tx result_simps)
  show "e = outbox_row ev now t (booking_event b ty)" by (rule rows)
  show "db' = db\<lparr>outbox_events := outbox_events db @ [e]\<rparr>"
    using rows insert_checked_eq [OF rows(1)] by simp
  show "ev \<notin> e_id ` set (outbox_events db)"
    using outbox_tbl.insert_fresh [OF rows(1)] by (simp add: outbox_row_def)
qed

lemma emit_fresh:
  assumes "t \<noteq> []" "ev \<notin> e_id ` set (outbox_events db)"
  shows "emit (tenant_tx t) ev now b ty db =
     Inr (outbox_row ev now t (booking_event b ty),
          db\<lparr>outbox_events := outbox_events db @ [outbox_row ev now t (booking_event b ty)]\<rparr>)"
proof -
  have "insert_checked outbox_cs (outbox_row ev now t (booking_event b ty)) (outbox_events db) =
        Inr (outbox_events db @ [outbox_row ev now t (booking_event b ty)])"
    using assms(2) by (auto simp: insert_checked_Inr_iff outbox_cs_def pk_conflict_def outbox_row_def)
  then show ?thesis using assms(1) by (simp add: emit_def outbox_record_tx)
qed

lemma booking_getOrThrow_tx:
  "t \<noteq> [] \<Longrightarrow> booking_getOrThrow (tenant_tx t) i db =
     requireE (find (\<lambda>b. e_tenantId b = t \<and> live b \<and> e_id b = i) (bookings db))
       (NotFoundException ''Booking not found'')"
  by (simp add: booking_getOrThrow_def booking_findById_def)

lemma booking_getOrThrow_Inr:
  assumes "t \<noteq> []" "booking_getOrThrow (tenant_tx t) i db = Inr b"
  shows "b \<in> set (bookings db)" "e_tenantId b = t" "live b" "e_id b = i"
  using assms by (auto simp: booking_getOrThrow_tx result_simps dest!: find_Some_mem)

lemma booking_repo_create_tx:
  "t \<noteq> [] \<Longrightarrow> booking_repo_create (tenant_tx t) i now d db =
     mapErr mapSlotConflict
       (case (bd_startsAt d, bd_endsAt d) of
          (Some s, Some e) \<Rightarrow>
            bindE (insert_checked bookings_cs (booking_row i now d s e\<lparr>e_tenantId := t\<rparr>) (bookings db))
              (\<lambda>rows. Inr (booking_row i now d s e\<lparr>e_tenantId := t\<rparr>, db\<lparr>bookings := rows\<rparr>))
        | _ \<Rightarrow> Inl (DbError bad_datetime))"
  by (simp add: booking_repo_create_def bindE_assoc split: option.splits)

lemma booking_repo_create_Inr:
  assumes "t \<noteq> []" "booking_repo_create (tenant_tx t) i now d db = Inr (b, db')"
  obtains s e where "bd_startsAt d = Some s" "bd_endsAt d = Some e"
    "b = booking_row i now d s e\<lparr>e_tenantId := t\<rparr>" "db' = db\<lparr>bookings := bookings db @ [b]\<rparr>"
    "insert_checked bookings_cs b (bookings db) = Inr (bookings db @ [b])"
proof -
  obtain s e where se: "bd_startsAt d = Some s" "bd_endsAt d = Some e"
    using assms by (auto simp: booking_repo_create_tx mapErr_eq split: option.splits)
  let ?b = "booking_row i now d s e\<lparr>e_tenantId := t\<rparr>"
  obtain rows where rows: "insert_checked bookings_cs ?b (bookings db) = Inr rows"
      "b = ?b" "db' = db\<lparr>bookings := rows\<rparr>"
    using assms by (auto simp: booking_repo_create_tx result_simps se)
  have "rows = bookings db @ [?b]" using rows(1) by (rule insert_checked_eq)
  then show thesis using that [OF se rows(2)] rows by simp
qed

lemma versioned_update_Inr:
  assumes "t \<noteq> []" "versioned_update (tenant_tx t) i v f db = Inr (applied, db')"
  defines "p \<equiv> \<lambda>b. e_tenantId b = t \<and> e_id b = i \<and> bk_version b = v"
  shows "int4 v" "db' = db\<lparr>bookings := update_where p f (bookings db)\<rparr>"
    "applied \<longleftrightarrow> (\<exists>b \<in> set (bookings db). p b)" "sat_all bookings_cs (bookings db')"
proof -
  let ?q = "\<lambda>b. e_tenantId b = t \<and> e_id b = i \<and> e_tenantId b = t \<and> bk_version b = v"
  have pq: "?q = p" by (auto simp: p_def)
  obtain rows where rows: "update_checked bookings_cs p f (bookings db) = Inr rows" "int4 v"
      "applied = (0 < affected p (bookings db))" "db' = db\<lparr>bookings := rows\<rparr>"
    using assms(1,2)
    by (auto simp: versioned_update_def rls_update_def Let_def result_simps pq split: if_splits)
  show "int4 v" by (rule rows)
  show "db' = db\<lparr>bookings := update_where p f (bookings db)\<rparr>"
    using rows(4) update_checked_eq [OF rows(1)] by simp
  show "applied \<longleftrightarrow> (\<exists>b \<in> set (bookings db). p b)" using rows(3) by (simp add: affected_pos)
  show "sat_all bookings_cs (bookings db')"
    using rows bookings_tbl.update_sat by simp
qed

end
