(* ===== verification/Booking_Facts.thy ===== *)
theory Booking_Facts
  imports Booking Lifecycle
begin

text \<open>
  What the booking operations do, branch by branch: \<open>doCreate\<close>, \<open>transition\<close> and \<open>reschedule\<close> as
  closed functions of the tenant's tables, the evolution of a single row, and the effect of cancelling
  a series. The properties of the booking component are read off these.
\<close>

section \<open>Writing one booking\<close>

lemma booking_row_simps [simp]:
  "e_id (booking_row i now d s e) = i" "e_deletedAt (booking_row i now d s e) = None"
  "bk_status (booking_row i now d s e) = Pending" "bk_version (booking_row i now d s e) = 1"
  "bk_startsAt (booking_row i now d s e) = s" "bk_endsAt (booking_row i now d s e) = e"
  "bk_staffId (booking_row i now d s e) = bd_staffId d"
  "bk_serviceId (booking_row i now d s e) = bd_serviceId d"
  "bk_customerId (booking_row i now d s e) = bd_customerId d"
  "bk_priceAmount (booking_row i now d s e) = bd_priceAmount d"
  "bk_priceCurrency (booking_row i now d s e) = bd_priceCurrency d"
  "bk_recurrenceId (booking_row i now d s e) = bd_recurrenceId d"
  by (simp_all add: booking_row_def)

lemma booking_insert_checked:
  assumes "e_id b \<notin> e_id ` set rows"
  shows "insert_checked bookings_cs b rows =
     (if list_ex (booking_conflict b) rows then Inl (DbError exclusion_violation) else Inr (rows @ [b]))"
proof -
  have "\<not> list_ex (pk_conflict b) rows" using assms by (auto simp: list_ex_iff pk_conflict_def)
  then show ?thesis by (simp add: insert_checked_def bookings_cs_def)
qed

text \<open>An UPDATE of the row \<open>b\<close> alone; the primary key is not among the changed columns.\<close>
lemma booking_update_checked:
  assumes "sat_all bookings_cs rows" "b \<in> set rows" "e_id (f b) = e_id b"
    and "\<And>x. x \<in> set rows \<Longrightarrow> p x \<longleftrightarrow> x = b"
  shows "update_checked bookings_cs p f rows =
     (if list_ex (\<lambda>x. x \<noteq> b \<and> booking_conflict (f b) x) rows then Inl (DbError exclusion_violation)
      else Inr (update_where p f rows))"
proof -
  have pk: "\<not> violates pk_conflict (update_where p f rows)"
    using bookings_tbl.update_one_violates [OF assms(1,2) _ assms(4), of unique_violation pk_conflict f]
      bookings_tbl.key_inj [OF assms(1) _ assms(2)] assms(3)
    by (auto simp: bookings_cs_def pk_conflict_def)
  have ex: "violates booking_conflict (update_where p f rows) \<longleftrightarrow>
        (\<exists>x \<in> set rows. x \<noteq> b \<and> booking_conflict (f b) x)"
    using assms(4) by (intro bookings_tbl.update_one_violates [OF assms(1,2), of exclusion_violation])
      (simp_all add: bookings_cs_def)
  show ?thesis using pk ex by (simp add: update_checked_def bookings_cs_def list_ex_iff)
qed

lemma versioned_update_spec:
  assumes "t \<noteq> []" "sat_all bookings_cs (bookings db)"
    and "find (\<lambda>x. e_tenantId x = t \<and> live x \<and> e_id x = i) (bookings db) = Some b"
    and "\<And>x. e_id (f x) = e_id x"
  shows "versioned_update (tenant_tx t) i v f db =
     (if \<not> int4 v then Inl (DbError numeric_out_of_range)
      else if v \<noteq> bk_version b then Inr (False, db)
      else if \<not> int4 (v + 1) then Inl (DbError numeric_out_of_range)
      else if list_ex (\<lambda>x. x \<noteq> b \<and> booking_conflict (f b) x) (bookings db)
        then Inl (DbError exclusion_violation)
      else Inr (True, db\<lparr>bookings := update_where (\<lambda>x. x = b) f (bookings db)\<rparr>))"
proof -
  let ?p = "\<lambda>x. e_tenantId x = t \<and> e_id x = i \<and> e_tenantId x = t \<and> bk_version x = v"
  have b: "b \<in> set (bookings db)" "e_tenantId b = t" "e_id b = i"
    using find_Some_mem [OF assms(3)] by auto
  have only: "x = b" if "x \<in> set (bookings db)" "e_id x = i" for x
    using bookings_tbl.key_inj [OF assms(2) that(1) b(1)] that(2) b(3) by simp
  show ?thesis
  proof (cases "v = bk_version b")
    case True
    have p: "?p x \<longleftrightarrow> x = b" if "x \<in> set (bookings db)" for x
      using only [OF that] b True by auto
    have "affected ?p (bookings db) > 0" using p b(1) by (auto simp: affected_pos)
    moreover have "update_where ?p f (bookings db) = update_where (\<lambda>x. x = b) f (bookings db)"
      using p by (auto simp: update_where_def)
    moreover have "version_overflows (tenant_tx t) (\<lambda>x. e_id x = i \<and> e_tenantId x = t \<and> bk_version x = v) (bookings db) \<longleftrightarrow>
        \<not> int4 (v + 1)"
    proof
      assume "\<not> int4 (v + 1)"
      then show "version_overflows (tenant_tx t) (\<lambda>x. e_id x = i \<and> e_tenantId x = t \<and> bk_version x = v) (bookings db)"
        using b True by (auto simp: version_overflows_def list_ex_iff intro!: bexI [of _ b])
    qed (auto simp: version_overflows_def list_ex_iff)
    ultimately show ?thesis
      using assms(1) True booking_update_checked [where p = ?p and f = f and b = b, OF assms(2) b(1) assms(4) [of b] p]
      by (simp add: versioned_update_def rls_update_def Let_def)
  next
    case False
    have none: "\<not> ?p x" if "x \<in> set (bookings db)" for x using only [OF that] False by auto
    then have "update_where ?p f (bookings db) = bookings db" by (rule update_where_none)
    moreover from this have "update_checked bookings_cs ?p f (bookings db) = Inr (bookings db)"
      using assms(2) by (simp add: update_checked_Inr_iff)
    moreover have "affected ?p (bookings db) = 0" using none by (simp add: affected_def filter_empty_conv)
    moreover have "\<not> version_overflows (tenant_tx t) (\<lambda>x. e_id x = i \<and> e_tenantId x = t \<and> bk_version x = v) (bookings db)"
      using none by (auto simp: version_overflows_def list_ex_iff)
    ultimately show ?thesis using assms(1) False
      by (simp add: versioned_update_def rls_update_def Let_def)
  qed
qed

text \<open>After the update of the row found, the same lookup finds the updated row.\<close>
lemma find_updated:
  assumes "sat_all bookings_cs rows"
    and "find (\<lambda>x. e_tenantId x = t \<and> live x \<and> e_id x = i) rows = Some b"
    and "e_id (f b) = i" "e_tenantId (f b) = t" "live (f b)"
  shows "find (\<lambda>x. e_tenantId x = t \<and> live x \<and> e_id x = i) (update_where (\<lambda>x. x = b) f rows) = Some (f b)"
proof (rule find_unique)
  have b: "b \<in> set rows" "e_id b = i" using find_Some_mem [OF assms(2)] by auto
  show "f b \<in> set (update_where (\<lambda>x. x = b) f rows)" using b by (auto simp: set_update_where)
  show "e_tenantId (f b) = t \<and> live (f b) \<and> e_id (f b) = i" using assms by simp
  fix y
  assume y: "y \<in> set (update_where (\<lambda>x. x = b) f rows)" "e_tenantId y = t \<and> live y \<and> e_id y = i"
  show "y = f b"
  proof (rule ccontr)
    assume n: "y \<noteq> f b"
    then have "y \<in> set rows" "y \<noteq> b" using y(1) by (auto simp: set_update_where)
    then show False using bookings_tbl.key_inj [OF assms(1) _ b(1)] y(2) b(2) by auto
  qed
qed

section \<open>The operations as functions of the tables\<close>

definition created_booking :: "uuid \<Rightarrow> uuid \<Rightarrow> instant \<Rightarrow> create_booking_dto \<Rightarrow> instant \<Rightarrow> service_row \<Rightarrow> booking" where
  "created_booking t i now dto s sv =
     \<lparr>e_id = i, e_createdAt = now, e_deletedAt = None, e_tenantId = t,
      bk_staffId = cb_staffId dto, bk_serviceId = cb_serviceId dto, bk_customerId = cb_customerId dto,
      bk_startsAt = s, bk_endsAt = s + svc_durationMin sv * MINUTE_MS, bk_status = Pending,
      bk_priceAmount = svc_priceAmount sv, bk_priceCurrency = svc_priceCurrency sv,
      bk_recurrenceId = None, bk_version = 1\<rparr>"

text \<open>\<open>db\<close> with booking \<open>b\<close> inserted, or row \<open>b\<close> replaced, and its event recorded.\<close>
definition with_event :: "uuid \<Rightarrow> instant \<Rightarrow> uuid \<Rightarrow> booking \<Rightarrow> string \<Rightarrow> tdb \<Rightarrow> tdb" where
  "with_event ev now t b ty db =
     db\<lparr>outbox_events := outbox_events db @ [outbox_row ev now t (booking_event b ty)]\<rparr>"

lemma with_event_frame [simp]:
  "bookings (with_event ev now t b ty db) = bookings db"
  "services (with_event ev now t b ty db) = services db"
  "staff_services (with_event ev now t b ty db) = staff_services db"
  "customers (with_event ev now t b ty db) = customers db"
  "idempotency_keys (with_event ev now t b ty db) = idempotency_keys db"
  "outbox_events (with_event ev now t b ty db) =
     outbox_events db @ [outbox_row ev now t (booking_event b ty)]"
  by (simp_all add: with_event_def)

text \<open>Lookups of the tenant \<open>t\<close>.\<close>
definition service_of :: "uuid \<Rightarrow> uuid \<Rightarrow> tdb \<Rightarrow> service_row option" where
  "service_of t i db = find (\<lambda>r. e_tenantId r = t \<and> live r \<and> e_id r = i) (services db)"

definition capable :: "uuid \<Rightarrow> uuid \<Rightarrow> uuid \<Rightarrow> tdb \<Rightarrow> bool" where
  "capable t st sv db \<longleftrightarrow>
     list_ex (\<lambda>r. e_tenantId r = t \<and> live r \<and> ss_staffId r = st \<and> ss_serviceId r = sv) (staff_services db)"

definition customer_of :: "uuid \<Rightarrow> uuid \<Rightarrow> tdb \<Rightarrow> customer_row option" where
  "customer_of t i db = find (\<lambda>r. e_tenantId r = t \<and> live r \<and> e_id r = i) (customers db)"

definition booking_of :: "uuid \<Rightarrow> uuid \<Rightarrow> tdb \<Rightarrow> booking option" where
  "booking_of t i db = find (\<lambda>b. e_tenantId b = t \<and> live b \<and> e_id b = i) (bookings db)"

lemma lookup_tx:
  assumes "t \<noteq> []"
  shows "service_getById (tenant_tx t) i db = requireE (service_of t i db) (NotFoundException ''Service not found'')"
    and "canPerform (tenant_tx t) st i db = Inr (capable t st i db)"
    and "customer_getById (tenant_tx t) i db = requireE (customer_of t i db) (NotFoundException ''Customer not found'')"
    and "booking_getOrThrow (tenant_tx t) i db = requireE (booking_of t i db) (NotFoundException ''Booking not found'')"
  using assms
  by (simp_all add: service_getById_tx canPerform_tx customer_getById_tx booking_getOrThrow_tx
      service_of_def capable_def customer_of_def booking_of_def)

lemma doCreate_spec:
  assumes "t \<noteq> []" "i \<notin> e_id ` set (bookings db)" "ev \<notin> e_id ` set (outbox_events db)"
  shows "doCreate (tenant_tx t) i ev now dto db =
     (case service_of t (cb_serviceId dto) db of
        None \<Rightarrow> Inl (NotFoundException ''Service not found'')
      | Some sv \<Rightarrow>
          if \<not> capable t (cb_staffId dto) (cb_serviceId dto) db then Inl cannot_perform
          else if customer_of t (cb_customerId dto) db = None then Inl (NotFoundException ''Customer not found'')
          else (case cb_startsAt dto of
              None \<Rightarrow> Inl (DbError bad_datetime)
            | Some s \<Rightarrow>
                let b = created_booking t i now dto s sv in
                if list_ex (booking_conflict b) (bookings db) then Inl slot_taken
                else Inr (b, with_event ev now t b ''booking.created''
                                (db\<lparr>bookings := bookings db @ [b]\<rparr>))))"
proof (cases "service_of t (cb_serviceId dto) db")
  case None
  then show ?thesis using assms(1) by (simp add: doCreate_def lookup_tx)
next
  case (Some sv)
  show ?thesis
  proof (cases "capable t (cb_staffId dto) (cb_serviceId dto) db \<and> customer_of t (cb_customerId dto) db \<noteq> None")
    case False
    then show ?thesis using assms(1) Some by (auto simp: doCreate_def lookup_tx guardE_def)
  next
    case True
    then obtain cu where cu: "customer_of t (cb_customerId dto) db = Some cu" by auto
    show ?thesis
    proof (cases "cb_startsAt dto")
      case None
      then show ?thesis using assms(1) Some True cu
        by (simp add: doCreate_def lookup_tx booking_repo_create_tx mapSlotConflict_def)
    next
      case (Some s)
      let ?e = "s + svc_durationMin sv * MINUTE_MS"
      let ?d = "\<lparr>bd_staffId = cb_staffId dto, bd_serviceId = cb_serviceId dto,
               bd_customerId = cb_customerId dto, bd_startsAt = Some s, bd_endsAt = Some ?e,
               bd_priceAmount = svc_priceAmount sv,
               bd_priceCurrency = svc_priceCurrency sv, bd_recurrenceId = None\<rparr>"
      have row: "booking_row i now ?d s ?e\<lparr>e_tenantId := t\<rparr> = created_booking t i now dto s sv"
        by (simp add: booking_row_def created_booking_def)
      have idb: "e_id (created_booking t i now dto s sv) \<notin> e_id ` set (bookings db)"
        using assms(2) by (simp add: created_booking_def)
      have "booking_repo_create (tenant_tx t) i now ?d db =
         (if list_ex (booking_conflict (created_booking t i now dto s sv)) (bookings db) then Inl slot_taken
          else Inr (created_booking t i now dto s sv,
                    db\<lparr>bookings := bookings db @ [created_booking t i now dto s sv]\<rparr>))"
        using assms(1)
        by (simp add: booking_repo_create_tx row
            booking_insert_checked [OF idb] mapSlotConflict_def)
      then show ?thesis
        using assms(1,3) \<open>service_of t (cb_serviceId dto) db = Some sv\<close> True cu Some
        by (simp add: doCreate_def lookup_tx Let_def emit_fresh with_event_def js_add_minutes_def)
    qed
  qed
qed


definition set_status :: "booking_status \<Rightarrow> booking \<Rightarrow> booking" where
  "set_status st b = b\<lparr>bk_status := st, bk_version := bk_version b + 1\<rparr>"

definition set_slot :: "instant \<Rightarrow> instant \<Rightarrow> booking \<Rightarrow> booking" where
  "set_slot s e b = b\<lparr>bk_startsAt := s, bk_endsAt := e, bk_version := bk_version b + 1\<rparr>"

lemma set_status_simps [simp]:
  "e_id (set_status st b) = e_id b" "e_tenantId (set_status st b) = e_tenantId b"
  "e_deletedAt (set_status st b) = e_deletedAt b" "live (set_status st b) = live b"
  "bk_status (set_status st b) = st" "bk_version (set_status st b) = bk_version b + 1"
  "bk_startsAt (set_status st b) = bk_startsAt b" "bk_endsAt (set_status st b) = bk_endsAt b"
  "bk_staffId (set_status st b) = bk_staffId b"
  by (simp_all add: set_status_def live_def)

lemma set_slot_simps [simp]:
  "e_id (set_slot s e b) = e_id b" "e_tenantId (set_slot s e b) = e_tenantId b"
  "e_deletedAt (set_slot s e b) = e_deletedAt b" "live (set_slot s e b) = live b"
  "bk_status (set_slot s e b) = bk_status b" "bk_version (set_slot s e b) = bk_version b + 1"
  "bk_startsAt (set_slot s e b) = s" "bk_endsAt (set_slot s e b) = e"
  "bk_staffId (set_slot s e b) = bk_staffId b" "bk_serviceId (set_slot s e b) = bk_serviceId b"
  by (simp_all add: set_slot_def live_def)

text \<open>\<open>db\<close> with row \<open>b\<close> rewritten by \<open>f\<close>.\<close>
definition with_booking :: "booking \<Rightarrow> (booking \<Rightarrow> booking) \<Rightarrow> tdb \<Rightarrow> tdb" where
  "with_booking b f db = db\<lparr>bookings := update_where (\<lambda>x. x = b) f (bookings db)\<rparr>"

lemma with_booking_frame [simp]:
  "bookings (with_booking b f db) = update_where (\<lambda>x. x = b) f (bookings db)"
  "services (with_booking b f db) = services db"
  "outbox_events (with_booking b f db) = outbox_events db"
  "idempotency_keys (with_booking b f db) = idempotency_keys db"
  by (simp_all add: with_booking_def)

lemma booking_of_Some:
  "booking_of t i db = Some b \<Longrightarrow> b \<in> set (bookings db) \<and> e_tenantId b = t \<and> live b \<and> e_id b = i"
  by (auto simp: booking_of_def dest!: find_Some_mem)

lemma booking_of_updated:
  assumes "sat_all bookings_cs (bookings db)" "booking_of t i db = Some b"
    and "e_id (f b) = e_id b" "e_tenantId (f b) = e_tenantId b" "live (f b) = live b"
  shows "booking_of t i (with_booking b f db) = Some (f b)"
  using find_updated [OF assms(1) assms(2) [unfolded booking_of_def], of f] assms(3-5)
    booking_of_Some [OF assms(2)]
  by (simp add: booking_of_def)

text \<open>A legal status change never makes a new conflict: it ends in the one active status only from the other.\<close>
lemma set_status_no_conflict:
  assumes "sat_all bookings_cs rows" "b \<in> set rows" "x \<in> set rows" "x \<noteq> b"
    and "booking_canTransition (bk_status b) to"
  shows "\<not> booking_conflict (set_status to b) x"
proof
  assume c: "booking_conflict (set_status to b) x"
  then have "active_status to" by (simp add: booking_conflict_def booking_occupies_def)
  then have "active_status (bk_status b)"
    using assms(5) by (cases "bk_status b") (auto simp: booking_canTransition_def)
  then have "booking_conflict b x" using c by (simp add: booking_conflict_def booking_occupies_def)
  moreover have "\<not> booking_conflict b x"
    using bookings_tbl.no_conflict [OF assms(1) _ assms(2,3)] assms(4) by (auto simp: bookings_cs_def)
  ultimately show False by blast
qed

lemma applyStatus_set_status: "applyStatus c i v st db = versioned_update c i v (set_status st) db"
  by (simp add: applyStatus_def set_status_def [abs_def])

lemma transition_spec:
  assumes "t \<noteq> []" "sat_all bookings_cs (bookings db)" "ev \<notin> e_id ` set (outbox_events db)"
  shows "transition (tenant_tx t) ev now i v to db =
     (case booking_of t i db of
        None \<Rightarrow> Inl (NotFoundException ''Booking not found'')
      | Some b \<Rightarrow>
          if \<not> booking_canTransition (bk_status b) to
            then Inl (UnprocessableStateException (''Cannot change a '' @ booking_status_str (bk_status b) @
              '' booking to '' @ booking_status_str to))
          else if \<not> int4 v then Inl (DbError numeric_out_of_range)
          else if v \<noteq> bk_version b then Inl staleError
          else if \<not> int4 (v + 1) then Inl (DbError numeric_out_of_range)
          else Inr (set_status to b,
                    with_event ev now t (set_status to b) (''booking.'' @ booking_status_str to)
                      (with_booking b (set_status to) db)))"
proof (cases "booking_of t i db")
  case None
  then show ?thesis using assms(1) by (simp add: transition_def lookup_tx)
next
  case (Some b)
  note b = booking_of_Some [OF Some]
  show ?thesis
  proof (cases "booking_canTransition (bk_status b) to")
    case False
    then show ?thesis using assms(1) Some
      by (simp add: transition_def lookup_tx booking_assertCanTransition_def)
  next
    case True
    have vu: "versioned_update (tenant_tx t) i v (set_status to) db =
       (if \<not> int4 v then Inl (DbError numeric_out_of_range)
        else if v \<noteq> bk_version b then Inr (False, db)
        else if \<not> int4 (v + 1) then Inl (DbError numeric_out_of_range)
        else Inr (True, with_booking b (set_status to) db))"
      using versioned_update_spec [OF assms(1,2) Some [unfolded booking_of_def], of "set_status to" v]
        set_status_no_conflict [OF assms(2) _ _ _ True] b
      by (auto simp: with_booking_def list_ex_iff)
    have upd: "booking_of t i (with_booking b (set_status to) db) = Some (set_status to b)"
      using assms(2) Some by (intro booking_of_updated) simp_all
    show ?thesis using assms(1,3) Some True
      by (simp add: transition_def lookup_tx booking_assertCanTransition_def applyStatus_set_status vu upd
          emit_fresh with_event_def)
  qed
qed

lemma applyReschedule_Some:
  "applyReschedule c i v (Some s) (Some e) db = mapErr mapSlotConflict (versioned_update c i v (set_slot s e) db)"
  by (simp add: applyReschedule_def set_slot_def [abs_def])

definition no_version :: exn where
  "no_version = BadRequestException ''A version is required, via the If-Match header or the body''"

lemma reschedule_spec:
  assumes "t \<noteq> []" "sat_all bookings_cs (bookings db)" "ev \<notin> e_id ` set (outbox_events db)"
  shows "reschedule (tenant_tx t) ev now i dto ifMatch db =
     (case (case ifMatch of None \<Rightarrow> rb_version dto | Some v \<Rightarrow> Some v) of
        None \<Rightarrow> Inl no_version
      | Some v \<Rightarrow>
        (case booking_of t i db of
           None \<Rightarrow> Inl (NotFoundException ''Booking not found'')
         | Some b \<Rightarrow>
           if \<not> active_status (bk_status b)
             then Inl (UnprocessableStateException ''Only active bookings can be rescheduled'')
           else (case service_of t (bk_serviceId b) db of
               None \<Rightarrow> Inl (NotFoundException ''Service not found'')
             | Some sv \<Rightarrow>
               (case rb_startsAt dto of
                  None \<Rightarrow> Inl (DbError bad_datetime)
                | Some s \<Rightarrow>
                  let f = set_slot s (s + svc_durationMin sv * MINUTE_MS) in
                  if \<not> int4 v then Inl (DbError numeric_out_of_range)
                  else if v \<noteq> bk_version b then Inl (if ifMatch \<noteq> None
                      then PreconditionFailedException ''Booking version does not match If-Match''
                      else staleError)
                  else if \<not> int4 (v + 1) then Inl (DbError numeric_out_of_range)
                  else if list_ex (\<lambda>x. x \<noteq> b \<and> booking_conflict (f b) x) (bookings db)
                    then Inl slot_taken
                  else Inr (f b, with_event ev now t (f b) ''booking.rescheduled'' (with_booking b f db))))))"
proof (cases "(case ifMatch of None \<Rightarrow> rb_version dto | Some v \<Rightarrow> Some v)")
  case None
  then show ?thesis by (simp add: reschedule_def no_version_def)
next
  case v: (Some v)
  show ?thesis
  proof (cases "booking_of t i db")
    case None
    then show ?thesis using assms(1) v by (simp add: reschedule_def lookup_tx)
  next
    case b: (Some b)
    show ?thesis
    proof (cases "active_status (bk_status b) \<and> service_of t (bk_serviceId b) db \<noteq> None")
      case False
      then show ?thesis using assms(1) v b by (auto simp: reschedule_def lookup_tx guardE_def)
    next
      case True
      then obtain sv where sv: "service_of t (bk_serviceId b) db = Some sv" by auto
      show ?thesis
      proof (cases "rb_startsAt dto")
        case None
        then show ?thesis using assms(1) v b sv True
          by (simp add: reschedule_def lookup_tx applyReschedule_def js_add_minutes_def mapSlotConflict_def)
      next
        case s: (Some s)
        let ?f = "set_slot s (s + svc_durationMin sv * MINUTE_MS)"
        have vu: "applyReschedule (tenant_tx t) i v (Some s) (Some (s + svc_durationMin sv * MINUTE_MS)) db =
          (if \<not> int4 v then Inl (DbError numeric_out_of_range)
           else if v \<noteq> bk_version b then Inr (False, db)
           else if \<not> int4 (v + 1) then Inl (DbError numeric_out_of_range)
           else if list_ex (\<lambda>x. x \<noteq> b \<and> booking_conflict (?f b) x) (bookings db) then Inl slot_taken
           else Inr (True, with_booking b ?f db))"
          using versioned_update_spec [OF assms(1,2) b [unfolded booking_of_def], of ?f v]
          by (simp add: applyReschedule_Some mapSlotConflict_def with_booking_def)
        have upd: "booking_of t i (with_booking b ?f db) = Some (?f b)"
          using assms(2) b by (intro booking_of_updated) simp_all
        show ?thesis using assms(1,3) v b sv s True
          by (simp add: reschedule_def lookup_tx js_add_minutes_def vu upd emit_fresh with_event_def Let_def)
      qed
    qed
  qed
qed

section \<open>What an operation may do to the tables\<close>

text \<open>
  A row is kept, or it was active, belongs to \<open>t\<close>, moves to the next version and changes either its
  status along the table or its slot; every other column is fixed at creation.
\<close>
definition row_evolves :: "uuid \<Rightarrow> booking \<Rightarrow> booking \<Rightarrow> bool" where
  "row_evolves t b b' \<longleftrightarrow> b' = b \<or>
     (e_tenantId b = t \<and> active_status (bk_status b) \<and>
      ((\<exists>st. booking_canTransition (bk_status b) st \<and> b' = set_status st b) \<or>
       (\<exists>s e. s < e \<and> b' = set_slot s e b)))"

definition fresh_booking :: "uuid \<Rightarrow> booking \<Rightarrow> bool" where
  "fresh_booking t b \<longleftrightarrow>
     e_tenantId b = t \<and> live b \<and> bk_status b = Pending \<and> bk_version b = 1 \<and> bk_startsAt b < bk_endsAt b"

text \<open>The event row that tells consumers of the tenant about booking \<open>b\<close> as it is now.\<close>
definition announces :: "uuid \<Rightarrow> booking \<Rightarrow> outbox_event \<Rightarrow> bool" where
  "announces t b e \<longleftrightarrow>
     e_tenantId e = t \<and> live e \<and> ob_aggregateType e = ''booking'' \<and> ob_aggregateId e = e_id b \<and>
     ob_payload e = booking_payload b \<and> ob_status e = OutPending \<and> ob_attempts e = 0"

definition changed_rows :: "booking list \<Rightarrow> booking list \<Rightarrow> booking list" where
  "changed_rows rows rows' = map snd (filter (\<lambda>(b, b'). b \<noteq> b') (zip rows rows'))"

definition booking_effect :: "uuid \<Rightarrow> tdb \<Rightarrow> tdb \<Rightarrow> bool" where
  "booking_effect t db db' \<longleftrightarrow>
     (\<exists>rows new evs.
        bookings db' = rows @ new \<and> list_all2 (row_evolves t) (bookings db) rows \<and>
        list_all (fresh_booking t) new \<and>
        outbox_events db' = outbox_events db @ evs \<and>
        list_all2 (announces t) (changed_rows (bookings db) rows @ new) evs)"

lemma announces_outbox_row: "announces t b (outbox_row ev now t (booking_event b ty))"
  by (simp add: announces_def outbox_row_def booking_event_def live_def)

lemma changed_rows_refl [simp]: "changed_rows rows rows = []"
  by (induction rows) (auto simp: changed_rows_def)

lemma row_evolves_refl [simp]: "row_evolves t b b"
  by (simp add: row_evolves_def)

lemma list_all2_row_evolves_refl [simp]: "list_all2 (row_evolves t) rows rows"
  by (rule list_all2_refl) simp

lemma booking_effect_refl: "bookings db' = bookings db \<Longrightarrow> outbox_events db' = outbox_events db \<Longrightarrow> booking_effect t db db'"
  unfolding booking_effect_def
  by (rule exI [of _ "bookings db"], rule exI [of _ "[]"], rule exI [of _ "[]"]) simp

lemma booking_effect_insert:
  assumes "fresh_booking t b" "bookings db' = bookings db @ [b]"
    "outbox_events db' = outbox_events db @ [outbox_row ev now t (booking_event b ty)]"
  shows "booking_effect t db db'"
  unfolding booking_effect_def using assms
  by (intro exI [of _ "bookings db"] exI [of _ "[b]"]
      exI [of _ "[outbox_row ev now t (booking_event b ty)]"]) (simp add: announces_outbox_row)

text \<open>An UPDATE of the rows \<open>p\<close>, each of which really changes.\<close>
lemma changed_rows_update:
  assumes "\<And>b. b \<in> set rows \<Longrightarrow> p b \<Longrightarrow> f b \<noteq> b"
  shows "changed_rows rows (update_where p f rows) = map f (filter p rows)"
  using assms
proof (induction rows)
  case Nil
  then show ?case by (simp add: changed_rows_def update_where_def)
next
  case (Cons a rows)
  then have "p a \<Longrightarrow> a \<noteq> f a" by force
  then show ?case using Cons by (simp add: changed_rows_def update_where_def)
qed

lemma list_all2_is_map: "list_all2 (\<lambda>x y. y = f x) xs ys \<Longrightarrow> ys = map f xs"
  by (induction rule: list_all2_induct) auto

lemma evolves_update:
  assumes "\<And>b. b \<in> set rows \<Longrightarrow> p b \<Longrightarrow> row_evolves t b (f b)"
  shows "list_all2 (row_evolves t) rows (update_where p f rows)"
  using assms by (auto simp: update_where_def list_all2_conv_all_nth)

lemma set_status_neq [simp]: "set_status st b \<noteq> b"
proof
  assume "set_status st b = b"
  then have "bk_version (set_status st b) = bk_version b" by simp
  then show False by simp
qed

lemma set_slot_neq [simp]: "set_slot s e b \<noteq> b"
proof
  assume "set_slot s e b = b"
  then have "bk_version (set_slot s e b) = bk_version b" by simp
  then show False by simp
qed

lemma filter_one:
  assumes "distinct xs" "b \<in> set xs"
  shows "filter (\<lambda>x. x = b) xs = [b]"
  using assms by (induction xs) (auto simp: filter_empty_conv)

lemma booking_effect_update_one:
  assumes "sat_all bookings_cs (bookings db)" "b \<in> set (bookings db)"
    and "row_evolves t b (f b)" "f b \<noteq> b"
    and "bookings db' = update_where (\<lambda>x. x = b) f (bookings db)"
    and "outbox_events db' = outbox_events db @ [outbox_row ev now t (booking_event (f b) ty)]"
  shows "booking_effect t db db'"
proof -
  have "distinct (bookings db)"
    using bookings_tbl.distinct_keys [OF assms(1)] by (simp add: distinct_map)
  then have one: "filter (\<lambda>x. x = b) (bookings db) = [b]" using assms(2) by (rule filter_one)
  have "changed_rows (bookings db) (update_where (\<lambda>x. x = b) f (bookings db)) = [f b]"
    using assms(4) one by (subst changed_rows_update) auto
  moreover have "list_all2 (row_evolves t) (bookings db) (update_where (\<lambda>x. x = b) f (bookings db))"
    using assms(3) by (intro evolves_update) simp
  ultimately show ?thesis unfolding booking_effect_def using assms(5,6)
    by (intro exI [of _ "update_where (\<lambda>x. x = b) f (bookings db)"] exI [of _ "[]"]
        exI [of _ "[outbox_row ev now t (booking_event (f b) ty)]"]) (simp add: announces_outbox_row)
qed

section \<open>Cancelling a series\<close>

definition in_future_series :: "uuid \<Rightarrow> uuid \<Rightarrow> instant \<Rightarrow> booking \<Rightarrow> bool" where
  "in_future_series t rid now b \<longleftrightarrow>
     e_tenantId b = t \<and> bk_recurrenceId b = Some rid \<and> active_status (bk_status b) \<and> now < bk_startsAt b"

lemma cancelFutureSeries_Inr:
  assumes "t \<noteq> []" "cancelFutureSeries (tenant_tx t) rid now db = Inr (ids, db1)"
  shows "ids = map e_id (filter (in_future_series t rid now) (bookings db))"
    and "db1 = db\<lparr>bookings := update_where (in_future_series t rid now) (set_status Cancelled) (bookings db)\<rparr>"
    and "sat_all bookings_cs (bookings db1)"
proof -
  have p: "(\<lambda>b. e_tenantId b = t \<and> bk_recurrenceId b = Some rid \<and> e_tenantId b = t \<and>
             active_status (bk_status b) \<and> now < bk_startsAt b) = in_future_series t rid now"
    by (auto simp: in_future_series_def)
  obtain rows where rows: "update_checked bookings_cs (in_future_series t rid now) (set_status Cancelled)
        (bookings db) = Inr rows"
      "ids = map e_id (filter (in_future_series t rid now) (bookings db))" "db1 = db\<lparr>bookings := rows\<rparr>"
    using assms by (auto simp: cancelFutureSeries_def rls_update_def Let_def result_simps p
        set_status_def [abs_def] split: if_splits)
  show "ids = map e_id (filter (in_future_series t rid now) (bookings db))" by (rule rows)
  show "db1 = db\<lparr>bookings := update_where (in_future_series t rid now) (set_status Cancelled) (bookings db)\<rparr>"
    using rows(3) update_checked_eq [OF rows(1)] by simp
  show "sat_all bookings_cs (bookings db1)" using rows bookings_tbl.update_sat by simp
qed

lemma emit_cancelled_Inr:
  assumes "t \<noteq> []" "emit_cancelled (tenant_tx t) gen k now ids db = Inr (u, db')"
  shows "\<exists>bs evs. db' = db\<lparr>outbox_events := outbox_events db @ evs\<rparr> \<and>
           list_all2 (\<lambda>i b. booking_of t i db = Some b) ids bs \<and> list_all2 (announces t) bs evs"
  using assms(2)
proof (induction ids arbitrary: k db)
  case Nil
  then show ?case by auto
next
  case (Cons i ids)
  obtain b e db1 where b: "booking_of t i db = Some b"
    and em: "emit (tenant_tx t) (gen k) now b ''booking.cancelled'' db = Inr (e, db1)"
    and rest: "emit_cancelled (tenant_tx t) gen (k + 1) now ids db1 = Inr (u, db')"
    using Cons.prems assms(1) by (auto simp: result_simps lookup_tx)
  note db1 = emit_Inr(1,2) [OF assms(1) em]
  obtain bs evs where ih: "db' = db1\<lparr>outbox_events := outbox_events db1 @ evs\<rparr>"
      "list_all2 (\<lambda>i b. booking_of t i db1 = Some b) ids bs" "list_all2 (announces t) bs evs"
    using Cons.IH [OF rest] by blast
  have "booking_of t j db1 = booking_of t j db" for j by (simp add: db1(2) booking_of_def)
  then show ?case using b ih db1 announces_outbox_row
    by (intro exI [of _ "b # bs"] exI [of _ "e # evs"]) (simp add: db1)
qed

lemma booking_effect_cancelSeries:
  assumes "t \<noteq> []" "sat_all bookings_cs (bookings db)"
    and "cancelSeries (tenant_tx t) gen js_now now rid db = Inr (n, db')"
  shows "booking_effect t db db'" "sat_all bookings_cs (bookings db')"
    "db' = db\<lparr>bookings := bookings db', outbox_events := outbox_events db'\<rparr>"
    "bookings db' = update_where (in_future_series t rid js_now) (set_status Cancelled) (bookings db)"
    "n = length (filter (in_future_series t rid js_now) (bookings db))"
proof -
  let ?p = "in_future_series t rid js_now" and ?f = "set_status Cancelled"
  obtain ids db1 where c: "cancelFutureSeries (tenant_tx t) rid js_now db = Inr (ids, db1)"
    and e: "emit_cancelled (tenant_tx t) gen 0 now ids db1 = Inr ((), db')" and n: "n = length ids"
    using assms(3) by (auto simp: cancelSeries_def result_simps)
  note c' = cancelFutureSeries_Inr [OF assms(1) c]
  obtain bs evs where e': "db' = db1\<lparr>outbox_events := outbox_events db1 @ evs\<rparr>"
      "list_all2 (\<lambda>i b. booking_of t i db1 = Some b) ids bs" "list_all2 (announces t) bs evs"
    using emit_cancelled_Inr [OF assms(1) e] by blast
  have rows: "bookings db1 = update_where ?p ?f (bookings db)" by (simp add: c'(2))
  have bs: "bs = map ?f (filter ?p (bookings db))"
  proof -
    have "b = ?f x" if "x \<in> set (bookings db)" "?p x" "booking_of t (e_id x) db1 = Some b" for x b
    proof -
      have "?f x \<in> set (bookings db1)" using that(1,2) by (auto simp: rows set_update_where)
      moreover have "b \<in> set (bookings db1)" "e_id b = e_id (?f x)"
        using booking_of_Some [OF that(3)] by auto
      ultimately show ?thesis using bookings_tbl.key_inj [OF c'(3)] by blast
    qed
    moreover have "list_all2 (\<lambda>x b. booking_of t (e_id x) db1 = Some b) (filter ?p (bookings db)) bs"
      using e'(2) by (simp add: c'(1) list_all2_map1)
    ultimately have "list_all2 (\<lambda>x b. b = ?f x) (filter ?p (bookings db)) bs"
      by (rule list.rel_mono_strong [rotated]) auto
    then show ?thesis by (rule list_all2_is_map)
  qed
  have evo: "list_all2 (row_evolves t) (bookings db) (update_where ?p ?f (bookings db))"
  proof (rule evolves_update)
    fix b
    assume "?p b"
    then show "row_evolves t b (?f b)"
      by (cases "bk_status b")
        (auto simp: in_future_series_def row_evolves_def booking_canTransition_def)
  qed
  have ch: "changed_rows (bookings db) (update_where ?p ?f (bookings db)) = map ?f (filter ?p (bookings db))"
    by (rule changed_rows_update) simp
  show "booking_effect t db db'" unfolding booking_effect_def
    using evo ch e' bs
    by (intro exI [of _ "update_where ?p ?f (bookings db)"] exI [of _ "[]"] exI [of _ evs])
      (simp add: c'(2))
  show "sat_all bookings_cs (bookings db')" using c'(3) by (simp add: e'(1))
  show "db' = db\<lparr>bookings := bookings db', outbox_events := outbox_events db'\<rparr>"
    by (simp add: e'(1) c'(2))
  show "bookings db' = update_where ?p ?f (bookings db)" by (simp add: e'(1) c'(2))
  show "n = length (filter ?p (bookings db))" by (simp add: n c'(1))
qed

section \<open>One booking operation of tenant t that commits\<close>

inductive booking_step :: "uuid \<Rightarrow> tdb \<Rightarrow> tdb \<Rightarrow> bool" for t :: uuid where
  created: "doCreate (tenant_tx t) i ev now dto db = Inr (b, db') \<Longrightarrow> booking_step t db db'"
| requested: "booking_create sha256 jsonb toPlain (tenant_tx t) key_id i ev now key body dto db = Inr (r, db') \<Longrightarrow>
     booking_step t db db'"
| occurred: "createOccurrence (tenant_tx t) i ev now spec rid db = Inr (b, db') \<Longrightarrow>
     bd_startsAt spec = Some s \<Longrightarrow> bd_endsAt spec = Some e \<Longrightarrow> s < e \<Longrightarrow> booking_step t db db'"
| moved: "transition (tenant_tx t) ev now i v to db = Inr (b, db') \<Longrightarrow> booking_step t db db'"
| rescheduled: "reschedule (tenant_tx t) ev now i rdto ifMatch db = Inr (b, db') \<Longrightarrow> booking_step t db db'"
| series_cancelled: "cancelSeries (tenant_tx t) gen js_now now rid db = Inr (n, db') \<Longrightarrow> booking_step t db db'"

inductive_cases booking_stepE: "booking_step t db db'"

lemma service_of_wf:
  "services_wf db \<Longrightarrow> service_of t i db = Some sv \<Longrightarrow> 0 < svc_durationMin sv * MINUTE_MS"
  by (auto simp: service_of_def services_wf_def list_all_iff service_wf_def between_def MINUTE_MS_val
      dest!: find_Some_mem)

lemma doCreate_Inr:
  assumes "t \<noteq> []" "doCreate (tenant_tx t) i ev now dto db = Inr (b, db')"
  obtains sv s where "service_of t (cb_serviceId dto) db = Some sv" "cb_startsAt dto = Some s"
    "capable t (cb_staffId dto) (cb_serviceId dto) db" "customer_of t (cb_customerId dto) db \<noteq> None"
    "b = created_booking t i now dto s sv"
    "insert_checked bookings_cs b (bookings db) = Inr (bookings db @ [b])"
    "db' = with_event ev now t b ''booking.created'' (db\<lparr>bookings := bookings db @ [b]\<rparr>)"
proof -
  obtain sv cu where sv: "service_of t (cb_serviceId dto) db = Some sv"
    and cap: "capable t (cb_staffId dto) (cb_serviceId dto) db"
    and cu: "customer_of t (cb_customerId dto) db = Some cu"
    using assms by (auto simp: doCreate_def lookup_tx result_simps)
  let ?d = "\<lparr>bd_staffId = cb_staffId dto, bd_serviceId = cb_serviceId dto,
         bd_customerId = cb_customerId dto, bd_startsAt = cb_startsAt dto,
         bd_endsAt = js_add_minutes (cb_startsAt dto) (svc_durationMin sv),
         bd_priceAmount = svc_priceAmount sv, bd_priceCurrency = svc_priceCurrency sv,
         bd_recurrenceId = None\<rparr>"
  obtain db1 e where r: "booking_repo_create (tenant_tx t) i now ?d db = Inr (b, db1)"
    and em: "emit (tenant_tx t) ev now b ''booking.created'' db1 = Inr (e, db')"
    using assms sv cap cu by (auto simp: doCreate_def lookup_tx result_simps)
  obtain s e' where raw: "bd_startsAt ?d = Some s" "bd_endsAt ?d = Some e'"
      "b = booking_row i now ?d s e'\<lparr>e_tenantId := t\<rparr>" "db1 = db\<lparr>bookings := bookings db @ [b]\<rparr>"
      "insert_checked bookings_cs b (bookings db) = Inr (bookings db @ [b])"
    using assms(1) r by (rule booking_repo_create_Inr)
  have s: "cb_startsAt dto = Some s" "e' = s + svc_durationMin sv * MINUTE_MS"
    using raw(1,2) by (simp_all add: js_add_minutes_def)
  have b: "b = created_booking t i now dto s sv"
    using raw(3) s(2) by (simp add: booking_row_def created_booking_def)
  show thesis
    using sv s(1) cap _ b raw(5)
  proof (rule that)
    show "customer_of t (cb_customerId dto) db \<noteq> None" using cu by simp
    show "db' = with_event ev now t b ''booking.created'' (db\<lparr>bookings := bookings db @ [b]\<rparr>)"
      using emit_Inr(1,2) [OF assms(1) em] raw(4) by (simp add: with_event_def)
  qed
qed

lemma booking_effect_doCreate:
  assumes "t \<noteq> []" "services_wf db" "sat_all bookings_cs (bookings db)"
    and "doCreate (tenant_tx t) i ev now dto db = Inr (b, db')"
  shows "booking_effect t db db'" "sat_all bookings_cs (bookings db')"
    "db' = db\<lparr>bookings := bookings db', outbox_events := outbox_events db'\<rparr>"
proof -
  obtain sv s where c: "service_of t (cb_serviceId dto) db = Some sv" "cb_startsAt dto = Some s"
    "b = created_booking t i now dto s sv"
    "insert_checked bookings_cs b (bookings db) = Inr (bookings db @ [b])"
    "db' = with_event ev now t b ''booking.created'' (db\<lparr>bookings := bookings db @ [b]\<rparr>)"
    using assms(1,4) by (rule doCreate_Inr)
  have "fresh_booking t b"
    using service_of_wf [OF assms(2) c(1)] by (simp add: c(3) fresh_booking_def created_booking_def live_def)
  then show "booking_effect t db db'" by (rule booking_effect_insert) (simp_all add: c(5))
  show "sat_all bookings_cs (bookings db')"
    using bookings_tbl.insert_sat [OF assms(3) c(4)] by (simp add: c(5))
  show "db' = db\<lparr>bookings := bookings db', outbox_events := outbox_events db'\<rparr>"
    by (simp add: c(5) with_event_def)
qed

lemma createOccurrence_inserts:
  assumes "t \<noteq> []" "createOccurrence (tenant_tx t) i ev now spec rid db = Inr (b, db')"
    and range: "\<And>s e. bd_startsAt spec = Some s \<Longrightarrow> bd_endsAt spec = Some e \<Longrightarrow> s < e"
  shows "insert_checked bookings_cs b (bookings db) = Inr (bookings db @ [b])"
    and "bookings db' = bookings db @ [b]" and "fresh_booking t b"
    and "outbox_events db' = outbox_events db @ [outbox_row ev now t (booking_event b ''booking.created'')]"
    and "db' = db\<lparr>bookings := bookings db', outbox_events := outbox_events db'\<rparr>"
    and "bk_recurrenceId b = Some rid"
    and "bk_staffId b = bd_staffId spec \<and> bk_serviceId b = bd_serviceId spec \<and> bk_customerId b = bd_customerId spec"
proof -
  let ?d = "spec\<lparr>bd_recurrenceId := Some rid\<rparr>"
  obtain db1 o' where c: "booking_repo_create (tenant_tx t) i now ?d db = Inr (b, db1)"
    and em: "emit (tenant_tx t) ev now b ''booking.created'' db1 = Inr (o', db')"
    using assms(2) by (auto simp: createOccurrence_def result_simps)
  obtain s e where raw: "bd_startsAt ?d = Some s" "bd_endsAt ?d = Some e"
      "b = booking_row i now ?d s e\<lparr>e_tenantId := t\<rparr>" "db1 = db\<lparr>bookings := bookings db @ [b]\<rparr>"
      "insert_checked bookings_cs b (bookings db) = Inr (bookings db @ [b])"
    using assms(1) c by (rule booking_repo_create_Inr)
  note e' = emit_Inr(1,2) [OF assms(1) em]
  have "s < e" using raw(1,2) by (intro range) simp_all
  then show "fresh_booking t b" unfolding raw(3) by (simp add: fresh_booking_def live_def)
  show "insert_checked bookings_cs b (bookings db) = Inr (bookings db @ [b])" by (rule raw(5))
  show "bookings db' = bookings db @ [b]" by (simp add: e'(2) raw(4))
  show "outbox_events db' = outbox_events db @ [outbox_row ev now t (booking_event b ''booking.created'')]"
    using e' by (simp add: raw(4))
  show "db' = db\<lparr>bookings := bookings db', outbox_events := outbox_events db'\<rparr>" by (simp add: e'(2) raw(4))
  show "bk_recurrenceId b = Some rid" by (simp add: raw(3))
  show "bk_staffId b = bd_staffId spec \<and> bk_serviceId b = bd_serviceId spec \<and> bk_customerId b = bd_customerId spec"
    by (simp add: raw(3))
qed

lemma booking_effect_createOccurrence:
  assumes "t \<noteq> []" "sat_all bookings_cs (bookings db)"
    and "createOccurrence (tenant_tx t) i ev now spec rid db = Inr (b, db')"
    and "bd_startsAt spec = Some s" "bd_endsAt spec = Some e" "s < e"
  shows "booking_effect t db db'" "sat_all bookings_cs (bookings db')"
    "db' = db\<lparr>bookings := bookings db', outbox_events := outbox_events db'\<rparr>"
    "bookings db' = bookings db @ [b]" "bk_recurrenceId b = Some rid" "fresh_booking t b"
proof -
  have "s' < e'" if "bd_startsAt spec = Some s'" "bd_endsAt spec = Some e'" for s' e' using that assms(4-6) by simp
  note c = createOccurrence_inserts [OF assms(1,3) this]
  show "booking_effect t db db'" by (rule booking_effect_insert [OF c(3,2,4)])
  show "sat_all bookings_cs (bookings db')" using bookings_tbl.insert_sat [OF assms(2) c(1)] by (simp add: c(2))
  show "db' = db\<lparr>bookings := bookings db', outbox_events := outbox_events db'\<rparr>" by (rule c(5))
  show "bookings db' = bookings db @ [b]" by (rule c(2))
  show "bk_recurrenceId b = Some rid" by (rule c(6))
  show "fresh_booking t b" by (rule c(3))
qed

lemma transition_emits:
  assumes "transition (tenant_tx t) ev now i v to db = Inr (b, db')" "t \<noteq> []"
  shows "ev \<notin> e_id ` set (outbox_events db)"
proof -
  obtain applied db1 x where u: "versioned_update (tenant_tx t) i v (set_status to) db = Inr (applied, db1)"
      and em: "emit (tenant_tx t) ev now b (''booking.'' @ booking_status_str to) db1 = Inr (x, db')"
    using assms(1) by (auto simp: transition_def result_simps applyStatus_set_status)
  from versioned_update_Inr(2) [OF assms(2) u] emit_Inr(3) [OF assms(2) em] show ?thesis by simp
qed

lemma reschedule_emits:
  assumes "reschedule (tenant_tx t) ev now i dto m db = Inr (b, db')" "t \<noteq> []"
  shows "ev \<notin> e_id ` set (outbox_events db)"
proof -
  obtain s e v f applied db1 x where u: "applyReschedule (tenant_tx t) i v s e db = Inr (applied, db1)"
      and em: "emit (tenant_tx t) ev now f ''booking.rescheduled'' db1 = Inr (x, db')"
    using assms(1) by (auto simp: reschedule_def result_simps)
  obtain f' where "versioned_update (tenant_tx t) i v f' db = Inr (applied, db1)"
    using u by (auto simp: applyReschedule_def result_simps split: option.splits)
  from versioned_update_Inr(2) [OF assms(2) this] emit_Inr(3) [OF assms(2) em] show ?thesis by simp
qed

lemma transition_Inr:
  assumes "t \<noteq> []" "sat_all bookings_cs (bookings db)"
    and "transition (tenant_tx t) ev now i v to db = Inr (b', db')"
  obtains b where "booking_of t i db = Some b" "booking_canTransition (bk_status b) to" "v = bk_version b"
    "b' = set_status to b"
    "db' = with_event ev now t (set_status to b) (''booking.'' @ booking_status_str to)
             (with_booking b (set_status to) db)"
  using assms transition_spec [OF assms(1,2) transition_emits [OF assms(3,1)], of now i v to]
  by (auto split: option.splits if_splits)

lemma booking_effect_transition:
  assumes "t \<noteq> []" "sat_all bookings_cs (bookings db)"
    and "transition (tenant_tx t) ev now i v to db = Inr (b', db')"
  shows "booking_effect t db db'" "sat_all bookings_cs (bookings db')"
    "db' = db\<lparr>bookings := bookings db', outbox_events := outbox_events db'\<rparr>"
proof -
  obtain b where b: "booking_of t i db = Some b" "booking_canTransition (bk_status b) to"
    "db' = with_event ev now t (set_status to b) (''booking.'' @ booking_status_str to)
             (with_booking b (set_status to) db)"
    using assms by (rule transition_Inr)
  note m = booking_of_Some [OF b(1)]
  have "active_status (bk_status b)"
    using b(2) by (cases "bk_status b") (auto simp: booking_canTransition_def)
  then have "row_evolves t b (set_status to b)" using m b(2) by (auto simp: row_evolves_def)
  then show "booking_effect t db db'"
    using m by (intro booking_effect_update_one [OF assms(2), of b t "set_status to"]) (simp_all add: b(3))
  have "update_checked bookings_cs (\<lambda>x. x = b) (set_status to) (bookings db) = Inr (bookings db')"
    using booking_update_checked [OF assms(2), of b "set_status to" "\<lambda>x. x = b"] m
      set_status_no_conflict [OF assms(2) _ _ _ b(2)]
    by (auto simp: b(3) list_ex_iff)
  then show "sat_all bookings_cs (bookings db')" by (rule bookings_tbl.update_sat)
  show "db' = db\<lparr>bookings := bookings db', outbox_events := outbox_events db'\<rparr>"
    by (simp add: b(3) with_event_def with_booking_def)
qed

lemma reschedule_Inr:
  assumes "t \<noteq> []" "sat_all bookings_cs (bookings db)"
    and "reschedule (tenant_tx t) ev now i dto m db = Inr (b', db')"
  obtains b sv s where "booking_of t i db = Some b" "active_status (bk_status b)"
    "service_of t (bk_serviceId b) db = Some sv" "rb_startsAt dto = Some s"
    "(case m of None \<Rightarrow> rb_version dto | Some v \<Rightarrow> Some v) = Some (bk_version b)"
    "b' = set_slot s (s + svc_durationMin sv * MINUTE_MS) b"
    "\<not> list_ex (\<lambda>x. x \<noteq> b \<and> booking_conflict b' x) (bookings db)"
    "db' = with_event ev now t b' ''booking.rescheduled''
             (with_booking b (set_slot s (s + svc_durationMin sv * MINUTE_MS)) db)"
  using assms reschedule_spec [OF assms(1,2) reschedule_emits [OF assms(3,1)], of now i dto m]
  by (auto simp: Let_def split: option.splits if_splits)

lemma reschedule_sat:
  assumes "t \<noteq> []" "sat_all bookings_cs (bookings db)"
    and "reschedule (tenant_tx t) ev now i dto m db = Inr (b', db')"
  shows "sat_all bookings_cs (bookings db')"
proof -
  obtain b s and sv :: service_row where b: "booking_of t i db = Some b" "b' = set_slot s (s + svc_durationMin sv * MINUTE_MS) b"
    "\<not> list_ex (\<lambda>x. x \<noteq> b \<and> booking_conflict b' x) (bookings db)"
    "db' = with_event ev now t b' ''booking.rescheduled''
             (with_booking b (set_slot s (s + svc_durationMin sv * MINUTE_MS)) db)"
    by (rule reschedule_Inr [OF assms]) (rule that, assumption+)
  let ?f = "set_slot s (s + svc_durationMin sv * MINUTE_MS)"
  have "update_checked bookings_cs (\<lambda>x. x = b) ?f (bookings db) = Inr (bookings db')"
    using booking_update_checked [OF assms(2), of b ?f "\<lambda>x. x = b"] booking_of_Some [OF b(1)] b(3)
    by (simp add: b(2,4))
  then show ?thesis by (rule bookings_tbl.update_sat)
qed

lemma booking_effect_reschedule:
  assumes "t \<noteq> []" "services_wf db" "sat_all bookings_cs (bookings db)"
    and "reschedule (tenant_tx t) ev now i dto m db = Inr (b', db')"
  shows "booking_effect t db db'" "sat_all bookings_cs (bookings db')"
    "db' = db\<lparr>bookings := bookings db', outbox_events := outbox_events db'\<rparr>"
proof -
  obtain b sv s where b: "booking_of t i db = Some b" "active_status (bk_status b)"
    "service_of t (bk_serviceId b) db = Some sv"
    "b' = set_slot s (s + svc_durationMin sv * MINUTE_MS) b"
    "db' = with_event ev now t b' ''booking.rescheduled''
             (with_booking b (set_slot s (s + svc_durationMin sv * MINUTE_MS)) db)"
    by (rule reschedule_Inr [OF assms(1,3,4)]) (rule that, assumption+)
  let ?f = "set_slot s (s + svc_durationMin sv * MINUTE_MS)"
  note m = booking_of_Some [OF b(1)]
  have "s < s + svc_durationMin sv * MINUTE_MS" using service_of_wf [OF assms(2) b(3)] by simp
  then have "row_evolves t b (?f b)" using m b(2) unfolding row_evolves_def by blast
  then show "booking_effect t db db'"
    using m by (intro booking_effect_update_one [OF assms(3), of b t ?f]) (simp_all add: b(4,5))
  show "sat_all bookings_cs (bookings db')" by (rule reschedule_sat [OF assms(1,3,4)])
  show "db' = db\<lparr>bookings := bookings db', outbox_events := outbox_events db'\<rparr>"
    by (simp add: b(5) with_event_def with_booking_def)
qed

end
