(* ===== verification/Booking_Props.thy ===== *)
theory Booking_Props
  imports Booking_Facts
begin

text \<open>
  The properties of the booking component: what a committed operation may change and how it is
  announced, contested slots, optimistic concurrency over versions and If-Match, and the deduplicated
  create.
\<close>

section \<open>Every operation is an effect\<close>

lemma booking_effect_cong:
  "bookings a' = bookings a \<Longrightarrow> outbox_events a' = outbox_events a \<Longrightarrow>
   bookings b' = bookings b \<Longrightarrow> outbox_events b' = outbox_events b \<Longrightarrow>
     booking_effect t a' b' = booking_effect t a b"
  by (simp add: booking_effect_def)

lemma doCreate_keeps_keys: "t \<noteq> [] \<Longrightarrow> keeps_keys (doCreate (tenant_tx t) i ev now dto)"
  unfolding keeps_keys_def by (auto elim!: doCreate_Inr)

lemma booking_create_Inr:
  assumes "t \<noteq> []"
    and "booking_create sha256 jsonb toPlain (tenant_tx t) key_id i ev now key body dto db = Inr (r, db')"
  obtains (replayed) "db' = db"
    | (fresh) b db0 db2 where "r = Fresh b" "db0 = db\<lparr>idempotency_keys := idempotency_keys db0\<rparr>"
        "doCreate (tenant_tx t) i ev now dto db0 = Inr (b, db2)"
        "db' = db2\<lparr>idempotency_keys := idempotency_keys db'\<rparr>"
proof (cases "key = None \<or> key = Some []")
  case True
  then show thesis using assms(2) fresh [of _ db db']
    by (auto simp: booking_create_def idem_run_def result_simps)
next
  case False
  then obtain k where k: "key = Some k" "k \<noteq> []" by auto
  note run = assms(2) [unfolded booking_create_def k(1)]
  from assms(1) k(2) run show thesis
  proof (cases rule: idem_run_cases)
    case (fresh b db2)
    show thesis
      by (rule that(2) [OF fresh(1) _ fresh(4)]) (use idem_complete_tx [OF fresh(5)] in simp_all)
  next
    case (replayed j)
    then show thesis by (intro that(1))
  qed
qed

text \<open>The tables a booking operation may write: bookings, their events and the idempotency keys.\<close>
definition booking_frame :: "tdb \<Rightarrow> tdb \<Rightarrow> bool" where
  "booking_frame db db' \<longleftrightarrow>
     db' = db\<lparr>bookings := bookings db', outbox_events := outbox_events db',
              idempotency_keys := idempotency_keys db'\<rparr>"

lemma booking_frameI:
  "db' = db\<lparr>bookings := bookings db', outbox_events := outbox_events db'\<rparr> \<Longrightarrow> booking_frame db db'"
  unfolding booking_frame_def by (cases db; cases db') simp

lemma booking_step_effect:
  assumes "booking_step t db db'" "t \<noteq> []" "services_wf db" "sat_all bookings_cs (bookings db)"
  shows "booking_effect t db db' \<and> sat_all bookings_cs (bookings db') \<and> booking_frame db db'"
  using assms(1)
proof cases
  case (created i ev now dto b)
  from booking_effect_doCreate [OF assms(2-4) this] show ?thesis by (auto intro: booking_frameI)
next
  case (requested sha256 jsonb toPlain key_id i ev now key body dto r)
  from assms(2) requested show ?thesis
  proof (cases rule: booking_create_Inr)
    case replayed
    then show ?thesis using assms(4) by (simp add: booking_effect_refl booking_frame_def)
  next
    case (fresh b db0 db2)
    have same: "bookings db0 = bookings db" "outbox_events db0 = outbox_events db" "services db0 = services db"
      by (subst fresh(2), simp)+
    have same': "bookings db' = bookings db2" "outbox_events db' = outbox_events db2"
      by (subst fresh(4), simp)+
    have wf: "services_wf db0" "sat_all bookings_cs (bookings db0)"
      using assms(3,4) by (simp_all add: services_wf_def same)
    note e = booking_effect_doCreate [OF assms(2) wf fresh(3)]
    have "booking_effect t db db'" using e(1) booking_effect_cong [OF same(1,2) same'(1,2) [symmetric], of t] by simp
    moreover have "booking_frame db db'"
      using e(3) fresh(2,4) unfolding booking_frame_def
      by (cases db; cases db0; cases db2; cases db') simp
    ultimately show ?thesis using e(2) by (simp add: same')
  qed
next
  case (occurred i ev now spec rid b s e)
  from booking_effect_createOccurrence [OF assms(2,4) this] show ?thesis by (auto intro: booking_frameI)
next
  case (moved ev now i v to b)
  from booking_effect_transition [OF assms(2,4) this] show ?thesis by (auto intro: booking_frameI)
next
  case (rescheduled ev now i rdto ifMatch b)
  from booking_effect_reschedule [OF assms(2-4) this] show ?thesis by (auto intro: booking_frameI)
next
  case (series_cancelled gen js_now now rid n)
  from booking_effect_cancelSeries [OF assms(2,4) this] show ?thesis by (auto intro: booking_frameI)
qed

lemma row_evolves_id: "row_evolves t b b' \<Longrightarrow> e_id b' = e_id b \<and> e_tenantId b' = e_tenantId b"
  by (auto simp: row_evolves_def)

lemma new_rows_filter:
  assumes "sat_all bookings_cs rows0" "list_all2 (row_evolves t) rows0 rows"
    "sat_all bookings_cs (rows @ new)"
  shows "filter (\<lambda>b. b \<notin> set rows0) (rows @ new) = changed_rows rows0 rows @ new"
proof -
  have ids: "map e_id rows = map e_id rows0"
    using assms(2) by (induction rule: list_all2_induct) (auto dest: row_evolves_id)
  have "distinct (map e_id (rows @ new))" using assms(3) by (rule bookings_tbl.distinct_keys)
  then have "b \<notin> set rows0" if "b \<in> set new" for b
  proof -
    have "e_id b \<notin> set (map e_id rows0)"
      using \<open>distinct (map e_id (rows @ new))\<close> that unfolding ids [symmetric] by auto
    then show ?thesis by auto
  qed
  then have n: "filter (\<lambda>b. b \<notin> set rows0) new = new" by (simp add: filter_id_conv)
  have "filter (\<lambda>b. b \<notin> set rows0) rs = changed_rows r0 rs"
    if "list_all2 (row_evolves t) r0 rs" "set r0 \<subseteq> set rows0" for r0 rs
    using that
  proof (induction rule: list_all2_induct)
    case Nil
    then show ?case by (simp add: changed_rows_def)
  next
    case (Cons b r0 b' rs)
    have "b' \<notin> set rows0 \<longleftrightarrow> b \<noteq> b'"
      using bookings_tbl.key_inj [OF assms(1), of b b'] Cons.prems row_evolves_id [OF Cons.hyps(1)] by auto
    then show ?case using Cons by (simp add: changed_rows_def)
  qed
  from this [OF assms(2)] show ?thesis by (simp add: n)
qed

section \<open>Properties\<close>

text \<open>
  C10. State and announcement are one unit: a committed booking operation of a tenant appends to the
  outbox exactly one pending event per booking row it created or changed, in table order, carrying that
  row's current state, and no other event.
\<close>
theorem booking_events_atomic:
  assumes "booking_step t db db'" "t \<noteq> []" "services_wf db" "sat_all bookings_cs (bookings db)"
  shows "\<exists>evs. outbox_events db' = outbox_events db @ evs \<and>
           list_all2 (announces t) (filter (\<lambda>b. b \<notin> set (bookings db)) (bookings db')) evs"
proof -
  have e: "booking_effect t db db'" "sat_all bookings_cs (bookings db')"
    using booking_step_effect [OF assms] by simp_all
  then obtain rows new evs where r: "bookings db' = rows @ new"
      "list_all2 (row_evolves t) (bookings db) rows" "outbox_events db' = outbox_events db @ evs"
      "list_all2 (announces t) (changed_rows (bookings db) rows @ new) evs"
    unfolding booking_effect_def by blast
  show ?thesis using r new_rows_filter [OF assms(4) r(2) e(2) [unfolded r(1)]] by (intro exI [of _ evs]) simp
qed

text \<open>
  A booking that is completed, cancelled or a no-show is final: no booking operation of any tenant
  changes its row again.
\<close>
theorem closed_booking_final:
  assumes "booking_step t db db'" "t \<noteq> []" "services_wf db" "sat_all bookings_cs (bookings db)"
    and "b \<in> set (bookings db)" "booking_closed (bk_status b)"
  shows "b \<in> set (bookings db')"
proof -
  obtain rows new where r: "bookings db' = rows @ new" "list_all2 (row_evolves t) (bookings db) rows"
    using booking_step_effect [OF assms(1-4)] unfolding booking_effect_def by blast
  obtain k where k: "k < length (bookings db)" "bookings db ! k = b"
    using assms(5) by (metis in_set_conv_nth)
  then have "row_evolves t b (rows ! k)" "k < length rows"
    using r(2) by (auto simp: list_all2_conv_all_nth)
  then have "rows ! k = b" using assms(6) by (auto simp: row_evolves_def booking_closed_def)
  then show ?thesis using \<open>k < length rows\<close> r(1) by force
qed

text \<open>
  The price of a booking is a snapshot: a booking operation leaves the price, currency, service,
  staff member, customer and series of every existing booking as they were, whatever the catalog says
  by then, and its version never goes down.
\<close>
theorem booking_snapshot:
  assumes "booking_step t db db'" "t \<noteq> []" "services_wf db" "sat_all bookings_cs (bookings db)"
    and "b \<in> set (bookings db)"
  shows "\<exists>b' \<in> set (bookings db'). e_id b' = e_id b \<and> e_tenantId b' = e_tenantId b \<and>
           bk_priceAmount b' = bk_priceAmount b \<and> bk_priceCurrency b' = bk_priceCurrency b \<and>
           bk_serviceId b' = bk_serviceId b \<and> bk_staffId b' = bk_staffId b \<and>
           bk_customerId b' = bk_customerId b \<and> bk_recurrenceId b' = bk_recurrenceId b \<and>
           bk_version b \<le> bk_version b'"
proof -
  obtain rows new where r: "bookings db' = rows @ new" "list_all2 (row_evolves t) (bookings db) rows"
    using booking_step_effect [OF assms(1-4)] unfolding booking_effect_def by blast
  obtain k where k: "k < length (bookings db)" "bookings db ! k = b"
    using assms(5) by (metis in_set_conv_nth)
  then have e: "row_evolves t b (rows ! k)" "k < length rows"
    using r(2) by (auto simp: list_all2_conv_all_nth)
  have m: "rows ! k \<in> set (bookings db')" using e(2) r(1) by simp
  show ?thesis
    by (rule bexI [OF _ m]) (use e(1) in \<open>auto simp: row_evolves_def set_status_def set_slot_def\<close>)
qed

text \<open>A booking whose version has moved on from \<open>v\<close> takes no write that carries \<open>v\<close>, whichever channel it comes by.\<close>
lemma stale_never_commits:
  assumes "t \<noteq> []" "sat_all bookings_cs (bookings db)" "booking_of t i db = Some c" "bk_version c \<noteq> v"
  shows "\<nexists>r. transition (tenant_tx t) ev now i v to db = Inr r"
    and "(case ifMatch of None \<Rightarrow> rb_version dto | Some w \<Rightarrow> Some w) = Some v \<Longrightarrow>
      \<nexists>r. reschedule (tenant_tx t) ev now i dto ifMatch db = Inr r"
proof -
  show "\<nexists>r. transition (tenant_tx t) ev now i v to db = Inr r"
  proof
    assume "\<exists>r. transition (tenant_tx t) ev now i v to db = Inr r"
    then obtain b db' where "transition (tenant_tx t) ev now i v to db = Inr (b, db')" by auto
    from assms(1,2) this obtain x where "booking_of t i db = Some x" "v = bk_version x" by (rule transition_Inr)
    then show False using assms(3,4) by simp
  qed
  assume ver: "(case ifMatch of None \<Rightarrow> rb_version dto | Some w \<Rightarrow> Some w) = Some v"
  show "\<nexists>r. reschedule (tenant_tx t) ev now i dto ifMatch db = Inr r"
  proof
    assume "\<exists>r. reschedule (tenant_tx t) ev now i dto ifMatch db = Inr r"
    then obtain b db' where "reschedule (tenant_tx t) ev now i dto ifMatch db = Inr (b, db')" by auto
    from assms(1,2) this obtain x where "booking_of t i db = Some x" "Some v = Some (bk_version x)"
      by (rule reschedule_Inr) (simp add: ver)
    then show False using assms(3,4) by simp
  qed
qed

text \<open>A committed write that carried \<open>v\<close> leaves the booking with the next version.\<close>
lemma committed_version:
  assumes "t \<noteq> []" "sat_all bookings_cs (bookings db)"
    and "transition (tenant_tx t) ev now i v to db = Inr (b, db') \<or>
      (case ifMatch of None \<Rightarrow> rb_version dto | Some w \<Rightarrow> Some w) = Some v \<and>
      reschedule (tenant_tx t) ev now i dto ifMatch db = Inr (b, db')"
  obtains c where "booking_of t i db' = Some c" "bk_version c = v + 1" "sat_all bookings_cs (bookings db')"
  using assms(3)
proof (elim disjE conjE)
  assume r: "transition (tenant_tx t) ev now i v to db = Inr (b, db')"
  with assms(1,2) obtain c where c: "booking_of t i db = Some c" "v = bk_version c"
    "db' = with_event ev now t (set_status to c) (''booking.'' @ booking_status_str to) (with_booking c (set_status to) db)"
    by (rule transition_Inr)
  show thesis
    using that [of "set_status to c"] booking_of_updated [OF assms(2) c(1), of "set_status to"]
      booking_effect_transition(2) [OF assms(1,2) r] c(2)
    by (simp add: c(3) booking_of_def)
next
  assume ver: "(case ifMatch of None \<Rightarrow> rb_version dto | Some w \<Rightarrow> Some w) = Some v"
    and r: "reschedule (tenant_tx t) ev now i dto ifMatch db = Inr (b, db')"
  obtain c s and sv :: service_row where c: "booking_of t i db = Some c"
      "(case ifMatch of None \<Rightarrow> rb_version dto | Some w \<Rightarrow> Some w) = Some (bk_version c)"
      "b = set_slot s (s + svc_durationMin sv * MINUTE_MS) c"
      "db' = with_event ev now t b ''booking.rescheduled'' (with_booking c (set_slot s (s + svc_durationMin sv * MINUTE_MS)) db)"
    by (rule reschedule_Inr [OF assms(1,2) r]) (rule that, assumption+)
  have "v = bk_version c" using c(2) ver by simp
  then show thesis
    using that [of b] booking_of_updated [OF assms(2) c(1), of "set_slot s (s + svc_durationMin sv * MINUTE_MS)"]
      reschedule_sat [OF assms(1,2) r]
    by (simp add: c(3,4) booking_of_def)
qed

text \<open>
  What else may commit in between: booking operations of any tenant, and anything that leaves the bookings and
  keeps the services in their bounds.
\<close>
inductive booking_history :: "tdb \<Rightarrow> tdb \<Rightarrow> bool" for db :: tdb where
  history_start: "booking_history db db"
| history_booking: "booking_history db db1 \<Longrightarrow> u \<noteq> [] \<Longrightarrow> booking_step u db1 db2 \<Longrightarrow> booking_history db db2"
| history_other: "booking_history db db1 \<Longrightarrow> bookings db2 = bookings db1 \<Longrightarrow> services_wf db2 \<Longrightarrow> booking_history db db2"

lemma booking_step_wf:
  assumes "booking_step u db db'" "u \<noteq> []" "services_wf db" "sat_all bookings_cs (bookings db)"
  shows "services_wf db'" "sat_all bookings_cs (bookings db')"
proof -
  have e: "sat_all bookings_cs (bookings db')" "booking_frame db db'" using booking_step_effect [OF assms] by simp_all
  have "services db' = services db" using e(2) unfolding booking_frame_def by (cases db; cases db') simp
  then show "services_wf db'" "sat_all bookings_cs (bookings db')" using assms(3) e(1) by (simp_all add: services_wf_def)
qed

lemma booking_step_version:
  assumes "booking_step u db db'" "u \<noteq> []" "services_wf db" "sat_all bookings_cs (bookings db)"
    and "booking_of t i db = Some c"
  obtains c' where "booking_of t i db' = Some c'" "bk_version c \<le> bk_version c'"
proof -
  obtain rows new where r: "bookings db' = rows @ new" "list_all2 (row_evolves u) (bookings db) rows"
    using booking_step_effect [OF assms(1-4)] unfolding booking_effect_def by blast
  note c = booking_of_Some [OF assms(5)]
  obtain k where k: "k < length (bookings db)" "bookings db ! k = c"
    using c by (auto simp: in_set_conv_nth)
  let ?c = "rows ! k"
  have e: "row_evolves u c ?c" "?c \<in> set (bookings db')"
    using r k by (auto simp: list_all2_conv_all_nth)
  then have same: "e_id ?c = i" "e_tenantId ?c = t" "live ?c" "bk_version c \<le> bk_version ?c"
    using c by (auto simp: row_evolves_def set_status_def set_slot_def live_def)
  obtain x where x: "booking_of t i db' = Some x"
    using e(2) same(1-3) by (cases "booking_of t i db'") (auto simp: booking_of_def find_None_iff)
  have "x = ?c"
    using bookings_tbl.key_inj [OF booking_step_wf(2) [OF assms(1-4)], of x ?c] booking_of_Some [OF x] e(2) same(1) by simp
  then show thesis using that [OF x] same(4) by simp
qed

lemma booking_history_version:
  assumes "booking_history db later" "services_wf db" "sat_all bookings_cs (bookings db)" "booking_of t i db = Some c"
  shows "services_wf later \<and> sat_all bookings_cs (bookings later) \<and>
    (\<exists>c'. booking_of t i later = Some c' \<and> bk_version c \<le> bk_version c')"
  using assms(1)
proof (induction rule: booking_history.induct)
  case history_start
  then show ?case using assms(2-4) by blast
next
  case (history_booking db1 u db2)
  then obtain c1 where wf: "services_wf db1" "sat_all bookings_cs (bookings db1)"
    and c1: "booking_of t i db1 = Some c1" "bk_version c \<le> bk_version c1" by blast
  obtain c2 where "booking_of t i db2 = Some c2" "bk_version c1 \<le> bk_version c2"
    by (rule booking_step_version [OF history_booking.hyps(3,2) wf c1(1)])
  then show ?case using booking_step_wf [OF history_booking.hyps(3,2) wf] c1(2) by fastforce
next
  case (history_other db1 db2)
  then show ?case by (simp add: booking_of_def)
qed

text \<open>
  C13. Optimistic locking: once a status change or a reschedule that carried version \<open>v\<close> has committed, no
  second status change or reschedule of that booking that still carries \<open>v\<close>, in the body or in the If-Match
  header, can commit, however many other operations have committed in between; two clients that read the same version never both win.
\<close>
theorem no_lost_update:
  assumes "t \<noteq> []" "services_wf db" "sat_all bookings_cs (bookings db)"
    and "transition (tenant_tx t) ev now i v to db = Inr (b, db') \<or>
      (case ifMatch1 of None \<Rightarrow> rb_version dto1 | Some w \<Rightarrow> Some w) = Some v \<and>
      reschedule (tenant_tx t) ev now i dto1 ifMatch1 db = Inr (b, db')"
    and "booking_history db' later"
  shows "(\<nexists>r. transition (tenant_tx t) ev2 now2 i v to2 later = Inr r) \<and>
         ((case ifMatch of None \<Rightarrow> rb_version dto | Some w \<Rightarrow> Some w) = Some v \<longrightarrow>
            (\<nexists>r. reschedule (tenant_tx t) ev2 now2 i dto ifMatch later = Inr r))"
proof -
  obtain c where c: "booking_of t i db' = Some c" "bk_version c = v + 1" "sat_all bookings_cs (bookings db')"
    using assms(1,3,4) by (rule committed_version)
  have "booking_step t db db'" using assms(4) by (auto intro: booking_step.intros)
  then have "services_wf db'" using assms(1-3) by (rule booking_step_wf)
  from booking_history_version [OF assms(5) this c(3,1)]
  obtain c' where c': "booking_of t i later = Some c'" "bk_version c \<le> bk_version c'" "sat_all bookings_cs (bookings later)"
    by blast
  note stale = stale_never_commits [OF assms(1) c'(3,1)]
  have "bk_version c' \<noteq> v" using c(2) c'(2) by simp
  then show ?thesis using stale by blast
qed

text \<open>
  C12. A status change commits exactly when the tenant has a live booking of that id, the state machine
  allows the move, the version is the current one, and it and its successor fit the 32-bit column (at
  2147483647 the UPDATE fails with 22003); then the row takes the new status and the next
  version, and one event named after the status is recorded.
\<close>
theorem transition_commits_iff:
  assumes "t \<noteq> []" "sat_all bookings_cs (bookings db)" "ev \<notin> e_id ` set (outbox_events db)"
  shows "transition (tenant_tx t) ev now i v to db = Inr (b', db') \<longleftrightarrow>
    (\<exists>b. booking_of t i db = Some b \<and> to \<in> set (booking_TRANSITIONS (bk_status b)) \<and> v = bk_version b \<and>
         int4 v \<and> int4 (v + 1) \<and>
         b' = b\<lparr>bk_status := to, bk_version := v + 1\<rparr> \<and>
         db' = db\<lparr>bookings := update_where (\<lambda>x. x = b) (\<lambda>x. b') (bookings db),
                  outbox_events := outbox_events db @
                    [outbox_row ev now t (booking_event b' (''booking.'' @ booking_status_str to))]\<rparr>)"
proof (cases "booking_of t i db")
  case None
  then show ?thesis using assms by (simp add: transition_spec)
next
  case (Some b)
  have "update_where (\<lambda>x. x = b) (set_status to) (bookings db) =
        update_where (\<lambda>x. x = b) (\<lambda>x. set_status to b) (bookings db)"
    by (auto simp: update_where_def)
  then show ?thesis using assms Some
    by (auto simp: transition_spec booking_canTransition_def with_event_def with_booking_def set_status_def)
qed

text \<open>
  Rescheduling answers a wrong version by the channel it came through: a stale If-Match header gives
  412 whatever the body says, a stale body version alone gives 409, no version at all 400; nothing is
  written in any of these cases.
\<close>
theorem stale_reschedule:
  assumes "t \<noteq> []" "sat_all bookings_cs (bookings db)" "ev \<notin> e_id ` set (outbox_events db)"
    and "booking_of t i db = Some b" "active_status (bk_status b)"
    and "service_of t (bk_serviceId b) db = Some sv" "rb_startsAt dto = Some s"
  shows "reschedule_endpoint (tenant_tx t) ev now i dto header db =
    (case (parse_if_match header, rb_version dto) of
       (None, None) \<Rightarrow> Inl no_version
     | (Some v, _) \<Rightarrow>
         if \<not> int4 v then Inl (DbError numeric_out_of_range)
         else if v \<noteq> bk_version b
           then Inl (PreconditionFailedException ''Booking version does not match If-Match'')
         else reschedule (tenant_tx t) ev now i (dto\<lparr>rb_version := None\<rparr>) (Some v) db
     | (None, Some v) \<Rightarrow>
         if \<not> int4 v then Inl (DbError numeric_out_of_range)
         else if v \<noteq> bk_version b then Inl staleError
         else reschedule (tenant_tx t) ev now i dto None db)"
  using assms
  by (auto simp: reschedule_endpoint_def reschedule_spec Let_def split: option.splits)

text \<open>
  The ETag of a read works as the If-Match of the next write, strong or weak: the header parses back
  to exactly the version that was read.
\<close>
theorem etag_roundtrip:
  assumes "0 \<le> bk_version b"
  shows "parse_if_match (Some (etag b)) = Some (bk_version b) \<and>
         parse_if_match (Some (''W/'' @ etag b)) = Some (bk_version b)"
proof -
  obtain n where n: "bk_version b = int n" using assms nonneg_int_cases by blast
  have "x \<noteq> quote_char" if "x \<in> set (nat_str n)" for x
    using nat_str_digits [of n] that by (auto simp: list_all_iff is_digit_def quote_char_def)
  then have f: "filter (\<lambda>x. x \<noteq> quote_char) (nat_str n) = nat_str n" by (simp add: filter_id_conv)
  have e: "etag b = quote_char # nat_str n @ [quote_char]" by (simp add: etag_def n int_str_def)
  have "quote_char \<noteq> CHR ''W''" unfolding quote_char_def by code_simp
  then have w: "\<not> starts_with ''W/'' (etag b)" by (simp add: e starts_with_def)
  have "js_parseInt (nat_str n) = Some (int n)" using js_parseInt_nat_str [of "[]" n] by simp
  moreover have "starts_with ''W/'' (''W/'' @ etag b)" by (rule starts_with_append)
  moreover have "etag b \<noteq> []" by (simp add: e)
  moreover have "filter (\<lambda>x. x \<noteq> quote_char) (etag b) = nat_str n" by (simp add: e f)
  ultimately show ?thesis using w by (simp add: parse_if_match_def n)
qed

text \<open>
  C14. Idempotent creation: after a request with a key has created a booking, every later request with that
  key finds it, in any state that still holds the tenant's row of that key, whatever else has been written: the same body gets the stored response and
  writes nothing, so the booking is created once; another body is refused with 422
  IDEMPOTENCY_KEY_REUSED. The operation itself is never run again, whatever it would do by then.
\<close>
theorem idempotent_create:
  assumes "t \<noteq> []" "k \<noteq> []"
    and "booking_create sha256 jsonb toPlain (tenant_tx t) key_id i ev now (Some k) body dto db = Inr (Fresh b, db')"
    and "filter (\<lambda>r. e_tenantId r = t \<and> ik_key r = k) (idempotency_keys later) =
      filter (\<lambda>r. e_tenantId r = t \<and> ik_key r = k) (idempotency_keys db')" "jsonb (toPlain b) \<noteq> JNull"
  shows "booking_create sha256 jsonb toPlain (tenant_tx t) key_id2 i2 ev2 now2 (Some k) body2 dto2 later =
    (if sha256 (stringify body2) = sha256 (stringify body) then Inr (Replayed (jsonb (toPlain b)), later)
     else Inl key_reused)"
proof -
  have "idem_recorded t k (hashBody sha256 (Some body)) (jsonb (toPlain b)) db'"
    using assms(3) unfolding booking_create_def
    by (rule idem_run_records [OF assms(1,2) doCreate_keeps_keys [OF assms(1)]])
  then have "idem_recorded t k (hashBody sha256 (Some body)) (jsonb (toPlain b)) later"
    by (rule idem_recorded_row [OF assms(4), THEN iffD1])
  note again = idem_run_recorded [OF assms(1,2) this]
  show ?thesis
    using assms(5) by (simp add: booking_create_def again) (simp add: hashBody_def)
qed

text \<open>
  However requests race for one Idempotency-Key of a tenant, in whatever order the database lets their
  claims through, at most one of them wins the claim and runs its operation.
\<close>
theorem idempotency_key_won_once:
  assumes "t \<noteq> []"
  shows "count_wins (idem_claim_step t gen now h) k db requests \<le> 1"
  using assms by (rule idem_once.at_most_one_winner)

section \<open>Contested slots\<close>

text \<open>A list of create requests, each in its own transaction, with the ids the database gives them.\<close>
fun run_creates ::
  "uuid \<Rightarrow> instant \<Rightarrow> (uuid \<times> uuid \<times> create_booking_dto) list \<Rightarrow> tdb \<Rightarrow> (exn + booking) list \<times> tdb" where
  "run_creates t now [] db = ([], db)"
| "run_creates t now ((i, ev, dto) # rs) db =
     (let r = doCreate (tenant_tx t) i ev now dto db;
          (outs, db') = run_creates t now rs (state_after db r)
      in (map_sum id fst r # outs, db'))"

text \<open>A request that passes every check but the slot: its service exists, and so on.\<close>
definition bookable :: "uuid \<Rightarrow> tdb \<Rightarrow> create_booking_dto \<Rightarrow> instant \<Rightarrow> service_row \<Rightarrow> bool" where
  "bookable t db dto s sv \<longleftrightarrow>
     service_of t (cb_serviceId dto) db = Some sv \<and> capable t (cb_staffId dto) (cb_serviceId dto) db \<and>
     customer_of t (cb_customerId dto) db \<noteq> None \<and> cb_startsAt dto = Some s"

lemma bookable_frame:
  "services db' = services db \<Longrightarrow> staff_services db' = staff_services db \<Longrightarrow> customers db' = customers db \<Longrightarrow>
     bookable t db' dto s sv = bookable t db dto s sv"
  by (simp add: bookable_def service_of_def capable_def customer_of_def)

lemma bookable_doCreate:
  assumes "t \<noteq> []" "i \<notin> e_id ` set (bookings db)" "ev \<notin> e_id ` set (outbox_events db)"
    and "bookable t db dto s sv"
  shows "doCreate (tenant_tx t) i ev now dto db =
     (let b = created_booking t i now dto s sv in
      if list_ex (booking_conflict b) (bookings db) then Inl slot_taken
      else Inr (b, with_event ev now t b ''booking.created'' (db\<lparr>bookings := bookings db @ [b]\<rparr>)))"
  using assms by (auto simp: doCreate_spec bookable_def)

text \<open>The slot a request asks for, and whether two of them overlap on one staff member.\<close>
definition same_slot :: "create_booking_dto \<Rightarrow> instant \<Rightarrow> service_row \<Rightarrow> create_booking_dto \<Rightarrow> instant \<Rightarrow> service_row \<Rightarrow> bool" where
  "same_slot d s sv d' s' sv' \<longleftrightarrow>
     cb_staffId d' = cb_staffId d \<and>
     range_overlap (s, s + svc_durationMin sv * MINUTE_MS) (s', s' + svc_durationMin sv' * MINUTE_MS)"

lemma same_slot_conflict:
  "same_slot d s sv d' s' sv' \<Longrightarrow>
     booking_conflict (created_booking t i' now' d' s' sv') (created_booking t i now d s sv)"
  by (simp add: same_slot_def booking_conflict_def booking_occupies_def created_booking_def live_def
      range_overlap_sym)

lemma slot_gone:
  assumes "t \<noteq> []" "b \<in> set (bookings db)" "b = created_booking t i0 now0 d s sv"
    and "distinct (map fst rs)" "distinct (map (fst \<circ> snd) rs)"
    and "\<And>i ev dto. (i, ev, dto) \<in> set rs \<Longrightarrow> i \<notin> e_id ` set (bookings db) \<and> ev \<notin> e_id ` set (outbox_events db) \<and>
           (\<exists>s' sv'. bookable t db dto s' sv' \<and> same_slot d s sv dto s' sv')"
  shows "run_creates t now rs db = (replicate (length rs) (Inl slot_taken), db)"
  using assms(4-6)
proof (induction rs)
  case Nil
  then show ?case by simp
next
  case (Cons r rs)
  obtain i ev dto where r: "r = (i, ev, dto)" by (cases r) auto
  obtain s' sv' where d: "bookable t db dto s' sv'" "same_slot d s sv dto s' sv'"
      "i \<notin> e_id ` set (bookings db)" "ev \<notin> e_id ` set (outbox_events db)"
    using Cons.prems(3) [of i ev dto] r by auto
  have "booking_conflict (created_booking t i now dto s' sv') b"
    unfolding assms(3) using d(2) by (rule same_slot_conflict)
  then have "doCreate (tenant_tx t) i ev now dto db = Inl slot_taken"
    using assms(2) by (auto simp: bookable_doCreate [OF assms(1) d(3,4,1)] Let_def list_ex_iff)
  moreover have "run_creates t now rs db = (replicate (length rs) (Inl slot_taken), db)"
  proof (rule Cons.IH)
    show "distinct (map fst rs)" "distinct (map (fst \<circ> snd) rs)"
      using Cons.prems(1,2) by (simp_all add: comp_def)
  qed (rule Cons.prems(3), simp)
  ultimately show ?case by (simp add: r)
qed

text \<open>
  C1. A contested slot goes to exactly one request: when any number of otherwise valid requests ask one
  staff member for overlapping times and the first finds the time free, that one is booked and every
  other is answered 409 BOOKING_SLOT_TAKEN, leaving nothing behind.
\<close>
theorem contested_slot:
  assumes "t \<noteq> []" "distinct (map fst ((i, ev, dto) # rs))" "distinct (map (fst \<circ> snd) ((i, ev, dto) # rs))"
    and "bookable t db dto s sv"
    and "\<And>i' ev' d. (i', ev', d) \<in> set ((i, ev, dto) # rs) \<Longrightarrow>
           i' \<notin> e_id ` set (bookings db) \<and> ev' \<notin> e_id ` set (outbox_events db)"
    and "\<And>i' ev' d. (i', ev', d) \<in> set rs \<Longrightarrow> \<exists>s' sv'. bookable t db d s' sv' \<and> same_slot dto s sv d s' sv'"
    and "\<not> list_ex (booking_conflict (created_booking t i now dto s sv)) (bookings db)"
  shows "fst (run_creates t now ((i, ev, dto) # rs) db) =
           Inr (created_booking t i now dto s sv) # replicate (length rs) (Inl slot_taken) \<and>
         bookings (snd (run_creates t now ((i, ev, dto) # rs) db)) =
           bookings db @ [created_booking t i now dto s sv]"
proof -
  let ?b = "created_booking t i now dto s sv"
  let ?db = "with_event ev now t ?b ''booking.created'' (db\<lparr>bookings := bookings db @ [?b]\<rparr>)"
  have f: "i \<notin> e_id ` set (bookings db)" "ev \<notin> e_id ` set (outbox_events db)"
    using assms(5) [of i ev dto] by simp_all
  have c: "doCreate (tenant_tx t) i ev now dto db = Inr (?b, ?db)"
    using assms(7) by (simp add: bookable_doCreate [OF assms(1) f assms(4)] Let_def)
  have same: "bookable t ?db d s' sv' = bookable t db d s' sv'" for d s' sv'
    by (rule bookable_frame) simp_all
  have ids: "e_id ?b = i" "e_id (outbox_row ev now t (booking_event ?b ''booking.created'')) = ev"
    by (simp_all add: created_booking_def outbox_row_def)
  have "run_creates t now rs ?db = (replicate (length rs) (Inl slot_taken), ?db)"
  proof (rule slot_gone [OF assms(1), of ?b ?db i now dto s sv])
    show "?b \<in> set (bookings ?db)" by simp
    show "distinct (map fst rs)" "distinct (map (fst \<circ> snd) rs)" using assms(2,3) by simp_all
    fix i' ev' d
    assume m: "(i', ev', d) \<in> set rs"
    have "i' \<noteq> i" "ev' \<noteq> ev" using assms(2,3) m by force+
    then show "i' \<notin> e_id ` set (bookings ?db) \<and> ev' \<notin> e_id ` set (outbox_events ?db) \<and>
        (\<exists>s' sv'. bookable t ?db d s' sv' \<and> same_slot dto s sv d s' sv')"
      using assms(5) [of i' ev' d] assms(6) [OF m] m ids by (simp add: same)
  qed simp
  then show ?thesis by (simp add: c Let_def)
qed

section \<open>Witnesses\<close>

definition sample_service :: service_row where
  "sample_service =
     \<lparr>e_id = ''sv1'', e_createdAt = 0, e_deletedAt = None, e_tenantId = ''t1'', svc_name = ''Cut'',
      svc_durationMin = 30, svc_priceAmount = 100, svc_priceCurrency = ''VND'',
      svc_bufferBeforeMin = 0, svc_bufferAfterMin = 10, svc_active = True\<rparr>"

definition sample_link :: staff_service_row where
  "sample_link =
     \<lparr>e_id = ''l1'', e_createdAt = 0, e_deletedAt = None, e_tenantId = ''t1'',
      ss_staffId = ''st1'', ss_serviceId = ''sv1''\<rparr>"

definition sample_customer :: customer_row where
  "sample_customer =
     \<lparr>e_id = ''c1'', e_createdAt = 0, e_deletedAt = None, e_tenantId = ''t1'', cu_name = ''An'',
      cu_email = ''an@x'', cu_phone = None\<rparr>"

definition sample_booking :: "uuid \<Rightarrow> instant \<Rightarrow> booking_status \<Rightarrow> booking" where
  "sample_booking i s st =
     \<lparr>e_id = i, e_createdAt = 0, e_deletedAt = None, e_tenantId = ''t1'', bk_staffId = ''st1'',
      bk_serviceId = ''sv1'', bk_customerId = ''c1'', bk_startsAt = s, bk_endsAt = s + 1800000,
      bk_status = st, bk_priceAmount = 100, bk_priceCurrency = ''VND'', bk_recurrenceId = None,
      bk_version = 1\<rparr>"

definition sample_db :: tdb where
  "sample_db = empty_tdb\<lparr>services := [sample_service], staff_services := [sample_link],
     customers := [sample_customer],
     bookings := [sample_booking ''b0'' 0 Completed, sample_booking ''b1'' 3600000 Pending]\<rparr>"

definition sample_confirmed :: tdb where
  "sample_confirmed = with_event ''e1'' 5 ''t1'' (set_status Confirmed (sample_booking ''b1'' 3600000 Pending))
     ''booking.confirmed'' (with_booking (sample_booking ''b1'' 3600000 Pending) (set_status Confirmed) sample_db)"

definition sample_request :: "uuid \<Rightarrow> instant \<Rightarrow> create_booking_dto" where
  "sample_request cu s =
     \<lparr>cb_staffId = ''st1'', cb_serviceId = ''sv1'', cb_customerId = cu, cb_startsAt = Some s\<rparr>"

lemma sample_wf: "services_wf sample_db"
  by (simp add: services_wf_def sample_db_def sample_service_def service_wf_def between_def empty_tdb_def)

lemma sample_sat: "sat_all bookings_cs (bookings sample_db)"
  by (simp add: sample_db_def sat_all_def bookings_cs_def violates_def pk_conflict_def sample_booking_def
      booking_conflict_def booking_occupies_def)

lemma sample_booking_of: "booking_of ''t1'' ''b1'' sample_db = Some (sample_booking ''b1'' 3600000 Pending)"
  by (simp add: booking_of_def sample_db_def sample_booking_def live_def)

lemma sample_no_events: "outbox_events sample_db = []"
  by (simp add: sample_db_def empty_tdb_def)

lemma sample_confirm:
  "transition (tenant_tx ''t1'') ''e1'' 5 ''b1'' 1 Confirmed sample_db =
     Inr (set_status Confirmed (sample_booking ''b1'' 3600000 Pending), sample_confirmed)"
proof -
  have "int4 1" "int4 2" "booking_canTransition Pending Confirmed"
    by (simp_all add: int4_def booking_canTransition_def)
  moreover have "bk_status (sample_booking ''b1'' 3600000 Pending) = Pending"
    "bk_version (sample_booking ''b1'' 3600000 Pending) = 1" by (simp_all add: sample_booking_def)
  ultimately show ?thesis
    by (simp add: transition_spec sample_sat sample_booking_of sample_no_events sample_confirmed_def)
qed

lemma sample_step: "booking_step ''t1'' sample_db sample_confirmed"
  using sample_confirm by (rule booking_step.moved)

theorem booking_events_atomic_witness:
  "\<exists>evs. outbox_events sample_confirmed = outbox_events sample_db @ evs \<and>
     list_all2 (announces ''t1'')
       (filter (\<lambda>b. b \<notin> set (bookings sample_db)) (bookings sample_confirmed)) evs"
  by (rule booking_events_atomic [OF sample_step _ sample_wf sample_sat]) simp

theorem closed_booking_final_witness:
  "sample_booking ''b0'' 0 Completed \<in> set (bookings sample_confirmed)"
  by (rule closed_booking_final [OF sample_step _ sample_wf sample_sat])
    (simp_all add: sample_db_def sample_booking_def booking_closed_def)

theorem booking_snapshot_witness:
  "\<exists>b' \<in> set (bookings sample_confirmed). e_id b' = ''b1'' \<and> bk_priceAmount b' = 100 \<and> 1 \<le> bk_version b'"
proof -
  have "sample_booking ''b1'' 3600000 Pending \<in> set (bookings sample_db)" by (simp add: sample_db_def)
  from booking_snapshot [OF sample_step _ sample_wf sample_sat this] show ?thesis
    by (auto simp: sample_booking_def)
qed

theorem no_lost_update_witness:
  "\<nexists>r. transition (tenant_tx ''t1'') ''e2'' 6 ''b1'' 1 Cancelled sample_confirmed = Inr r"
  using no_lost_update [OF _ sample_wf sample_sat disjI1 [OF sample_confirm] history_start] by blast

theorem transition_commits_iff_witness:
  "\<exists>b' db'. transition (tenant_tx ''t1'') ''e1'' 5 ''b1'' 1 NoShow sample_db = Inr (b', db')"
  using sample_booking_of
  by (subst transition_commits_iff)
    (simp_all add: sample_sat sample_no_events int4_def, simp add: sample_booking_def)

theorem stale_reschedule_witness:
  "reschedule_endpoint (tenant_tx ''t1'') ''e1'' 5 ''b1'' \<lparr>rb_version = Some 1, rb_startsAt = Some 0\<rparr>
     (Some ''7'') sample_db = Inl (PreconditionFailedException ''Booking version does not match If-Match'')"
proof -
  have "service_of ''t1'' ''sv1'' sample_db = Some sample_service"
    by (simp add: service_of_def sample_db_def sample_service_def live_def)
  moreover have "parse_if_match (Some ''7'') = Some 7" by code_simp
  moreover have "bk_serviceId (sample_booking ''b1'' 3600000 Pending) = ''sv1''"
    "bk_version (sample_booking ''b1'' 3600000 Pending) = 1"
    "active_status (bk_status (sample_booking ''b1'' 3600000 Pending))" by (simp_all add: sample_booking_def)
  ultimately show ?thesis
    by (subst stale_reschedule [OF _ sample_sat _ sample_booking_of])
      (simp_all add: sample_no_events int4_def)
qed

theorem etag_roundtrip_witness:
  "parse_if_match (Some (etag (sample_booking ''b1'' 0 Pending))) = Some 1"
  using etag_roundtrip [of "sample_booking ''b1'' 0 Pending"] by (simp add: sample_booking_def)

theorem idempotency_key_won_once_witness:
  "count_wins (idem_claim_step ''t1'' (\<lambda>_. ''i'') 0 ''h'') ''k'' empty_tdb [''k'', ''k''] \<le> 1"
  by (rule idempotency_key_won_once) simp

definition sample_body :: json where
  "sample_body = JObj [(''customerId'', JStr ''c1'')]"

definition sample_create where
  "sample_create key_id i ev db =
     booking_create (\<lambda>x. x) (\<lambda>j. j) (\<lambda>b. JObj [(''id'', JStr (e_id b))]) (tenant_tx ''t1'') key_id i ev 9
       (Some ''k'') sample_body (sample_request ''c1'' 7200000) db"

lemma sample_bookable: "bookable ''t1'' sample_db (sample_request ''c1'' s) s sample_service"
  by (simp add: bookable_def service_of_def capable_def customer_of_def sample_db_def sample_service_def
      sample_link_def sample_customer_def sample_request_def live_def)

lemma sample_free:
  "\<not> list_ex (booking_conflict (created_booking ''t1'' i 9 (sample_request ''c1'' 7200000)
      7200000 sample_service)) (bookings sample_db)"
  by (simp add: sample_db_def sample_booking_def created_booking_def booking_conflict_def range_overlap_def
      booking_occupies_def sample_service_def MINUTE_MS_val)

lemma sample_create_ok:
  "case sample_create ''k1'' ''n1'' ''e1'' sample_db of
     Inr (Fresh b, db') \<Rightarrow> e_id b = ''n1'' | _ \<Rightarrow> False"
proof -
  let ?row = "idem_row ''k1'' 9 ''t1'' ''k'' (hashBody (\<lambda>x. x) (Some sample_body))"
  let ?db1 = "sample_db\<lparr>idempotency_keys := [?row]\<rparr>"
  let ?b = "created_booking ''t1'' ''n1'' 9 (sample_request ''c1'' 7200000) 7200000 sample_service"
  let ?db2 = "with_event ''e1'' 9 ''t1'' ?b ''booking.created'' (?db1\<lparr>bookings := bookings sample_db @ [?b]\<rparr>)"
  have e: "idempotency_keys sample_db = []" by (simp add: sample_db_def empty_tdb_def)
  have claim: "idem_claim (tenant_tx ''t1'') ''k1'' 9 ''k'' (hashBody (\<lambda>x. x) (Some sample_body)) sample_db =
      Inr (Some ''k1'', ?db1)"
    by (simp add: idem_claim_tx e insert_checked_def idempotency_cs_def)
  have "bookable ''t1'' ?db1 (sample_request ''c1'' 7200000) 7200000 sample_service"
    using sample_bookable by (subst bookable_frame [of _ sample_db]) simp_all
  note bk = this
  have fresh: "''n1'' \<notin> e_id ` set (bookings ?db1)" by (simp add: sample_db_def sample_booking_def)
  have create: "doCreate (tenant_tx ''t1'') ''n1'' ''e1'' 9 (sample_request ''c1'' 7200000) ?db1 = Inr (?b, ?db2)"
    using bookable_doCreate [OF _ fresh _ bk, of "''e1''" 9] sample_free [of "''n1''"]
    by (simp add: sample_no_events Let_def del: list_ex_iff)
  have "\<exists>db3. idem_complete (\<lambda>j. j) (tenant_tx ''t1'') ''k1'' j ?db2 = Inr ((), db3)" for j
    by (simp add: idem_complete_def rls_update_def update_checked_def idempotency_cs_def violates_def
        update_where_def)
  then obtain db3 where compl: "idem_complete (\<lambda>j. j) (tenant_tx ''t1'') ''k1''
      (JObj [(''id'', JStr ''n1'')]) ?db2 = Inr ((), db3)"
    by blast
  have "e_id ?b = ''n1''" by (simp add: created_booking_def)
  then show ?thesis
    by (simp add: sample_create_def booking_create_def idem_run_def claim create Let_def compl)
qed

theorem idempotent_create_witness:
  "\<exists>db'. sample_create ''k2'' ''n2'' ''e2'' db' = Inr (Replayed (JObj [(''id'', JStr ''n1'')]), db')"
proof -
  obtain b db' where c: "sample_create ''k1'' ''n1'' ''e1'' sample_db = Inr (Fresh b, db')" "e_id b = ''n1''"
    using sample_create_ok by (auto split: sum.splits prod.splits run_result.splits)
  have "sample_create ''k2'' ''n2'' ''e2'' db' = Inr (Replayed (JObj [(''id'', JStr ''n1'')]), db')"
    using idempotent_create [OF _ _ c(1) [unfolded sample_create_def] refl] c(2)
    by (simp add: sample_create_def)
  then show ?thesis by blast
qed

theorem contested_slot_witness:
  "map isl (fst (run_creates ''t1'' 9 [(''n1'', ''e1'', sample_request ''c1'' 7200000),
      (''n2'', ''e2'', sample_request ''c1'' 7260000)] sample_db)) = [False, True]"
proof -
  note b = sample_bookable
  have o': "same_slot (sample_request ''c1'' 7200000) 7200000 sample_service
      (sample_request ''c1'' 7260000) 7260000 sample_service"
    by (simp add: same_slot_def sample_request_def sample_service_def range_overlap_def MINUTE_MS_val)
  note free = sample_free
  have ids: "i' \<notin> e_id ` set (bookings sample_db)" if "i' \<in> {''n1'', ''n2''}" for i'
    using that by (auto simp: sample_db_def sample_booking_def)
  have "fst (run_creates ''t1'' 9 [(''n1'', ''e1'', sample_request ''c1'' 7200000),
      (''n2'', ''e2'', sample_request ''c1'' 7260000)] sample_db) =
    Inr (created_booking ''t1'' ''n1'' 9 (sample_request ''c1'' 7200000) 7200000 sample_service) #
      replicate (length [(''n2'', ''e2'', sample_request ''c1'' 7260000)]) (Inl slot_taken)"
    by (rule conjunct1 [OF contested_slot]) (use b o' free ids in \<open>auto simp: sample_no_events\<close>)
  then show ?thesis by simp
qed

end
