(* ===== verification/Onboarding.thy ===== *)
theory Onboarding
  imports Directory
begin

text \<open>
  Tenants (\<open>src/modules/tenant\<close>), invitations (\<open>src/modules/invite\<close>) and the super-admin console
  (\<open>src/modules/admin\<close>). All of them write global rows. \<open>onboard\<close> and \<open>changeStatus\<close> run in a
  transaction of their own; the invite operations run on the pooled connection, where every
  statement commits at once, so they return the new tables beside their error as well.
\<close>

section \<open>Tenants\<close>

record create_tenant_dto =
  ct_name :: string
  ct_slug :: string
  ct_timezone :: "string option"

text \<open>The character class \<open>[a-z0-9]\<close> and the pattern \<open>^[a-z0-9]+(?:-[a-z0-9]+)*$\<close>.\<close>
definition slug_char :: "char \<Rightarrow> bool" where
  "slug_char c \<longleftrightarrow> is_digit c \<or> ((97::nat) \<le> of_char c \<and> of_char c \<le> (122::nat))"

definition kebab_slug :: "string \<Rightarrow> bool" where
  "kebab_slug s \<longleftrightarrow> list_all (\<lambda>seg. seg \<noteq> [] \<and> list_all slug_char seg) (split_on (CHR ''-'') s)"

definition valid_create_tenant :: "(string \<Rightarrow> bool) \<Rightarrow> create_tenant_dto \<Rightarrow> bool" where
  "valid_create_tenant isTimeZone d \<longleftrightarrow>
     len_between 2 80 (ct_name d) \<and> kebab_slug (ct_slug d) \<and> len_between 2 40 (ct_slug d) \<and>
     opt isTimeZone (ct_timezone d)"

definition tenant_row :: "uuid \<Rightarrow> instant \<Rightarrow> create_tenant_dto \<Rightarrow> tenant" where
  "tenant_row new_id now d =
     \<lparr>e_id = new_id, e_createdAt = now, e_deletedAt = None, tn_name = ct_name d, tn_slug = ct_slug d,
      tn_timezone = or_default ''UTC'' (ct_timezone d), tn_status = TenantActive\<rparr>"

definition slug_in_use :: exn where
  "slug_in_use = ConflictException ''Tenant slug already in use''"

text \<open>Both INSERTs are on one transaction, so a result of \<open>Inl\<close> leaves neither.\<close>
definition onboard ::
  "uuid \<Rightarrow> uuid \<Rightarrow> instant \<Rightarrow> uuid \<Rightarrow> create_tenant_dto \<Rightarrow> gdb \<Rightarrow> exn + tenant \<times> gdb" where
  "onboard tid mid now userId d g =
     mapErr (on_code unique_violation slug_in_use)
       (bindE (insert_checked tenants_cs (tenant_row tid now d) (tenants g)) (\<lambda>rows.
        bindE (membership_create mid now userId (e_id (tenant_row tid now d)) Owner (g\<lparr>tenants := rows\<rparr>))
          (\<lambda>(_, g'). Inr (tenant_row tid now d, g'))))"

definition tenant_findById :: "uuid \<Rightarrow> gdb \<Rightarrow> tenant option" where
  "tenant_findById i g = find (\<lambda>t. live t \<and> e_id t = i) (tenants g)"

definition tenant_findBySlug :: "string \<Rightarrow> gdb \<Rightarrow> tenant option" where
  "tenant_findBySlug s g = find (\<lambda>t. live t \<and> tn_slug t = s) (tenants g)"

definition tenant_listAll :: "gdb \<Rightarrow> tenant list" where
  "tenant_listAll g = sort_key (\<lambda>t. - e_createdAt t) (filter live (tenants g))"

definition tenant_getById :: "uuid \<Rightarrow> gdb \<Rightarrow> exn + tenant" where
  "tenant_getById i g = requireE (tenant_findById i g) (NotFoundException ''Tenant not found'')"

section \<open>Invitations\<close>

record invite_email_job =
  iej_email :: string
  iej_tenantName :: string
  iej_role :: membership_role
  iej_acceptUrl :: string

record invite_env =
  ie_ttlDays :: int
  ie_webAppUrl :: string
  ie_sha256 :: "string \<Rightarrow> string"

definition invite_row ::
  "invite_env \<Rightarrow> uuid \<Rightarrow> instant \<Rightarrow> instant \<Rightarrow> uuid \<Rightarrow> string \<Rightarrow> string \<Rightarrow> membership_role \<Rightarrow> invite" where
  "invite_row env new_id now js_now t token email role =
     \<lparr>e_id = new_id, e_createdAt = now, e_deletedAt = None, e_tenantId = t,
      inv_email = to_lower email, inv_role = role, inv_tokenHash = ie_sha256 env token,
      inv_expiresAt = js_now + ie_ttlDays env * DAY_MS, inv_acceptedAt = None\<rparr>"

text \<open>
  \<open>token\<close> is \<open>randomBytes(32)\<close> in hex, \<open>js_now\<close> is \<open>Date.now()\<close>. The row is committed before the
  tenant is read; the queued mail is part of the result, as its delivery is not awaited.
\<close>
definition invite_create ::
  "invite_env \<Rightarrow> ctx \<Rightarrow> uuid \<Rightarrow> instant \<Rightarrow> instant \<Rightarrow> string \<Rightarrow> string \<Rightarrow> membership_role \<Rightarrow> gdb \<Rightarrow>
     (exn + invite \<times> string \<times> invite_email_job) \<times> gdb" where
  "invite_create env c new_id now js_now token email role g =
     (case getTenantId c of
        Inl e \<Rightarrow> (Inl e, g)
      | Inr t \<Rightarrow>
          let iv = invite_row env new_id now js_now t token email role in
          (case insert_checked invites_cs iv (invites g) of
             Inl e \<Rightarrow> (Inl e, g)
           | Inr rows \<Rightarrow>
               (bindE (tenant_getById t g) (\<lambda>tn. Inr (iv, token,
                  \<lparr>iej_email = inv_email iv, iej_tenantName = tn_name tn, iej_role = role,
                   iej_acceptUrl = ie_webAppUrl env @ ''/accept-invite?token='' @ token\<rparr>)),
                g\<lparr>invites := rows\<rparr>)))"

definition invite_findByHash :: "string \<Rightarrow> gdb \<Rightarrow> invite option" where
  "invite_findByHash h g = find (\<lambda>i. live i \<and> inv_tokenHash i = h) (invites g)"

definition markAcceptedIfPending :: "uuid \<Rightarrow> instant \<Rightarrow> gdb \<Rightarrow> bool \<times> gdb" where
  "markAcceptedIfPending i stamp g =
     (let p = (\<lambda>r. e_id r = i \<and> inv_acceptedAt r = None) in
      (0 < affected p (invites g),
       g\<lparr>invites := update_where p (\<lambda>r. r\<lparr>inv_acceptedAt := Some stamp\<rparr>) (invites g)\<rparr>))"

text \<open>The checks of \<open>accept\<close> read the invite once; another request may run before the writes.\<close>
definition invite_check :: "invite_env \<Rightarrow> instant \<Rightarrow> user \<Rightarrow> string \<Rightarrow> gdb \<Rightarrow> exn + invite" where
  "invite_check env js_now u token g =
     bindE (requireE (invite_findByHash (ie_sha256 env token) g) (NotFoundException ''Invalid invite token'')) (\<lambda>iv.
     bindE (guardE (inv_acceptedAt iv = None) (ConflictException ''Invite already used'')) (\<lambda>_.
     bindE (guardE (\<not> inv_expiresAt iv < js_now) (GoneException ''Invite expired'')) (\<lambda>_.
     bindE (guardE (to_lower (inv_email iv) = to_lower (us_email u))
              (ForbiddenException ''Invite was issued to a different email'')) (\<lambda>_. Inr iv))))"

definition already_member :: exn where
  "already_member = ConflictException ''Already a member of this tenant''"

text \<open>The membership first, then the mark, whose answer is not looked at.\<close>
definition invite_redeem :: "uuid \<Rightarrow> instant \<Rightarrow> instant \<Rightarrow> user \<Rightarrow> invite \<Rightarrow> gdb \<Rightarrow> (exn + membership) \<times> gdb" where
  "invite_redeem mid now stamp u iv g =
     (case membership_create mid now (e_id u) (e_tenantId iv) (inv_role iv) g of
        Inl e \<Rightarrow> (Inl (on_code unique_violation already_member e), g)
      | Inr (m, g1) \<Rightarrow> (Inr m, snd (markAcceptedIfPending (e_id iv) stamp g1)))"

definition invite_accept ::
  "invite_env \<Rightarrow> uuid \<Rightarrow> instant \<Rightarrow> instant \<Rightarrow> instant \<Rightarrow> user \<Rightarrow> string \<Rightarrow> gdb \<Rightarrow> (exn + membership) \<times> gdb" where
  "invite_accept env mid now js_now stamp u token g =
     (case invite_check env js_now u token g of
        Inl e \<Rightarrow> (Inl e, g)
      | Inr iv \<Rightarrow> invite_redeem mid now stamp u iv g)"

section \<open>Administration\<close>

definition audit_logs_cs :: "audit_log constraint list" where
  "audit_logs_cs = [(unique_violation, \<lambda>a b. al_id a = al_id b)]"

interpretation audit_logs_tbl: keyed_table audit_logs_cs al_id
  by unfold_locales (auto simp: audit_logs_cs_def)

definition audit_row :: "uuid \<Rightarrow> instant \<Rightarrow> uuid \<Rightarrow> admin_action \<Rightarrow> uuid \<Rightarrow> string option \<Rightarrow> audit_log" where
  "audit_row new_id now actor act target reason =
     \<lparr>al_id = new_id, al_createdAt = now, al_actorUserId = actor, al_action = act,
      al_targetTenantId = target, al_reason = reason\<rparr>"

definition audit_record :: "audit_log \<Rightarrow> gdb \<Rightarrow> exn + gdb" where
  "audit_record r g =
     bindE (insert_checked audit_logs_cs r (audit_logs g)) (\<lambda>rows. Inr (g\<lparr>audit_logs := rows\<rparr>))"

text \<open>\<open>reason ? { reason } : null\<close>\<close>
definition audit_reason :: "string option \<Rightarrow> string option" where
  "audit_reason r = (case r of Some [] \<Rightarrow> None | _ \<Rightarrow> r)"

definition changeStatus ::
  "uuid \<Rightarrow> instant \<Rightarrow> uuid \<Rightarrow> uuid \<Rightarrow> tenant_status \<Rightarrow> admin_action \<Rightarrow> string option \<Rightarrow> gdb \<Rightarrow>
     exn + tenant \<times> gdb" where
  "changeStatus log_id now actor tenantId st act reason g =
     bindE (requireE (tenant_findById tenantId g) (NotFoundException ''Tenant not found'')) (\<lambda>tn.
     bindE (update_checked tenants_cs (\<lambda>r. e_id r = e_id tn) (\<lambda>r. r\<lparr>tn_status := st\<rparr>) (tenants g)) (\<lambda>rows.
     bindE (audit_record (audit_row log_id now actor act tenantId (audit_reason reason)) (g\<lparr>tenants := rows\<rparr>)) (\<lambda>g'.
       Inr (tn\<lparr>tn_status := st\<rparr>, g'))))"

definition suspend :: "uuid \<Rightarrow> instant \<Rightarrow> uuid \<Rightarrow> uuid \<Rightarrow> string option \<Rightarrow> gdb \<Rightarrow> exn + tenant \<times> gdb" where
  "suspend log_id now actor tenantId reason g =
     changeStatus log_id now actor tenantId TenantSuspended TenantSuspend reason g"

definition reactivate :: "uuid \<Rightarrow> instant \<Rightarrow> uuid \<Rightarrow> uuid \<Rightarrow> gdb \<Rightarrow> exn + tenant \<times> gdb" where
  "reactivate log_id now actor tenantId g =
     changeStatus log_id now actor tenantId TenantActive TenantReactivate None g"

text \<open>The access is logged and committed before the tenant's rows are read.\<close>
definition getTenantDetail ::
  "uuid \<Rightarrow> instant \<Rightarrow> uuid \<Rightarrow> uuid \<Rightarrow> tdb \<Rightarrow> gdb \<Rightarrow> (exn + tenant \<times> subscription option) \<times> gdb" where
  "getTenantDetail log_id now actor tenantId db g =
     (case tenant_getById tenantId g of
        Inl e \<Rightarrow> (Inl e, g)
      | Inr tn \<Rightarrow>
          (case audit_record (audit_row log_id now actor TenantView tenantId None) g of
             Inl e \<Rightarrow> (Inl e, g)
           | Inr g' \<Rightarrow>
               (bindE (subscription_findActive (tenant_tx tenantId) db) (\<lambda>s. Inr (tn, s)), g')))"

definition valid_suspend_tenant :: "string option \<Rightarrow> bool" where
  "valid_suspend_tenant reason \<longleftrightarrow> opt (\<lambda>r. length r \<le> 500) reason"

section \<open>The steps that write global rows\<close>

text \<open>Any interleaving of the operations of this theory, whatever their arguments.\<close>
inductive onboarding_step :: "invite_env \<Rightarrow> gdb \<Rightarrow> gdb \<Rightarrow> bool" for env where
  step_onboard: "onboard tid mid now u d g = Inr (tn, g') \<Longrightarrow> onboarding_step env g g'"
| step_invite: "invite_create env c i now js_now token email role g = (r, g') \<Longrightarrow> onboarding_step env g g'"
| step_accept: "invite_accept env mid now js_now stamp u token g = (r, g') \<Longrightarrow> onboarding_step env g g'"
| step_suspend: "suspend i now actor t reason g = Inr (tn, g') \<Longrightarrow> onboarding_step env g g'"
| step_reactivate: "reactivate i now actor t g = Inr (tn, g') \<Longrightarrow> onboarding_step env g g'"
| step_detail: "getTenantDetail i now actor t db g = (r, g') \<Longrightarrow> onboarding_step env g g'"

definition onboarding_reach :: "invite_env \<Rightarrow> gdb \<Rightarrow> gdb \<Rightarrow> bool" where
  "onboarding_reach env = (onboarding_step env)\<^sup>*\<^sup>*"

section \<open>What each operation changes\<close>

lemma membership_create_Inr:
  assumes "membership_create mid now u t role g = Inr (m, g')"
  shows "m = \<lparr>e_id = mid, e_createdAt = now, e_deletedAt = None, mb_userId = u, mb_tenantId = t, mb_role = role\<rparr>"
    and "g' = g\<lparr>memberships := memberships g @ [m]\<rparr>"
    and "insert_checked memberships_cs m (memberships g) = Inr (memberships g @ [m])"
  using assms by (auto simp: membership_create_def Let_def result_simps dest: insert_checked_eq)

lemma onboard_Inr:
  assumes "onboard tid mid now u d g = Inr (tn, g')"
  obtains m where "tn = tenant_row tid now d"
    "m = \<lparr>e_id = mid, e_createdAt = now, e_deletedAt = None, mb_userId = u, mb_tenantId = tid, mb_role = Owner\<rparr>"
    "g' = g\<lparr>tenants := tenants g @ [tn], memberships := memberships g @ [m]\<rparr>"
proof -
  obtain rows g1 m where o: "insert_checked tenants_cs (tenant_row tid now d) (tenants g) = Inr rows"
      "membership_create mid now u tid Owner (g\<lparr>tenants := rows\<rparr>) = Inr (m, g1)"
      "tn = tenant_row tid now d" "g' = g1"
    using assms by (auto simp: onboard_def result_simps tenant_row_def)
  note m = membership_create_Inr [OF o(2)]
  show thesis
    by (rule that [of m]) (use o m insert_checked_eq [OF o(1)] in simp_all)
qed

lemma invite_create_effect:
  assumes "invite_create env c i now js_now token email role g = (r, g')"
  shows "g' = g \<or> (\<exists>iv. g' = g\<lparr>invites := invites g @ [iv]\<rparr>)"
  using assms by (auto simp: invite_create_def Let_def split: sum.splits dest: insert_checked_eq)

lemma invite_check_Inr:
  assumes "invite_check env js_now u token g = Inr iv"
  shows "invite_findByHash (ie_sha256 env token) g = Some iv" "inv_acceptedAt iv = None"
    "js_now \<le> inv_expiresAt iv" "to_lower (inv_email iv) = to_lower (us_email u)"
  using assms by (auto simp: invite_check_def result_simps)

definition mark_row :: "uuid \<Rightarrow> instant \<Rightarrow> invite \<Rightarrow> invite" where
  "mark_row i stamp r = (if e_id r = i \<and> inv_acceptedAt r = None then r\<lparr>inv_acceptedAt := Some stamp\<rparr> else r)"

lemma mark_row_simps [simp]:
  "live (mark_row i stamp r) = live r" "inv_tokenHash (mark_row i stamp r) = inv_tokenHash r"
  "e_id (mark_row i stamp r) = e_id r"
  by (simp_all add: mark_row_def live_def)

lemma markAcceptedIfPending_invites:
  "snd (markAcceptedIfPending i stamp g) = g\<lparr>invites := map (mark_row i stamp) (invites g)\<rparr>"
  by (auto simp: markAcceptedIfPending_def Let_def update_where_def mark_row_def)

lemma invite_accept_effect:
  assumes "invite_accept env mid now js_now stamp u token g = (r, g')"
  shows "(\<exists>e. r = Inl e \<and> g' = g) \<or>
    (\<exists>iv m. r = Inr m \<and> invite_check env js_now u token g = Inr iv \<and>
       m = \<lparr>e_id = mid, e_createdAt = now, e_deletedAt = None, mb_userId = e_id u,
            mb_tenantId = e_tenantId iv, mb_role = inv_role iv\<rparr> \<and>
       g' = g\<lparr>memberships := memberships g @ [m], invites := map (mark_row (e_id iv) stamp) (invites g)\<rparr>)"
proof (cases "invite_check env js_now u token g")
  case (Inl e)
  then show ?thesis using assms by (auto simp: invite_accept_def)
next
  case (Inr iv)
  show ?thesis
  proof (cases "membership_create mid now (e_id u) (e_tenantId iv) (inv_role iv) g")
    case (Inl e)
    then have "r = Inl (on_code unique_violation already_member e)" "g' = g"
      using assms Inr \<open>invite_check env js_now u token g = Inr iv\<close>
      by (simp_all add: invite_accept_def invite_redeem_def)
    then show ?thesis by simp
  next
    case (Inr p)
    obtain m g1 where p: "p = (m, g1)" by fastforce
    note mc = membership_create_Inr [OF Inr [unfolded p]]
    show ?thesis using assms Inr \<open>invite_check env js_now u token g = Inr iv\<close> mc
      by (simp add: p invite_accept_def invite_redeem_def markAcceptedIfPending_invites)
  qed
qed

lemma audit_record_Inr: "audit_record r g = Inr g' \<Longrightarrow> g' = g\<lparr>audit_logs := audit_logs g @ [r]\<rparr>"
  by (auto simp: audit_record_def result_simps dest: insert_checked_eq)

lemma changeStatus_Inr:
  assumes "changeStatus i now actor t st act reason g = Inr (tn, g')"
  obtains old where "tenant_findById t g = Some old" "tn = old\<lparr>tn_status := st\<rparr>"
    "g' = g\<lparr>tenants := update_where (\<lambda>r. e_id r = t) (\<lambda>r. r\<lparr>tn_status := st\<rparr>) (tenants g),
             audit_logs := audit_logs g @ [audit_row i now actor act t (audit_reason reason)]\<rparr>"
proof -
  obtain old rows g1 where o: "tenant_findById t g = Some old"
      "update_checked tenants_cs (\<lambda>r. e_id r = e_id old) (\<lambda>r. r\<lparr>tn_status := st\<rparr>) (tenants g) = Inr rows"
      "audit_record (audit_row i now actor act t (audit_reason reason)) (g\<lparr>tenants := rows\<rparr>) = Inr g1"
      "tn = old\<lparr>tn_status := st\<rparr>" "g' = g1"
    using assms by (auto simp: changeStatus_def result_simps)
  have "e_id old = t" using find_Some_mem [OF o(1) [unfolded tenant_findById_def]] by simp
  then show thesis
    using that [OF o(1,4)] o(5) audit_record_Inr [OF o(3)] update_checked_eq [OF o(2)] by simp
qed

lemma getTenantDetail_effect:
  assumes "getTenantDetail i now actor t db g = (r, g')"
  shows "(\<exists>e. r = Inl e \<and> g' = g) \<or> g' = g\<lparr>audit_logs := audit_logs g @ [audit_row i now actor TenantView t None]\<rparr>"
  using assms by (auto simp: getTenantDetail_def split: sum.splits dest: audit_record_Inr)

text \<open>The tables of the theory after a step: tenants and invites keep their rows in place.\<close>
lemma step_invites:
  assumes "onboarding_step env g g'"
  shows "(\<exists>iv. invites g' = invites g @ [iv]) \<or> (\<exists>i stamp. invites g' = map (mark_row i stamp) (invites g)) \<or>
         invites g' = invites g"
  using assms
proof cases
  case step_onboard
  then show ?thesis by (elim onboard_Inr) simp
next
  case step_invite
  then show ?thesis by (auto dest!: invite_create_effect)
next
  case step_accept
  from invite_accept_effect [OF this] show ?thesis by (elim disjE exE conjE) (simp_all, blast)
next
  case (step_suspend i now actor t reason tn)
  then show ?thesis unfolding suspend_def by (elim changeStatus_Inr) simp
next
  case (step_reactivate i now actor t tn)
  then show ?thesis unfolding reactivate_def by (elim changeStatus_Inr) simp
next
  case step_detail
  then show ?thesis by (auto dest!: getTenantDetail_effect)
qed

lemma find_mark_row:
  assumes "find (\<lambda>r. live r \<and> inv_tokenHash r = h) rows = Some iv" "inv_acceptedAt iv \<noteq> None"
  shows "find (\<lambda>r. live r \<and> inv_tokenHash r = h) (map (mark_row i stamp) rows) = Some iv"
proof -
  have "find (\<lambda>r. live r \<and> inv_tokenHash r = h) (map (mark_row i stamp) rows) =
      map_option (mark_row i stamp) (find (\<lambda>r. live r \<and> inv_tokenHash r = h) rows)"
    by (induction rows) auto
  then show ?thesis using assms by (simp add: mark_row_def)
qed

lemma find_append_Some: "find p xs = Some x \<Longrightarrow> find p (xs @ ys) = Some x"
  by (induction xs) (auto split: if_splits)

lemma accepted_stays:
  assumes "onboarding_reach env g g'" "invite_findByHash h g = Some iv" "inv_acceptedAt iv \<noteq> None"
  shows "invite_findByHash h g' = Some iv"
  using assms(1) unfolding onboarding_reach_def
proof (induction rule: rtranclp_induct)
  case base
  show ?case by (rule assms(2))
next
  case (step g1 g2)
  then show ?case using step_invites [OF step(2)]
    by (auto simp: invite_findByHash_def find_append_Some find_mark_row [OF _ assms(3)])
qed

text \<open>Row by row: what may have happened to the tenant at a position, and what the log says of it.\<close>
definition status_action :: "tenant_status \<Rightarrow> admin_action" where
  "status_action st = (case st of TenantActive \<Rightarrow> TenantReactivate | TenantSuspended \<Rightarrow> TenantSuspend)"

definition audited :: "gdb \<Rightarrow> gdb \<Rightarrow> bool" where
  "audited g g' \<longleftrightarrow> (\<exists>new ext upd.
     audit_logs g' = audit_logs g @ new \<and> tenants g' = map upd (tenants g) @ ext \<and>
     (\<forall>t \<in> set (tenants g). e_id (upd t) = e_id t \<and>
        (upd t = t \<or> (\<exists>l \<in> set new. al_targetTenantId l = e_id t \<and> al_action l = status_action (tn_status (upd t))))))"

lemma audited_refl: "audited g g"
  unfolding audited_def by (intro exI [of _ "[]"] exI [of _ "\<lambda>t. t"]) simp

lemma audited_trans:
  assumes "audited a b" "audited b c"
  shows "audited a c"
proof -
  obtain n1 x1 u1 where a: "audit_logs b = audit_logs a @ n1" "tenants b = map u1 (tenants a) @ x1"
      "\<And>t. t \<in> set (tenants a) \<Longrightarrow> e_id (u1 t) = e_id t \<and> (u1 t = t \<or>
         (\<exists>l \<in> set n1. al_targetTenantId l = e_id t \<and> al_action l = status_action (tn_status (u1 t))))"
    using assms(1) unfolding audited_def by blast
  obtain n2 x2 u2 where b: "audit_logs c = audit_logs b @ n2" "tenants c = map u2 (tenants b) @ x2"
      "\<And>t. t \<in> set (tenants b) \<Longrightarrow> e_id (u2 t) = e_id t \<and> (u2 t = t \<or>
         (\<exists>l \<in> set n2. al_targetTenantId l = e_id t \<and> al_action l = status_action (tn_status (u2 t))))"
    using assms(2) unfolding audited_def by blast
  show ?thesis unfolding audited_def
  proof (intro exI conjI ballI)
    show "audit_logs c = audit_logs a @ (n1 @ n2)" using a b by simp
    show "tenants c = map (u2 \<circ> u1) (tenants a) @ (map u2 x1 @ x2)" using a b by simp
    fix t assume t: "t \<in> set (tenants a)"
    then have t1: "u1 t \<in> set (tenants b)" using a(2) by simp
    note s1 = a(3) [OF t] and s2 = b(3) [OF t1]
    show "e_id ((u2 \<circ> u1) t) = e_id t" using s1 s2 by simp
    show "(u2 \<circ> u1) t = t \<or> (\<exists>l \<in> set (n1 @ n2). al_targetTenantId l = e_id t \<and>
            al_action l = status_action (tn_status ((u2 \<circ> u1) t)))"
      using s1 s2 by (auto simp: Bex_def)
  qed
qed

lemma changeStatus_audited:
  assumes "changeStatus i now actor t st act reason g = Inr (tn, g')" "act = status_action st"
  shows "audited g g'"
proof -
  obtain old where "tenant_findById t g = Some old" and g': "g' = g\<lparr>tenants :=
      update_where (\<lambda>r. e_id r = t) (\<lambda>r. r\<lparr>tn_status := st\<rparr>) (tenants g),
      audit_logs := audit_logs g @ [audit_row i now actor act t (audit_reason reason)]\<rparr>"
    using assms(1) by (rule changeStatus_Inr)
  show ?thesis unfolding audited_def
    by (rule exI [of _ "[audit_row i now actor act t (audit_reason reason)]"], rule exI [of _ "[]"],
        rule exI [of _ "\<lambda>r. if e_id r = t then r\<lparr>tn_status := st\<rparr> else r"])
      (simp add: g' update_where_def audit_row_def assms(2))
qed

lemma audited_same:
  assumes "tenants g' = tenants g @ ext" "audit_logs g' = audit_logs g @ new"
  shows "audited g g'"
  unfolding audited_def
  by (rule exI [of _ new], rule exI [of _ ext], rule exI [of _ "\<lambda>t. t"]) (simp add: assms)

lemma step_audited:
  assumes "onboarding_step env g g'"
  shows "audited g g'"
  using assms
proof cases
  case (step_onboard tid mid now u d tn)
  then show ?thesis by (elim onboard_Inr) (rule audited_same [of _ _ "[tn]" "[]"], simp_all)
next
  case step_invite
  from invite_create_effect [OF this] show ?thesis
    by (elim disjE exE) (rule audited_same [of _ _ "[]" "[]"], simp_all)+
next
  case step_accept
  from invite_accept_effect [OF this] show ?thesis
    by (elim disjE exE conjE) (rule audited_same [of _ _ "[]" "[]"], simp_all)+
next
  case step_suspend
  then show ?thesis unfolding suspend_def by (rule changeStatus_audited) (simp add: status_action_def)
next
  case step_reactivate
  then show ?thesis unfolding reactivate_def by (rule changeStatus_audited) (simp add: status_action_def)
next
  case (step_detail i now actor t db r)
  from getTenantDetail_effect [OF this] show ?thesis
    by (elim disjE exE conjE) (rule audited_same [of _ _ "[]"], simp, simp)+
qed

section \<open>Claims\<close>

lemma markAccepted_wins: "fst (markAcceptedIfPending i stamp g) \<longleftrightarrow>
    list_ex (\<lambda>r. e_id r = i \<and> inv_acceptedAt r = None) (invites g)"
  by (simp add: markAcceptedIfPending_def Let_def affected_pos list_ex_iff Bex_def)

definition invite_settled :: "gdb \<Rightarrow> uuid \<Rightarrow> bool" where
  "invite_settled g i \<longleftrightarrow> \<not> list_ex (\<lambda>r. e_id r = i \<and> inv_acceptedAt r = None) (invites g)"

text \<open>The mark itself is won once, whatever \<open>accept\<close> does with its answer.\<close>
interpretation invite_once: claim_once "\<lambda>i g. markAcceptedIfPending i stamp g" invite_settled "\<lambda>_. True"
  for stamp :: instant
  by unfold_locales
    (auto simp: markAccepted_wins invite_settled_def markAcceptedIfPending_invites list_ex_iff mark_row_def)

section \<open>Properties\<close>

definition sample_user :: "uuid \<Rightarrow> string \<Rightarrow> user" where
  "sample_user i em =
     \<lparr>e_id = i, e_createdAt = 0, e_deletedAt = None, us_email = em, us_name = ''An'',
      us_passwordHash = None, us_provider = None, us_providerAccountId = None, us_isSuperAdmin = False\<rparr>"

definition sample_tenant :: "uuid \<Rightarrow> string \<Rightarrow> tenant" where
  "sample_tenant i sl =
     \<lparr>e_id = i, e_createdAt = 0, e_deletedAt = None, tn_name = ''Spa'', tn_slug = sl,
      tn_timezone = ''UTC'', tn_status = TenantActive\<rparr>"

definition sample_invite :: invite where
  "sample_invite =
     \<lparr>e_id = ''i1'', e_createdAt = 0, e_deletedAt = None, e_tenantId = ''t1'', inv_email = ''an@x.vn'',
      inv_role = Staff, inv_tokenHash = ''tok'', inv_expiresAt = 1000, inv_acceptedAt = None\<rparr>"

definition sample_ienv :: invite_env where
  "sample_ienv = \<lparr>ie_ttlDays = 7, ie_webAppUrl = ''https://app'', ie_sha256 = (\<lambda>s. s)\<rparr>"

text \<open>
  Onboarding is all or nothing: a slug already in use (by a deleted tenant too) is a 409 and changes
  nothing; otherwise the tenant and the creator's owner membership are both stored and the creator
  resolves to owner of the new tenant.
\<close>
theorem onboard_spec:
  assumes "tid \<notin> e_id ` set (tenants g)" "mid \<notin> e_id ` set (memberships g)"
    and "tid \<notin> mb_tenantId ` set (memberships g)"
  shows "if list_ex (\<lambda>t. tn_slug t = ct_slug d) (tenants g)
     then onboard tid mid now u d g = Inl slug_in_use
     else \<exists>m g'. onboard tid mid now u d g = Inr (tenant_row tid now d, g') \<and>
            tenants g' = tenants g @ [tenant_row tid now d] \<and> memberships g' = memberships g @ [m] \<and>
            mb_userId m = u \<and> mb_role m = Owner \<and> resolveRole u tid g' = Some Owner"
proof -
  let ?tn = "tenant_row tid now d"
  let ?m = "\<lparr>e_id = mid, e_createdAt = now, e_deletedAt = None, mb_userId = u, mb_tenantId = tid, mb_role = Owner\<rparr>"
  have t: "insert_checked tenants_cs ?tn (tenants g) =
      (if list_ex (\<lambda>t. tn_slug t = ct_slug d) (tenants g) then Inl (DbError unique_violation)
       else Inr (tenants g @ [?tn]))"
    using assms(1) by (auto simp: insert_checked_def tenants_cs_def pk_conflict_def tenant_row_def list_ex_iff)
  have m: "insert_checked memberships_cs ?m (memberships g) = Inr (memberships g @ [?m])"
    using assms(2,3) by (auto simp: insert_checked_Inr_iff memberships_cs_def pk_conflict_def)
  have e: "find (\<lambda>m. live m \<and> mb_userId m = u \<and> mb_tenantId m = tid) (memberships g) = None"
    using assms(3) by (auto simp: find_None_iff)
  have f: "find p (xs @ [x]) = (if find p xs = None then (if p x then Some x else None) else find p xs)" for p x and xs :: "membership list"
    by (induction xs) auto
  show ?thesis
  proof (cases "list_ex (\<lambda>t. tn_slug t = ct_slug d) (tenants g)")
    case True
    then show ?thesis using t by (simp add: onboard_def)
  next
    case False
    then have "onboard tid mid now u d g = Inr (?tn, g\<lparr>tenants := tenants g @ [?tn], memberships := memberships g @ [?m]\<rparr>)"
      using t m by (simp add: onboard_def membership_create_def Let_def tenant_row_def)
    then show ?thesis using False e by (simp add: resolveRole_def f live_def)
  qed
qed

theorem onboard_spec_witness:
  "onboard ''t2'' ''m1'' 5 ''u1'' \<lparr>ct_name = ''Spa'', ct_slug = ''spa'', ct_timezone = None\<rparr>
     (empty_gdb\<lparr>tenants := [sample_tenant ''t1'' ''spa'']\<rparr>) = Inl slug_in_use"
  using onboard_spec [of "''t2''" "empty_gdb\<lparr>tenants := [sample_tenant ''t1'' ''spa'']\<rparr>" "''m1''"
      "\<lparr>ct_name = ''Spa'', ct_slug = ''spa'', ct_timezone = None\<rparr>" 5 "''u1''"]
  by (simp add: sample_tenant_def empty_gdb_def)

text \<open>
  An invitation grants what was invited, to whom it was invited: an accepted one was pending, unexpired
  and addressed to the accepting user's email (case aside), and the one membership it adds is that user's,
  in the inviting tenant, with the invited role; a refused one changes nothing.
\<close>
theorem invite_accept_grants:
  assumes "invite_accept env mid now js_now stamp u token g = (r, g')"
  shows "case r of
      Inl _ \<Rightarrow> g' = g
    | Inr m \<Rightarrow> (\<exists>iv. invite_findByHash (ie_sha256 env token) g = Some iv \<and> inv_acceptedAt iv = None \<and>
        js_now \<le> inv_expiresAt iv \<and> to_lower (inv_email iv) = to_lower (us_email u) \<and>
        mb_userId m = e_id u \<and> mb_tenantId m = e_tenantId iv \<and> mb_role m = inv_role iv \<and>
        memberships g' = memberships g @ [m] \<and>
        invite_findByHash (ie_sha256 env token) g' = Some (iv\<lparr>inv_acceptedAt := Some stamp\<rparr>))"
proof -
  have f: "find (\<lambda>r. live r \<and> inv_tokenHash r = h) (map (mark_row i stamp) rows) =
      map_option (mark_row i stamp) (find (\<lambda>r. live r \<and> inv_tokenHash r = h) rows)" for h i rows
    by (induction rows) auto
  from invite_accept_effect [OF assms] consider (refused) e where "r = Inl e" "g' = g"
    | (granted) iv m where "r = Inr m" "invite_check env js_now u token g = Inr iv"
        "m = \<lparr>e_id = mid, e_createdAt = now, e_deletedAt = None, mb_userId = e_id u,
              mb_tenantId = e_tenantId iv, mb_role = inv_role iv\<rparr>"
        "g' = g\<lparr>memberships := memberships g @ [m], invites := map (mark_row (e_id iv) stamp) (invites g)\<rparr>"
    by blast
  then show ?thesis
  proof cases
    case refused
    then show ?thesis by simp
  next
    case granted
    note c = invite_check_Inr [OF granted(2)]
    have "invite_findByHash (ie_sha256 env token) g' = Some (iv\<lparr>inv_acceptedAt := Some stamp\<rparr>)"
      using c(1,2) by (simp add: granted(4) invite_findByHash_def f) (simp add: mark_row_def)
    then show ?thesis using c granted by simp
  qed
qed

theorem invite_accept_grants_witness:
  "invite_findByHash ''tok'' (snd (invite_accept sample_ienv ''m1'' 5 6 7 (sample_user ''u1'' ''An@x.vn'') ''tok''
     (empty_gdb\<lparr>invites := [sample_invite]\<rparr>))) = Some (sample_invite\<lparr>inv_acceptedAt := Some 7\<rparr>)"
proof -
  let ?g = "empty_gdb\<lparr>invites := [sample_invite]\<rparr>"
  let ?r = "invite_accept sample_ienv ''m1'' 5 6 7 (sample_user ''u1'' ''An@x.vn'') ''tok'' ?g"
  have r: "fst ?r = Inr \<lparr>e_id = ''m1'', e_createdAt = 5, e_deletedAt = None, mb_userId = ''u1'',
      mb_tenantId = ''t1'', mb_role = Staff\<rparr>"
    by code_simp
  have f: "invite_findByHash ''tok'' ?g = Some sample_invite" and h: "ie_sha256 sample_ienv ''tok'' = ''tok''"
    by code_simp+
  from invite_accept_grants [OF prod.collapse [of ?r, symmetric]] show ?thesis by (simp add: r f h)
qed

text \<open>
  An invitation works once: after it has been accepted, and whatever tenant, invitation and
  administration operations run since, every further attempt with its token by anyone at any time is
  refused and changes nothing.
\<close>
theorem invite_single_use:
  assumes "invite_accept env mid now js_now stamp u token g = (Inr m, g1)"
    and "onboarding_reach env g1 g2"
  shows "invite_accept env mid' now' js_now' stamp' u' token g2 = (Inl (ConflictException ''Invite already used''), g2)"
proof -
  from invite_accept_effect [OF assms(1)] obtain iv where c: "invite_check env js_now u token g = Inr iv"
    and g1: "g1 = g\<lparr>memberships := memberships g @ [m], invites := map (mark_row (e_id iv) stamp) (invites g)\<rparr>"
    by auto
  note i = invite_check_Inr(1,2) [OF c]
  have f: "find (\<lambda>r. live r \<and> inv_tokenHash r = h) (map (mark_row i stamp) rows) =
      map_option (mark_row i stamp) (find (\<lambda>r. live r \<and> inv_tokenHash r = h) rows)" for h i rows
    by (induction rows) auto
  have "invite_findByHash (ie_sha256 env token) g1 = Some (iv\<lparr>inv_acceptedAt := Some stamp\<rparr>)"
    using i by (simp add: g1 invite_findByHash_def f) (simp add: mark_row_def)
  then have "invite_findByHash (ie_sha256 env token) g2 = Some (iv\<lparr>inv_acceptedAt := Some stamp\<rparr>)"
    by (rule accepted_stays [OF assms(2)]) simp
  then show ?thesis by (simp add: invite_accept_def invite_check_def)
qed

theorem invite_single_use_witness:
  "let g1 = snd (invite_accept sample_ienv ''m1'' 5 6 7 (sample_user ''u1'' ''An@x.vn'') ''tok''
              (empty_gdb\<lparr>invites := [sample_invite]\<rparr>)) in
   invite_accept sample_ienv ''m2'' 8 9 9 (sample_user ''u2'' ''an@x.vn'') ''tok'' g1 =
     (Inl (ConflictException ''Invite already used''), g1)"
proof -
  let ?r = "invite_accept sample_ienv ''m1'' 5 6 7 (sample_user ''u1'' ''An@x.vn'') ''tok''
              (empty_gdb\<lparr>invites := [sample_invite]\<rparr>)"
  let ?m = "\<lparr>e_id = ''m1'', e_createdAt = 5, e_deletedAt = None, mb_userId = ''u1'', mb_tenantId = ''t1'', mb_role = Staff\<rparr>"
  have "fst ?r = Inr ?m" by code_simp
  then have "?r = (Inr ?m, snd ?r)" by (metis prod.collapse)
  moreover have "onboarding_reach sample_ienv (snd ?r) (snd ?r)" by (simp add: onboarding_reach_def)
  ultimately show ?thesis unfolding Let_def by (rule invite_single_use)
qed

text \<open>
  Nobody changes a tenant's status off the record: over any run of these operations the audit log only
  grows at its end, tenants keep their place and id, and a tenant row that differs from before has an entry
  among the new ones that names the tenant and the action of its present status.
\<close>
theorem status_change_audited:
  assumes "onboarding_reach env g g'"
  shows "\<exists>new ext upd. audit_logs g' = audit_logs g @ new \<and> tenants g' = map upd (tenants g) @ ext \<and>
     (\<forall>t \<in> set (tenants g). e_id (upd t) = e_id t \<and>
        (upd t = t \<or> (\<exists>l \<in> set new. al_targetTenantId l = e_id t \<and>
           al_action l = (case tn_status (upd t) of TenantActive \<Rightarrow> TenantReactivate
                                                  | TenantSuspended \<Rightarrow> TenantSuspend))))"
  using assms unfolding onboarding_reach_def status_action_def [symmetric] audited_def [symmetric]
proof (induction rule: rtranclp_induct)
  case base
  show ?case by (rule audited_refl)
next
  case (step g1 g2)
  show ?case by (rule audited_trans [OF step(3) step_audited [OF step(2)]])
qed

theorem status_change_audited_witness:
  "\<exists>l. audit_logs (snd (the (case suspend ''l1'' 5 ''root'' ''t1'' (Some ''fraud'')
        (empty_gdb\<lparr>tenants := [sample_tenant ''t1'' ''spa'']\<rparr>) of Inl _ \<Rightarrow> None | Inr p \<Rightarrow> Some p))) = [l]"
proof -
  let ?g = "empty_gdb\<lparr>tenants := [sample_tenant ''t1'' ''spa'']\<rparr>"
  let ?g' = "?g\<lparr>tenants := [sample_tenant ''t1'' ''spa''\<lparr>tn_status := TenantSuspended\<rparr>],
                audit_logs := [audit_row ''l1'' 5 ''root'' TenantSuspend ''t1'' (Some ''fraud'')]\<rparr>"
  have s: "suspend ''l1'' 5 ''root'' ''t1'' (Some ''fraud'') ?g =
      Inr (sample_tenant ''t1'' ''spa''\<lparr>tn_status := TenantSuspended\<rparr>, ?g')"
    by code_simp
  then have "onboarding_reach sample_ienv ?g ?g'"
    unfolding onboarding_reach_def by (blast intro: step_suspend)
  from status_change_audited [OF this] show ?thesis by (simp add: s)
qed

text \<open>
  Two accounts whose addresses differ only in case can both pass the checks before either writes;
  the answer of \<open>markAcceptedIfPending\<close> is dropped, so both become members.
\<close>
lemma invite_race:
  "let g = empty_gdb\<lparr>invites := [sample_invite]\<rparr>;
       u1 = sample_user ''u1'' ''an@x.vn''; u2 = sample_user ''u2'' ''AN@x.vn'';
       c1 = invite_check sample_ienv 6 u1 ''tok'' g; c2 = invite_check sample_ienv 6 u2 ''tok'' g;
       (r1, g1) = invite_redeem ''m1'' 5 7 u1 sample_invite g;
       (r2, g2) = invite_redeem ''m2'' 5 7 u2 sample_invite g1 in
   c1 = Inr sample_invite \<and> c2 = Inr sample_invite \<and> map mb_userId (memberships g2) = [''u1'', ''u2'']"
  by code_simp

end
