(* ===== verification/Availability.thy ===== *)
theory Availability
  imports Booking_Props Onboarding
begin

text \<open>
  Availability (\<open>src/modules/availability\<close>): the read model that projects working hours, time off,
  bookings and capability into bookable slots. Luxon's calendar is the parameter \<open>zone_lib\<close>; the slot
  loop is a partial function, so that running for ever (a duration that is not positive) is a value.
  \<open>compute\<close> sorts by the ISO text of the start, which for the years 0 to 9999 is chronological order;
  the model sorts by the instant.
\<close>

section \<open>Slots\<close>

record ms_interval =
  iv_start :: int
  iv_end :: int

definition overlaps :: "ms_interval \<Rightarrow> ms_interval \<Rightarrow> bool" where
  "overlaps a b \<longleftrightarrow> iv_start a < iv_end b \<and> iv_start b < iv_end a"

partial_function (option) slot_loop ::
  "int \<Rightarrow> int \<Rightarrow> int \<Rightarrow> ms_interval list \<Rightarrow> ms_interval list \<Rightarrow> ms_interval list option" where
  "slot_loop start stop dur blockers slots =
     (if start + dur \<le> stop then
        slot_loop (start + dur) stop dur blockers
          (let slot = \<lparr>iv_start = start, iv_end = start + dur\<rparr> in
           if list_ex (overlaps slot) blockers then slots else slots @ [slot])
      else Some slots)"

definition generateSlots :: "ms_interval \<Rightarrow> int \<Rightarrow> ms_interval list \<Rightarrow> ms_interval list option" where
  "generateSlots window dur blockers = slot_loop (iv_start window) (iv_end window) dur blockers []"

section \<open>Local time\<close>

text \<open>
  \<open>zl_at date zone h m\<close> is \<open>DateTime.fromISO(date, { zone }).startOf('day').set({ hour, minute })\<close> as an
  instant, \<open>zl_weekday\<close> its weekday from 1 (Monday) to 7, \<open>zl_valid\<close> is \<open>DateTime.fromISO(date).isValid\<close>.
\<close>
record zone_lib =
  zl_valid :: "string \<Rightarrow> bool"
  zl_at :: "string \<Rightarrow> string \<Rightarrow> int \<Rightarrow> int \<Rightarrow> instant"
  zl_weekday :: "string \<Rightarrow> string \<Rightarrow> int"

definition localMinutesToUtc :: "zone_lib \<Rightarrow> string \<Rightarrow> int \<Rightarrow> string \<Rightarrow> instant" where
  "localMinutesToUtc zl date minutes zone = zl_at zl date zone (minutes div 60) (minutes mod 60)"

definition weekdayInZone :: "zone_lib \<Rightarrow> string \<Rightarrow> string \<Rightarrow> int" where
  "weekdayInZone zl date zone = zl_weekday zl date zone mod 7"

definition isValidLocalDate :: "zone_lib \<Rightarrow> string \<Rightarrow> bool" where
  "isValidLocalDate zl date = zl_valid zl date"

section \<open>The service\<close>

record availability_query =
  aq_serviceId :: uuid
  aq_staffId :: "uuid option"
  aq_date :: string

text \<open>\<open>^\d{4}-\d{2}-\d{2}$\<close>\<close>
definition date_text :: "string \<Rightarrow> bool" where
  "date_text s \<longleftrightarrow>
     length s = 10 \<and> s ! 4 = CHR ''-'' \<and> s ! 7 = CHR ''-'' \<and>
     list_all is_digit (take 4 s @ take 2 (drop 5 s) @ drop 8 s)"

definition valid_availability_query :: "(string \<Rightarrow> bool) \<Rightarrow> availability_query \<Rightarrow> bool" where
  "valid_availability_query isUUID q \<longleftrightarrow>
     isUUID (aq_serviceId q) \<and> opt isUUID (aq_staffId q) \<and> date_text (aq_date q)"

record availability_slot =
  as_staffId :: uuid
  as_startsAt :: instant
  as_endsAt :: instant

text \<open>Not returning, an error, or a value, in sequence.\<close>
definition bindL :: "('e + 'a) option \<Rightarrow> ('a \<Rightarrow> ('e + 'b) option) \<Rightarrow> ('e + 'b) option" where
  "bindL m f = (case m of None \<Rightarrow> None | Some (Inl e) \<Rightarrow> Some (Inl e) | Some (Inr x) \<Rightarrow> f x)"

definition buildBlockers ::
  "ctx \<Rightarrow> uuid \<Rightarrow> instant \<Rightarrow> instant \<Rightarrow> int \<Rightarrow> int \<Rightarrow> tdb \<Rightarrow> exn + ms_interval list" where
  "buildBlockers c staffId dayStart dayEnd before after db =
     bindE (time_off_overlapping c staffId dayStart dayEnd db) (\<lambda>offs.
     bindE (findActiveForStaffBetween c staffId dayStart dayEnd db) (\<lambda>bks.
       Inr (map (\<lambda>o'. \<lparr>iv_start = to_startsAt o', iv_end = to_endsAt o'\<rparr>) offs @
            map (\<lambda>b. \<lparr>iv_start = bk_startsAt b - before, iv_end = bk_endsAt b + after\<rparr>) bks)))"

text \<open>\<open>for (const window of hours)\<close>\<close>
fun window_loop ::
  "zone_lib \<Rightarrow> string \<Rightarrow> string \<Rightarrow> int \<Rightarrow> ms_interval list \<Rightarrow> working_hours_row list \<Rightarrow> ms_interval list option" where
  "window_loop zl date zone dur blockers [] = Some []"
| "window_loop zl date zone dur blockers (w # ws) =
     (case generateSlots \<lparr>iv_start = localMinutesToUtc zl date (wh_startMin w) zone,
                          iv_end = localMinutesToUtc zl date (wh_endMin w) zone\<rparr> dur blockers of
        None \<Rightarrow> None
      | Some sl \<Rightarrow> (case window_loop zl date zone dur blockers ws of
           None \<Rightarrow> None | Some rest \<Rightarrow> Some (sl @ rest)))"

text \<open>One turn of \<open>for (const staffId of staffIds)\<close>; \<open>continue\<close> is the empty list.\<close>
definition staff_slots ::
  "zone_lib \<Rightarrow> ctx \<Rightarrow> availability_query \<Rightarrow> service_row \<Rightarrow> string \<Rightarrow> tdb \<Rightarrow> uuid \<Rightarrow>
     (exn + availability_slot list) option" where
  "staff_slots zl c q service zone db staffId =
     bindL (Some (if aq_staffId q \<noteq> None then canPerform c staffId (aq_serviceId q) db else Inr True)) (\<lambda>ok.
     if \<not> ok then Some (Inr []) else
     bindL (Some (staff_findById c staffId db)) (\<lambda>st.
     case st of None \<Rightarrow> Some (Inr []) | Some staff \<Rightarrow>
     if \<not> st_active staff then Some (Inr []) else
     bindL (Some (forStaffWeekday c staffId (weekdayInZone zl (aq_date q) zone) db)) (\<lambda>hours.
     if hours = [] then Some (Inr []) else
     bindL (Some (buildBlockers c staffId (localMinutesToUtc zl (aq_date q) 0 zone)
                    (localMinutesToUtc zl (aq_date q) MINUTES_PER_DAY zone)
                    (svc_bufferBeforeMin service * MINUTE_MS) (svc_bufferAfterMin service * MINUTE_MS) db)) (\<lambda>blockers.
     case window_loop zl (aq_date q) zone (svc_durationMin service * MINUTE_MS) blockers hours of
       None \<Rightarrow> None
     | Some sl \<Rightarrow> Some (Inr (map (\<lambda>s. \<lparr>as_staffId = staffId, as_startsAt = iv_start s, as_endsAt = iv_end s\<rparr>) sl))))))"

fun staff_loop :: "(uuid \<Rightarrow> (exn + availability_slot list) option) \<Rightarrow> uuid list \<Rightarrow> (exn + availability_slot list) option" where
  "staff_loop one [] = Some (Inr [])"
| "staff_loop one (s # ss) =
     bindL (one s) (\<lambda>sl. bindL (staff_loop one ss) (\<lambda>rest. Some (Inr (sl @ rest))))"

definition compute ::
  "zone_lib \<Rightarrow> ctx \<Rightarrow> availability_query \<Rightarrow> gdb \<Rightarrow> tdb \<Rightarrow> (exn + availability_slot list) option" where
  "compute zl c q g db =
     bindL (Some (guardE (isValidLocalDate zl (aq_date q)) (BadRequestException ''date is not a valid calendar date''))) (\<lambda>_.
     bindL (Some (service_getById c (aq_serviceId q) db)) (\<lambda>service.
     bindL (Some (bindE (getTenantId c) (\<lambda>t. tenant_getById t g))) (\<lambda>tn.
     bindL (Some (case aq_staffId q of Some s \<Rightarrow> Inr [s] | None \<Rightarrow> capableStaffIds c (aq_serviceId q) db)) (\<lambda>staffIds.
     bindL (staff_loop (staff_slots zl c q service (tn_timezone tn) db) staffIds) (\<lambda>slots.
       Some (Inr (sort_key as_startsAt slots)))))))"

section \<open>The slot loop\<close>

lemma bindL_simps [simp]:
  "bindL None f = None" "bindL (Some (Inl e)) f = Some (Inl e)" "bindL (Some (Inr x)) f = f x"
  by (simp_all add: bindL_def)

definition grid_slot :: "int \<Rightarrow> int \<Rightarrow> nat \<Rightarrow> ms_interval" where
  "grid_slot start dur k = \<lparr>iv_start = start + int k * dur, iv_end = start + int k * dur + dur\<rparr>"

definition grid :: "int \<Rightarrow> int \<Rightarrow> int \<Rightarrow> ms_interval list" where
  "grid start stop dur = map (grid_slot start dur) [0..<nat ((stop - start) div dur)]"

lemma grid_step:
  assumes "0 < dur"
  shows "grid start stop dur =
     (if start + dur \<le> stop then grid_slot start dur 0 # grid (start + dur) stop dur else [])"
proof (cases "start + dur \<le> stop")
  case True
  have e: "(stop - start) div dur = (stop - (start + dur)) div dur + 1"
    using assms div_add_self2 [of dur "stop - (start + dur)"] by simp
  have "0 \<le> (stop - (start + dur)) div dur" using True assms by (simp add: pos_imp_zdiv_nonneg_iff)
  then have n: "nat ((stop - start) div dur) = Suc (nat ((stop - (start + dur)) div dur))" unfolding e by simp
  have "map (grid_slot start dur) [Suc 0..<Suc m] = map (grid_slot (start + dur) dur) [0..<m]" for m
    by (rule nth_equalityI) (simp_all add: grid_slot_def algebra_simps del: upt_Suc)
  then show ?thesis using True by (simp add: grid_def n upt_rec [of 0] del: upt_Suc)
next
  case False
  then have "(stop - start) div dur \<le> 0"
    using assms by (smt (verit) div_pos_pos_trivial pos_imp_zdiv_nonneg_iff)
  then show ?thesis using False by (simp add: grid_def)
qed

lemma slot_loop_grid:
  assumes "0 < dur"
  shows "slot_loop start stop dur blockers slots =
     Some (slots @ filter (\<lambda>s. \<not> list_ex (overlaps s) blockers) (grid start stop dur))"
proof (induction "nat (stop - start)" arbitrary: start slots rule: less_induct)
  case less
  show ?case
  proof (cases "start + dur \<le> stop")
    case True
    let ?s = "\<lparr>iv_start = start, iv_end = start + dur\<rparr>"
    have "nat (stop - (start + dur)) < nat (stop - start)" using assms True by simp
    note IH = less [OF this]
    have "grid_slot start dur 0 = ?s" by (simp add: grid_slot_def)
    then show ?thesis
      by (subst slot_loop.simps) (simp add: True IH Let_def grid_step [OF assms, of start])
  next
    case False
    then show ?thesis by (subst slot_loop.simps) (simp add: grid_step [OF assms, of start])
  qed
qed

text \<open>A duration that is not positive never leaves the loop.\<close>
lemma slot_loop_diverges:
  assumes "dur \<le> 0" "start + dur \<le> stop"
  shows "slot_loop start stop dur blockers slots = None"
proof -
  have "dur \<le> 0 \<longrightarrow> start + dur \<le> stop \<longrightarrow> False" if "slot_loop start stop dur blockers slots = Some r" for r
  proof (rule slot_loop.raw_induct [where P = "\<lambda>start stop dur b sl r. dur \<le> 0 \<longrightarrow> start + dur \<le> stop \<longrightarrow> False", OF _ that])
    fix loop start stop dur and blockers slots r :: "ms_interval list"
    assume IH: "\<And>start stop dur b sl r. loop start stop dur b sl = Some r \<Longrightarrow> dur \<le> 0 \<longrightarrow> start + dur \<le> stop \<longrightarrow> False"
      and step: "(if start + dur \<le> stop then loop (start + dur) stop dur blockers
           (let slot = \<lparr>iv_start = start, iv_end = start + dur\<rparr> in
            if list_ex (overlaps slot) blockers then slots else slots @ [slot]) else Some slots) = Some r"
    show "dur \<le> 0 \<longrightarrow> start + dur \<le> stop \<longrightarrow> False"
    proof (intro impI)
      assume d: "dur \<le> 0" "start + dur \<le> stop"
      then have "loop (start + dur) stop dur blockers
          (let slot = \<lparr>iv_start = start, iv_end = start + dur\<rparr> in
           if list_ex (overlaps slot) blockers then slots else slots @ [slot]) = Some r"
        using step by simp
      from IH [OF this] show False using d by simp
    qed
  qed
  then show ?thesis using assms by (cases "slot_loop start stop dur blockers slots") auto
qed

section \<open>What a day offers\<close>

definition free_grid :: "int \<Rightarrow> ms_interval list \<Rightarrow> int \<Rightarrow> int \<Rightarrow> ms_interval list" where
  "free_grid dur blockers start stop = filter (\<lambda>s. \<not> list_ex (overlaps s) blockers) (grid start stop dur)"

lemma generateSlots_free: "0 < dur \<Longrightarrow> generateSlots w dur blockers = Some (free_grid dur blockers (iv_start w) (iv_end w))"
  by (simp add: generateSlots_def slot_loop_grid free_grid_def)

lemma window_loop_concat:
  assumes "0 < dur"
  shows "window_loop zl date zone dur blockers ws =
     Some (concat (map (\<lambda>w. free_grid dur blockers (localMinutesToUtc zl date (wh_startMin w) zone)
        (localMinutesToUtc zl date (wh_endMin w) zone)) ws))"
  by (induction ws) (simp_all add: generateSlots_free [OF assms])

definition staff_blockers ::
  "uuid \<Rightarrow> uuid \<Rightarrow> instant \<Rightarrow> instant \<Rightarrow> service_row \<Rightarrow> tdb \<Rightarrow> ms_interval list" where
  "staff_blockers t staffId dayStart dayEnd sv db =
     map (\<lambda>o'. \<lparr>iv_start = to_startsAt o', iv_end = to_endsAt o'\<rparr>)
       (filter (\<lambda>r. e_tenantId r = t \<and> live r \<and> to_staffId r = staffId \<and> to_startsAt r < dayEnd \<and> dayStart < to_endsAt r) (time_off db)) @
     map (\<lambda>b. \<lparr>iv_start = bk_startsAt b - svc_bufferBeforeMin sv * MINUTE_MS, iv_end = bk_endsAt b + svc_bufferAfterMin sv * MINUTE_MS\<rparr>)
       (filter (\<lambda>b. e_tenantId b = t \<and> live b \<and> bk_staffId b = staffId \<and> active_status (bk_status b) \<and>
                  bk_startsAt b < dayEnd \<and> dayStart < bk_endsAt b) (bookings db))"

lemma buildBlockers_tx:
  "t \<noteq> [] \<Longrightarrow> buildBlockers (tenant_tx t) staffId ds de (svc_bufferBeforeMin sv * MINUTE_MS) (svc_bufferAfterMin sv * MINUTE_MS) db =
     Inr (staff_blockers t staffId ds de sv db)"
  by (simp add: buildBlockers_def time_off_overlapping_def findActiveForStaffBetween_def staff_blockers_def)

definition staff_works :: "uuid \<Rightarrow> uuid \<Rightarrow> tdb \<Rightarrow> bool" where
  "staff_works t staffId db =
     (case find (\<lambda>r. e_tenantId r = t \<and> live r \<and> e_id r = staffId) (staff_tbl db) of
        None \<Rightarrow> False | Some st \<Rightarrow> st_active st)"

definition day_windows :: "uuid \<Rightarrow> uuid \<Rightarrow> int \<Rightarrow> tdb \<Rightarrow> working_hours_row list" where
  "day_windows t staffId wd db =
     filter (\<lambda>h. e_tenantId h = t \<and> live h \<and> wh_staffId h = staffId \<and> wh_weekday h = wd) (working_hours db)"

definition staff_offers ::
  "zone_lib \<Rightarrow> uuid \<Rightarrow> string \<Rightarrow> service_row \<Rightarrow> string \<Rightarrow> tdb \<Rightarrow> uuid \<Rightarrow> ms_interval list" where
  "staff_offers zl t date sv zone db staffId =
     concat (map (\<lambda>w. free_grid (svc_durationMin sv * MINUTE_MS)
         (staff_blockers t staffId (localMinutesToUtc zl date 0 zone) (localMinutesToUtc zl date MINUTES_PER_DAY zone) sv db)
         (localMinutesToUtc zl date (wh_startMin w) zone) (localMinutesToUtc zl date (wh_endMin w) zone))
       (day_windows t staffId (weekdayInZone zl date zone) db))"

definition slot_row :: "uuid \<Rightarrow> ms_interval \<Rightarrow> availability_slot" where
  "slot_row staffId s = \<lparr>as_staffId = staffId, as_startsAt = iv_start s, as_endsAt = iv_end s\<rparr>"

lemma slot_row_iv: "\<lparr>iv_start = as_startsAt (slot_row sid i), iv_end = as_endsAt (slot_row sid i)\<rparr> = i"
  by (simp add: slot_row_def)

lemma slot_row_end: "as_endsAt (slot_row sid i) = iv_end i"
  by (simp add: slot_row_def)

lemma staff_slots_tx:
  assumes "t \<noteq> []" "0 < svc_durationMin sv * MINUTE_MS"
  shows "staff_slots zl (tenant_tx t) q sv zone db sid =
     Some (Inr (if (aq_staffId q \<noteq> None \<longrightarrow> capable t sid (aq_serviceId q) db) \<and> staff_works t sid db
                then map (slot_row sid) (staff_offers zl t (aq_date q) sv zone db sid) else []))"
proof -
  let ?perf = "bindL (Some (if aq_staffId q \<noteq> None then canPerform (tenant_tx t) sid (aq_serviceId q) db else Inr True))"
  have p: "?perf f = f (aq_staffId q \<noteq> None \<longrightarrow> capable t sid (aq_serviceId q) db)" for f :: "bool \<Rightarrow> (exn + availability_slot list) option"
    using assms(1) by (simp add: lookup_tx)
  show ?thesis
  proof (cases "find (\<lambda>r. e_tenantId r = t \<and> live r \<and> e_id r = sid) (staff_tbl db)")
    case None
    then show ?thesis using assms(1)
      by (simp only: staff_slots_def p) (simp add: staff_findById_def staff_works_def)
  next
    case (Some st)
    show ?thesis using assms Some
      by (simp only: staff_slots_def p)
        (auto simp: staff_findById_def staff_works_def forStaffWeekday_def buildBlockers_tx window_loop_concat
          staff_offers_def day_windows_def slot_row_def)
  qed
qed

lemma staff_loop_total:
  assumes "\<And>s. one s = Some (Inr (f s))"
  shows "staff_loop one ss = Some (Inr (concat (map f ss)))"
  by (induction ss) (simp_all add: assms)

lemma compute_tx:
  assumes "t \<noteq> []" "services_wf db" "zl_valid zl (aq_date q)"
    and "service_of t (aq_serviceId q) db = Some sv" "tenant_findById t g = Some tn"
  shows "compute zl (tenant_tx t) q g db =
     Some (Inr (sort_key as_startsAt (concat (map (\<lambda>sid.
        if (aq_staffId q \<noteq> None \<longrightarrow> capable t sid (aq_serviceId q) db) \<and> staff_works t sid db
        then map (slot_row sid) (staff_offers zl t (aq_date q) sv (tn_timezone tn) db sid) else [])
      (case aq_staffId q of Some s \<Rightarrow> [s]
       | None \<Rightarrow> map ss_staffId (filter (\<lambda>r. e_tenantId r = t \<and> live r \<and> ss_serviceId r = aq_serviceId q) (staff_services db)))))))"
proof -
  have "0 < svc_durationMin sv * MINUTE_MS" using service_of_wf [OF assms(2,4)] .
  note one = staff_slots_tx [OF assms(1) this]
  show ?thesis using assms
    by (simp add: compute_def isValidLocalDate_def lookup_tx tenant_getById_def staff_loop_total [OF one]
        capableStaffIds_def capability_findByService_def split: option.splits)
qed

lemma set_grid: "set (grid start stop dur) = {s. \<exists>k. s = grid_slot start dur k \<and> k < nat ((stop - start) div dur)}"
  by (auto simp: grid_def)

lemma grid_fits:
  assumes "0 < dur"
  shows "k < nat ((stop - start) div dur) \<longleftrightarrow> iv_end (grid_slot start dur k) \<le> stop"
proof -
  have "k < nat ((stop - start) div dur) \<longleftrightarrow> int k + 1 \<le> (stop - start) div dur" by linarith
  also have "\<dots> \<longleftrightarrow> (int k + 1) * dur \<le> stop - start"
  proof
    assume "int k + 1 \<le> (stop - start) div dur"
    then have "(int k + 1) * dur \<le> (stop - start) div dur * dur" using assms by (intro mult_right_mono) simp_all
    also have "\<dots> \<le> stop - start"
      using div_mult_mod_eq [of "stop - start" dur] pos_mod_sign [OF assms, of "stop - start"] by linarith
    finally show "(int k + 1) * dur \<le> stop - start" .
  next
    assume "(int k + 1) * dur \<le> stop - start"
    then have "(int k + 1) * dur div dur \<le> (stop - start) div dur" using assms by (rule zdiv_mono1)
    then show "int k + 1 \<le> (stop - start) div dur" using assms by simp
  qed
  also have "\<dots> \<longleftrightarrow> iv_end (grid_slot start dur k) \<le> stop" by (simp add: grid_slot_def algebra_simps)
  finally show ?thesis .
qed

text \<open>The slots an availability query is answered with, as a specification.\<close>
definition offered_slot ::
  "zone_lib \<Rightarrow> uuid \<Rightarrow> availability_query \<Rightarrow> service_row \<Rightarrow> string \<Rightarrow> tdb \<Rightarrow> availability_slot \<Rightarrow> bool" where
  "offered_slot zl t q sv zone db s \<longleftrightarrow>
     (aq_staffId q = None \<or> aq_staffId q = Some (as_staffId s)) \<and>
     capable t (as_staffId s) (aq_serviceId q) db \<and> staff_works t (as_staffId s) db \<and>
     (\<exists>w k. w \<in> set (day_windows t (as_staffId s) (weekdayInZone zl (aq_date q) zone) db) \<and>
        s = slot_row (as_staffId s)
              (grid_slot (localMinutesToUtc zl (aq_date q) (wh_startMin w) zone) (svc_durationMin sv * MINUTE_MS) k) \<and>
        as_endsAt s \<le> localMinutesToUtc zl (aq_date q) (wh_endMin w) zone) \<and>
     \<not> list_ex (overlaps \<lparr>iv_start = as_startsAt s, iv_end = as_endsAt s\<rparr>)
        (staff_blockers t (as_staffId s) (localMinutesToUtc zl (aq_date q) 0 zone)
           (localMinutesToUtc zl (aq_date q) MINUTES_PER_DAY zone) sv db)"

lemma compute_offered:
  assumes "t \<noteq> []" "services_wf db" "zl_valid zl (aq_date q)"
    and "service_of t (aq_serviceId q) db = Some sv" "tenant_findById t g = Some tn"
  obtains slots where "compute zl (tenant_tx t) q g db = Some (Inr slots)" "sorted (map as_startsAt slots)"
    "\<And>s. s \<in> set slots \<longleftrightarrow> offered_slot zl t q sv (tn_timezone tn) db s"
proof -
  let ?dur = "svc_durationMin sv * MINUTE_MS" and ?zone = "tn_timezone tn"
  let ?at = "\<lambda>m. localMinutesToUtc zl (aq_date q) m ?zone"
  let ?wd = "weekdayInZone zl (aq_date q) ?zone"
  let ?bl = "\<lambda>sid. staff_blockers t sid (?at 0) (?at MINUTES_PER_DAY) sv db"
  have dur: "0 < ?dur" using service_of_wf [OF assms(2,4)] .
  have offers: "i \<in> set (staff_offers zl t (aq_date q) sv ?zone db sid) \<longleftrightarrow>
      (\<exists>w k. w \<in> set (day_windows t sid ?wd db) \<and> i = grid_slot (?at (wh_startMin w)) ?dur k \<and>
         iv_end i \<le> ?at (wh_endMin w)) \<and> \<not> list_ex (overlaps i) (?bl sid)" for i sid
    by (auto simp: staff_offers_def free_grid_def set_grid grid_fits [OF dur])
  let ?sids = "case aq_staffId q of Some s \<Rightarrow> [s]
       | None \<Rightarrow> map ss_staffId (filter (\<lambda>r. e_tenantId r = t \<and> live r \<and> ss_serviceId r = aq_serviceId q) (staff_services db))"
  have sids: "sid \<in> set ?sids \<and> (aq_staffId q \<noteq> None \<longrightarrow> capable t sid (aq_serviceId q) db) \<longleftrightarrow>
      (aq_staffId q = None \<or> aq_staffId q = Some sid) \<and> capable t sid (aq_serviceId q) db" for sid
    by (cases "aq_staffId q") (auto simp: capable_def list_ex_iff)
  let ?all = "concat (map (\<lambda>sid. if (aq_staffId q \<noteq> None \<longrightarrow> capable t sid (aq_serviceId q) db) \<and> staff_works t sid db
        then map (slot_row sid) (staff_offers zl t (aq_date q) sv ?zone db sid) else []) ?sids)"
  have all: "s \<in> set ?all \<longleftrightarrow> (aq_staffId q = None \<or> aq_staffId q = Some (as_staffId s)) \<and>
      capable t (as_staffId s) (aq_serviceId q) db \<and> staff_works t (as_staffId s) db \<and>
      (\<exists>i \<in> set (staff_offers zl t (aq_date q) sv ?zone db (as_staffId s)). s = slot_row (as_staffId s) i)" for s
  proof -
    have "s \<in> set ?all \<longleftrightarrow> (\<exists>sid. (sid \<in> set ?sids \<and> (aq_staffId q \<noteq> None \<longrightarrow> capable t sid (aq_serviceId q) db)) \<and>
        staff_works t sid db \<and> (\<exists>i \<in> set (staff_offers zl t (aq_date q) sv ?zone db sid). s = slot_row sid i))"
      by (auto simp del: split_paired_Ex)
    also have "\<dots> \<longleftrightarrow> (\<exists>sid. sid = as_staffId s \<and> (sid \<in> set ?sids \<and> (aq_staffId q \<noteq> None \<longrightarrow> capable t sid (aq_serviceId q) db)) \<and>
        staff_works t sid db \<and> (\<exists>i \<in> set (staff_offers zl t (aq_date q) sv ?zone db sid). s = slot_row sid i))"
      by (intro iff_exI) (auto simp: slot_row_def)
    finally show ?thesis unfolding sids by simp
  qed
  have row: "(\<exists>i \<in> set (staff_offers zl t (aq_date q) sv ?zone db sid). s = slot_row sid i) \<longleftrightarrow>
      (\<exists>w k. w \<in> set (day_windows t sid ?wd db) \<and> s = slot_row sid (grid_slot (?at (wh_startMin w)) ?dur k) \<and>
         as_endsAt s \<le> ?at (wh_endMin w)) \<and> \<not> list_ex (overlaps \<lparr>iv_start = as_startsAt s, iv_end = as_endsAt s\<rparr>) (?bl sid)"
    for s sid
  proof (intro iffI)
    assume "\<exists>i \<in> set (staff_offers zl t (aq_date q) sv ?zone db sid). s = slot_row sid i"
    then obtain i w k where "s = slot_row sid i" "w \<in> set (day_windows t sid ?wd db)"
        "i = grid_slot (?at (wh_startMin w)) ?dur k" "iv_end i \<le> ?at (wh_endMin w)" "\<not> list_ex (overlaps i) (?bl sid)"
      unfolding Bex_def offers by blast
    then show "(\<exists>w k. w \<in> set (day_windows t sid ?wd db) \<and> s = slot_row sid (grid_slot (?at (wh_startMin w)) ?dur k) \<and>
         as_endsAt s \<le> ?at (wh_endMin w)) \<and> \<not> list_ex (overlaps \<lparr>iv_start = as_startsAt s, iv_end = as_endsAt s\<rparr>) (?bl sid)"
      by (metis slot_row_iv slot_row_end)
  next
    assume "(\<exists>w k. w \<in> set (day_windows t sid ?wd db) \<and> s = slot_row sid (grid_slot (?at (wh_startMin w)) ?dur k) \<and>
         as_endsAt s \<le> ?at (wh_endMin w)) \<and> \<not> list_ex (overlaps \<lparr>iv_start = as_startsAt s, iv_end = as_endsAt s\<rparr>) (?bl sid)"
    then show "\<exists>i \<in> set (staff_offers zl t (aq_date q) sv ?zone db sid). s = slot_row sid i"
      unfolding Bex_def offers by (metis slot_row_iv slot_row_end)
  qed
  have "s \<in> set (sort_key as_startsAt ?all) \<longleftrightarrow> offered_slot zl t q sv ?zone db s" for s
    unfolding offered_slot_def by (simp only: set_sort all row simp_thms conj_assoc)
  then show thesis by (rule that [OF compute_tx [OF assms] sorted_sort_key])
qed

lemma compute_inputs:
  assumes "t \<noteq> []" "compute zl (tenant_tx t) q g db = Some (Inr slots)"
  shows "\<exists>sv tn. service_of t (aq_serviceId q) db = Some sv \<and> tenant_findById t g = Some tn \<and> zl_valid zl (aq_date q)"
proof -
  have v: "zl_valid zl (aq_date q)"
    using assms(2) by (cases "zl_valid zl (aq_date q)") (simp_all add: compute_def isValidLocalDate_def guardE_def)
  obtain sv where sv: "service_of t (aq_serviceId q) db = Some sv"
    using assms v by (cases "service_of t (aq_serviceId q) db")
      (simp_all add: compute_def isValidLocalDate_def guardE_def lookup_tx)
  obtain tn where "tenant_findById t g = Some tn"
    using assms v sv by (cases "tenant_findById t g")
      (simp_all add: compute_def isValidLocalDate_def guardE_def lookup_tx tenant_getById_def)
  then show ?thesis using v sv by blast
qed

section \<open>Properties\<close>

definition sample_zone :: zone_lib where
  "sample_zone = \<lparr>zl_valid = (\<lambda>_. True), zl_at = (\<lambda>d z h m. (h * 60 + m) * 60000), zl_weekday = (\<lambda>_ _. 1)\<rparr>"

definition sample_staff :: staff_row where
  "sample_staff = \<lparr>e_id = ''st1'', e_createdAt = 0, e_deletedAt = None, e_tenantId = ''t1'', st_userId = ''u1'',
     st_displayName = ''An'', st_active = True\<rparr>"

definition sample_hours :: working_hours_row where
  "sample_hours = \<lparr>e_id = ''w1'', e_createdAt = 0, e_deletedAt = None, e_tenantId = ''t1'', wh_staffId = ''st1'',
     wh_weekday = 1, wh_startMin = 60, wh_endMin = 150\<rparr>"

definition sample_day :: tdb where
  "sample_day = sample_db\<lparr>staff_tbl := [sample_staff], working_hours := [sample_hours]\<rparr>"

definition sample_gdb :: gdb where
  "sample_gdb = empty_gdb\<lparr>tenants := [sample_tenant ''t1'' ''spa'']\<rparr>"

definition sample_query :: availability_query where
  "sample_query = \<lparr>aq_serviceId = ''sv1'', aq_staffId = None, aq_date = ''2026-01-05''\<rparr>"

lemma sample_offered:
  "offered_slot sample_zone ''t1'' sample_query sample_service ''UTC'' sample_day
     \<lparr>as_staffId = ''st1'', as_startsAt = 7200000, as_endsAt = 9000000\<rparr>"
  unfolding offered_slot_def
  by (intro conjI exI [of _ sample_hours] exI [of _ 2])
    (simp_all add: sample_query_def capable_def staff_works_def day_windows_def sample_day_def sample_db_def
      sample_link_def sample_staff_def sample_hours_def live_def weekdayInZone_def sample_zone_def slot_row_def
      grid_slot_def localMinutesToUtc_def sample_service_def time_unit_defs staff_blockers_def empty_tdb_def
      sample_booking_def overlaps_def)

lemma sample_day_wf: "services_wf sample_day"
  using sample_wf by (simp add: services_wf_def sample_day_def)

lemma sample_day_service: "service_of ''t1'' (aq_serviceId sample_query) sample_day = Some sample_service"
  by (simp add: service_of_def sample_day_def sample_db_def sample_service_def live_def sample_query_def)

lemma sample_gdb_tenant: "tenant_findById ''t1'' sample_gdb = Some (sample_tenant ''t1'' ''spa'')"
  by (simp add: tenant_findById_def sample_gdb_def sample_tenant_def live_def)

lemma service_of_buffers:
  "services_wf db \<Longrightarrow> service_of t i db = Some sv \<Longrightarrow> 0 \<le> svc_bufferBeforeMin sv \<and> 0 \<le> svc_bufferAfterMin sv"
  by (auto simp: service_of_def services_wf_def list_all_iff service_wf_def between_def dest!: find_Some_mem)

text \<open>
  The slot loop ends and is exact: for a positive duration it returns the consecutive slots of that
  length from the start of the window that fit before its end, without those that overlap a blocker.
\<close>
theorem generate_slots_exact:
  assumes "0 < dur"
  shows "generateSlots w dur blockers =
    Some (filter (\<lambda>s. \<not> list_ex (overlaps s) blockers)
      (map (\<lambda>k. \<lparr>iv_start = iv_start w + int k * dur, iv_end = iv_start w + int k * dur + dur\<rparr>)
         [0..<nat ((iv_end w - iv_start w) div dur)]))"
  by (simp add: generateSlots_free [OF assms] free_grid_def grid_def grid_slot_def [abs_def])

theorem generate_slots_exact_witness:
  "generateSlots \<lparr>iv_start = 0, iv_end = 95\<rparr> 30 [\<lparr>iv_start = 35, iv_end = 40\<rparr>] =
     Some [\<lparr>iv_start = 0, iv_end = 30\<rparr>, \<lparr>iv_start = 60, iv_end = 90\<rparr>]"
proof -
  have "filter (\<lambda>s. \<not> list_ex (overlaps s) [\<lparr>iv_start = 35, iv_end = 40\<rparr>])
      (map (\<lambda>k. \<lparr>iv_start = int k * 30, iv_end = int k * 30 + 30\<rparr>) [0..<nat (95 div 30)]) =
      [\<lparr>iv_start = 0, iv_end = 30\<rparr>, \<lparr>iv_start = 60, iv_end = 90\<rparr>]"
    by code_simp
  then show ?thesis by (simp add: generate_slots_exact)
qed

text \<open>
  C31. Availability offers exactly the free slots: on a valid date, for a known service and tenant, the answer
  is sorted by start, and a slot is in it precisely when its staff member (the one asked for, if any) is
  active and linked to the service, it is a multiple of the duration from the start of one of their
  working windows of that weekday and ends inside it, and it overlaps neither a time off nor a
  buffered active booking among those that touch the local day.
\<close>
theorem availability_exact:
  assumes "t \<noteq> []" "services_wf db" "zl_valid zl (aq_date q)"
    and "service_of t (aq_serviceId q) db = Some sv" "tenant_findById t g = Some tn"
  shows "\<exists>slots. compute zl (tenant_tx t) q g db = Some (Inr slots) \<and> sorted (map as_startsAt slots) \<and>
    (\<forall>s. s \<in> set slots \<longleftrightarrow> offered_slot zl t q sv (tn_timezone tn) db s)"
  by (rule compute_offered [OF assms]) blast

theorem availability_exact_witness:
  "\<exists>slots. compute sample_zone (tenant_tx ''t1'') sample_query sample_gdb sample_day = Some (Inr slots) \<and>
     sorted (map as_startsAt slots) \<and> slots \<noteq> []"
proof -
  have "zl_valid sample_zone (aq_date sample_query)" by (simp add: sample_zone_def)
  from availability_exact [OF _ sample_day_wf this sample_day_service sample_gdb_tenant]
  show ?thesis using sample_offered by (auto simp: sample_tenant_def)
qed

definition hours_in_day :: "tdb \<Rightarrow> bool" where
  "hours_in_day db \<longleftrightarrow> list_all (\<lambda>h. 0 \<le> wh_startMin h \<and> wh_startMin h < wh_endMin h \<and> wh_endMin h \<le> MINUTES_PER_DAY) (working_hours db)"

text \<open>
  C32. What availability offers can be booked: creating a booking for an offered slot, for any customer of
  the tenant and on the same tables, succeeds and takes exactly that slot. (Local times lie between the
  day's two midnights, and the stored working hours are minutes of a day.)
\<close>
theorem offered_slot_bookable:
  assumes "t \<noteq> []" "services_wf db" "hours_in_day db"
    and "compute zl (tenant_tx t) q g db = Some (Inr slots)" "s \<in> set slots"
    and "\<And>zone m. 0 \<le> m \<Longrightarrow> m \<le> MINUTES_PER_DAY \<Longrightarrow>
           localMinutesToUtc zl (aq_date q) 0 zone \<le> localMinutesToUtc zl (aq_date q) m zone \<and>
           localMinutesToUtc zl (aq_date q) m zone \<le> localMinutesToUtc zl (aq_date q) MINUTES_PER_DAY zone"
    and "customer_of t cu db \<noteq> None" "i \<notin> e_id ` set (bookings db)" "ev \<notin> e_id ` set (outbox_events db)"
  shows "\<exists>b db'. doCreate (tenant_tx t) i ev now
       \<lparr>cb_staffId = as_staffId s, cb_serviceId = aq_serviceId q, cb_customerId = cu,
        cb_startsAt = Some (as_startsAt s)\<rparr> db = Inr (b, db') \<and>
     bk_staffId b = as_staffId s \<and> bk_startsAt b = as_startsAt s \<and> bk_endsAt b = as_endsAt s \<and>
     bk_status b = Pending"
proof -
  obtain sv tn where sv: "service_of t (aq_serviceId q) db = Some sv" and tn: "tenant_findById t g = Some tn"
      and v: "zl_valid zl (aq_date q)"
    using compute_inputs [OF assms(1,4)] by blast
  let ?at = "\<lambda>m. localMinutesToUtc zl (aq_date q) m (tn_timezone tn)" and ?dur = "svc_durationMin sv * MINUTE_MS"
  have "offered_slot zl t q sv (tn_timezone tn) db s"
    using compute_offered [OF assms(1,2) v sv tn] assms(4,5) by (metis option.inject sum.inject(2))
  then obtain w k where cap: "capable t (as_staffId s) (aq_serviceId q) db"
    and w: "w \<in> set (working_hours db)"
      "s = slot_row (as_staffId s) (grid_slot (?at (wh_startMin w)) ?dur k)" "as_endsAt s \<le> ?at (wh_endMin w)"
    and free: "\<not> list_ex (overlaps \<lparr>iv_start = as_startsAt s, iv_end = as_endsAt s\<rparr>)
          (staff_blockers t (as_staffId s) (?at 0) (?at MINUTES_PER_DAY) sv db)"
    unfolding offered_slot_def by (auto simp: day_windows_def)
  have se: "as_startsAt s = ?at (wh_startMin w) + int k * ?dur" "as_endsAt s = as_startsAt s + ?dur"
    using arg_cong [OF w(2), of as_startsAt] arg_cong [OF w(2), of as_endsAt]
    by (simp_all add: slot_row_def grid_slot_def)
  have dur: "0 < ?dur" using service_of_wf [OF assms(2) sv] .
  have "0 \<le> wh_startMin w" "wh_startMin w \<le> MINUTES_PER_DAY" "0 \<le> wh_endMin w" "wh_endMin w \<le> MINUTES_PER_DAY"
    using assms(3) w(1) by (auto simp: hours_in_day_def list_all_iff)
  then have "?at 0 \<le> ?at (wh_startMin w)" "?at (wh_endMin w) \<le> ?at MINUTES_PER_DAY" using assms(6) by blast+
  moreover have "0 \<le> int k * ?dur" using dur by simp
  ultimately have day: "?at 0 \<le> as_startsAt s" "as_endsAt s \<le> ?at MINUTES_PER_DAY" using se w(3) by linarith+
  have buf: "0 \<le> svc_bufferBeforeMin sv * MINUTE_MS" "0 \<le> svc_bufferAfterMin sv * MINUTE_MS"
    using service_of_buffers [OF assms(2) sv] by (simp_all add: MINUTE_MS_val)
  let ?dto = "\<lparr>cb_staffId = as_staffId s, cb_serviceId = aq_serviceId q, cb_customerId = cu,
      cb_startsAt = Some (as_startsAt s)\<rparr>"
  let ?b = "created_booking t i now ?dto (as_startsAt s) sv"
  have "\<not> booking_conflict ?b b'" if b': "b' \<in> set (bookings db)" for b'
  proof
    assume "booking_conflict ?b b'"
    then have c: "e_tenantId b' = t" "live b'" "active_status (bk_status b')" "bk_staffId b' = as_staffId s"
      "as_startsAt s < bk_endsAt b'" "bk_startsAt b' < as_endsAt s"
      by (auto simp: booking_conflict_def booking_occupies_def range_overlap_def created_booking_def se)
    then have "\<lparr>iv_start = bk_startsAt b' - svc_bufferBeforeMin sv * MINUTE_MS, iv_end = bk_endsAt b' + svc_bufferAfterMin sv * MINUTE_MS\<rparr>
        \<in> set (staff_blockers t (as_staffId s) (?at 0) (?at MINUTES_PER_DAY) sv db)"
      using b' day by (auto simp: staff_blockers_def)
    then show False using free c buf by (auto simp: list_ex_iff overlaps_def)
  qed
  then have "\<not> list_ex (booking_conflict ?b) (bookings db)" by (simp add: list_ex_iff)
  then show ?thesis using cap assms(7) sv
    by (simp add: doCreate_spec [OF assms(1,8,9)] Let_def) (simp add: created_booking_def se)
qed

theorem offered_slot_bookable_witness:
  "\<exists>b db'. doCreate (tenant_tx ''t1'') ''b9'' ''e9'' 0
       \<lparr>cb_staffId = ''st1'', cb_serviceId = ''sv1'', cb_customerId = ''c1'', cb_startsAt = Some 7200000\<rparr> sample_day = Inr (b, db') \<and>
     bk_staffId b = ''st1'' \<and> bk_startsAt b = 7200000 \<and> bk_endsAt b = 9000000 \<and> bk_status b = Pending"
proof -
  let ?s = "\<lparr>as_staffId = ''st1'', as_startsAt = 7200000, as_endsAt = 9000000\<rparr>"
  have tx: "(''t1'' :: string) \<noteq> []" by simp
  have valid: "zl_valid sample_zone (aq_date sample_query)" by (simp add: sample_zone_def)
  obtain slots where "compute sample_zone (tenant_tx ''t1'') sample_query sample_gdb sample_day = Some (Inr slots)"
    "sorted (map as_startsAt slots)"
    "\<And>s. s \<in> set slots \<longleftrightarrow> offered_slot sample_zone ''t1'' sample_query sample_service (tn_timezone (sample_tenant ''t1'' ''spa'')) sample_day s"
    by (rule compute_offered [OF tx sample_day_wf valid sample_day_service sample_gdb_tenant]) (rule that)
  moreover have "tn_timezone (sample_tenant ''t1'' ''spa'') = ''UTC''" by (simp add: sample_tenant_def)
  ultimately have slots: "compute sample_zone (tenant_tx ''t1'') sample_query sample_gdb sample_day = Some (Inr slots)"
    "?s \<in> set slots" using sample_offered by simp_all
  have day: "hours_in_day sample_day"
    by (simp add: hours_in_day_def sample_day_def sample_hours_def time_unit_defs)
  have lib: "localMinutesToUtc sample_zone d m zone = m * 60000" for d m zone
    using mult_div_mod_eq [of 60 m] unfolding localMinutesToUtc_def sample_zone_def by simp presburger
  have cust: "customer_of ''t1'' ''c1'' sample_day \<noteq> None"
    by (simp add: customer_of_def sample_day_def sample_db_def sample_customer_def live_def)
  have fresh: "''b9'' \<notin> e_id ` set (bookings sample_day)" "''e9'' \<notin> e_id ` set (outbox_events sample_day)"
    by (simp_all add: sample_day_def sample_db_def sample_booking_def empty_tdb_def)
  show ?thesis
    using offered_slot_bookable [OF tx sample_day_wf day slots _ cust fresh, of 0]
    by (simp add: lib) (simp add: sample_query_def)
qed

end
