(* ===== verification/Recurrence.thy ===== *)
theory Recurrence
  imports Complex_Main Availability
begin

text \<open>
  Recurring bookings (\<open>src/modules/recurrence\<close>): the expansion of a rule into start instants, and the
  creation of the series under its two conflict policies. Luxon's \<open>DateTime\<close> is abstract: the record
  \<open>luxon\<close> holds the operations the expander calls on it.
\<close>

section \<open>Rules\<close>

text \<open>
  \<open>lx_setTime d h m\<close> is \<open>d.set({ hour: h, minute: m, second: 0, millisecond: 0 })\<close>, \<open>lx_weeks a b\<close> is
  \<open>a.diff(b, 'weeks').weeks\<close>, \<open>lx_valueOf\<close> what \<open>>\<close> compares and \<open>toUTC().toJSDate()\<close> converts, \<open>None\<close>
  (a \<open>NaN\<close>) for an invalid \<open>DateTime\<close>.
\<close>
record 'd luxon =
  lx_fromISO :: "string \<Rightarrow> string \<Rightarrow> 'd"
  lx_setTime :: "'d \<Rightarrow> int \<Rightarrow> int \<Rightarrow> 'd"
  lx_isValid :: "'d \<Rightarrow> bool"
  lx_endOfDay :: "'d \<Rightarrow> 'd"
  lx_startOfWeek :: "'d \<Rightarrow> 'd"
  lx_weekday :: "'d \<Rightarrow> int"
  lx_plusDays :: "'d \<Rightarrow> int \<Rightarrow> 'd"
  lx_weeks :: "'d \<Rightarrow> 'd \<Rightarrow> rat"
  lx_valueOf :: "'d \<Rightarrow> js_date"

record recurrence_rule =
  rr_freq :: recurrence_freq
  rr_interval :: int
  rr_weekdays :: "int list option"
  rr_startDate :: string
  rr_startMinutes :: int
  rr_count :: "int option"
  rr_until :: "string option"
  rr_timezone :: string

definition MAX_OCCURRENCES :: int where "MAX_OCCURRENCES = 100"

text \<open>\<open>until && cur > until\<close>; a comparison with \<open>NaN\<close> is false.\<close>
definition past :: "'d luxon \<Rightarrow> 'd option \<Rightarrow> 'd \<Rightarrow> bool" where
  "past lx until cur =
     (case until of None \<Rightarrow> False
      | Some u \<Rightarrow> (case (lx_valueOf lx cur, lx_valueOf lx u) of (Some a, Some b) \<Rightarrow> b < a | _ \<Rightarrow> False))"

function daily_loop ::
  "'d luxon \<Rightarrow> int \<Rightarrow> int \<Rightarrow> 'd option \<Rightarrow> 'd \<Rightarrow> js_date list \<Rightarrow> js_date list" where
  "daily_loop lx interval limit until cur out =
     (if int (length out) < limit then
        if past lx until cur then out
        else daily_loop lx interval limit until (lx_plusDays lx cur interval) (out @ [lx_valueOf lx cur])
      else out)"
  by pat_completeness auto
termination by (relation "measure (\<lambda>(lx, interval, limit, until, cur, out). nat (limit - int (length out)))") auto

definition expandDaily :: "'d luxon \<Rightarrow> 'd \<Rightarrow> int \<Rightarrow> int \<Rightarrow> 'd option \<Rightarrow> js_date list" where
  "expandDaily lx start interval limit until = daily_loop lx interval limit until start []"

text \<open>\<open>toSun0\<close>\<close>
definition toSun0 :: "'d luxon \<Rightarrow> 'd \<Rightarrow> int" where
  "toSun0 lx dt = lx_weekday lx dt mod 7"

text \<open>\<open>new Set(rule.weekdays?.length ? rule.weekdays : [toSun0(start)])\<close>\<close>
definition rule_weekdays :: "'d luxon \<Rightarrow> 'd \<Rightarrow> recurrence_rule \<Rightarrow> int list" where
  "rule_weekdays lx start rule =
     remdups (case rr_weekdays rule of Some ds \<Rightarrow> (if ds = [] then [toSun0 lx start] else ds)
              | None \<Rightarrow> [toSun0 lx start])"

text \<open>\<open>Math.ceil(limit / perActiveWeek) * rule.interval * 7 + 7\<close>\<close>
definition max_scan_days :: "int \<Rightarrow> int \<Rightarrow> int list \<Rightarrow> int" where
  "max_scan_days limit interval weekdays =
     (let perActiveWeek = max (int (length weekdays)) 1 in
      - ((- limit) div perActiveWeek) * interval * 7 + 7)"

text \<open>The remainder by an interval of zero is \<open>NaN\<close>, never zero.\<close>
definition fires :: "'d luxon \<Rightarrow> 'd \<Rightarrow> int \<Rightarrow> int list \<Rightarrow> 'd \<Rightarrow> bool" where
  "fires lx anchorWeek interval weekdays cursor \<longleftrightarrow>
     (let weekIndex = \<lfloor>lx_weeks lx (lx_startOfWeek lx cursor) anchorWeek\<rfloor> in
      interval \<noteq> 0 \<and> weekIndex mod interval = 0 \<and> toSun0 lx cursor \<in> set weekdays)"

function weekly_loop ::
  "'d luxon \<Rightarrow> 'd \<Rightarrow> int \<Rightarrow> int list \<Rightarrow> int \<Rightarrow> 'd option \<Rightarrow> int \<Rightarrow> int \<Rightarrow> 'd \<Rightarrow> js_date list \<Rightarrow> js_date list" where
  "weekly_loop lx anchorWeek interval weekdays limit until maxScanDays scanned cursor out =
     (if int (length out) < limit \<and> scanned < maxScanDays then
        if past lx until cursor then out
        else weekly_loop lx anchorWeek interval weekdays limit until maxScanDays (scanned + 1) (lx_plusDays lx cursor 1)
               (if fires lx anchorWeek interval weekdays cursor then out @ [lx_valueOf lx cursor] else out)
      else out)"
  by pat_completeness auto
termination
  by (relation "measure (\<lambda>(lx, a, iv, wd, limit, until, maxScanDays, scanned, cur, out). nat (maxScanDays - scanned))") auto

definition expandWeekly :: "'d luxon \<Rightarrow> 'd \<Rightarrow> recurrence_rule \<Rightarrow> int \<Rightarrow> 'd option \<Rightarrow> js_date list" where
  "expandWeekly lx start rule limit until =
     (let weekdays = rule_weekdays lx start rule in
      weekly_loop lx (lx_startOfWeek lx start) (rr_interval rule) weekdays limit until
        (max_scan_days limit (rr_interval rule) weekdays) 0 start [])"

definition rule_limit :: "recurrence_rule \<Rightarrow> int" where
  "rule_limit rule = min (or_default MAX_OCCURRENCES (rr_count rule)) MAX_OCCURRENCES"

definition rule_start :: "'d luxon \<Rightarrow> recurrence_rule \<Rightarrow> 'd" where
  "rule_start lx rule =
     lx_setTime lx (lx_fromISO lx (rr_startDate rule) (rr_timezone rule))
       (rr_startMinutes rule div 60) (rr_startMinutes rule mod 60)"

text \<open>An empty \<open>until\<close> is falsy.\<close>
definition rule_until :: "'d luxon \<Rightarrow> recurrence_rule \<Rightarrow> 'd option" where
  "rule_until lx rule =
     (case rr_until rule of None \<Rightarrow> None
      | Some u \<Rightarrow> if u = [] then None else Some (lx_endOfDay lx (lx_fromISO lx u (rr_timezone rule))))"

definition expandRecurrence :: "'d luxon \<Rightarrow> recurrence_rule \<Rightarrow> js_date list" where
  "expandRecurrence lx rule =
     (let start = rule_start lx rule in
      if \<not> lx_isValid lx start then []
      else case rr_freq rule of
        Daily \<Rightarrow> expandDaily lx start (rr_interval rule) (rule_limit rule) (rule_until lx rule)
      | Weekly \<Rightarrow> expandWeekly lx start rule (rule_limit rule) (rule_until lx rule))"

declare daily_loop.simps [simp del] weekly_loop.simps [simp del]

section \<open>The service\<close>

datatype conflict_policy = Skip_Conflicts | All_Or_Nothing

record create_recurrence_dto =
  cr_staffId :: uuid
  cr_serviceId :: uuid
  cr_customerId :: uuid
  cr_freq :: recurrence_freq
  cr_interval :: int
  cr_weekdays :: "int list option"
  cr_startDate :: string
  cr_startMinutes :: int
  cr_count :: "int option"
  cr_until :: "string option"
  cr_conflictPolicy :: "conflict_policy option"

definition valid_create_recurrence :: "(string \<Rightarrow> bool) \<Rightarrow> create_recurrence_dto \<Rightarrow> bool" where
  "valid_create_recurrence isUUID d \<longleftrightarrow>
     isUUID (cr_staffId d) \<and> isUUID (cr_serviceId d) \<and> isUUID (cr_customerId d) \<and>
     between 1 52 (cr_interval d) \<and>
     opt (\<lambda>ws. length ws \<le> 7 \<and> list_all (between 0 6) ws) (cr_weekdays d) \<and>
     date_text (cr_startDate d) \<and> between 0 1439 (cr_startMinutes d) \<and>
     opt (between 1 100) (cr_count d) \<and> opt date_text (cr_until d)"

record recurrence_result =
  rres_recurrenceId :: uuid
  rres_created :: "string list"
  rres_skipped :: "string list"

definition rule_of_dto :: "create_recurrence_dto \<Rightarrow> string \<Rightarrow> recurrence_rule" where
  "rule_of_dto d timezone =
     \<lparr>rr_freq = cr_freq d, rr_interval = cr_interval d, rr_weekdays = cr_weekdays d,
      rr_startDate = cr_startDate d, rr_startMinutes = cr_startMinutes d, rr_count = cr_count d,
      rr_until = cr_until d, rr_timezone = timezone\<rparr>"

definition recurrence_of_dto :: "uuid \<Rightarrow> instant \<Rightarrow> create_recurrence_dto \<Rightarrow> string \<Rightarrow> recurrence_row" where
  "recurrence_of_dto new_id now d timezone =
     \<lparr>e_id = new_id, e_createdAt = now, e_deletedAt = None, e_tenantId = [],
      rc_serviceId = cr_serviceId d, rc_staffId = cr_staffId d, rc_customerId = cr_customerId d,
      rc_freq = cr_freq d, rc_interval = cr_interval d, rc_weekdays = cr_weekdays d,
      rc_startDate = cr_startDate d, rc_startMinutes = cr_startMinutes d, rc_count = cr_count d,
      rc_until = cr_until d, rc_timezone = timezone\<rparr>"

definition recurrence_createOne ::
  "ctx \<Rightarrow> recurrence_row \<Rightarrow> tdb \<Rightarrow> exn + recurrence_row \<times> tdb" where
  "recurrence_createOne c r db =
     bindE (persist c recurrences_cs r (recurrences db)) (\<lambda>(r', rows). Inr (r', db\<lparr>recurrences := rows\<rparr>))"

definition recurrence_findById :: "ctx \<Rightarrow> uuid \<Rightarrow> tdb \<Rightarrow> exn + recurrence_row option" where
  "recurrence_findById c i db = findOne c (\<lambda>r. e_id r = i) (recurrences db)"

definition occurrence_spec :: "create_recurrence_dto \<Rightarrow> service_row \<Rightarrow> js_date \<Rightarrow> booking_data" where
  "occurrence_spec d service startsAt =
     \<lparr>bd_staffId = cr_staffId d, bd_serviceId = cr_serviceId d, bd_customerId = cr_customerId d,
      bd_startsAt = startsAt, bd_endsAt = js_add_minutes startsAt (svc_durationMin service),
      bd_priceAmount = svc_priceAmount service, bd_priceCurrency = svc_priceCurrency service,
      bd_recurrenceId = None\<rparr>"

text \<open>\<open>toISOString\<close> of an invalid date is a RangeError.\<close>
definition js_toISOString :: "js_date \<Rightarrow> exn + string" where
  "js_toISOString d = (case d of None \<Rightarrow> Inl (PlainError ''Invalid time value'') | Some x \<Rightarrow> Inr (iso_string x))"

text \<open>\<open>bid k\<close> and \<open>evid k\<close> are the ids the database gives the booking and the event of occurrence \<open>k\<close>.\<close>
fun allOrNothing_loop ::
  "ctx \<Rightarrow> (nat \<Rightarrow> uuid) \<Rightarrow> (nat \<Rightarrow> uuid) \<Rightarrow> instant \<Rightarrow> (js_date \<Rightarrow> booking_data) \<Rightarrow> uuid \<Rightarrow> nat \<Rightarrow>
     js_date list \<Rightarrow> string list \<Rightarrow> tdb \<Rightarrow> exn + string list \<times> tdb" where
  "allOrNothing_loop c bid evid now spec rid k [] created db = Inr (created, db)"
| "allOrNothing_loop c bid evid now spec rid k (d # ds) created db =
     bindE (createOccurrence c (bid k) (evid k) now (spec d) rid db) (\<lambda>(_, db1).
     bindE (js_toISOString d) (\<lambda>s.
       allOrNothing_loop c bid evid now spec rid (Suc k) ds (created @ [s]) db1))"

definition allOrNothing ::
  "ctx \<Rightarrow> (nat \<Rightarrow> uuid) \<Rightarrow> (nat \<Rightarrow> uuid) \<Rightarrow> instant \<Rightarrow> (js_date \<Rightarrow> booking_data) \<Rightarrow> uuid \<Rightarrow>
     js_date list \<Rightarrow> tdb \<Rightarrow> exn + (string list \<times> string list) \<times> tdb" where
  "allOrNothing c bid evid now spec rid occurrences db =
     bindE (allOrNothing_loop c bid evid now spec rid 0 occurrences [] db) (\<lambda>(created, db1). Inr ((created, []), db1))"

text \<open>Rolling back to the savepoint gives the tables as they were before the occurrence.\<close>
fun skipConflicts_loop ::
  "ctx \<Rightarrow> (nat \<Rightarrow> uuid) \<Rightarrow> (nat \<Rightarrow> uuid) \<Rightarrow> instant \<Rightarrow> (js_date \<Rightarrow> booking_data) \<Rightarrow> uuid \<Rightarrow> nat \<Rightarrow>
     js_date list \<Rightarrow> string list \<Rightarrow> string list \<Rightarrow> tdb \<Rightarrow> exn + (string list \<times> string list) \<times> tdb" where
  "skipConflicts_loop c bid evid now spec rid k [] created skipped db = Inr ((created, skipped), db)"
| "skipConflicts_loop c bid evid now spec rid k (d # ds) created skipped db =
     (case bindE (createOccurrence c (bid k) (evid k) now (spec d) rid db) (\<lambda>(_, db1).
           bindE (js_toISOString d) (\<lambda>s. Inr (s, db1))) of
        Inr (s, db1) \<Rightarrow> skipConflicts_loop c bid evid now spec rid (Suc k) ds (created @ [s]) skipped db1
      | Inl e \<Rightarrow>
          if \<not> isSlotTaken e then Inl e
          else bindE (js_toISOString d) (\<lambda>s.
            skipConflicts_loop c bid evid now spec rid (Suc k) ds created (skipped @ [s]) db))"

definition skipConflicts ::
  "ctx \<Rightarrow> (nat \<Rightarrow> uuid) \<Rightarrow> (nat \<Rightarrow> uuid) \<Rightarrow> instant \<Rightarrow> (js_date \<Rightarrow> booking_data) \<Rightarrow> uuid \<Rightarrow>
     js_date list \<Rightarrow> tdb \<Rightarrow> exn + (string list \<times> string list) \<times> tdb" where
  "skipConflicts c bid evid now spec rid occurrences db =
     (case getTenantManager c of
        None \<Rightarrow> Inl (PlainError ''Recurrence expansion must run inside a tenant transaction'')
      | Some _ \<Rightarrow> skipConflicts_loop c bid evid now spec rid 0 occurrences [] [] db)"

definition recurrence_create ::
  "'d luxon \<Rightarrow> ctx \<Rightarrow> uuid \<Rightarrow> (nat \<Rightarrow> uuid) \<Rightarrow> (nat \<Rightarrow> uuid) \<Rightarrow> instant \<Rightarrow> create_recurrence_dto \<Rightarrow> gdb \<Rightarrow> tdb \<Rightarrow>
     exn + recurrence_result \<times> tdb" where
  "recurrence_create lx c new_id bid evid now d g db =
     bindE (guardE (\<not> (cr_freq d = Daily \<and> or_default [] (cr_weekdays d) \<noteq> []))
        (BadRequestException ''weekdays only applies to a weekly recurrence'')) (\<lambda>_.
     bindE (service_getById c (cr_serviceId d) db) (\<lambda>service.
     bindE (canPerform c (cr_staffId d) (cr_serviceId d) db) (\<lambda>ok.
     bindE (guardE ok cannot_perform) (\<lambda>_.
     bindE (customer_getById c (cr_customerId d) db) (\<lambda>_.
     bindE (bindE (getTenantId c) (\<lambda>t. tenant_getById t g)) (\<lambda>tn.
     let occurrences = expandRecurrence lx (rule_of_dto d (tn_timezone tn)) in
     bindE (guardE (occurrences \<noteq> []) (BadRequestException ''The recurrence rule produces no occurrences'')) (\<lambda>_.
     bindE (recurrence_createOne c (recurrence_of_dto new_id now d (tn_timezone tn)) db) (\<lambda>(r, db1).
     bindE (if or_default Skip_Conflicts (cr_conflictPolicy d) = All_Or_Nothing
            then allOrNothing c bid evid now (occurrence_spec d service) (e_id r) occurrences db1
            else skipConflicts c bid evid now (occurrence_spec d service) (e_id r) occurrences db1) (\<lambda>((created, skipped), db2).
       Inr (\<lparr>rres_recurrenceId = e_id r, rres_created = created, rres_skipped = skipped\<rparr>, db2))))))))))"

section \<open>The loops against their references\<close>

lemma iterates_Suc: "map (\<lambda>k. (f ^^ k) x) [0..<Suc m] = x # map (\<lambda>k. (f ^^ k) (f x)) [0..<m]"
proof -
  have "map (\<lambda>k. (f ^^ k) x) [Suc 0..<Suc m] = map (\<lambda>k. (f ^^ k) (f x)) [0..<m]"
    by (rule nth_equalityI) (simp_all add: funpow_swap1 del: upt_Suc)
  then show ?thesis by (simp add: upt_rec [of 0] del: upt_Suc)
qed

lemma daily_loop_eq:
  "int (length out) \<le> limit \<Longrightarrow> daily_loop lx interval limit until cur out =
     out @ map (lx_valueOf lx) (takeWhile (\<lambda>d. \<not> past lx until d)
       (map (\<lambda>k. ((\<lambda>d. lx_plusDays lx d interval) ^^ k) cur) [0..<nat (limit - int (length out))]))"
proof (induction lx interval limit until cur out rule: daily_loop.induct)
  case (1 lx interval limit until cur out)
  let ?step = "\<lambda>d. lx_plusDays lx d interval"
  show ?case
  proof (cases "int (length out) < limit")
    case True
    then have n: "nat (limit - int (length out)) = Suc (nat (limit - int (length out) - 1))" by simp
    show ?thesis
      using 1 True by (subst daily_loop.simps) (simp add: n iterates_Suc algebra_simps del: upt_Suc)
  next
    case False
    then show ?thesis using 1(2) by (subst daily_loop.simps) simp
  qed
qed

lemma weekly_loop_eq:
  "int (length out) \<le> limit \<Longrightarrow> scanned \<le> maxScan \<Longrightarrow>
   weekly_loop lx anchor interval wds limit until maxScan scanned cur out =
     out @ take (nat (limit - int (length out))) (map (lx_valueOf lx) (filter (fires lx anchor interval wds)
       (takeWhile (\<lambda>d. \<not> past lx until d)
         (map (\<lambda>k. ((\<lambda>d. lx_plusDays lx d 1) ^^ k) cur) [0..<nat (maxScan - scanned)]))))"
proof (induction lx anchor interval wds limit until maxScan scanned cur out rule: weekly_loop.induct)
  case (1 lx anchor interval wds limit until maxScan scanned cur out)
  let ?step = "\<lambda>d. lx_plusDays lx d 1"
  show ?case
  proof (cases "int (length out) < limit \<and> scanned < maxScan")
    case True
    then have n: "nat (maxScan - scanned) = Suc (nat (maxScan - scanned - 1))" by linarith
    have l: "nat (limit - int (length out)) = Suc (nat (limit - int (length out) - 1))" using True by linarith
    show ?thesis
      using 1 True
      by (subst weekly_loop.simps; cases "fires lx anchor interval wds cur")
        (simp_all add: n iterates_Suc l algebra_simps del: upt_Suc)
  next
    case False
    then show ?thesis using 1(2,3) by (subst weekly_loop.simps) auto
  qed
qed

section \<open>A weekly rule reaches its count\<close>

text \<open>
  The calendar from a start instant: the days reached by \<open>plus({ days: 1 })\<close> run through the weekdays
  (1 is Monday, 7 is Sunday), and the Mondays that begin their weeks are whole weeks apart.
\<close>
definition civil_calendar :: "'d luxon \<Rightarrow> 'd \<Rightarrow> bool" where
  "civil_calendar lx start \<longleftrightarrow>
     1 \<le> lx_weekday lx start \<and> lx_weekday lx start \<le> 7 \<and>
     (\<forall>k. let d = ((\<lambda>d. lx_plusDays lx d 1) ^^ k) start; n = lx_weekday lx start - 1 + int k in
       lx_weekday lx d = n mod 7 + 1 \<and>
       \<lfloor>lx_weeks lx (lx_startOfWeek lx d) (lx_startOfWeek lx start)\<rfloor> = n div 7)"

lemma fires_civil:
  assumes "civil_calendar lx start" "0 < interval"
  shows "fires lx (lx_startOfWeek lx start) interval wds (((\<lambda>d. lx_plusDays lx d 1) ^^ k) start) \<longleftrightarrow>
     ((lx_weekday lx start - 1 + int k) div 7) mod interval = 0 \<and>
     ((lx_weekday lx start - 1 + int k) mod 7 + 1) mod 7 \<in> set wds"
  using assms by (simp add: civil_calendar_def fires_def toSun0_def Let_def)

lemma active_days:
  fixes w0 interval n :: int
  assumes w0: "0 \<le> w0" "w0 < 7" and iv: "0 < interval" and n: "0 \<le> n"
    and W: "W \<subseteq> {0..6}" "finite W"
  shows "nat n * card W \<le> card {k. int k < n * interval * 7 + 7 \<and>
     ((w0 + int k) div 7) mod interval = 0 \<and> ((w0 + int k) mod 7 + 1) mod 7 \<in> W}" (is "_ \<le> card ?D")
proof -
  define g where "g = (\<lambda>d::int. (d + 6) mod 7)"
  define h where "h = (\<lambda>(j, d). nat (7 * (interval * j) + g d - w0))"
  have g: "0 \<le> g d" "g d < 7" "(g d + 1) mod 7 = d" if "d \<in> W" for d
  proof -
    have "0 \<le> d" "d \<le> 6" using W that by auto
    then show "0 \<le> g d" "g d < 7" "(g d + 1) mod 7 = d" unfolding g_def by presburger+
  qed
  have pos: "7 * (interval * j) \<ge> 7" if "j \<in> {1..n}" for j
  proof -
    have "1 * 1 \<le> interval * j" using iv that by (intro mult_mono) auto
    then show ?thesis by simp
  qed
  have le: "interval * j \<le> interval * n" if "j \<in> {1..n}" for j
    using that iv by (intro mult_left_mono) auto
  have k: "w0 + int (h (j, d)) = 7 * (interval * j) + g d" if "j \<in> {1..n}" "d \<in> W" for j d
    using pos [OF that(1)] g(1) [OF that(2)] w0 by (simp add: h_def)
  have dm: "(w0 + int (h (j, d))) div 7 = interval * j" "(w0 + int (h (j, d))) mod 7 = g d"
    if "j \<in> {1..n}" "d \<in> W" for j d
    using g(1,2) [OF that(2)] unfolding k [OF that] by simp_all
  have "inj_on h ({1..n} \<times> W)"
  proof (rule inj_onI, clarify)
    fix j d j' d' assume a: "j \<in> {1..n}" "d \<in> W" "j' \<in> {1..n}" "d' \<in> W" and e: "h (j, d) = h (j', d')"
    have "interval * j = interval * j'" "g d = g d'" using dm [OF a(1,2)] dm [OF a(3,4)] unfolding e by metis+
    moreover from this(1) have "j = j'" using iv by simp
    ultimately show "j = j' \<and> d = d'" using g(3) [OF a(2)] g(3) [OF a(4)] by metis
  qed
  moreover have "h ` ({1..n} \<times> W) \<subseteq> ?D"
  proof clarify
    fix j d assume a: "j \<in> {1..n}" "d \<in> W"
    have "int (h (j, d)) < n * interval * 7 + 7"
      using k [OF a] le [OF a(1)] g(2) [OF a(2)] w0 by (simp add: mult.commute)
    then show "int (h (j, d)) < n * interval * 7 + 7 \<and> ((w0 + int (h (j, d))) div 7) mod interval = 0 \<and>
        ((w0 + int (h (j, d))) mod 7 + 1) mod 7 \<in> W"
      unfolding dm [OF a] using g(3) [OF a(2)] a(2) by simp
  qed
  moreover have "finite ?D"
    by (rule finite_subset [of _ "{..< nat (n * interval * 7 + 7)}"]) auto
  ultimately have "card ({1..n} \<times> W) \<le> card ?D" by (rule card_inj_on_le)
  then show ?thesis by (simp add: card_cartesian_product)
qed

lemma ceil_enough:
  fixes limit p :: int
  assumes "0 < p"
  shows "limit \<le> - ((- limit) div p) * p"
proof -
  have "(- limit) div p * p \<le> - limit" using assms
    by (metis div_mult_mod_eq le_add_same_cancel1 pos_mod_sign)
  then show ?thesis by simp
qed

lemma weekly_fires_enough:
  assumes "civil_calendar lx start" "0 < interval" "0 \<le> limit"
    and "wds \<noteq> []" "distinct wds" "set wds \<subseteq> {0..6}"
  shows "nat limit \<le> length (filter (fires lx (lx_startOfWeek lx start) interval wds)
     (map (\<lambda>k. ((\<lambda>d. lx_plusDays lx d 1) ^^ k) start) [0..<nat (max_scan_days limit interval wds)]))"
proof -
  define n where "n = - ((- limit) div int (length wds))"
  define w0 where "w0 = lx_weekday lx start - 1"
  have p: "0 < int (length wds)" using assms(4) by simp
  have n0: "0 \<le> n"
    using assms(3) p unfolding n_def by (simp add: div_nonpos_pos_le0)
  have w0: "0 \<le> w0" "w0 < 7" using assms(1) by (auto simp: civil_calendar_def w0_def)
  have scan: "max_scan_days limit interval wds = n * interval * 7 + 7"
  proof -
    have "max (int (length wds)) 1 = int (length wds)" using p by linarith
    then show ?thesis unfolding max_scan_days_def n_def Let_def by (simp only:)
  qed
  have "nat limit \<le> nat (n * int (length wds))"
    using ceil_enough [OF p, of limit] by (simp add: n_def nat_mono)
  also have "\<dots> = nat n * card (set wds)"
    using assms(5) n0 by (simp add: distinct_card nat_mult_distrib)
  also have "\<dots> \<le> card {k. int k < n * interval * 7 + 7 \<and> ((w0 + int k) div 7) mod interval = 0 \<and>
     ((w0 + int k) mod 7 + 1) mod 7 \<in> set wds}"
    by (rule active_days [OF w0 assms(2) n0 assms(6)]) simp
  also have "\<dots> = length (filter (fires lx (lx_startOfWeek lx start) interval wds)
     (map (\<lambda>k. ((\<lambda>d. lx_plusDays lx d 1) ^^ k) start) [0..<nat (n * interval * 7 + 7)]))"
    unfolding length_filter_conv_card
    by (rule arg_cong [of _ _ card]) (auto simp: fires_civil [OF assms(1,2)] w0_def)
  finally show ?thesis unfolding scan .
qed

section \<open>Series of bookings\<close>

definition occurrence ::
  "uuid \<Rightarrow> uuid \<Rightarrow> instant \<Rightarrow> create_recurrence_dto \<Rightarrow> service_row \<Rightarrow> uuid \<Rightarrow> instant \<Rightarrow> booking" where
  "occurrence t i now d sv rid s =
     \<lparr>e_id = i, e_createdAt = now, e_deletedAt = None, e_tenantId = t, bk_staffId = cr_staffId d,
      bk_serviceId = cr_serviceId d, bk_customerId = cr_customerId d, bk_startsAt = s,
      bk_endsAt = s + svc_durationMin sv * MINUTE_MS, bk_status = Pending, bk_priceAmount = svc_priceAmount sv,
      bk_priceCurrency = svc_priceCurrency sv, bk_recurrenceId = Some rid, bk_version = 1\<rparr>"

definition add_booking :: "uuid \<Rightarrow> instant \<Rightarrow> uuid \<Rightarrow> booking \<Rightarrow> tdb \<Rightarrow> tdb" where
  "add_booking ev now t b db = with_event ev now t b ''booking.created'' (db\<lparr>bookings := bookings db @ [b]\<rparr>)"

lemma createOccurrence_spec:
  assumes "t \<noteq> []" "i \<notin> e_id ` set (bookings db)" "ev \<notin> e_id ` set (outbox_events db)"
  shows "createOccurrence (tenant_tx t) i ev now (occurrence_spec d sv (Some s)) rid db =
     (if list_ex (booking_conflict (occurrence t i now d sv rid s)) (bookings db) then Inl slot_taken
      else Inr (occurrence t i now d sv rid s, add_booking ev now t (occurrence t i now d sv rid s) db))"
proof -
  let ?b = "occurrence t i now d sv rid s"
  let ?d = "occurrence_spec d sv (Some s)\<lparr>bd_recurrenceId := Some rid\<rparr>"
  have row: "booking_row i now ?d s (s + svc_durationMin sv * MINUTE_MS)\<lparr>e_tenantId := t\<rparr> = ?b"
    by (simp add: booking_row_def occurrence_def occurrence_spec_def)
  have idb: "e_id ?b \<notin> e_id ` set (bookings db)" using assms(2) by (simp add: occurrence_def)
  have "booking_repo_create (tenant_tx t) i now ?d db =
     (if list_ex (booking_conflict ?b) (bookings db) then Inl slot_taken
      else Inr (?b, db\<lparr>bookings := bookings db @ [?b]\<rparr>))"
    using assms(1) row
    by (simp add: booking_repo_create_tx occurrence_spec_def js_add_minutes_def
        booking_insert_checked [OF idb] mapSlotConflict_def)
  then show ?thesis
    using assms(1,3) by (simp add: createOccurrence_def emit_fresh with_event_def add_booking_def)
qed

text \<open>
  The reference: the candidates are taken in order, each unless it conflicts with the bookings there
  are and those taken before it.
\<close>
fun accepted :: "booking list \<Rightarrow> booking list \<Rightarrow> booking list" where
  "accepted [] rows = []"
| "accepted (b # bs) rows =
     (if list_ex (booking_conflict b) rows then accepted bs rows else b # accepted bs (rows @ [b]))"

definition candidates ::
  "uuid \<Rightarrow> (nat \<Rightarrow> uuid) \<Rightarrow> instant \<Rightarrow> create_recurrence_dto \<Rightarrow> service_row \<Rightarrow> uuid \<Rightarrow> nat \<Rightarrow> instant list \<Rightarrow> booking list" where
  "candidates t bid now d sv rid k occs =
     map (\<lambda>(i, s). occurrence t (bid i) now d sv rid s) (enumerate k occs)"

lemma candidates_simps [simp]:
  "candidates t bid now d sv rid k [] = []"
  "candidates t bid now d sv rid k (s # ss) =
     occurrence t (bid k) now d sv rid s # candidates t bid now d sv rid (Suc k) ss"
  by (simp_all add: candidates_def)

lemma occurrence_simps [simp]:
  "e_id (occurrence t i now d sv rid s) = i" "bk_startsAt (occurrence t i now d sv rid s) = s"
  "bk_recurrenceId (occurrence t i now d sv rid s) = Some rid"
  "e_tenantId (occurrence t i now d sv rid s) = t"
  by (simp_all add: occurrence_def)

lemma add_booking_simps [simp]:
  "bookings (add_booking ev now t b db) = bookings db @ [b]"
  "outbox_events (add_booking ev now t b db) = outbox_events db @ [outbox_row ev now t (booking_event b ''booking.created'')]"
  by (simp_all add: add_booking_def)

lemma candidates_ids: "e_id ` set (candidates t bid now d sv rid k occs) \<subseteq> bid ` {k..}"
  by (induction occs arbitrary: k) force+

lemma accepted_subset: "set (accepted bs rows) \<subseteq> set bs"
  by (induction bs rows rule: accepted.induct) auto

definition start_text :: "booking \<Rightarrow> string" where "start_text b = iso_string (bk_startsAt b)"

text \<open>Ids the database has not used, and does not repeat.\<close>
definition fresh_ids :: "(nat \<Rightarrow> uuid) \<Rightarrow> nat \<Rightarrow> uuid set \<Rightarrow> bool" where
  "fresh_ids gen k used \<longleftrightarrow> inj_on gen {k..} \<and> gen ` {k..} \<inter> used = {}"

lemma fresh_ids_step:
  "fresh_ids gen k used \<Longrightarrow> gen k \<notin> used"
  "fresh_ids gen k used \<Longrightarrow> fresh_ids gen (Suc k) (insert (gen k) used)"
  "fresh_ids gen k used \<Longrightarrow> fresh_ids gen (Suc k) used"
proof -
  assume f: "fresh_ids gen k used"
  then show "gen k \<notin> used" by (auto simp: fresh_ids_def)
  have dis: "gen i \<notin> used" if "Suc k \<le> i" for i
  proof -
    have "gen i \<in> gen ` {k..}" using that by simp
    then show ?thesis using f unfolding fresh_ids_def by blast
  qed
  have sub: "{Suc k..} \<subseteq> {k..}" by auto
  have inj: "inj_on gen {Suc k..}" using f sub by (auto simp: fresh_ids_def intro: inj_on_subset)
  then show "fresh_ids gen (Suc k) used" using dis by (auto simp: fresh_ids_def)
  have "gen i \<noteq> gen k" if "Suc k \<le> i" for i
    using f that inj_onD [of gen "{k..}" i k] by (auto simp: fresh_ids_def)
  then show "fresh_ids gen (Suc k) (insert (gen k) used)"
    using inj dis by (fastforce simp: fresh_ids_def)
qed

text \<open>The tables after a series: the taken candidates and their events.\<close>
definition series_effect :: "uuid \<Rightarrow> tdb \<Rightarrow> booking list \<Rightarrow> tdb \<Rightarrow> bool" where
  "series_effect t db bs db' \<longleftrightarrow>
     bookings db' = bookings db @ bs \<and>
     (\<exists>evs. outbox_events db' = outbox_events db @ evs \<and>
        list_all2 (\<lambda>b e. \<exists>i now. e = outbox_row i now t (booking_event b ''booking.created'')) bs evs) \<and>
     db' = db\<lparr>bookings := bookings db', outbox_events := outbox_events db'\<rparr>"

lemma series_effect_refl: "series_effect t db [] db"
  by (simp add: series_effect_def)

lemma series_effect_Cons:
  assumes "series_effect t (add_booking ev now t b db) bs db'"
  shows "series_effect t db (b # bs) db'"
proof -
  obtain evs where e: "outbox_events db' = outbox_events db @ outbox_row ev now t (booking_event b ''booking.created'') # evs"
      "list_all2 (\<lambda>b e. \<exists>i now. e = outbox_row i now t (booking_event b ''booking.created'')) bs evs"
    using assms by (auto simp: series_effect_def)
  have "db' = db\<lparr>bookings := bookings db', outbox_events := outbox_events db'\<rparr>"
    using assms unfolding series_effect_def add_booking_def with_event_def by (cases db; cases db') simp
  then show ?thesis using assms e unfolding series_effect_def by auto
qed

lemma head_not_candidate:
  assumes "fresh_ids bid k used"
  shows "occurrence t (bid k) now d sv rid s \<notin> set (candidates t bid now d sv rid (Suc k) occs)"
proof
  assume "occurrence t (bid k) now d sv rid s \<in> set (candidates t bid now d sv rid (Suc k) occs)"
  then have "bid k \<in> bid ` {Suc k..}"
    using candidates_ids [of t bid now d sv rid "Suc k" occs] by (metis image_eqI occurrence_simps(1) subsetD)
  then obtain j where "bid k = bid j" "Suc k \<le> j" by auto
  then show False using assms inj_onD [of bid "{k..}" k j] by (auto simp: fresh_ids_def)
qed

lemma accepted_length: "length (accepted bs rows) \<le> length bs"
  by (induction bs rows rule: accepted.induct) (simp_all add: le_SucI)

lemma isSlotTaken_slot_taken [simp]: "isSlotTaken slot_taken"
  by (simp add: isSlotTaken_def slot_taken_def)

lemma skip_loop_spec:
  assumes "t \<noteq> []"
  shows "fresh_ids bid k (e_id ` set (bookings db)) \<Longrightarrow> fresh_ids evid k (e_id ` set (outbox_events db)) \<Longrightarrow>
    \<exists>db'. skipConflicts_loop (tenant_tx t) bid evid now (occurrence_spec d sv) rid k (map Some occs) created skipped db =
       Inr ((created @ map start_text (accepted (candidates t bid now d sv rid k occs) (bookings db)),
             skipped @ map start_text (filter (\<lambda>b. b \<notin> set (accepted (candidates t bid now d sv rid k occs) (bookings db)))
               (candidates t bid now d sv rid k occs))), db') \<and>
      series_effect t db (accepted (candidates t bid now d sv rid k occs) (bookings db)) db'"
proof (induction occs arbitrary: k created skipped db)
  case Nil
  then show ?case by (simp add: series_effect_refl)
next
  case (Cons s occs)
  let ?b = "occurrence t (bid k) now d sv rid s" and ?cs = "candidates t bid now d sv rid (Suc k) occs"
  note spec = createOccurrence_spec [OF assms fresh_ids_step(1) [OF Cons.prems(1)] fresh_ids_step(1) [OF Cons.prems(2)]]
  have new: "?b \<notin> set ?cs" by (rule head_not_candidate [OF Cons.prems(1)])
  show ?case
  proof (cases "list_ex (booking_conflict ?b) (bookings db)")
    case True
    have na: "?b \<notin> set (accepted ?cs (bookings db))" using new accepted_subset by blast
    from Cons.IH [OF fresh_ids_step(3) [OF Cons.prems(1)] fresh_ids_step(3) [OF Cons.prems(2)],
        of created "skipped @ [start_text ?b]"]
    show ?thesis using na True by (simp add: spec js_toISOString_def start_text_def)
  next
    case False
    let ?db = "add_booking (evid k) now t ?b db"
    have f: "fresh_ids bid (Suc k) (e_id ` set (bookings ?db))" "fresh_ids evid (Suc k) (e_id ` set (outbox_events ?db))"
      using fresh_ids_step(2) [OF Cons.prems(1)] fresh_ids_step(2) [OF Cons.prems(2)] by (simp_all add: outbox_row_def)
    have fl: "filter (\<lambda>b. b \<noteq> ?b \<and> b \<notin> A) ?cs = filter (\<lambda>b. b \<notin> A) ?cs" for A
      using new by (intro filter_cong) auto
    obtain db' where run: "skipConflicts_loop (tenant_tx t) bid evid now (occurrence_spec d sv) rid (Suc k) (map Some occs)
          (created @ [start_text ?b]) skipped ?db =
        Inr (((created @ [start_text ?b]) @ map start_text (accepted ?cs (bookings ?db)),
             skipped @ map start_text (filter (\<lambda>b. b \<notin> set (accepted ?cs (bookings ?db))) ?cs)), db')"
      and eff: "series_effect t ?db (accepted ?cs (bookings ?db)) db'"
      using Cons.IH [OF f] by blast
    show ?thesis using run series_effect_Cons [OF eff] False
      by (simp add: spec js_toISOString_def start_text_def fl)
  qed
qed

lemma all_loop_spec:
  assumes "t \<noteq> []"
  shows "fresh_ids bid k (e_id ` set (bookings db)) \<Longrightarrow> fresh_ids evid k (e_id ` set (outbox_events db)) \<Longrightarrow>
    (if accepted (candidates t bid now d sv rid k occs) (bookings db) = candidates t bid now d sv rid k occs
     then \<exists>db'. allOrNothing_loop (tenant_tx t) bid evid now (occurrence_spec d sv) rid k (map Some occs) created db =
            Inr (created @ map start_text (candidates t bid now d sv rid k occs), db') \<and>
          series_effect t db (candidates t bid now d sv rid k occs) db'
     else allOrNothing_loop (tenant_tx t) bid evid now (occurrence_spec d sv) rid k (map Some occs) created db = Inl slot_taken)"
proof (induction occs arbitrary: k created db)
  case Nil
  then show ?case by (simp add: series_effect_refl)
next
  case (Cons s occs)
  let ?b = "occurrence t (bid k) now d sv rid s" and ?cs = "candidates t bid now d sv rid (Suc k) occs"
  note spec = createOccurrence_spec [OF assms fresh_ids_step(1) [OF Cons.prems(1)] fresh_ids_step(1) [OF Cons.prems(2)]]
  show ?case
  proof (cases "list_ex (booking_conflict ?b) (bookings db)")
    case True
    then have "accepted (?b # ?cs) (bookings db) \<noteq> ?b # ?cs"
      using accepted_length [of ?cs "bookings db"] by auto
    then show ?thesis using True by (simp add: spec)
  next
    case False
    let ?db = "add_booking (evid k) now t ?b db"
    have f: "fresh_ids bid (Suc k) (e_id ` set (bookings ?db))" "fresh_ids evid (Suc k) (e_id ` set (outbox_events ?db))"
      using fresh_ids_step(2) [OF Cons.prems(1)] fresh_ids_step(2) [OF Cons.prems(2)] by (simp_all add: outbox_row_def)
    from Cons.IH [OF f, of "created @ [start_text ?b]"] False show ?thesis
      by (auto simp: spec js_toISOString_def start_text_def intro: series_effect_Cons split: if_splits)
  qed
qed

text \<open>
  A request for a series that passes every check of \<open>create\<close> before the first booking is attempted:
  \<open>occs\<close> are the instants the rule expands to in the tenant's zone \<open>tz\<close>.
\<close>
definition series_ready ::
  "'d luxon \<Rightarrow> uuid \<Rightarrow> create_recurrence_dto \<Rightarrow> uuid \<Rightarrow> gdb \<Rightarrow> tdb \<Rightarrow> service_row \<Rightarrow> string \<Rightarrow> instant list \<Rightarrow> bool" where
  "series_ready lx t d rid g db sv tz occs \<longleftrightarrow>
     t \<noteq> [] \<and> \<not> (cr_freq d = Daily \<and> or_default [] (cr_weekdays d) \<noteq> []) \<and>
     service_of t (cr_serviceId d) db = Some sv \<and> capable t (cr_staffId d) (cr_serviceId d) db \<and>
     customer_of t (cr_customerId d) db \<noteq> None \<and> map_option tn_timezone (tenant_findById t g) = Some tz \<and>
     expandRecurrence lx (rule_of_dto d tz) = map Some occs \<and> occs \<noteq> [] \<and>
     rid \<notin> e_id ` set (recurrences db)"

definition add_recurrence :: "uuid \<Rightarrow> uuid \<Rightarrow> instant \<Rightarrow> create_recurrence_dto \<Rightarrow> string \<Rightarrow> tdb \<Rightarrow> tdb" where
  "add_recurrence t rid now d tz db =
     db\<lparr>recurrences := recurrences db @ [recurrence_of_dto rid now d tz\<lparr>e_tenantId := t\<rparr>]\<rparr>"

lemma recurrence_create_ready:
  assumes "series_ready lx t d rid g db sv tz occs"
  shows "recurrence_create lx (tenant_tx t) rid bid evid now d g db =
     bindE (if cr_conflictPolicy d = Some All_Or_Nothing
            then allOrNothing (tenant_tx t) bid evid now (occurrence_spec d sv) rid (map Some occs) (add_recurrence t rid now d tz db)
            else skipConflicts (tenant_tx t) bid evid now (occurrence_spec d sv) rid (map Some occs) (add_recurrence t rid now d tz db))
       (\<lambda>((created, skipped), db2). Inr (\<lparr>rres_recurrenceId = rid, rres_created = created, rres_skipped = skipped\<rparr>, db2))"
proof -
  have t: "t \<noteq> []" using assms by (simp add: series_ready_def)
  obtain cu where cu: "customer_of t (cr_customerId d) db = Some cu" using assms by (auto simp: series_ready_def)
  obtain tn where tn: "tenant_findById t g = Some tn" "tn_timezone tn = tz" using assms by (auto simp: series_ready_def)
  have "insert_checked recurrences_cs (recurrence_of_dto rid now d tz\<lparr>e_tenantId := t\<rparr>) (recurrences db) =
      Inr (recurrences db @ [recurrence_of_dto rid now d tz\<lparr>e_tenantId := t\<rparr>])"
    using assms
    by (auto simp: series_ready_def insert_checked_Inr_iff recurrences_cs_def pk_conflict_def recurrence_of_dto_def)
  then have cr: "recurrence_createOne (tenant_tx t) (recurrence_of_dto rid now d tz) db =
      Inr (recurrence_of_dto rid now d tz\<lparr>e_tenantId := t\<rparr>, add_recurrence t rid now d tz db)"
    using t by (simp add: recurrence_createOne_def add_recurrence_def)
  have policy: "or_default Skip_Conflicts p = All_Or_Nothing \<longleftrightarrow> p = Some All_Or_Nothing" for p
    by (cases p) simp_all
  have "e_id (recurrence_of_dto rid now d tz\<lparr>e_tenantId := t\<rparr>) = rid" by (simp add: recurrence_of_dto_def)
  then show ?thesis using assms t cu tn
    by (simp add: recurrence_create_def series_ready_def lookup_tx tenant_getById_def cr policy Let_def guardE_def
        del: or_default_simps)
qed

lemma add_recurrence_simps [simp]:
  "bookings (add_recurrence t rid now d tz db) = bookings db"
  "outbox_events (add_recurrence t rid now d tz db) = outbox_events db"
  by (simp_all add: add_recurrence_def)

lemma daily_reference:
  "expandDaily lx start interval limit until =
     map (lx_valueOf lx) (takeWhile (\<lambda>d. \<not> past lx until d)
       (map (\<lambda>k. ((\<lambda>d. lx_plusDays lx d interval) ^^ k) start) [0..<nat limit]))"
proof (cases "0 \<le> limit")
  case True
  then show ?thesis by (simp add: expandDaily_def daily_loop_eq)
next
  case False
  then show ?thesis by (simp add: expandDaily_def) (subst daily_loop.simps, simp)
qed

lemma weekly_reference:
  "weekly_loop lx anchor interval wds limit until maxScan 0 start [] =
     take (nat limit) (map (lx_valueOf lx) (filter (fires lx anchor interval wds)
       (takeWhile (\<lambda>d. \<not> past lx until d)
         (map (\<lambda>k. ((\<lambda>d. lx_plusDays lx d 1) ^^ k) start) [0..<nat maxScan]))))"
proof (cases "0 \<le> limit \<and> 0 \<le> maxScan")
  case True
  then show ?thesis by (simp add: weekly_loop_eq)
next
  case False
  then show ?thesis by (subst weekly_loop.simps) auto
qed

lemma takeWhile_days_bound: "length (takeWhile P (map f [0..<n])) \<le> n"
  using length_takeWhile_le [of P "map f [0..<n]"] by simp

definition not_after :: "js_date option \<Rightarrow> js_date \<Rightarrow> bool" where
  "not_after until v \<longleftrightarrow> (case (v, until) of (Some a, Some (Some u)) \<Rightarrow> a \<le> u | _ \<Rightarrow> True)"

lemma not_past: "\<not> past lx until d \<longleftrightarrow> not_after (map_option (lx_valueOf lx) until) (lx_valueOf lx d)"
  by (auto simp: past_def not_after_def split: option.splits)

section \<open>Properties\<close>

text \<open>
  An expansion is bounded: whatever the rule and whatever luxon answers, it has at most
  \<open>min(count, 100)\<close> occurrences, and none of them is after the last instant of the rule's \<open>until\<close> day.
\<close>
theorem recurrence_bounded:
  "length (expandRecurrence lx rule) \<le> nat (min (or_default 100 (rr_count rule)) 100) \<and>
   list_all (not_after (map_option (lx_valueOf lx) (rule_until lx rule))) (expandRecurrence lx rule)"
proof -
  let ?after = "not_after (map_option (lx_valueOf lx) (rule_until lx rule))"
  have lim: "rule_limit rule = min (or_default 100 (rr_count rule)) 100"
    by (simp add: rule_limit_def MAX_OCCURRENCES_def)
  have before: "list_all ?after (map (lx_valueOf lx) (takeWhile (\<lambda>d. \<not> past lx (rule_until lx rule) d) ds))" for ds
    by (auto simp: list_all_iff not_past dest: set_takeWhileD)
  show ?thesis
  proof (cases "rr_freq rule")
    case Daily
    then show ?thesis using before takeWhile_days_bound
      by (auto simp: expandRecurrence_def Let_def daily_reference lim)
  next
    case Weekly
    have "list_all ?after (take n (map (lx_valueOf lx) (filter P
        (takeWhile (\<lambda>d. \<not> past lx (rule_until lx rule) d) ds))))" for n P ds
      using before [of ds] by (auto simp: list_all_iff dest!: in_set_takeD)
    then show ?thesis using Weekly
      by (auto simp: expandRecurrence_def expandWeekly_def Let_def weekly_reference lim)
  qed
qed

text \<open>
  C34. The loops of the expander equal their reference: a daily rule takes the iterates of its step up to
  its limit while they are not past \<open>until\<close>; a weekly rule takes, of the days up to its scan bound that
  are not past \<open>until\<close>, the first ones that fire.
\<close>
theorem recurrence_reference:
  "expandRecurrence lx rule =
     (let start = rule_start lx rule; until = rule_until lx rule; limit = nat (rule_limit rule);
          wds = rule_weekdays lx start rule in
      if \<not> lx_isValid lx start then []
      else case rr_freq rule of
        Daily \<Rightarrow> map (lx_valueOf lx) (takeWhile (\<lambda>d. \<not> past lx until d)
            (map (\<lambda>k. ((\<lambda>d. lx_plusDays lx d (rr_interval rule)) ^^ k) start) [0..<limit]))
      | Weekly \<Rightarrow> take limit (map (lx_valueOf lx)
            (filter (fires lx (lx_startOfWeek lx start) (rr_interval rule) wds)
              (takeWhile (\<lambda>d. \<not> past lx until d)
                (map (\<lambda>k. ((\<lambda>d. lx_plusDays lx d 1) ^^ k) start)
                  [0..<nat (max_scan_days (rule_limit rule) (rr_interval rule) wds)])))))"
  by (cases "rr_freq rule") (simp_all add: expandRecurrence_def expandWeekly_def daily_reference weekly_reference Let_def)

text \<open>
  C33. The scan bound is never a silent cap: a validated rule without \<open>until\<close>, on a valid start, expands
  to exactly \<open>min(count, 100)\<close> occurrences, daily or on any set of weekdays every so many weeks.
\<close>
theorem recurrence_count_reached:
  assumes "valid_create_recurrence isUUID d" "cr_until d = None"
    and "lx_isValid lx (rule_start lx (rule_of_dto d tz))" "civil_calendar lx (rule_start lx (rule_of_dto d tz))"
  shows "int (length (expandRecurrence lx (rule_of_dto d tz))) = min (or_default 100 (cr_count d)) 100"
proof -
  let ?r = "rule_of_dto d tz"
  let ?start = "rule_start lx ?r"
  have r: "rr_interval ?r = cr_interval d" "rr_weekdays ?r = cr_weekdays d" "rule_until lx ?r = None"
    "rule_limit ?r = min (or_default 100 (cr_count d)) 100"
    using assms(2) by (simp_all add: rule_of_dto_def rule_until_def rule_limit_def MAX_OCCURRENCES_def)
  have lim: "0 \<le> rule_limit ?r"
    using assms(1) by (cases "cr_count d") (simp_all add: r valid_create_recurrence_def opt_def between_def)
  have iv: "0 < cr_interval d" using assms(1) by (simp add: valid_create_recurrence_def between_def)
  have nopast: "\<not> past lx None x" for x by (simp add: past_def)
  let ?wds = "rule_weekdays lx ?start ?r"
  have wds: "?wds \<noteq> []" "distinct ?wds" "set ?wds \<subseteq> {0..6}"
  proof -
    show "?wds \<noteq> []" "distinct ?wds" by (simp_all add: rule_weekdays_def split: option.splits)
    have "toSun0 lx ?start \<in> {0..6}" unfolding toSun0_def by simp
    then show "set ?wds \<subseteq> {0..6}" using assms(1)
      by (auto simp: rule_weekdays_def r valid_create_recurrence_def opt_def between_def list_all_iff split: option.splits)
  qed
  have "nat (rule_limit ?r) \<le> length (filter (fires lx (lx_startOfWeek lx ?start) (cr_interval d) ?wds)
     (map (\<lambda>k. ((\<lambda>d. lx_plusDays lx d 1) ^^ k) ?start) [0..<nat (max_scan_days (rule_limit ?r) (cr_interval d) ?wds)]))"
    by (rule weekly_fires_enough [OF assms(4) iv lim wds])
  then have "length (expandRecurrence lx ?r) = nat (rule_limit ?r)"
    using assms(3)
    by (cases "rr_freq ?r")
      (simp_all add: expandRecurrence_def expandWeekly_def Let_def daily_reference weekly_reference r(1,3) nopast takeWhile_eq_all_conv [THEN iffD2])
  then show ?thesis using lim by (simp add: r(4))
qed

definition sample_luxon :: "int luxon" where
  "sample_luxon =
     \<lparr>lx_fromISO = (\<lambda>_ _. 0), lx_setTime = (\<lambda>d h m. d div DAY_MS * DAY_MS + (h * 60 + m) * MINUTE_MS),
      lx_isValid = (\<lambda>_. True), lx_endOfDay = (\<lambda>d. d div DAY_MS * DAY_MS + DAY_MS - 1),
      lx_startOfWeek = (\<lambda>d. d div (7 * DAY_MS) * (7 * DAY_MS)), lx_weekday = (\<lambda>d. d div DAY_MS mod 7 + 1),
      lx_plusDays = (\<lambda>d n. d + n * DAY_MS), lx_weeks = (\<lambda>a b. rat_of_int (a - b) / rat_of_int (7 * DAY_MS)),
      lx_valueOf = Some\<rparr>"

definition sample_series :: "recurrence_freq \<Rightarrow> int list option \<Rightarrow> conflict_policy option \<Rightarrow> create_recurrence_dto" where
  "sample_series f wds p =
     \<lparr>cr_staffId = ''st1'', cr_serviceId = ''sv1'', cr_customerId = ''c1'', cr_freq = f, cr_interval = 2,
      cr_weekdays = wds, cr_startDate = ''1970-01-05'', cr_startMinutes = 60, cr_count = Some 2, cr_until = None,
      cr_conflictPolicy = p\<rparr>"

lemma sample_iterate: "((\<lambda>d. lx_plusDays sample_luxon d 1) ^^ k) d = d + int k * DAY_MS"
  by (induction k) (simp_all add: sample_luxon_def algebra_simps)

lemma sample_start: "rule_start sample_luxon (rule_of_dto (sample_series f wds p) tz) = 3600000"
  by (simp add: rule_start_def sample_luxon_def rule_of_dto_def sample_series_def time_unit_defs)

lemma sample_calendar: "civil_calendar sample_luxon 3600000"
proof -
  have days: "(3600000 + int k * DAY_MS) div DAY_MS = int k" for k
    by (simp add: time_unit_defs)
  have weeks: "(3600000 + int k * DAY_MS) div (7 * DAY_MS) = int k div 7" for k
  proof -
    have "(3600000 + int k * DAY_MS) div (7 * DAY_MS) = (3600000 + int k * DAY_MS) div DAY_MS div 7"
      by (simp add: time_unit_defs zdiv_zmult2_eq [symmetric])
    then show ?thesis by (simp add: days)
  qed
  show ?thesis unfolding civil_calendar_def sample_iterate
    by (simp add: sample_luxon_def days weeks Let_def) (simp add: time_unit_defs)
qed

theorem recurrence_count_reached_witness:
  "length (expandRecurrence sample_luxon (rule_of_dto (sample_series Weekly (Some [1, 3]) None) ''UTC'')) = 2"
proof -
  have "valid_create_recurrence (\<lambda>_. True) (sample_series Weekly (Some [1, 3]) None)" by code_simp
  from recurrence_count_reached [OF this, of sample_luxon "''UTC''"] show ?thesis
    unfolding sample_start using sample_calendar by (simp add: sample_series_def sample_luxon_def)
qed

text \<open>
  C35. Skipping conflicts creates what fits and reports the rest: a series under the default policy that
  passes the checks always succeeds; it records the rule, takes the occurrences in order, each unless it
  conflicts with a booking of before or one taken earlier, announces exactly the bookings it takes, and
  answers with their starts and the starts it skipped.
\<close>
theorem series_skip_conflicts:
  assumes "series_ready lx t d rid g db sv tz occs" "cr_conflictPolicy d \<noteq> Some All_Or_Nothing"
    and "fresh_ids bid 0 (e_id ` set (bookings db))" "fresh_ids evid 0 (e_id ` set (outbox_events db))"
  shows "let cs = candidates t bid now d sv rid 0 occs; taken = accepted cs (bookings db) in
     \<exists>db'. recurrence_create lx (tenant_tx t) rid bid evid now d g db =
       Inr (\<lparr>rres_recurrenceId = rid, rres_created = map start_text taken,
             rres_skipped = map start_text (filter (\<lambda>b. b \<notin> set taken) cs)\<rparr>, db') \<and>
       series_effect t (add_recurrence t rid now d tz db) taken db'"
proof -
  let ?db = "add_recurrence t rid now d tz db" and ?cs = "candidates t bid now d sv rid 0 occs"
  have t: "t \<noteq> []" using assms(1) by (simp add: series_ready_def)
  obtain db' where "skipConflicts_loop (tenant_tx t) bid evid now (occurrence_spec d sv) rid 0 (map Some occs) [] [] ?db =
       Inr ((map start_text (accepted ?cs (bookings db)),
             map start_text (filter (\<lambda>b. b \<notin> set (accepted ?cs (bookings db))) ?cs)), db')"
      "series_effect t ?db (accepted ?cs (bookings db)) db'"
    using skip_loop_spec [OF t, of bid 0 ?db evid now d sv rid occs "[]" "[]"] assms(3,4) by auto
  then show ?thesis using assms(2) t
    by (simp add: recurrence_create_ready [OF assms(1)] skipConflicts_def Let_def)
qed

text \<open>
  C36. All or nothing: under that policy a series that passes the checks either books every occurrence
  and announces each, or, when one of them conflicts with a booking of before or with an earlier
  occurrence, fails with \<open>BOOKING_SLOT_TAKEN\<close> (and the request's transaction is rolled back).
\<close>
theorem series_all_or_nothing:
  assumes "series_ready lx t d rid g db sv tz occs" "cr_conflictPolicy d = Some All_Or_Nothing"
    and "fresh_ids bid 0 (e_id ` set (bookings db))" "fresh_ids evid 0 (e_id ` set (outbox_events db))"
  shows "let cs = candidates t bid now d sv rid 0 occs in
     if accepted cs (bookings db) = cs
     then \<exists>db'. recurrence_create lx (tenant_tx t) rid bid evid now d g db =
            Inr (\<lparr>rres_recurrenceId = rid, rres_created = map start_text cs, rres_skipped = []\<rparr>, db') \<and>
          series_effect t (add_recurrence t rid now d tz db) cs db'
     else recurrence_create lx (tenant_tx t) rid bid evid now d g db = Inl slot_taken"
proof -
  let ?db = "add_recurrence t rid now d tz db" and ?cs = "candidates t bid now d sv rid 0 occs"
  have t: "t \<noteq> []" using assms(1) by (simp add: series_ready_def)
  have run: "if accepted ?cs (bookings db) = ?cs
     then \<exists>db'. allOrNothing_loop (tenant_tx t) bid evid now (occurrence_spec d sv) rid 0 (map Some occs) [] ?db =
            Inr (map start_text ?cs, db') \<and> series_effect t ?db ?cs db'
     else allOrNothing_loop (tenant_tx t) bid evid now (occurrence_spec d sv) rid 0 (map Some occs) [] ?db = Inl slot_taken"
    using all_loop_spec [OF t, of bid 0 ?db evid now d sv rid occs "[]", unfolded add_recurrence_simps append_Nil, OF assms(3,4)] .
  show ?thesis
  proof (cases "accepted ?cs (bookings db) = ?cs")
    case True
    with run obtain db' where "allOrNothing_loop (tenant_tx t) bid evid now (occurrence_spec d sv) rid 0 (map Some occs) [] ?db =
        Inr (map start_text ?cs, db')" "series_effect t ?db ?cs db'" by auto
    then show ?thesis using True assms(2)
      by (simp add: recurrence_create_ready [OF assms(1)] allOrNothing_def Let_def)
  next
    case False
    with run show ?thesis using assms(2)
      by (simp add: recurrence_create_ready [OF assms(1)] allOrNothing_def Let_def)
  qed
qed

definition sample_ids :: "nat \<Rightarrow> uuid" where "sample_ids k = replicate (k + 3) CHR ''x''"

lemma sample_ids_fresh: "\<forall>u \<in> U. length u < 3 \<Longrightarrow> fresh_ids sample_ids 0 U"
  by (auto simp: fresh_ids_def sample_ids_def inj_on_def)

lemma sample_fresh:
  "fresh_ids sample_ids 0 (e_id ` set (bookings sample_db))" "fresh_ids sample_ids 0 (e_id ` set (outbox_events sample_db))"
  by (rule sample_ids_fresh; simp add: sample_db_def sample_booking_def empty_tdb_def)+

lemma sample_ready:
  "series_ready sample_luxon ''t1'' (sample_series Daily None p) ''r1'' sample_gdb sample_db sample_service ''UTC''
     [3600000, 176400000]"
proof -
  have rule: "rule_of_dto (sample_series Daily None p) ''UTC'' =
     \<lparr>rr_freq = Daily, rr_interval = 2, rr_weekdays = None, rr_startDate = ''1970-01-05'', rr_startMinutes = 60,
      rr_count = Some 2, rr_until = None, rr_timezone = ''UTC''\<rparr>"
    by (simp add: rule_of_dto_def sample_series_def)
  have "expandRecurrence sample_luxon (rule_of_dto (sample_series Daily None p) ''UTC'') = map Some [3600000, 176400000]"
    unfolding rule by code_simp
  moreover have "service_of ''t1'' ''sv1'' sample_db = Some sample_service" "capable ''t1'' ''st1'' ''sv1'' sample_db"
    "customer_of ''t1'' ''c1'' sample_db \<noteq> None" "recurrences sample_db = []"
    by (simp_all add: service_of_def capable_def customer_of_def sample_db_def sample_service_def sample_link_def
        sample_customer_def live_def empty_tdb_def)
  ultimately show ?thesis
    by (simp add: series_ready_def sample_gdb_tenant) (simp add: sample_series_def sample_tenant_def)
qed

theorem series_skip_conflicts_witness:
  "\<exists>db'. recurrence_create sample_luxon (tenant_tx ''t1'') ''r1'' sample_ids sample_ids 0 (sample_series Daily None None)
       sample_gdb sample_db =
     Inr (\<lparr>rres_recurrenceId = ''r1'', rres_created = [iso_string 176400000], rres_skipped = [iso_string 3600000]\<rparr>, db')"
proof -
  let ?d = "sample_series Daily None None"
  let ?cs = "candidates ''t1'' sample_ids 0 ?d sample_service ''r1'' 0 [3600000, 176400000]"
  let ?second = "occurrence ''t1'' ''xxxx'' 0 ?d sample_service ''r1'' 176400000"
  have cs: "?cs = [occurrence ''t1'' ''xxx'' 0 ?d sample_service ''r1'' 3600000, ?second]"
    by (simp add: sample_ids_def numeral_3_eq_3)
  have "occurrence ''t1'' ''xxx'' 0 ?d sample_service ''r1'' 3600000 \<noteq> ?second"
    by (auto dest: arg_cong [of _ _ e_id])
  moreover have "accepted ?cs (bookings sample_db) = [?second]" unfolding cs by code_simp
  moreover have "cr_conflictPolicy ?d \<noteq> Some All_Or_Nothing" by (simp add: sample_series_def)
  ultimately show ?thesis
    using series_skip_conflicts [OF sample_ready _ sample_fresh, of None 0]
    by (auto simp: Let_def cs start_text_def simp del: candidates_simps accepted.simps)
qed

theorem series_all_or_nothing_witness:
  "recurrence_create sample_luxon (tenant_tx ''t1'') ''r1'' sample_ids sample_ids 0
     (sample_series Daily None (Some All_Or_Nothing)) sample_gdb sample_db = Inl slot_taken"
proof -
  let ?d = "sample_series Daily None (Some All_Or_Nothing)"
  let ?cs = "candidates ''t1'' sample_ids 0 ?d sample_service ''r1'' 0 [3600000, 176400000]"
  have "length (accepted ?cs (bookings sample_db)) = 1" by code_simp
  moreover have "length ?cs = 2" by (simp del: candidates_simps add: candidates_def)
  ultimately have "accepted ?cs (bookings sample_db) \<noteq> ?cs" by (metis one_eq_numeral_iff semiring_norm(85))
  then show ?thesis
    using series_all_or_nothing [OF sample_ready _ sample_fresh, of "Some All_Or_Nothing" 0]
    by (simp add: Let_def sample_series_def del: candidates_simps)
qed

section \<open>Known gaps\<close>

text \<open>The pattern of the request accepts days that no calendar has.\<close>
lemma impossible_until_accepted: "date_text ''2026-13-45''"
  by code_simp

text \<open>
  Such an \<open>until\<close> is an invalid \<open>DateTime\<close>, whose value is \<open>NaN\<close>: the comparison is false on every day
  and the series is the one of the rule without \<open>until\<close>.
\<close>
lemma invalid_until_ignored:
  assumes "rule_until lx rule = Some u" "lx_valueOf lx u = None"
  shows "expandRecurrence lx rule = expandRecurrence lx (rule\<lparr>rr_until := None\<rparr>)"
proof -
  have past: "past lx (Some u) = past lx None"
    using assms(2) by (auto simp: past_def fun_eq_iff split: option.splits)
  show ?thesis
    by (cases "rr_freq rule")
      (simp_all add: expandRecurrence_def expandWeekly_def daily_reference weekly_reference Let_def assms(1) past
        rule_start_def rule_limit_def rule_weekdays_def rule_until_def [of lx "rule\<lparr>rr_until := None\<rparr>"])
qed

end
