(* ===== verification/Deliveries.thy ===== *)
theory Deliveries
  imports Payments Outbox Onboarding
begin

text \<open>
  What leaves the system: the tenants' webhook endpoints (\<open>src/modules/webhook\<close>) with the address
  checks, the signature and the delivery, the notification mails (\<open>src/modules/mail\<close>) and the two
  queue workers (\<open>src/jobs/workers/webhook.worker.ts\<close>, \<open>email.worker.ts\<close>). HMAC, the WHATWG URL
  parser, DNS, the network behind \<open>fetch\<close> and the mail provider are parameters; \<open>net.isIP\<close> and what \<open>fetch\<close>
  does with redirects and the abort signal are written out.
\<close>

section \<open>IP literals\<close>

definition ipv4_segment :: "string \<Rightarrow> bool" where
  "ipv4_segment s \<longleftrightarrow>
     s \<noteq> [] \<and> length s \<le> 3 \<and> list_all is_digit s \<and> dec_val s \<le> 255 \<and> (hd s = CHR ''0'' \<longrightarrow> s = ''0'')"

definition isIPv4 :: "string \<Rightarrow> bool" where
  "isIPv4 s \<longleftrightarrow> (let segs = split_on (CHR ''.'') s in length segs = 4 \<and> list_all ipv4_segment segs)"

definition hextet :: "string \<Rightarrow> bool" where
  "hextet s \<longleftrightarrow> s \<noteq> [] \<and> length s \<le> 4 \<and> list_all (\<lambda>c. radix_digit c < 16) s"

text \<open>The groups a run of segments stands for; a dotted quad may close it and counts for two.\<close>
fun v6_groups :: "bool \<Rightarrow> string list \<Rightarrow> nat option" where
  "v6_groups v4ok [] = Some 0"
| "v6_groups v4ok [s] = (if hextet s then Some 1 else if v4ok \<and> isIPv4 s then Some 2 else None)"
| "v6_groups v4ok (s # segs) = (if hextet s then map_option Suc (v6_groups v4ok segs) else None)"

definition v6_side :: "bool \<Rightarrow> string \<Rightarrow> nat option" where
  "v6_side v4ok s = (if s = [] then Some 0 else v6_groups v4ok (split_on (CHR '':'') s))"

text \<open>The text before and after the first double colon.\<close>
fun split_dcolon :: "string \<Rightarrow> (string \<times> string) option" where
  "split_dcolon (c # d # s) =
     (if c = CHR '':'' \<and> d = CHR '':'' then Some ([], s)
      else map_option (\<lambda>(l, r). (c # l, r)) (split_dcolon (d # s)))"
| "split_dcolon s = None"

definition v6_zone_char :: "char \<Rightarrow> bool" where
  "v6_zone_char c \<longleftrightarrow>
     (let n = (of_char c :: nat) in
      is_digit c \<or> (97 \<le> n \<and> n \<le> 122) \<or> (65 \<le> n \<and> n \<le> 90) \<or> n \<in> {45, 46, 58})"

definition isIPv6 :: "string \<Rightarrow> bool" where
  "isIPv6 s \<longleftrightarrow>
     (let addr = takeWhile (\<lambda>c. c \<noteq> CHR ''%'') s; zone = dropWhile (\<lambda>c. c \<noteq> CHR ''%'') s in
      (zone = [] \<or> (tl zone \<noteq> [] \<and> list_all v6_zone_char (tl zone))) \<and>
      (case split_dcolon addr of
         None \<Rightarrow> addr \<noteq> [] \<and> v6_side True addr = Some 8
       | Some (l, r) \<Rightarrow>
           (case (v6_side False l, v6_side True r) of
              (Some m, Some n) \<Rightarrow> m + n \<le> 7
            | _ \<Rightarrow> False)))"

definition isIP :: "string \<Rightarrow> nat" where
  "isIP s = (if isIPv4 s then 4 else if isIPv6 s then 6 else 0)"

section \<open>Blocked addresses\<close>

text \<open>Over the four numbers; a non-number blocks.\<close>
definition blocked_octets :: "rat \<Rightarrow> rat \<Rightarrow> bool" where
  "blocked_octets a b \<longleftrightarrow>
     a = 0 \<or> a = 127 \<or> a = 10 \<or> (a = 172 \<and> 16 \<le> b \<and> b \<le> 31) \<or> (a = 192 \<and> b = 168) \<or>
     (a = 169 \<and> b = 254) \<or> (a = 100 \<and> 64 \<le> b \<and> b \<le> 127)"

definition isBlockedIpv4 :: "string \<Rightarrow> bool" where
  "isBlockedIpv4 ip =
     (case map js_Number (split_on (CHR ''.'') ip) of
        [Some a, Some b, Some _, Some _] \<Rightarrow> blocked_octets a b
      | _ \<Rightarrow> True)"

definition isBlockedIp :: "string \<Rightarrow> bool" where
  "isBlockedIp ip =
     (let v = isIP ip in
      if v = 4 then isBlockedIpv4 ip
      else if v = 6 then
        let lower = to_lower ip in
        if starts_with ''::ffff:'' lower \<or> starts_with ''::ffff0:'' lower then True
        else lower = ''::1'' \<or> lower = ''::'' \<or> starts_with ''fc'' lower \<or> starts_with ''fd'' lower \<or>
             starts_with ''fe8'' lower \<or> starts_with ''fe9'' lower \<or> starts_with ''fea'' lower \<or>
             starts_with ''feb'' lower
      else True)"

section \<open>URL checks\<close>

record url =
  url_protocol :: string
  url_hostname :: string

text \<open>\<open>replace(/^\[|\]$/g, '')\<close>\<close>
definition strip_brackets :: "string \<Rightarrow> string" where
  "strip_brackets s =
     (let t = (if starts_with ''['' s then tl s else s) in
      if ends_with '']'' t then butlast t else t)"

definition validateWebhookUrl :: "(string \<Rightarrow> url option) \<Rightarrow> string \<Rightarrow> exn + url" where
  "validateWebhookUrl parse raw =
     bindE (requireE (parse raw) (BadRequestException ''Webhook URL is not a valid URL'')) (\<lambda>url.
     bindE (guardE (url_protocol url = ''https:'') (BadRequestException ''Webhook URL must use https'')) (\<lambda>_.
     let host = strip_brackets (url_hostname url); lower = to_lower host in
     bindE (guardE (\<not> (lower = ''localhost'' \<or> ends_with ''.localhost'' lower \<or> ends_with ''.internal'' lower))
              (BadRequestException ''Webhook URL must not target an internal host'')) (\<lambda>_.
     bindE (guardE (\<not> (isIP host \<noteq> 0 \<and> isBlockedIp host))
              (BadRequestException ''Webhook URL must not target a private or loopback address'')) (\<lambda>_.
       Inr url))))"

text \<open>\<open>lookup host\<close> is the DNS answer, or the error it rejects with.\<close>
definition assertSafeWebhookUrl ::
  "(string \<Rightarrow> url option) \<Rightarrow> (string \<Rightarrow> exn + string list) \<Rightarrow> string \<Rightarrow> exn + url" where
  "assertSafeWebhookUrl parse lookup raw =
     bindE (validateWebhookUrl parse raw) (\<lambda>url.
       let host = strip_brackets (url_hostname url) in
       if isIP host \<noteq> 0 then Inr url
       else bindE (lookup host) (\<lambda>addresses.
         bindE (guardE (\<not> (addresses = [] \<or> list_ex isBlockedIp addresses))
                  (BadRequestException ''Webhook URL must not resolve to a private or loopback address'')) (\<lambda>_.
           Inr url)))"

section \<open>Signatures\<close>

definition signWebhook :: "hmac_fun \<Rightarrow> string \<Rightarrow> string \<Rightarrow> string" where
  "signWebhook hmac secret body = hex_of (hmac secret body)"

definition verifyWebhook :: "hmac_fun \<Rightarrow> string \<Rightarrow> string \<Rightarrow> string \<Rightarrow> exn + bool" where
  "verifyWebhook hmac secret signedContent signature =
     (let received = (if starts_with ''sha256='' signature then drop 7 signature else signature);
          expected = signWebhook hmac secret signedContent in
      if length expected \<noteq> length received then Inr False
      else timingSafeEqual (utf8 expected) (utf8 received))"

section \<open>Endpoints\<close>

definition valid_create_webhook :: "string \<Rightarrow> bool" where
  "valid_create_webhook url \<longleftrightarrow> length url \<le> 2048"

definition webhook_findActive :: "ctx \<Rightarrow> tdb \<Rightarrow> exn + webhook_endpoint option" where
  "webhook_findActive c db = findOne c we_active (webhook_endpoints db)"

definition webhook_list :: "ctx \<Rightarrow> tdb \<Rightarrow> exn + webhook_endpoint list" where
  "webhook_list c db =
     bindE (findMany c (\<lambda>_. True) (webhook_endpoints db)) (\<lambda>rs. Inr (sort_key (\<lambda>r. - e_createdAt r) rs))"

definition webhook_row :: "uuid \<Rightarrow> instant \<Rightarrow> string \<Rightarrow> string \<Rightarrow> webhook_endpoint" where
  "webhook_row new_id now url secret =
     \<lparr>e_id = new_id, e_createdAt = now, e_deletedAt = None, e_tenantId = [], we_url = url,
      we_secret = secret, we_active = True\<rparr>"

definition already_configured :: exn where
  "already_configured = ConflictException ''A webhook endpoint is already configured''"

text \<open>The response is a plain object, so it carries the secret: id, url, active, secret.\<close>
definition webhook_create ::
  "(string \<Rightarrow> url option) \<Rightarrow> ctx \<Rightarrow> uuid \<Rightarrow> instant \<Rightarrow> string \<Rightarrow> string \<Rightarrow> tdb \<Rightarrow>
     exn + (uuid \<times> string \<times> bool \<times> string) \<times> tdb" where
  "webhook_create parse c new_id now secret url db =
     bindE (validateWebhookUrl parse url) (\<lambda>_.
     bindE (webhook_findActive c db) (\<lambda>existing.
     bindE (guardE (existing = None) already_configured) (\<lambda>_.
     mapErr (on_code unique_violation already_configured)
       (bindE (persist c webhook_endpoints_cs (webhook_row new_id now url secret) (webhook_endpoints db))
          (\<lambda>(r, rows). Inr ((e_id r, we_url r, we_active r, secret), db\<lparr>webhook_endpoints := rows\<rparr>))))))"

definition webhook_repo_remove :: "ctx \<Rightarrow> instant \<Rightarrow> uuid \<Rightarrow> tdb \<Rightarrow> exn + bool \<times> tdb" where
  "webhook_repo_remove c now i db =
     bindE (scopedWhere c (\<lambda>r. e_id r = i)) (\<lambda>q.
     bindE (rls_update c webhook_endpoints_cs q (\<lambda>r. r\<lparr>e_deletedAt := Some now\<rparr>) (webhook_endpoints db))
       (\<lambda>(n, rows). Inr (0 < n, db\<lparr>webhook_endpoints := rows\<rparr>)))"

definition webhook_remove :: "ctx \<Rightarrow> instant \<Rightarrow> uuid \<Rightarrow> tdb \<Rightarrow> exn + unit \<times> tdb" where
  "webhook_remove c now i db =
     bindE (webhook_repo_remove c now i db) (\<lambda>(ok, db').
       if ok then Inr ((), db') else Inl (NotFoundException ''Webhook endpoint not found''))"

section \<open>Delivery\<close>

record http_request =
  hr_verb :: string
  hr_url :: string
  hr_event :: string
  hr_timestamp :: string
  hr_signature :: string
  hr_body :: string

record webhook_payload =
  wp_eventType :: string
  wp_aggregateType :: string
  wp_aggregateId :: uuid
  wp_data :: json

definition payload_json :: "webhook_payload \<Rightarrow> json" where
  "payload_json p =
     JObj [(''eventType'', JStr (wp_eventType p)), (''aggregateType'', JStr (wp_aggregateType p)),
           (''aggregateId'', JStr (wp_aggregateId p)), (''data'', wp_data p)]"

definition delivery_request :: "hmac_fun \<Rightarrow> nat \<Rightarrow> string \<Rightarrow> string \<Rightarrow> webhook_payload \<Rightarrow> http_request" where
  "delivery_request hmac now url secret p =
     (let body = stringify (payload_json p); timestamp = nat_str (now div 1000) in
      \<lparr>hr_verb = ''POST'', hr_url = url, hr_event = wp_eventType p, hr_timestamp = timestamp,
       hr_signature = ''sha256='' @ signWebhook hmac secret (timestamp @ ''.'' @ body), hr_body = body\<rparr>)"

text \<open>
  \<open>fetch\<close> of the platform. The world it meets is a parameter: the address a connection to a host is opened
  to at that moment (\<open>None\<close>: the name does not resolve), and what an address answers to a request, with the
  milliseconds it takes: a status and the Location it resolves to, or a broken connection.
\<close>
record fetch_net =
  fn_connect :: "string \<Rightarrow> string option"
  fn_answer :: "string \<Rightarrow> http_request \<Rightarrow> int \<times> (nat \<times> string option) option"

datatype redirect_mode = Redirect_Error | Redirect_Follow

text \<open>\<open>redirect\<close>, and the milliseconds after which \<open>signal\<close> is aborted.\<close>
record fetch_options =
  fo_redirect :: redirect_mode
  fo_abortAfter :: int

definition redirect_status :: "nat \<Rightarrow> bool" where
  "redirect_status st \<longleftrightarrow> st \<in> {301, 302, 303, 307, 308}"

text \<open>The next request of a followed redirect: 301, 302 and 303 turn a POST into a GET without a body.\<close>
definition redirected :: "nat \<Rightarrow> string \<Rightarrow> http_request \<Rightarrow> http_request" where
  "redirected st loc req =
     (if st \<in> {301, 302, 303} then req\<lparr>hr_verb := ''GET'', hr_url := loc, hr_body := []\<rparr>
      else req\<lparr>hr_url := loc\<rparr>)"

definition fetch_failed :: exn where "fetch_failed = PlainError ''fetch failed''"
definition fetch_aborted :: exn where "fetch_aborted = PlainError ''This operation was aborted''"

text \<open>One connection: the outcome, what was sent to which address, and the request to go on with.\<close>
definition fetch_hop ::
  "(string \<Rightarrow> url option) \<Rightarrow> fetch_net \<Rightarrow> fetch_options \<Rightarrow> http_request \<Rightarrow>
     (exn + nat) \<times> (string \<times> http_request) list \<times> (fetch_options \<times> http_request) option" where
  "fetch_hop parse net opts req =
     (case parse (hr_url req) of
        None \<Rightarrow> (Inl fetch_failed, [], None)
      | Some u \<Rightarrow>
          (case fn_connect net (strip_brackets (url_hostname u)) of
             None \<Rightarrow> (Inl fetch_failed, [], None)
           | Some addr \<Rightarrow>
               let (ms, answer) = fn_answer net addr req; sent = [(addr, req)] in
               if fo_abortAfter opts \<le> ms then (Inl fetch_aborted, sent, None)
               else (case answer of
                   None \<Rightarrow> (Inl fetch_failed, sent, None)
                 | Some (st, loc) \<Rightarrow>
                     if \<not> redirect_status st then (Inr st, sent, None)
                     else (case fo_redirect opts of
                         Redirect_Error \<Rightarrow> (Inl fetch_failed, sent, None)
                       | Redirect_Follow \<Rightarrow>
                           (case loc of
                              None \<Rightarrow> (Inr st, sent, None)
                            | Some l \<Rightarrow> (Inl fetch_failed, sent,
                                Some (opts\<lparr>fo_abortAfter := fo_abortAfter opts - ms\<rparr>, redirected st l req)))))))"

text \<open>The platform follows at most 20 redirects.\<close>
primrec js_fetch ::
  "nat \<Rightarrow> (string \<Rightarrow> url option) \<Rightarrow> fetch_net \<Rightarrow> fetch_options \<Rightarrow> http_request \<Rightarrow>
     (exn + nat) \<times> (string \<times> http_request) list" where
  "js_fetch 0 parse net opts req = (case fetch_hop parse net opts req of (r, sent, _) \<Rightarrow> (r, sent))"
| "js_fetch (Suc k) parse net opts req =
     (case fetch_hop parse net opts req of
        (r, sent, None) \<Rightarrow> (r, sent)
      | (_, sent, Some (opts', req')) \<Rightarrow>
          (case js_fetch k parse net opts' req' of (r, sent2) \<Rightarrow> (r, sent @ sent2)))"

definition MAX_REDIRECTS :: nat where "MAX_REDIRECTS = 20"
definition WEBHOOK_DELIVERY_TIMEOUT_MS :: int where "WEBHOOK_DELIVERY_TIMEOUT_MS = 5 * SECOND_MS"

text \<open>The options \<open>deliver\<close> passes; the result carries what was sent, and to which address.\<close>
definition delivery_options :: fetch_options where
  "delivery_options = \<lparr>fo_redirect = Redirect_Error, fo_abortAfter = WEBHOOK_DELIVERY_TIMEOUT_MS\<rparr>"

definition deliver ::
  "(string \<Rightarrow> url option) \<Rightarrow> (string \<Rightarrow> exn + string list) \<Rightarrow> fetch_net \<Rightarrow> hmac_fun \<Rightarrow> nat \<Rightarrow>
     string \<Rightarrow> string \<Rightarrow> webhook_payload \<Rightarrow> (exn + unit) \<times> (string \<times> http_request) list" where
  "deliver parse lookup net hmac now url secret p =
     (case assertSafeWebhookUrl parse lookup url of
        Inl e \<Rightarrow> (Inl e, [])
      | Inr _ \<Rightarrow>
          (case js_fetch MAX_REDIRECTS parse net delivery_options (delivery_request hmac now url secret p) of
             (answer, sent) \<Rightarrow>
               (bindE answer (\<lambda>st. guardE (200 \<le> st \<and> st \<le> 299)
                  (PlainError (''Webhook returned '' @ nat_str st))), sent)))"

text \<open>
  The worker's job: nothing to do when the tenant has no active endpoint any more. The result carries the
  requests that were sent.
\<close>
definition webhook_work ::
  "(string \<Rightarrow> url option) \<Rightarrow> (string \<Rightarrow> exn + string list) \<Rightarrow> fetch_net \<Rightarrow> hmac_fun \<Rightarrow> nat \<Rightarrow>
     webhook_job \<Rightarrow> tdb \<Rightarrow> (exn + unit) \<times> http_request list" where
  "webhook_work parse lookup net hmac now j db =
     (case webhook_findActive (tenant_tx (whj_tenantId j)) db of
        Inl e \<Rightarrow> (Inl e, [])
      | Inr None \<Rightarrow> (Inr (), [])
      | Inr (Some ep) \<Rightarrow>
          (case deliver parse lookup net hmac now (we_url ep) (we_secret ep)
            \<lparr>wp_eventType = whj_eventType j, wp_aggregateType = whj_aggregateType j,
             wp_aggregateId = whj_aggregateId j, wp_data = whj_data j\<rparr> of
             (r, sent) \<Rightarrow> (r, map snd sent)))"

section \<open>Mail\<close>

datatype email_job =
    WelcomeEmail uuid string
  | InviteEmail invite_email_job
  | BookingEmail booking_email_job

record mail_message =
  mm_to :: string
  mm_subject :: string
  mm_html :: string

fun membership_role_str :: "membership_role \<Rightarrow> string" where
  "membership_role_str Owner = ''owner''" | "membership_role_str Staff = ''staff''"

text \<open>Quotes and the dash are written by their codes (39, 34; the dash in UTF-8).\<close>
fun renderEmail :: "email_job \<Rightarrow> string \<times> string" where
  "renderEmail (InviteEmail j) =
     (''You'' @ [char_of (39::nat)] @ ''re invited to '' @ iej_tenantName j,
      ''<p>You'' @ [char_of (39::nat)] @ ''ve been invited to join <strong>'' @ iej_tenantName j @
      ''</strong> as '' @ membership_role_str (iej_role j) @ ''.</p>'' @ [char_of (10::nat)] @
      ''<p><a href='' @ [char_of (34::nat)] @ iej_acceptUrl j @ [char_of (34::nat)] @
      ''>Accept the invitation</a></p>'')"
| "renderEmail (BookingEmail j) =
     (''Booking update: '' @ bej_eventType j,
      ''<p>Your booking <strong>'' @ bej_bookingId j @ ''</strong> was updated '' @
      map char_of [226::nat, 128, 148] @ '' '' @ bej_eventType j @ ''.</p>'')"
| "renderEmail (WelcomeEmail u em) =
     (''Welcome to the booking platform'', ''<p>Welcome! Your account is ready.</p>'')"

definition resolveRecipient :: "email_job \<Rightarrow> tdb \<Rightarrow> exn + string option" where
  "resolveRecipient j db =
     (case j of
        WelcomeEmail _ em \<Rightarrow> Inr (Some em)
      | InviteEmail i \<Rightarrow> Inr (Some (iej_email i))
      | BookingEmail b \<Rightarrow>
          (case customer_getById (tenant_tx (bej_tenantId b)) (bej_customerId b) db of
             Inr cu \<Rightarrow> Inr (Some (cu_email cu))
           | Inl (AppException st code m d) \<Rightarrow> if st = 404 then Inr None else Inl (AppException st code m d)
           | Inl e \<Rightarrow> Inl e))"

text \<open>\<open>send\<close> is the provider's answer, an error message or nothing; without an API key nothing is sent.\<close>
definition mail_send ::
  "bool \<Rightarrow> (mail_message \<Rightarrow> string option) \<Rightarrow> mail_message \<Rightarrow> (exn + unit) \<times> mail_message list" where
  "mail_send configured send m =
     (if \<not> configured then (Inr (), [])
      else ((case send m of None \<Rightarrow> Inr () | Some err \<Rightarrow> Inl (PlainError (''Resend delivery failed: '' @ err))), [m]))"

definition email_work ::
  "bool \<Rightarrow> (mail_message \<Rightarrow> string option) \<Rightarrow> email_job \<Rightarrow> tdb \<Rightarrow> (exn + unit) \<times> mail_message list" where
  "email_work configured send j db =
     (case resolveRecipient j db of
        Inl e \<Rightarrow> (Inl e, [])
      | Inr to \<Rightarrow>
          (case to of
             None \<Rightarrow> (Inr (), [])
           | Some [] \<Rightarrow> (Inr (), [])
           | Some addr \<Rightarrow>
               let (subject, html) = renderEmail j in
               mail_send configured send \<lparr>mm_to = addr, mm_subject = subject, mm_html = html\<rparr>))"

section \<open>IPv4 addresses as 32-bit words\<close>

definition octet :: "32 word \<Rightarrow> nat \<Rightarrow> nat" where
  "octet w k = unat w div 256 ^ k mod 256"

definition ipv4_text :: "32 word \<Rightarrow> string" where
  "ipv4_text w = nat_str (octet w 3) @ ''.'' @ nat_str (octet w 2) @ ''.'' @ nat_str (octet w 1) @ ''.'' @ nat_str (octet w 0)"

text \<open>Membership in a CIDR block: the leading \<open>len\<close> bits agree.\<close>
definition in_cidr :: "32 word \<Rightarrow> 32 word \<times> nat \<Rightarrow> bool" where
  "in_cidr w blk \<longleftrightarrow> drop_bit (32 - snd blk) w = drop_bit (32 - snd blk) (fst blk)"

text \<open>0/8, 127/8, 10/8, 172.16/12, 192.168/16, 169.254/16 and 100.64/10.\<close>
definition blocked_cidrs :: "(32 word \<times> nat) list" where
  "blocked_cidrs =
     [(0x00000000, 8), (0x7F000000, 8), (0x0A000000, 8), (0xAC100000, 12), (0xC0A80000, 16),
      (0xA9FE0000, 16), (0x64400000, 10)]"

lemma dot_not_digit: "list_all is_digit s \<Longrightarrow> CHR ''.'' \<notin> set s"
  by (induction s) (auto simp: is_digit_def)

lemma split_ipv4_text:
  "split_on (CHR ''.'') (ipv4_text w) = map nat_str [octet w 3, octet w 2, octet w 1, octet w 0]"
proof -
  have n: "CHR ''.'' \<notin> set (nat_str n)" for n by (rule dot_not_digit) (rule nat_str_digits)
  have "ipv4_text w = nat_str (octet w 3) @ CHR ''.'' # nat_str (octet w 2) @ CHR ''.'' # nat_str (octet w 1)
      @ CHR ''.'' # nat_str (octet w 0)"
    by (simp add: ipv4_text_def)
  then show ?thesis by (simp only: split_on_sep [OF n] split_on_no_sep [OF n]) simp
qed

lemma length_nat_str: "n < 1000 \<Longrightarrow> length (nat_str n) \<le> 3"
  by (subst nat_str.simps, simp, subst nat_str.simps, simp, subst nat_str.simps, simp)

lemma nat_str_leading_zero: "hd (nat_str n) = CHR ''0'' \<longleftrightarrow> n = 0"
proof (induction n rule: nat_str.induct)
  case (1 n)
  show ?case
  proof (cases "n < 10")
    case True
    moreover have "digit_char 0 = CHR ''0''" by code_simp
    ultimately have "digit_char n = CHR ''0'' \<longleftrightarrow> n = 0"
      using digit_val_digit_char [of n] digit_val_digit_char [of 0] by auto
    then show ?thesis using True by (subst nat_str.simps) simp
  next
    case False
    then have "hd (nat_str n) = hd (nat_str (n div 10))"
      by (subst nat_str.simps) (simp add: nat_str_nonempty)
    then show ?thesis using 1 False by auto
  qed
qed

lemma ipv4_segment_nat_str: "n \<le> 255 \<Longrightarrow> ipv4_segment (nat_str n)"
proof -
  assume n: "n \<le> 255"
  have "nat_str 0 = ''0''" by code_simp
  then show ?thesis
    using n length_nat_str [of n] nat_str_nonempty [of n] nat_str_digits [of n] dec_val_nat_str [of n]
      nat_str_leading_zero [of n]
    by (auto simp: ipv4_segment_def)
qed

lemma octet_le: "octet w k \<le> 255"
proof -
  have "octet w k < 256" by (simp add: octet_def)
  then show ?thesis by simp
qed

lemma isIPv4_text: "isIPv4 (ipv4_text w)"
  by (simp add: isIPv4_def split_ipv4_text ipv4_segment_nat_str octet_le)

lemma unat_drop_bit: "unat (drop_bit n w) = unat w div 2 ^ n" for w :: "32 word"
proof -
  have "take_bit 32 (unat w) = unat w"
    using unsigned_less [of w, where 'a = nat] by (simp add: take_bit_nat_eq_self_iff)
  then have "unat (drop_bit n w) = drop_bit n (unat w)" by (simp add: unsigned_drop_bit_eq)
  then show ?thesis by (simp only: drop_bit_eq_div)
qed

lemma in_cidr_div:
  "in_cidr w blk \<longleftrightarrow> unat w div 2 ^ (32 - snd blk) = unat (fst blk) div 2 ^ (32 - snd blk)"
  by (simp only: in_cidr_def word_unat_eq_iff unat_drop_bit)

text \<open>The tests on the first two numbers, read on the upper half of the address.\<close>
lemma blocked_octets_half:
  assumes "x < 65536"
  shows "blocked_octets (of_nat (x div 256)) (of_nat (x mod 256)) \<longleftrightarrow>
     x div 256 = 0 \<or> x div 256 = 127 \<or> x div 256 = 10 \<or> x div 16 = 2753 \<or> x = 49320 \<or> x = 43518 \<or> x div 64 = 401"
proof -
  have c: "of_nat n = (numeral k :: rat) \<longleftrightarrow> n = numeral k" "numeral k \<le> (of_nat n :: rat) \<longleftrightarrow> numeral k \<le> n"
    "(of_nat n :: rat) \<le> numeral k \<longleftrightarrow> n \<le> numeral k" for n k
    by (metis of_nat_eq_iff of_nat_numeral, metis of_nat_le_iff of_nat_numeral, metis of_nat_le_iff of_nat_numeral)
  have a: "x div 256 = 172 \<and> 16 \<le> x mod 256 \<and> x mod 256 \<le> 31 \<longleftrightarrow> x div 16 = 2753"
    "x div 256 = 192 \<and> x mod 256 = 168 \<longleftrightarrow> x = 49320" "x div 256 = 169 \<and> x mod 256 = 254 \<longleftrightarrow> x = 43518"
    "x div 256 = 100 \<and> 64 \<le> x mod 256 \<and> x mod 256 \<le> 127 \<longleftrightarrow> x div 64 = 401"
  proof -
    define a b where "a = x div 256" "b = x mod 256"
    then have x: "x = 256 * a + b" and b: "b < 256" by simp_all
    have d: "x div 16 = 16 * a + b div 16" "x div 64 = 4 * a + b div 64" by (simp_all add: x)
    have e: "b div 16 < 16" "b div 64 < 4" using b by simp_all
    have h: "16 \<le> b \<and> b \<le> 31 \<longleftrightarrow> b div 16 = 1" "64 \<le> b \<and> b \<le> 127 \<longleftrightarrow> b div 64 = 1"
      by linarith+
    have k: "a = 172 \<and> y = 1 \<longleftrightarrow> 16 * a + y = 2753" if "y < 16" for y using that by presburger
    have l: "a = 100 \<and> y = 1 \<longleftrightarrow> 4 * a + y = 401" if "y < 4" for y using that by presburger
    show "x div 256 = 172 \<and> 16 \<le> x mod 256 \<and> x mod 256 \<le> 31 \<longleftrightarrow> x div 16 = 2753"
      unfolding a_b_def [symmetric] d h(1) by (rule k [OF e(1)])
    show "x div 256 = 100 \<and> 64 \<le> x mod 256 \<and> x mod 256 \<le> 127 \<longleftrightarrow> x div 64 = 401"
      unfolding a_b_def [symmetric] d h(2) by (rule l [OF e(2)])
    show "x div 256 = 192 \<and> x mod 256 = 168 \<longleftrightarrow> x = 49320"
    proof
      assume "x div 256 = 192 \<and> x mod 256 = 168"
      then show "x = 49320" using div_mult_mod_eq [of x 256] by linarith
    qed simp
    show "x div 256 = 169 \<and> x mod 256 = 254 \<longleftrightarrow> x = 43518"
    proof
      assume "x div 256 = 169 \<and> x mod 256 = 254"
      then show "x = 43518" using div_mult_mod_eq [of x 256] by linarith
    qed simp
  qed
  show ?thesis unfolding blocked_octets_def c a [symmetric] by simp
qed

section \<open>Facts\<close>

interpretation outbound: payment_provider
    "verifyWebhook hmac secret" "sepay_genuine hmac secret" "\<lambda>c. ''sha256='' @ signWebhook hmac secret c"
  for hmac :: hmac_fun and secret :: string
proof -
  have v: "verifyWebhook hmac secret = sepay_verifyWebhook hmac secret"
    by (intro ext) (simp add: verifyWebhook_def sepay_verifyWebhook_def signWebhook_def Let_def)
  have s: "(\<lambda>c. ''sha256='' @ signWebhook hmac secret c) = sepay_sign hmac secret"
    by (intro ext) (simp add: sepay_sign_def signWebhook_def)
  show "payment_provider (verifyWebhook hmac secret) (sepay_genuine hmac secret) (\<lambda>c. ''sha256='' @ signWebhook hmac secret c)"
    unfolding v s by (rule sepay.payment_provider_axioms)
qed

lemma webhook_insert_checked:
  assumes "e_id r \<notin> e_id ` set rows"
  shows "insert_checked webhook_endpoints_cs r rows =
     (if list_ex (\<lambda>b. we_active r \<and> live r \<and> we_active b \<and> live b \<and> e_tenantId r = e_tenantId b) rows
      then Inl (DbError unique_violation) else Inr (rows @ [r]))"
proof -
  have "\<not> list_ex (pk_conflict r) rows" using assms by (auto simp: list_ex_iff pk_conflict_def)
  then show ?thesis by (simp add: insert_checked_def webhook_endpoints_cs_def)
qed

section \<open>Properties\<close>

text \<open>
  C30. The address filter is exact on IPv4: the dotted form of a 32-bit address is blocked precisely when the
  address lies in one of the CIDR blocks 0/8, 10/8, 100.64/10, 127/8, 169.254/16, 172.16/12 and 192.168/16.
\<close>
theorem blocked_ipv4_exact:
  "isBlockedIp (ipv4_text w) \<longleftrightarrow> list_ex (in_cidr w) blocked_cidrs"
proof -
  let ?n = "unat w"
  have lt: "?n div 65536 < 65536" using unsigned_less [of w, where 'a = nat] by (simp add: less_mult_imp_div_less)
  have o: "octet w 3 = ?n div 65536 div 256" "octet w 2 = ?n div 65536 mod 256"
    using lt by (simp_all add: octet_def power2_eq_square power3_eq_cube div_mult2_eq [symmetric] less_mult_imp_div_less)
  have "isBlockedIp (ipv4_text w) \<longleftrightarrow> blocked_octets (of_nat (octet w 3)) (of_nat (octet w 2))"
    by (simp add: isBlockedIp_def isIP_def isIPv4_text isBlockedIpv4_def split_ipv4_text js_Number_nat_str)
  also have "\<dots> \<longleftrightarrow> list_ex (in_cidr w) blocked_cidrs"
    unfolding o blocked_octets_half [OF lt]
    by (simp add: blocked_cidrs_def in_cidr_div div_mult2_eq [symmetric])
  finally show ?thesis .
qed

text \<open>With \<open>redirect: 'error'\<close> a fetch sends its one request to the address its URL's host connects to, or nothing.\<close>
lemma js_fetch_error_mode:
  assumes "js_fetch k parse net opts req = (r, sent)" "fo_redirect opts = Redirect_Error" "(addr, x) \<in> set sent"
  shows "sent = [(addr, req)]"
    and "parse (hr_url req) = Some u \<Longrightarrow> fn_connect net (strip_brackets (url_hostname u)) = Some addr"
    and "r = Inr st \<Longrightarrow> \<exists>ms loc. fn_answer net addr req = (ms, Some (st, loc)) \<and> ms < fo_abortAfter opts \<and>
      \<not> redirect_status st"
proof -
  have "js_fetch k parse net opts req = (case fetch_hop parse net opts req of (r, sent, _) \<Rightarrow> (r, sent))"
    using assms(2) by (cases k) (auto simp: fetch_hop_def Let_def split: option.splits prod.splits)
  then have h: "(case fetch_hop parse net opts req of (r, sent, _) \<Rightarrow> (r, sent)) = (r, sent)" using assms(1) by simp
  then show "sent = [(addr, req)]"
    using assms(2,3) by (auto simp: fetch_hop_def Let_def split: option.splits prod.splits if_splits)
  show "fn_connect net (strip_brackets (url_hostname u)) = Some addr" if "parse (hr_url req) = Some u"
    using h assms(2,3) that by (auto simp: fetch_hop_def Let_def split: option.splits prod.splits if_splits)
  show "\<exists>ms loc. fn_answer net addr req = (ms, Some (st, loc)) \<and> ms < fo_abortAfter opts \<and> \<not> redirect_status st"
    if "r = Inr st"
    using h assms(2,3) that by (auto simp: fetch_hop_def Let_def split: option.splits prod.splits if_splits)
qed

lemma deliver_sends:
  assumes "deliver parse lookup net hmac now url secret p = (r, sent)" "(addr, x) \<in> set sent"
  shows "x = delivery_request hmac now url secret p"
proof -
  obtain answer where "js_fetch MAX_REDIRECTS parse net delivery_options (delivery_request hmac now url secret p) = (answer, sent)"
    using assms by (auto simp: deliver_def split: sum.splits prod.splits)
  from js_fetch_error_mode(1) [OF this _ assms(2)] show ?thesis
    using assms(2) by (simp add: delivery_options_def)
qed

text \<open>What the delivery's check has established of a URL that passes it.\<close>
lemma assertSafeWebhookUrl_safe:
  assumes "assertSafeWebhookUrl parse lookup url = Inr u"
  shows "parse url = Some u" "url_protocol u = ''https:''"
    "to_lower (strip_brackets (url_hostname u)) \<noteq> ''localhost''"
    "\<not> ends_with ''.localhost'' (to_lower (strip_brackets (url_hostname u)))"
    "\<not> ends_with ''.internal'' (to_lower (strip_brackets (url_hostname u)))"
    "isIP (strip_brackets (url_hostname u)) \<noteq> 0 \<Longrightarrow> \<not> isBlockedIp (strip_brackets (url_hostname u))"
    "isIP (strip_brackets (url_hostname u)) = 0 \<Longrightarrow>
       \<exists>as. lookup (strip_brackets (url_hostname u)) = Inr as \<and> as \<noteq> [] \<and> list_all (\<lambda>a. \<not> isBlockedIp a) as"
proof -
  have v: "validateWebhookUrl parse url = Inr u"
    using assms by (auto simp: assertSafeWebhookUrl_def result_simps Let_def split: if_splits)
  then show "parse url = Some u" "url_protocol u = ''https:''"
    "to_lower (strip_brackets (url_hostname u)) \<noteq> ''localhost''"
    "\<not> ends_with ''.localhost'' (to_lower (strip_brackets (url_hostname u)))"
    "\<not> ends_with ''.internal'' (to_lower (strip_brackets (url_hostname u)))"
    "isIP (strip_brackets (url_hostname u)) \<noteq> 0 \<Longrightarrow> \<not> isBlockedIp (strip_brackets (url_hostname u))"
    by (auto simp: validateWebhookUrl_def result_simps Let_def)
  show "\<exists>as. lookup (strip_brackets (url_hostname u)) = Inr as \<and> as \<noteq> [] \<and> list_all (\<lambda>a. \<not> isBlockedIp a) as"
    if "isIP (strip_brackets (url_hostname u)) = 0"
    using assms that v by (auto simp: assertSafeWebhookUrl_def result_simps Let_def list_ex_iff list_all_iff)
qed

text \<open>
  The connection is opened to the literal address, or to one of the addresses the check was given: the
  name has not been given another address between the check and the connection.
\<close>
definition resolves_as_checked :: "(string \<Rightarrow> exn + string list) \<Rightarrow> fetch_net \<Rightarrow> string \<Rightarrow> bool" where
  "resolves_as_checked lookup net host \<longleftrightarrow>
     (case fn_connect net host of
        None \<Rightarrow> True
      | Some addr \<Rightarrow> if isIP host \<noteq> 0 then addr = host
          else (case lookup host of Inl _ \<Rightarrow> True | Inr as \<Rightarrow> addr \<in> set as))"

text \<open>
  C29. A delivery reaches the target it has checked and nothing else. Whatever the receiver answers, at most
  one request is sent: the signed POST, to the address the URL's own host connects to; a redirect is never
  followed. The URL parses as https, its host is neither localhost nor an internal name, and it is an
  address outside the blocked ranges or a name whose one or more addresses at the check are. A delivery counts as done only when
  that address answered 2xx within the 5 s limit. The address connected to is outside the blocked ranges whenever the name
  still resolves as it did at the check; a name that changes its address in between is the residual race
  the source accepts, and the blocked ranges are those of the filter, which leaves some reserved ranges out.
\<close>
theorem delivery_target_safe:
  assumes "deliver parse lookup net hmac now url secret p = (r, sent)" "(addr, req) \<in> set sent"
  shows "sent = [(addr, delivery_request hmac now url secret p)] \<and>
    (r = Inr () \<longrightarrow> (\<exists>ms st loc. fn_answer net addr (delivery_request hmac now url secret p) = (ms, Some (st, loc)) \<and>
       ms < 5000 \<and> 200 \<le> st \<and> st \<le> 299)) \<and>
    (\<exists>u. parse url = Some u \<and> url_protocol u = ''https:'' \<and>
      (let host = strip_brackets (url_hostname u) in
       to_lower host \<noteq> ''localhost'' \<and> \<not> ends_with ''.localhost'' (to_lower host) \<and>
       \<not> ends_with ''.internal'' (to_lower host) \<and>
       (if isIP host \<noteq> 0 then \<not> isBlockedIp host
        else \<exists>as. lookup host = Inr as \<and> as \<noteq> [] \<and> list_all (\<lambda>a. \<not> isBlockedIp a) as) \<and>
       fn_connect net host = Some addr \<and>
       (resolves_as_checked lookup net host \<longrightarrow> \<not> isBlockedIp addr)))"
proof -
  let ?req = "delivery_request hmac now url secret p"
  obtain u where u: "assertSafeWebhookUrl parse lookup url = Inr u"
    using assms by (auto simp: deliver_def split: sum.splits)
  note safe = assertSafeWebhookUrl_safe [OF u]
  obtain answer where f: "js_fetch MAX_REDIRECTS parse net delivery_options ?req = (answer, sent)"
    and r: "r = bindE answer (\<lambda>st. guardE (200 \<le> st \<and> st \<le> 299) (PlainError (''Webhook returned '' @ nat_str st)))"
    using assms(1) u by (auto simp: deliver_def split: prod.splits)
  have mode: "fo_redirect delivery_options = Redirect_Error" "fo_abortAfter delivery_options = 5000"
    by (simp_all add: delivery_options_def WEBHOOK_DELIVERY_TIMEOUT_MS_def SECOND_MS_def)
  note once = js_fetch_error_mode [OF f mode(1) assms(2)]
  let ?host = "strip_brackets (url_hostname u)"
  have conn: "fn_connect net ?host = Some addr"
    using once(2) safe(1) by (simp add: delivery_request_def Let_def)
  have ok: "\<exists>ms st loc. fn_answer net addr ?req = (ms, Some (st, loc)) \<and> ms < 5000 \<and> 200 \<le> st \<and> st \<le> 299"
    if finished: "r = Inr ()"
  proof -
    obtain st where st: "answer = Inr st" "200 \<le> st" "st \<le> 299"
      using finished unfolding r by (cases answer) (auto simp: result_simps)
    show ?thesis using once(3) [OF st(1)] st(2,3) mode(2) by auto
  qed
  have "\<not> isBlockedIp addr" if "resolves_as_checked lookup net ?host"
    using that conn safe(6,7) by (auto simp: resolves_as_checked_def list_all_iff split: if_splits)
  then show ?thesis using once(1) ok safe conn by (cases "isIP ?host = 0") (auto simp: Let_def)
qed

definition sample_payload :: webhook_payload where
  "sample_payload = \<lparr>wp_eventType = ''booking.created'', wp_aggregateType = ''booking'', wp_aggregateId = ''b1'', wp_data = JObj []\<rparr>"

theorem delivery_target_safe_witness:
  "\<not> isBlockedIp ''93.184.216.34'' \<and>
   snd (deliver (\<lambda>_. Some \<lparr>url_protocol = ''https:'', url_hostname = ''hooks.example''\<rparr>) (\<lambda>_. Inr [''93.184.216.34''])
     \<lparr>fn_connect = (\<lambda>_. Some ''93.184.216.34''), fn_answer = (\<lambda>_ _. (40, Some (302, Some ''https://10.0.0.1/'')))\<rparr>
     (\<lambda>_ _. []) 0 ''https://hooks.example/x'' ''s'' sample_payload) =
   [(''93.184.216.34'', delivery_request (\<lambda>_ _. []) 0 ''https://hooks.example/x'' ''s'' sample_payload)]"
proof -
  let ?parse = "\<lambda>_. Some \<lparr>url_protocol = ''https:'', url_hostname = ''hooks.example''\<rparr>"
  let ?lookup = "\<lambda>_. Inr [''93.184.216.34'']"
  let ?net = "\<lparr>fn_connect = (\<lambda>_. Some ''93.184.216.34''), fn_answer = (\<lambda>_ _. (40, Some (302, Some ''https://10.0.0.1/'')))\<rparr>"
  let ?d = "deliver ?parse ?lookup ?net (\<lambda>_ _. []) 0 ''https://hooks.example/x'' ''s'' sample_payload"
  have h: "isIP (strip_brackets ''hooks.example'') = 0" by code_simp
  have "list_ex (\<lambda>x. fst x = ''93.184.216.34'') (snd ?d)" by code_simp
  then obtain req where "(''93.184.216.34'', req) \<in> set (snd ?d)" by (auto simp: list_ex_iff)
  from delivery_target_safe [OF prod.collapse [symmetric] this]
  show ?thesis by (simp add: h Let_def resolves_as_checked_def)
qed

text \<open>
  Deliveries authenticate: the receiver's check with the shared secret accepts the timestamp and body of
  every request sent, and whenever it accepts anything, the signature is the HMAC of exactly that content.
\<close>
theorem webhook_signature:
  "(let req = delivery_request hmac now url secret p in
    verifyWebhook hmac secret (hr_timestamp req @ ''.'' @ hr_body req) (hr_signature req) = Inr True) \<and>
   (verifyWebhook hmac secret content sig = Inr True \<longrightarrow>
      sig = hex_of (hmac secret content) \<or> sig = ''sha256='' @ hex_of (hmac secret content))"
proof (intro conjI impI)
  show "let req = delivery_request hmac now url secret p in
    verifyWebhook hmac secret (hr_timestamp req @ ''.'' @ hr_body req) (hr_signature req) = Inr True"
    using outbound.complete by (simp add: delivery_request_def Let_def)
  show "sig = hex_of (hmac secret content) \<or> sig = ''sha256='' @ hex_of (hmac secret content)"
    if "verifyWebhook hmac secret content sig = Inr True"
    using outbound.sound [OF that] by (simp add: sepay_genuine_def Let_def)
qed

theorem webhook_signature_witness:
  "''sha256=00'' = hex_of [0] \<or> ''sha256=00'' = ''sha256='' @ hex_of [0]"
proof -
  have "verifyWebhook (\<lambda>_ _. [0]) ''s'' ''c'' ''sha256=00'' = Inr True" by code_simp
  then show ?thesis using webhook_signature [of "\<lambda>_ _. [0]" _ _ "''s''" _ "''c''" "''sha256=00''"] by blast
qed

text \<open>
  One active webhook endpoint per tenant: registration refuses an unsafe URL with its error and a second
  active endpoint with 409, and otherwise stores the endpoint, active, under the caller's tenant.
\<close>
theorem webhook_create_spec:
  assumes "t \<noteq> []" "i \<notin> e_id ` set (webhook_endpoints db)"
  shows "webhook_create parse (tenant_tx t) i now secret url db =
    (case validateWebhookUrl parse url of
       Inl e \<Rightarrow> Inl e
     | Inr _ \<Rightarrow>
         if list_ex (\<lambda>r. e_tenantId r = t \<and> live r \<and> we_active r) (webhook_endpoints db) then Inl already_configured
         else Inr ((i, url, True, secret),
                db\<lparr>webhook_endpoints := webhook_endpoints db @ [webhook_row i now url secret\<lparr>e_tenantId := t\<rparr>]\<rparr>))"
proof (cases "validateWebhookUrl parse url")
  case (Inl e)
  then show ?thesis by (simp add: webhook_create_def)
next
  case (Inr u)
  let ?act = "\<lambda>r. e_tenantId r = t \<and> live r \<and> we_active r"
  have f: "find ?act (webhook_endpoints db) = None \<longleftrightarrow> \<not> list_ex ?act (webhook_endpoints db)"
    by (auto simp: find_None_iff list_ex_iff)
  show ?thesis
  proof (cases "list_ex ?act (webhook_endpoints db)")
    case True
    then obtain r where "find ?act (webhook_endpoints db) = Some r" using f by auto
    then show ?thesis using Inr True assms(1) by (simp add: webhook_create_def webhook_findActive_def)
  next
    case False
    then have "\<not> list_ex (\<lambda>b. we_active (webhook_row i now url secret\<lparr>e_tenantId := t\<rparr>) \<and>
        live (webhook_row i now url secret\<lparr>e_tenantId := t\<rparr>) \<and> we_active b \<and> live b \<and>
        e_tenantId (webhook_row i now url secret\<lparr>e_tenantId := t\<rparr>) = e_tenantId b) (webhook_endpoints db)"
      by (auto simp: list_ex_iff)
    moreover have "e_id (webhook_row i now url secret\<lparr>e_tenantId := t\<rparr>) \<notin> e_id ` set (webhook_endpoints db)"
      using assms(2) by (simp add: webhook_row_def)
    ultimately have "insert_checked webhook_endpoints_cs (webhook_row i now url secret\<lparr>e_tenantId := t\<rparr>) (webhook_endpoints db) =
        Inr (webhook_endpoints db @ [webhook_row i now url secret\<lparr>e_tenantId := t\<rparr>])"
      by (simp add: webhook_insert_checked)
    then show ?thesis using Inr f False assms(1)
      by (simp add: webhook_create_def webhook_findActive_def) (simp add: webhook_row_def)
  qed
qed

theorem webhook_create_spec_witness:
  "webhook_create (\<lambda>_. Some \<lparr>url_protocol = ''https:'', url_hostname = ''10.1.2.3''\<rparr>) (tenant_tx ''t1'') ''w1'' 5 ''sec''
     ''https://10.1.2.3/'' empty_tdb =
   Inl (BadRequestException ''Webhook URL must not target a private or loopback address'')"
proof -
  have "validateWebhookUrl (\<lambda>_. Some \<lparr>url_protocol = ''https:'', url_hostname = ''10.1.2.3''\<rparr>) ''https://10.1.2.3/'' =
      Inl (BadRequestException ''Webhook URL must not target a private or loopback address'')"
    by code_simp
  then show ?thesis by (subst webhook_create_spec) (simp_all add: empty_tdb_def)
qed

text \<open>
  A booking mail goes to the booking's customer or to nobody: what the worker sends for a booking job is
  addressed to a live customer of the job's tenant with the job's customer id, and a customer that is gone
  means no mail and no error.
\<close>
theorem booking_mail_recipient:
  assumes "bej_tenantId b \<noteq> []" "email_work configured send (BookingEmail b) db = (r, msgs)"
  shows "list_all (\<lambda>m. list_ex (\<lambda>cu. e_tenantId cu = bej_tenantId b \<and> live cu \<and> e_id cu = bej_customerId b \<and>
            mm_to m = cu_email cu) (customers db)) msgs \<and>
    (\<not> list_ex (\<lambda>cu. e_tenantId cu = bej_tenantId b \<and> live cu \<and> e_id cu = bej_customerId b) (customers db) \<longrightarrow>
       r = Inr () \<and> msgs = [])"
proof (cases "find (\<lambda>cu. e_tenantId cu = bej_tenantId b \<and> live cu \<and> e_id cu = bej_customerId b) (customers db)")
  case None
  have "customer_getById (tenant_tx (bej_tenantId b)) (bej_customerId b) db = Inl (NotFoundException ''Customer not found'')"
    using None assms(1) by (simp add: customer_getById_def)
  then show ?thesis using assms(2) by (simp add: email_work_def resolveRecipient_def NotFoundException_def)
next
  case (Some cu)
  have "customer_getById (tenant_tx (bej_tenantId b)) (bej_customerId b) db = Inr cu"
    using Some assms(1) by (simp add: customer_getById_def)
  then have w: "email_work configured send (BookingEmail b) db =
      (case cu_email cu of [] \<Rightarrow> (Inr (), []) | _ \<Rightarrow> mail_send configured send
         \<lparr>mm_to = cu_email cu, mm_subject = fst (renderEmail (BookingEmail b)), mm_html = snd (renderEmail (BookingEmail b))\<rparr>)"
    by (simp add: email_work_def resolveRecipient_def split: list.splits)
  have "list_all (\<lambda>m. mm_to m = cu_email cu) msgs"
    using assms(2) unfolding w by (auto simp: mail_send_def split: list.splits if_splits)
  moreover have "cu \<in> set (customers db)" "e_tenantId cu = bej_tenantId b \<and> live cu \<and> e_id cu = bej_customerId b"
    using find_Some_mem [OF Some] by simp_all
  ultimately show ?thesis by (auto simp: list_all_iff list_ex_iff)
qed

theorem booking_mail_recipient_witness:
  "snd (email_work True (\<lambda>_. None) (BookingEmail \<lparr>bej_eventType = ''booking.created'', bej_tenantId = ''t1'',
      bej_bookingId = ''b1'', bej_customerId = ''c1''\<rparr>) empty_tdb) = []"
proof -
  let ?b = "\<lparr>bej_eventType = ''booking.created'', bej_tenantId = ''t1'', bej_bookingId = ''b1'', bej_customerId = ''c1''\<rparr>"
  have "bej_tenantId ?b \<noteq> []" by simp
  from booking_mail_recipient [OF this prod.collapse [of "email_work True (\<lambda>_. None) (BookingEmail ?b) empty_tdb", symmetric]]
  show ?thesis by (simp add: empty_tdb_def)
qed

section \<open>Known gaps\<close>

text \<open>Reserved ranges the filter lets through: multicast, 240/4, benchmarking, IPv4-compatible IPv6.\<close>
lemma reserved_not_blocked:
  "\<not> isBlockedIp ''240.0.0.1'' \<and> \<not> isBlockedIp ''224.0.0.1'' \<and> \<not> isBlockedIp ''198.18.0.1'' \<and>
   \<not> isBlockedIp ''::7f00:1'' \<and> \<not> isBlockedIp ''0:0:0:0:0:0:0:1''"
  by code_simp

lemma internal_blocked:
  "isBlockedIp ''127.0.0.1'' \<and> isBlockedIp ''::1'' \<and> isBlockedIp ''::ffff:10.0.0.1'' \<and> isBlockedIp ''fe80::1'' \<and>
   isBlockedIp ''FD00::1'' \<and> isBlockedIp ''169.254.169.254'' \<and> isBlockedIp ''010.0.0.1'' \<and> isBlockedIp ''x''"
  by code_simp

end
