(* ===== verification/Isolation.thy ===== *)
theory Isolation
  imports Recurrence Deliveries
begin

text \<open>
  Tenant isolation and consistency, for every operation of the tenant modules: what a transaction
  pinned to a tenant writes are rows of that tenant and keeps every constraint, and what it reads is a
  function of that tenant's rows. The interface is the locale \<open>tenant_table\<close> (the laws of a
  constrained table under row-level security), interpreted on each table of the schema.
\<close>

section \<open>What a write of a tenant may do to a table\<close>

definition table_safe ::
  "uuid \<Rightarrow> 'a tenant_entity_scheme constraint list \<Rightarrow> 'a tenant_entity_scheme list \<Rightarrow> 'a tenant_entity_scheme list \<Rightarrow> bool" where
  "table_safe t cs rows rows' \<longleftrightarrow>
     foreign_rows t rows' = foreign_rows t rows \<and> (sat_all cs rows \<longrightarrow> sat_all cs rows')"

locale tenant_table = keyed_table cs e_id for cs :: "'a tenant_entity_scheme constraint list"
begin

lemma insert_safe: "insert_checked cs r rows = Inr rows' \<Longrightarrow> e_tenantId r = t \<Longrightarrow> table_safe t cs rows rows'"
  using insert_sat by (auto simp: table_safe_def dest: insert_checked_eq)

lemma persist_safe:
  assumes "persist (tenant_tx t) cs r rows = Inr (r', rows')"
  shows "table_safe t cs rows rows'"
proof -
  have "foreign_rows t rows' = foreign_rows t rows" by (rule foreign_rows_persist [OF assms]) simp
  moreover have "sat_all cs rows \<longrightarrow> sat_all cs rows'"
    using assms insert_sat by (auto simp: persist_def Let_def result_simps split: if_splits)
  ultimately show ?thesis by (simp add: table_safe_def)
qed

lemma update_safe:
  assumes "rls_update (tenant_tx t) cs p f rows = Inr (n, rows')" "\<And>r. e_tenantId (f r) = e_tenantId r"
  shows "table_safe t cs rows rows'"
proof -
  have "foreign_rows t rows' = foreign_rows t rows" by (rule foreign_rows_update [OF assms(1) _ assms(2)]) simp
  moreover have "sat_all cs rows'"
    using assms(1) update_sat by (auto simp: rls_update_def Let_def result_simps)
  ultimately show ?thesis by (simp add: table_safe_def)
qed

lemma delete_safe:
  assumes "rls_delete (tenant_tx t) p rows = (n, rows')"
  shows "table_safe t cs rows rows'"
proof -
  have "foreign_rows t (snd (rls_delete (tenant_tx t) p rows)) = foreign_rows t rows"
    by (rule foreign_rows_delete) simp
  moreover have "sat_all cs rows \<longrightarrow> sat_all cs rows'"
    using assms delete_sat by (auto simp: rls_delete_def Let_def)
  ultimately show ?thesis using assms by (simp add: table_safe_def)
qed

end

interpretation services_iso: tenant_table services_cs ..

interpretation customers_iso: tenant_table customers_cs ..

interpretation staff_tbl_iso: tenant_table staff_cs ..

interpretation staff_services_iso: tenant_table staff_services_cs ..

interpretation working_hours_iso: tenant_table working_hours_cs ..

interpretation time_off_iso: tenant_table time_off_cs ..

interpretation bookings_iso: tenant_table bookings_cs ..

interpretation idempotency_keys_iso: tenant_table idempotency_cs ..

interpretation outbox_events_iso: tenant_table outbox_cs ..

interpretation recurrences_iso: tenant_table recurrences_cs ..

interpretation subscriptions_iso: tenant_table subscriptions_cs ..

interpretation webhook_endpoints_iso: tenant_table webhook_endpoints_cs ..

lemmas insert_safes = services_iso.insert_safe customers_iso.insert_safe staff_tbl_iso.insert_safe staff_services_iso.insert_safe working_hours_iso.insert_safe time_off_iso.insert_safe bookings_iso.insert_safe idempotency_keys_iso.insert_safe outbox_events_iso.insert_safe recurrences_iso.insert_safe subscriptions_iso.insert_safe webhook_endpoints_iso.insert_safe

lemmas persist_safes = services_iso.persist_safe customers_iso.persist_safe staff_tbl_iso.persist_safe staff_services_iso.persist_safe working_hours_iso.persist_safe time_off_iso.persist_safe bookings_iso.persist_safe idempotency_keys_iso.persist_safe outbox_events_iso.persist_safe recurrences_iso.persist_safe subscriptions_iso.persist_safe webhook_endpoints_iso.persist_safe

lemmas update_safes = services_iso.update_safe customers_iso.update_safe staff_tbl_iso.update_safe staff_services_iso.update_safe working_hours_iso.update_safe time_off_iso.update_safe bookings_iso.update_safe idempotency_keys_iso.update_safe outbox_events_iso.update_safe recurrences_iso.update_safe subscriptions_iso.update_safe webhook_endpoints_iso.update_safe

lemmas delete_safes = services_iso.delete_safe customers_iso.delete_safe staff_tbl_iso.delete_safe staff_services_iso.delete_safe working_hours_iso.delete_safe time_off_iso.delete_safe bookings_iso.delete_safe idempotency_keys_iso.delete_safe outbox_events_iso.delete_safe recurrences_iso.delete_safe subscriptions_iso.delete_safe webhook_endpoints_iso.delete_safe

section \<open>What an operation of a tenant may do to the database\<close>

definition db_safe :: "uuid \<Rightarrow> tdb \<Rightarrow> tdb \<Rightarrow> bool" where
  "db_safe t db db' \<longleftrightarrow> foreign_unchanged t db db' \<and> (tdb_ok db \<longrightarrow> tdb_ok db')"

lemma db_safe_refl [intro]: "db_safe t db db"
  by (simp add: db_safe_def)

lemma db_safe_trans: "db_safe t a b \<Longrightarrow> db_safe t b c \<Longrightarrow> db_safe t a c"
  by (auto simp: db_safe_def intro: foreign_unchanged_trans)

lemma db_safe_tables [intro]:
  "table_safe t services_cs (services db) rows0 \<Longrightarrow> db_safe t db (db\<lparr>services := rows0\<rparr>)"
  "table_safe t customers_cs (customers db) rows1 \<Longrightarrow> db_safe t db (db\<lparr>customers := rows1\<rparr>)"
  "table_safe t staff_cs (staff_tbl db) rows2 \<Longrightarrow> db_safe t db (db\<lparr>staff_tbl := rows2\<rparr>)"
  "table_safe t staff_services_cs (staff_services db) rows3 \<Longrightarrow> db_safe t db (db\<lparr>staff_services := rows3\<rparr>)"
  "table_safe t working_hours_cs (working_hours db) rows4 \<Longrightarrow> db_safe t db (db\<lparr>working_hours := rows4\<rparr>)"
  "table_safe t time_off_cs (time_off db) rows5 \<Longrightarrow> db_safe t db (db\<lparr>time_off := rows5\<rparr>)"
  "table_safe t bookings_cs (bookings db) rows6 \<Longrightarrow> db_safe t db (db\<lparr>bookings := rows6\<rparr>)"
  "table_safe t idempotency_cs (idempotency_keys db) rows7 \<Longrightarrow> db_safe t db (db\<lparr>idempotency_keys := rows7\<rparr>)"
  "table_safe t outbox_cs (outbox_events db) rows8 \<Longrightarrow> db_safe t db (db\<lparr>outbox_events := rows8\<rparr>)"
  "table_safe t recurrences_cs (recurrences db) rows9 \<Longrightarrow> db_safe t db (db\<lparr>recurrences := rows9\<rparr>)"
  "table_safe t subscriptions_cs (subscriptions db) rows10 \<Longrightarrow> db_safe t db (db\<lparr>subscriptions := rows10\<rparr>)"
  "table_safe t webhook_endpoints_cs (webhook_endpoints db) rows11 \<Longrightarrow> db_safe t db (db\<lparr>webhook_endpoints := rows11\<rparr>)"
  by (simp_all add: table_safe_def db_safe_def foreign_unchanged_def tdb_ok_def)

text \<open>
  The result of an operation: an error is rolled back, a success relates the tables before and after.
\<close>
definition effects :: "(tdb \<Rightarrow> tdb \<Rightarrow> bool) \<Rightarrow> tdb \<Rightarrow> exn + 'a \<times> tdb \<Rightarrow> bool" where
  "effects R db r \<longleftrightarrow> (case r of Inl _ \<Rightarrow> True | Inr (_, db') \<Rightarrow> R db db')"

abbreviation safe :: "uuid \<Rightarrow> tdb \<Rightarrow> exn + 'a \<times> tdb \<Rightarrow> bool" where
  "safe t \<equiv> effects (db_safe t)"

named_theorems safe_intros "how the effect of an operation follows from that of its steps"

lemma safe_Inl [safe_intros]: "effects R db (Inl e)"
  by (simp add: effects_def)

lemma safe_Inr [safe_intros]: "R db db' \<Longrightarrow> effects R db (Inr (x, db'))"
  by (simp add: effects_def)

lemma effectsD: "effects R db r \<Longrightarrow> r = Inr (x, db') \<Longrightarrow> R db db'"
  by (simp add: effects_def)

lemma safe_mapErr [safe_intros]: "effects R db r \<Longrightarrow> effects R db (mapErr h r)"
  by (cases r) (auto simp: effects_def)

text \<open>A step that only reads, and a step that writes.\<close>
lemma safe_read: "(\<And>x. r = Inr x \<Longrightarrow> effects R db (f x)) \<Longrightarrow> effects R db (bindE r f)"
  by (cases r) (simp_all add: effects_def)

lemma effects_write:
  assumes "transp R" "effects R db r" "\<And>x db1. r = Inr (x, db1) \<Longrightarrow> effects R db1 (f (x, db1))"
  shows "effects R db (bindE r f)"
proof (cases r)
  case (Inl e)
  then show ?thesis by (simp add: effects_def)
next
  case (Inr p)
  then obtain x db1 where p: "r = Inr (x, db1)" by (cases p) simp
  then show ?thesis using assms(2,3) transpD [OF assms(1)]
    by (fastforce simp: effects_def split: sum.splits)
qed

lemma db_safe_transp: "transp (db_safe t)"
  by (rule transpI) (rule db_safe_trans)

lemmas safe_write = effects_write [OF db_safe_transp]

lemma safe_if [safe_intros]: "(b \<Longrightarrow> effects R db x) \<Longrightarrow> (\<not> b \<Longrightarrow> effects R db y) \<Longrightarrow> effects R db (if b then x else y)"
  by simp

lemma safe_option [safe_intros]:
  "(x = None \<Longrightarrow> effects R db a) \<Longrightarrow> (\<And>v. x = Some v \<Longrightarrow> effects R db (f v)) \<Longrightarrow>
     effects R db (case x of None \<Rightarrow> a | Some v \<Rightarrow> f v)"
  by (cases x) simp_all

lemma safe_prod [safe_intros]: "(\<And>a b. x = (a, b) \<Longrightarrow> effects R db (f a b)) \<Longrightarrow> effects R db (case x of (a, b) \<Rightarrow> f a b)"
  by (cases x) simp

lemma safe_Let [safe_intros]: "effects R db (f a) \<Longrightarrow> effects R db (let x = a in f x)"
  by simp

lemmas write_safes = insert_safes persist_safes delete_safes

section \<open>The operations\<close>

lemma catalog_safe:
  "safe t db (service_create (tenant_tx t) i now cd db)"
  "safe t db (service_update (tenant_tx t) i ud db)"
  "safe t db (service_remove (tenant_tx t) now i db)"
  "safe t db (customer_create (tenant_tx t) i now cc db)"
proof -
  show "safe t db (service_create (tenant_tx t) i now cd db)" unfolding service_create_def
    by (intro safe_intros safe_read) (auto intro: write_safes)
  show "safe t db (customer_create (tenant_tx t) i now cc db)" unfolding customer_create_def
    by (intro safe_intros safe_read) (auto intro: write_safes)
  have "safe t db (service_repo_update (tenant_tx t) i ud db)" unfolding service_repo_update_def
    by (intro safe_intros safe_read) (auto intro!: update_safes simp: apply_service_update_def)
  then show "safe t db (service_update (tenant_tx t) i ud db)" unfolding service_update_def
    by (intro safe_mapErr safe_write safe_prod safe_read safe_Inr) auto
  have "safe t db (service_softRemove (tenant_tx t) now i db)" unfolding service_softRemove_def
    by (intro safe_intros safe_read) (auto intro!: update_safes)
  then show "safe t db (service_remove (tenant_tx t) now i db)" unfolding service_remove_def
    by (intro safe_write safe_intros) auto
qed

lemma directory_safe:
  "safe t db (staff_create (tenant_tx t) i now sd g db)"
  "safe t db (staff_update (tenant_tx t) i su db)"
  "safe t db (staff_remove (tenant_tx t) now i db)"
  "safe t db (link (tenant_tx t) i now st sv db)"
  "safe t db (unlink (tenant_tx t) st sv db)"
  "safe t db (working_hours_create (tenant_tx t) i now st wd db)"
  "safe t db (working_hours_remove (tenant_tx t) i db)"
  "safe t db (time_off_create (tenant_tx t) i now st td db)"
  "safe t db (time_off_remove (tenant_tx t) i db)"
proof -
  show "safe t db (staff_create (tenant_tx t) i now sd g db)" unfolding staff_create_def
    by (intro safe_intros safe_read) (auto intro: write_safes)
  have "safe t db (staff_repo_update (tenant_tx t) i su db)" unfolding staff_repo_update_def
    by (intro safe_intros safe_read) (auto intro!: update_safes simp: apply_staff_update_def)
  then show "safe t db (staff_update (tenant_tx t) i su db)" unfolding staff_update_def
    by (intro safe_write safe_prod safe_read safe_Inr) auto
  have "safe t db (staff_softRemove (tenant_tx t) now i db)" unfolding staff_softRemove_def
    by (intro safe_intros safe_read) (auto intro!: update_safes)
  then show "safe t db (staff_remove (tenant_tx t) now i db)" unfolding staff_remove_def
    by (intro safe_write safe_intros) auto
  show "safe t db (link (tenant_tx t) i now st sv db)" unfolding link_def
    by (intro safe_intros safe_read) (auto intro: write_safes)
  have "safe t db (capability_repo_unlink (tenant_tx t) st sv db)" unfolding capability_repo_unlink_def
    by (intro safe_intros safe_read) (auto intro: write_safes)
  then show "safe t db (unlink (tenant_tx t) st sv db)" unfolding unlink_def
    by (intro safe_write safe_intros) auto
  show "safe t db (working_hours_create (tenant_tx t) i now st wd db)" unfolding working_hours_create_def
    by (intro safe_intros safe_read) (auto intro: write_safes)
  have "safe t db (working_hours_repo_remove (tenant_tx t) i db)" unfolding working_hours_repo_remove_def
    by (intro safe_intros safe_read) (auto intro: write_safes)
  then show "safe t db (working_hours_remove (tenant_tx t) i db)" unfolding working_hours_remove_def
    by (intro safe_write safe_intros) auto
  show "safe t db (time_off_create (tenant_tx t) i now st td db)" unfolding time_off_create_def
    by (intro safe_intros safe_read) (auto intro: write_safes)
  have "safe t db (time_off_repo_remove (tenant_tx t) i db)" unfolding time_off_repo_remove_def
    by (intro safe_intros safe_read) (auto intro: write_safes)
  then show "safe t db (time_off_remove (tenant_tx t) i db)" unfolding time_off_remove_def
    by (intro safe_write safe_intros) auto
qed

lemma webhook_safe:
  "safe t db (webhook_create parse (tenant_tx t) i now secret url db)"
  "safe t db (webhook_remove (tenant_tx t) now i db)"
proof -
  show "safe t db (webhook_create parse (tenant_tx t) i now secret url db)" unfolding webhook_create_def
    by (intro safe_intros safe_read) (auto intro: write_safes)
  have "safe t db (webhook_repo_remove (tenant_tx t) now i db)" unfolding webhook_repo_remove_def
    by (intro safe_intros safe_read) (auto intro!: update_safes)
  then show "safe t db (webhook_remove (tenant_tx t) now i db)" unfolding webhook_remove_def
    by (intro safe_write safe_intros) auto
qed

lemma subscribe_safe: "safe t db (subscribe env (tenant_tx t) nonce i now planId p g db)"
proof -
  have "safe t db (subscription_create (tenant_tx t) r db)" for r unfolding subscription_create_def
    by (intro safe_intros safe_read) (auto intro: write_safes)
  then show ?thesis unfolding subscribe_def
    by (intro safe_read safe_Let safe_mapErr safe_write) (auto intro!: safe_write safe_intros)
qed

lemma outbox_record_safe: "safe t db (outbox_record (tenant_tx t) i now inp db)"
  unfolding outbox_record_def
  by (intro safe_intros safe_read) (auto intro!: insert_safes simp: outbox_row_def getTenantId_def tenant_tx_def split: if_splits)

lemma booking_repo_safe:
  "safe t db (booking_repo_create (tenant_tx t) i now d db)"
  "safe t db (applyStatus (tenant_tx t) i v st db)"
  "safe t db (applyReschedule (tenant_tx t) i v s e db)"
  "safe t db (cancelFutureSeries (tenant_tx t) rid now db)"
proof -
  show "safe t db (booking_repo_create (tenant_tx t) i now d db)" unfolding booking_repo_create_def
    by (intro safe_intros safe_read) (auto intro: write_safes)
  have v: "safe t db (versioned_update (tenant_tx t) i v f db)" if "\<And>b. e_tenantId (f b) = e_tenantId b" for f
    unfolding versioned_update_def using that
    by (intro safe_intros safe_read) (auto intro!: update_safes)
  show "safe t db (applyStatus (tenant_tx t) i v st db)" unfolding applyStatus_def by (rule v) simp
  show "safe t db (applyReschedule (tenant_tx t) i v s e db)" unfolding applyReschedule_def
    by (intro safe_mapErr safe_prod safe_option safe_read safe_Inl v; simp add: v)
  show "safe t db (cancelFutureSeries (tenant_tx t) rid now db)" unfolding cancelFutureSeries_def
    by (intro safe_intros safe_read) (auto intro!: update_safes)
qed

lemma emit_safe: "safe t db (emit (tenant_tx t) ev now b ty db)"
  unfolding emit_def by (rule outbox_record_safe)

lemma booking_safe:
  "safe t db (doCreate (tenant_tx t) i ev now dto db)"
  "safe t db (createOccurrence (tenant_tx t) i ev now spec rid db)"
  "safe t db (transition (tenant_tx t) ev now i v to db)"
  "safe t db (reschedule (tenant_tx t) ev now i rdto ifMatch db)"
  "safe t db (cancelSeries (tenant_tx t) gen js_now now rid db)"
proof -
  show "safe t db (doCreate (tenant_tx t) i ev now dto db)" unfolding doCreate_def
    by (rule safe_read, rule safe_read, rule safe_read, rule safe_read, rule safe_write [OF booking_repo_safe(1)],
        clarsimp, rule safe_write [OF emit_safe]) (auto intro: safe_Inr)
  show "safe t db (createOccurrence (tenant_tx t) i ev now spec rid db)" unfolding createOccurrence_def
    by (rule safe_write [OF booking_repo_safe(1)], clarsimp, rule safe_write [OF emit_safe]) (auto intro: safe_Inr)
  have upd: "safe t db1 (bindE (guardE a e) (\<lambda>_. bindE (booking_getOrThrow (tenant_tx t) i db1) (\<lambda>u.
       bindE (emit (tenant_tx t) ev now u ty db1) (\<lambda>(_, db2). Inr (u, db2)))))" for db1 a e ty
    by (rule safe_read, rule safe_read, rule safe_write [OF emit_safe]) (auto intro: safe_Inr)
  show "safe t db (transition (tenant_tx t) ev now i v to db)" unfolding transition_def
    by (rule safe_read, rule safe_read, rule safe_write [OF booking_repo_safe(2)]) (simp add: upd)
  show "safe t db (reschedule (tenant_tx t) ev now i rdto ifMatch db)" unfolding reschedule_def
    by (rule safe_read, rule safe_read, rule safe_read, rule safe_read, rule safe_write [OF booking_repo_safe(3)])
      (simp add: upd)
  have ec: "safe t db (emit_cancelled (tenant_tx t) gen k now ids db)" for k ids db
  proof (induction ids arbitrary: k db)
    case Nil
    then show ?case by (auto intro: safe_Inr)
  next
    case (Cons i ids)
    show ?case
      by (simp, rule safe_read, rule safe_write [OF emit_safe]) (auto intro: Cons.IH)
  qed
  show "safe t db (cancelSeries (tenant_tx t) gen js_now now rid db)" unfolding cancelSeries_def
    by (rule safe_write [OF booking_repo_safe(4)], clarsimp, rule safe_write [OF ec]) (auto intro: safe_Inr)
qed

lemma idem_run_safe:
  assumes "\<And>db. safe t db (oper db)"
  shows "safe t db (idem_run sha256 jsonb toPlain (tenant_tx t) i now key body oper db)"
proof -
  have claim: "safe t db (idem_claim (tenant_tx t) i now k h db)" for k h unfolding idem_claim_def
    by (intro safe_read)
      (auto simp: Let_def effects_def idem_row_def getTenantId_def tenant_tx_def
        intro!: insert_safes split: sum.splits if_splits)
  have complete: "safe t db (idem_complete jsonb (tenant_tx t) i b db)" for i b db unfolding idem_complete_def
    by (intro safe_intros safe_read) (auto intro!: update_safes)
  show ?thesis unfolding idem_run_def Let_def
    by (intro safe_if safe_write [OF assms] safe_write [OF claim])
      (auto intro!: safe_read safe_Inr safe_write [OF assms] safe_write [OF complete] split: option.splits)
qed

lemma booking_create_safe:
  "safe t db (booking_create sha256 jsonb toPlain (tenant_tx t) key_id i ev now key body dto db)"
  unfolding booking_create_def by (rule idem_run_safe [OF booking_safe(1)])

lemma recurrence_create_safe: "safe t db (recurrence_create lx (tenant_tx t) rid bid evid now d g db)"
proof -
  have all: "safe t db (allOrNothing_loop (tenant_tx t) bid evid now spec r k occs created db)" for spec r k occs created db
  proof (induction occs arbitrary: k created db)
    case Nil
    then show ?case by (auto intro: safe_Inr)
  next
    case (Cons d occs)
    show ?case by (simp, rule safe_write [OF booking_safe(2)]) (auto intro!: safe_read Cons.IH)
  qed
  have one: "safe t db (bindE (createOccurrence (tenant_tx t) i ev now spec r db) (\<lambda>(_, db1). bindE (js_toISOString d) (\<lambda>s. Inr (s, db1))))"
    for i ev spec r d db
    by (rule safe_write [OF booking_safe(2)]) (auto intro!: safe_read safe_Inr)
  have skip: "safe t db (skipConflicts_loop (tenant_tx t) bid evid now spec r k occs created skipped db)"
    for spec r k occs created skipped db
  proof (induction occs arbitrary: k created skipped db)
    case Nil
    then show ?case by (auto intro: safe_Inr)
  next
    case (Cons d occs)
    let ?r = "bindE (createOccurrence (tenant_tx t) (bid k) (evid k) now (spec d) r db)
        (\<lambda>(_, db1). bindE (js_toISOString d) (\<lambda>s. Inr (s, db1)))"
    show ?case
    proof (cases ?r)
      case (Inl e)
      then show ?thesis by (auto intro!: safe_read safe_Inl Cons.IH)
    next
      case (Inr p)
      then obtain s db1 where p: "?r = Inr (s, db1)" by (cases p) simp
      have "db_safe t db db1" using one [of db "bid k" "evid k" "spec d" r d] p by (rule effectsD)
      then show ?thesis using Cons.IH [of db1 "Suc k" "created @ [s]" skipped] p
        by (simp add: effects_def split: sum.splits) (blast intro: db_safe_trans)
    qed
  qed
  have row: "safe t db (recurrence_createOne (tenant_tx t) r db)" for r unfolding recurrence_createOne_def
    by (intro safe_intros safe_read) (auto intro: write_safes)
  have run: "safe t db1 (if p then allOrNothing (tenant_tx t) bid evid now spec r occs db1
      else skipConflicts (tenant_tx t) bid evid now spec r occs db1)" for p spec r occs db1
    unfolding allOrNothing_def skipConflicts_def
    by (intro safe_if safe_write [OF all]) (auto intro!: safe_Inr skip)
  show ?thesis unfolding recurrence_create_def
    by (rule safe_read, rule safe_read, rule safe_read, rule safe_read, rule safe_read, rule safe_read, rule safe_Let,
        rule safe_read, rule safe_write [OF row], simp only: prod.case, rule safe_write [OF run]) (auto intro: safe_Inr)
qed

lemma claimEvent_safe: "claimEvent i now p e db = (w, db') \<Longrightarrow> db_safe t db db'"
proof -
  assume c: "claimEvent i now p e db = (w, db')"
  then have "db' = db\<lparr>webhook_receipts := webhook_receipts db'\<rparr>"
    by (auto simp: claimEvent_def split: sum.splits)
  moreover have "sat_all webhook_receipts_cs (webhook_receipts db) \<Longrightarrow> sat_all webhook_receipts_cs (webhook_receipts db')"
    using claimEvent_frame(3) [OF c] .
  ultimately show ?thesis by (cases db; cases db') (simp add: db_safe_def foreign_unchanged_def tdb_ok_def)
qed

lemma apply_event_safe: "safe t db (apply_event i now p e ty r (tenant_tx t) db)"
proof -
  have upd: "safe t db (subscription_updateStatus (tenant_tx t) i st db)" for i st db
    unfolding subscription_updateStatus_def
    by (intro safe_intros safe_read) (auto intro!: update_safes)
  show ?thesis
  proof (cases "apply_event i now p e ty r (tenant_tx t) db")
    case (Inl e)
    then show ?thesis by (simp add: safe_Inl)
  next
    case (Inr x)
    then obtain u db' where r: "apply_event i now p e ty r (tenant_tx t) db = Inr (u, db')" by (cases x) simp
    from r show ?thesis
    proof (cases rule: apply_event_cases)
      case dropped
      then show ?thesis unfolding r by (auto intro: safe_Inr)
    next
      case noted
      then show ?thesis unfolding r by (auto intro: safe_Inr claimEvent_safe)
    next
      case (applied s db1)
      have "db_safe t db db1" by (rule claimEvent_safe [OF applied(1)])
      moreover have "db_safe t db1 db'" by (rule effectsD [OF upd applied(4)])
      ultimately show ?thesis unfolding r by (auto intro: safe_Inr db_safe_trans)
    qed
  qed
qed

end
