(* ===== verification/System.thy ===== *)
theory System
  imports Isolation
begin

text \<open>
  The tenant side of the program as one system: every operation its endpoints run in a tenant's
  transaction, the payment webhook and the outbox relay, in any order and for any number of tenants. The
  properties are isolation of the tenants in what they write, the lemmas on what they read, and the invariants of
  every reachable database.
\<close>

section \<open>Operations of a tenant\<close>

text \<open>A request of tenant \<open>t\<close> that commits: from the tables before to the tables after.\<close>
inductive tenant_op :: "'d luxon \<Rightarrow> uuid \<Rightarrow> tdb \<Rightarrow> tdb \<Rightarrow> bool" for lx :: "'d luxon" and t :: uuid where
  op_service_create: "valid_create_service cd \<Longrightarrow> service_create (tenant_tx t) i now cd db = Inr (sv, db') \<Longrightarrow> tenant_op lx t db db'"
| op_service_update: "valid_update_service ud \<Longrightarrow> service_update (tenant_tx t) i ud db = Inr (sv, db') \<Longrightarrow> tenant_op lx t db db'"
| op_service_remove: "service_remove (tenant_tx t) now i db = Inr (u, db') \<Longrightarrow> tenant_op lx t db db'"
| op_customer_create: "customer_create (tenant_tx t) i now cc db = Inr (cu, db') \<Longrightarrow> tenant_op lx t db db'"
| op_staff_create: "staff_create (tenant_tx t) i now sd g db = Inr (st, db') \<Longrightarrow> tenant_op lx t db db'"
| op_staff_update: "staff_update (tenant_tx t) i su db = Inr (st, db') \<Longrightarrow> tenant_op lx t db db'"
| op_staff_remove: "staff_remove (tenant_tx t) now i db = Inr (u, db') \<Longrightarrow> tenant_op lx t db db'"
| op_link: "link (tenant_tx t) i now staffId serviceId db = Inr (l, db') \<Longrightarrow> tenant_op lx t db db'"
| op_unlink: "unlink (tenant_tx t) staffId serviceId db = Inr (u, db') \<Longrightarrow> tenant_op lx t db db'"
| op_hours_create: "working_hours_create (tenant_tx t) i now staffId wd db = Inr (wh, db') \<Longrightarrow> tenant_op lx t db db'"
| op_hours_remove: "working_hours_remove (tenant_tx t) i db = Inr (u, db') \<Longrightarrow> tenant_op lx t db db'"
| op_time_off_create: "time_off_create (tenant_tx t) i now staffId td db = Inr (to, db') \<Longrightarrow> tenant_op lx t db db'"
| op_time_off_remove: "time_off_remove (tenant_tx t) i db = Inr (u, db') \<Longrightarrow> tenant_op lx t db db'"
| op_booking_create: "booking_create sha256 jsonb toPlain (tenant_tx t) kid i ev now key body dto db = Inr (rr, db') \<Longrightarrow> tenant_op lx t db db'"
| op_transition: "transition (tenant_tx t) ev now i v st db = Inr (b, db') \<Longrightarrow> tenant_op lx t db db'"
| op_reschedule: "reschedule (tenant_tx t) ev now i rdto ifMatch db = Inr (b, db') \<Longrightarrow> tenant_op lx t db db'"
| op_recurrence_create: "recurrence_create lx (tenant_tx t) rid bid evid now rd g db = Inr (res, db') \<Longrightarrow> tenant_op lx t db db'"
| op_cancelSeries: "cancelSeries (tenant_tx t) gen js_now now rid db = Inr (n, db') \<Longrightarrow> tenant_op lx t db db'"
| op_webhook_create: "webhook_create parse (tenant_tx t) i now secret url db = Inr (we, db') \<Longrightarrow> tenant_op lx t db db'"
| op_webhook_remove: "webhook_remove (tenant_tx t) now i db = Inr (u, db') \<Longrightarrow> tenant_op lx t db db'"
| op_subscribe: "subscribe env (tenant_tx t) nonce i now planId p g db = Inr (sc, db') \<Longrightarrow> tenant_op lx t db db'"
| op_payment_event: "apply_event i now p e ty ref (tenant_tx t) db = Inr (u, db') \<Longrightarrow> tenant_op lx t db db'"

inductive_cases tenant_opE: "tenant_op lx t db db'"

lemmas operation_safes =
  catalog_safe directory_safe webhook_safe subscribe_safe booking_safe booking_create_safe
  recurrence_create_safe apply_event_safe

lemma tenant_op_safe: "tenant_op lx t db db' \<Longrightarrow> db_safe t db db'"
  by (induction rule: tenant_op.induct) (erule operation_safes [THEN effectsD])+

text \<open>One step of the whole system.\<close>
inductive system_step ::
  "'d luxon \<Rightarrow> (outbox_event \<Rightarrow> 'q \<Rightarrow> bool \<times> 'q) \<Rightarrow> tdb \<Rightarrow> tdb \<Rightarrow> bool"
  for lx :: "'d luxon" and dispatch :: "outbox_event \<Rightarrow> 'q \<Rightarrow> bool \<times> 'q" where
  step_tenant: "t \<noteq> [] \<Longrightarrow> tenant_op lx t db db' \<Longrightarrow> system_step lx dispatch db db'"
| step_relay: "processBatch dispatch clk now locked batchSize q (outbox_events db) = (n, q', rows) \<Longrightarrow>
     system_step lx dispatch db (db\<lparr>outbox_events := rows\<rparr>)"

inductive system_reach :: "'d luxon \<Rightarrow> (outbox_event \<Rightarrow> 'q \<Rightarrow> bool \<times> 'q) \<Rightarrow> tdb \<Rightarrow> bool"
  for lx :: "'d luxon" and dispatch :: "outbox_event \<Rightarrow> 'q \<Rightarrow> bool \<times> 'q" where
  reach_start: "system_reach lx dispatch empty_tdb"
| reach_step: "system_reach lx dispatch db \<Longrightarrow> system_step lx dispatch db db' \<Longrightarrow> system_reach lx dispatch db'"

section \<open>Well-formed data\<close>

text \<open>Services obey their DTO's bounds and every booking has a range.\<close>
definition data_ok :: "tdb \<Rightarrow> bool" where
  "data_ok db \<longleftrightarrow> services_wf db \<and> list_all (\<lambda>b. bk_startsAt b < bk_endsAt b) (bookings db)"

definition keeps_data :: "tdb \<Rightarrow> tdb \<Rightarrow> bool" where
  "keeps_data db db' \<longleftrightarrow> services db' = services db \<and> bookings db' = bookings db"

lemma keeps_data_transp: "transp keeps_data"
  by (rule transpI) (simp add: keeps_data_def)

lemma keeps_data_tables [intro]:
  "keeps_data db db" "keeps_data db (db\<lparr>customers := r1\<rparr>)" "keeps_data db (db\<lparr>staff_tbl := r2\<rparr>)"
  "keeps_data db (db\<lparr>staff_services := r3\<rparr>)" "keeps_data db (db\<lparr>working_hours := r4\<rparr>)"
  "keeps_data db (db\<lparr>time_off := r5\<rparr>)" "keeps_data db (db\<lparr>subscriptions := r6\<rparr>)"
  "keeps_data db (db\<lparr>webhook_endpoints := r7\<rparr>)" "keeps_data db (db\<lparr>webhook_receipts := r8\<rparr>)"
  "keeps_data db (db\<lparr>outbox_events := r9\<rparr>)" "keeps_data db (db\<lparr>recurrences := r10\<rparr>)"
  by (simp_all add: keeps_data_def)

lemmas keep_write = effects_write [OF keeps_data_transp]

lemma operation_keeps:
  "effects keeps_data db (customer_create c i now cc db)"
  "effects keeps_data db (staff_create c i now sd g db)"
  "effects keeps_data db (staff_update c i su db)"
  "effects keeps_data db (staff_remove c now i db)"
  "effects keeps_data db (link c i now st sv db)"
  "effects keeps_data db (unlink c st sv db)"
  "effects keeps_data db (working_hours_create c i now st wd db)"
  "effects keeps_data db (working_hours_remove c i db)"
  "effects keeps_data db (time_off_create c i now st td db)"
  "effects keeps_data db (time_off_remove c i db)"
  "effects keeps_data db (webhook_create parse c i now secret url db)"
  "effects keeps_data db (webhook_remove c now i db)"
  unfolding customer_create_def staff_create_def staff_update_def staff_repo_update_def staff_remove_def
    staff_softRemove_def link_def unlink_def capability_repo_unlink_def working_hours_create_def
    working_hours_remove_def working_hours_repo_remove_def time_off_create_def time_off_remove_def
    time_off_repo_remove_def webhook_create_def webhook_remove_def webhook_repo_remove_def
  by (auto simp: effects_def Let_def keeps_data_def rls_delete_def result_simps split: sum.splits option.splits if_splits prod.splits)

lemma subscribe_keeps: "effects keeps_data db (subscribe env (tenant_tx t) nonce i now planId p g db)"
proof -
  have "effects keeps_data db (subscription_create (tenant_tx t) r db)" for r
    unfolding subscription_create_def by (intro safe_intros safe_read) auto
  then show ?thesis unfolding subscribe_def
    by (intro safe_read safe_Let safe_mapErr) (auto intro!: safe_Inr intro: effectsD)
qed

lemma apply_event_keeps:
  assumes "apply_event i now p e ty r (tenant_tx t) db = Inr (u, db')"
  shows "keeps_data db db'"
  using assms
proof (cases rule: apply_event_cases)
  case noted
  then show ?thesis by (auto simp: claimEvent_def keeps_data_def split: sum.splits)
next
  case (applied s db1)
  then show ?thesis using subscription_updateStatus_tx(1) [OF applied(4)]
    by (auto simp: claimEvent_def keeps_data_def split: sum.splits)
qed auto

text \<open>Operations that touch bookings but no service.\<close>
definition books :: "tdb \<Rightarrow> tdb \<Rightarrow> bool" where
  "books db db' \<longleftrightarrow> services db' = services db \<and>
     (list_all (\<lambda>b. bk_startsAt b < bk_endsAt b) (bookings db) \<longrightarrow> list_all (\<lambda>b. bk_startsAt b < bk_endsAt b) (bookings db'))"

lemma books_transp: "transp books"
  by (rule transpI) (simp add: books_def)

lemma books_data: "books db db' \<Longrightarrow> data_ok db \<Longrightarrow> data_ok db'"
  by (simp add: books_def data_ok_def services_wf_def)

lemma keeps_books: "keeps_data db db' \<Longrightarrow> books db db'"
  by (simp add: keeps_data_def books_def)

lemma booking_effect_ranges:
  assumes "booking_effect t db db'" "list_all (\<lambda>b. bk_startsAt b < bk_endsAt b) (bookings db)"
  shows "list_all (\<lambda>b. bk_startsAt b < bk_endsAt b) (bookings db')"
proof -
  obtain rows new where r: "bookings db' = rows @ new" "list_all2 (row_evolves t) (bookings db) rows"
      "list_all (fresh_booking t) new"
    using assms(1) by (auto simp: booking_effect_def)
  from r(2) assms(2) have "list_all (\<lambda>b. bk_startsAt b < bk_endsAt b) rows"
    by (induction rule: list_all2_induct) (auto simp: row_evolves_def set_status_def set_slot_def)
  moreover have "list_all (\<lambda>b. bk_startsAt b < bk_endsAt b) new"
    using r(3) by (auto simp: list_all_iff fresh_booking_def)
  ultimately show ?thesis using r(1) by simp
qed

lemma booking_frame_services: "booking_frame db db' \<Longrightarrow> services db' = services db"
  unfolding booking_frame_def by (cases db; cases db') simp

lemma booking_step_books:
  assumes "booking_step t db db'" "t \<noteq> []" "services_wf db" "sat_all bookings_cs (bookings db)"
  shows "books db db'"
proof -
  note e = booking_step_effect [OF assms]
  have "services db' = services db" using e by (metis booking_frame_services)
  then show ?thesis using e booking_effect_ranges unfolding books_def by blast
qed

lemma emit_keeps: "effects keeps_data db (emit c ev now b ty db)"
  unfolding emit_def outbox_record_def by (intro safe_intros safe_read) auto

lemma createOccurrence_books:
  assumes "\<And>s e. bd_startsAt spec = Some s \<Longrightarrow> bd_endsAt spec = Some e \<Longrightarrow> s < e"
  shows "effects books db (createOccurrence c i ev now spec rid db)"
proof -
  have b: "effects books db (booking_repo_create c i now (spec\<lparr>bd_recurrenceId := Some rid\<rparr>) db)"
    unfolding booking_repo_create_def using assms
    by (auto simp: effects_def books_def persist_def booking_row_def Let_def result_simps
        split: sum.splits option.splits if_splits dest!: insert_checked_eq)
  have em: "effects books db (emit c ev now x ty db)" for x ty db
    using emit_keeps [of db c ev now x ty] by (auto simp: effects_def keeps_books split: sum.splits)
  show ?thesis unfolding createOccurrence_def
    by (rule effects_write [OF books_transp b], clarsimp, rule effects_write [OF books_transp em]) (auto intro: safe_Inr simp: books_def)
qed

lemma recurrence_createOne_id:
  "recurrence_createOne c (recurrence_of_dto i now d tz) db = Inr (r, db') \<Longrightarrow> e_id r = i"
  by (auto simp: recurrence_createOne_def recurrence_of_dto_def persist_def Let_def result_simps
      split: if_splits dest!: insert_checked_eq)

text \<open>
  A series is its rule and its occurrences: a committed creation passed the checks, wrote the rule and then
  did what its occurrences do.
\<close>
lemma recurrence_create_run:
  assumes R: "transp R" "\<And>db. R db db"
    and occ: "\<And>i ev spec db. bd_staffId spec = cr_staffId d \<Longrightarrow> bd_serviceId spec = cr_serviceId d \<Longrightarrow>
      bd_customerId spec = cr_customerId d \<Longrightarrow>
      (\<And>s e. bd_startsAt spec = Some s \<Longrightarrow> bd_endsAt spec = Some e \<Longrightarrow> s < e) \<Longrightarrow>
      effects R db (createOccurrence (tenant_tx t) i ev now spec rid db)"
    and wf: "services_wf db"
    and ok: "recurrence_create lx (tenant_tx t) rid bid evid now d g db = Inr (res, db')"
  obtains sv cu tz r db1 where "service_getById (tenant_tx t) (cr_serviceId d) db = Inr sv"
    "canPerform (tenant_tx t) (cr_staffId d) (cr_serviceId d) db = Inr True"
    "customer_getById (tenant_tx t) (cr_customerId d) db = Inr cu"
    "recurrence_createOne (tenant_tx t) (recurrence_of_dto rid now d tz) db = Inr (r, db1)" "R db1 db'"
proof -
  note wr = effects_write [OF R(1)]
  have len: "0 < svc_durationMin sv * MINUTE_MS" if "service_getById (tenant_tx t) i db = Inr sv" for i sv
    using that wf
    by (auto simp: service_getById_def service_findById_def findOne_def scopedWhere_def getTenantId_def tenant_tx_def
        result_simps services_wf_def list_all_iff service_wf_def between_def MINUTE_MS_val
        split: if_splits dest!: find_Some_mem)
  have occ: "effects R db (createOccurrence (tenant_tx t) i ev now (occurrence_spec d sv s) rid db)"
    if "0 < svc_durationMin sv * MINUTE_MS" for i ev sv s db
    by (rule occ) (use that in \<open>auto simp: occurrence_spec_def js_add_minutes_def\<close>)
  have all: "effects R db (allOrNothing_loop (tenant_tx t) bid evid now (occurrence_spec d sv) rid k occs created db)"
    if l: "0 < svc_durationMin sv * MINUTE_MS" for sv k occs created db
  proof (induction occs arbitrary: k created db)
    case Nil
    then show ?case by (auto intro: safe_Inr R(2))
  next
    case (Cons s occs)
    show ?case by (simp, rule wr [OF occ [OF l]]) (auto intro!: safe_read Cons.IH)
  qed
  have skip: "effects R db (skipConflicts_loop (tenant_tx t) bid evid now (occurrence_spec d sv) rid k occs created skipped db)"
    if l: "0 < svc_durationMin sv * MINUTE_MS" for sv k occs created skipped db
  proof (induction occs arbitrary: k created skipped db)
    case Nil
    then show ?case by (auto intro: safe_Inr R(2))
  next
    case (Cons s occs)
    let ?r = "bindE (createOccurrence (tenant_tx t) (bid k) (evid k) now (occurrence_spec d sv s) rid db)
        (\<lambda>(_, db1). bindE (js_toISOString s) (\<lambda>x. Inr (x, db1)))"
    have one: "effects R db ?r"
      by (rule wr [OF occ [OF l]]) (auto intro!: safe_read safe_Inr R(2))
    show ?case
    proof (cases ?r)
      case (Inl e)
      then show ?thesis by (auto intro!: safe_read safe_Inl Cons.IH)
    next
      case (Inr p)
      then obtain x db1 where p: "?r = Inr (x, db1)" by (cases p) simp
      have "R db db1" by (rule effectsD [OF one p])
      then show ?thesis using Cons.IH [of db1 "Suc k" "created @ [x]" skipped] p
        by (simp add: effects_def split: sum.splits) (blast intro: transpD [OF R(1)])
    qed
  qed
  have run: "effects R db1 (if p then allOrNothing (tenant_tx t) bid evid now (occurrence_spec d sv) rid occs db1
      else skipConflicts (tenant_tx t) bid evid now (occurrence_spec d sv) rid occs db1)"
    if l: "0 < svc_durationMin sv * MINUTE_MS" for p sv occs db1
    unfolding allOrNothing_def skipConflicts_def
    by (intro safe_if wr [OF all [OF l]]) (auto intro!: safe_Inr safe_intros skip [OF l] R(2))
  obtain sv cu tz r db1 occs cs where c: "service_getById (tenant_tx t) (cr_serviceId d) db = Inr sv"
      "canPerform (tenant_tx t) (cr_staffId d) (cr_serviceId d) db = Inr True"
      "customer_getById (tenant_tx t) (cr_customerId d) db = Inr cu"
      "recurrence_createOne (tenant_tx t) (recurrence_of_dto rid now d tz) db = Inr (r, db1)"
      "(if or_default Skip_Conflicts (cr_conflictPolicy d) = All_Or_Nothing
        then allOrNothing (tenant_tx t) bid evid now (occurrence_spec d sv) (e_id r) occs db1
        else skipConflicts (tenant_tx t) bid evid now (occurrence_spec d sv) (e_id r) occs db1) = Inr (cs, db')"
    using ok unfolding recurrence_create_def Let_def
    by (clarsimp simp only: bindE_eq_Inr guardE_eq split_paired_Ex prod.case sum.inject prod.inject simp_thms)
  have "R db1 db'" using run [OF len [OF c(1)]] c(5) unfolding recurrence_createOne_id [OF c(4)] by (rule effectsD)
  with c(1-4) show thesis by (rule that)
qed

lemma recurrence_create_effects:
  assumes R: "transp R" "\<And>db. R db db"
    and row: "\<And>tz. effects R db (recurrence_createOne (tenant_tx t) (recurrence_of_dto rid now d tz) db)"
    and occ: "\<And>i ev spec db. bd_staffId spec = cr_staffId d \<Longrightarrow> bd_serviceId spec = cr_serviceId d \<Longrightarrow>
      bd_customerId spec = cr_customerId d \<Longrightarrow>
      (\<And>s e. bd_startsAt spec = Some s \<Longrightarrow> bd_endsAt spec = Some e \<Longrightarrow> s < e) \<Longrightarrow>
      effects R db (createOccurrence (tenant_tx t) i ev now spec rid db)"
    and wf: "services_wf db"
  shows "effects R db (recurrence_create lx (tenant_tx t) rid bid evid now d g db)"
proof (cases "recurrence_create lx (tenant_tx t) rid bid evid now d g db")
  case (Inr p)
  then obtain res db' where p: "recurrence_create lx (tenant_tx t) rid bid evid now d g db = Inr (res, db')"
    by (cases p) simp
  obtain tz r db1 where "recurrence_createOne (tenant_tx t) (recurrence_of_dto rid now d tz) db = Inr (r, db1)" "R db1 db'"
    by (rule recurrence_create_run [OF R occ wf p])
  then have "R db db'" using effectsD [OF row] transpD [OF R(1)] by blast
  then show ?thesis by (simp add: p effects_def)
qed (simp add: effects_def)

lemma recurrence_createOne_row:
  "(\<And>rows. R db (db\<lparr>recurrences := rows\<rparr>)) \<Longrightarrow> effects R db (recurrence_createOne c r db)"
  unfolding recurrence_createOne_def by (intro safe_read) (auto intro!: safe_Inr)

lemma recurrence_create_books:
  "services_wf db \<Longrightarrow> effects books db (recurrence_create lx (tenant_tx t) rid bid evid now d g db)"
  by (rule recurrence_create_effects [OF books_transp _ recurrence_createOne_row createOccurrence_books]) (auto simp: books_def)

lemma tenant_op_data:
  assumes "tenant_op lx t db db'" "t \<noteq> []" "data_ok db" "tdb_ok db"
  shows "data_ok db'"
proof -
  have wf: "services_wf db" and sat: "sat_all bookings_cs (bookings db)"
    using assms(3,4) by (simp_all add: data_ok_def tdb_ok_def)
  note booking = booking_step_books [OF _ assms(2) wf sat]
  have keep: "data_ok db'" if "keeps_data db db'" using that assms(3) by (simp add: keeps_data_def data_ok_def services_wf_def)
  have bk: "data_ok db'" if "books db db'" using that assms(3) by (rule books_data)
  have services: "data_ok db'" if "services_wf db'" "bookings db' = bookings db"
    using that assms(3) by (simp add: data_ok_def)
  from assms(1) show ?thesis
  proof cases
    case (op_service_create cd i now sv)
    have "bookings db' = bookings db" using op_service_create(2)
      by (auto simp: service_create_def result_simps split: if_splits)
    with service_create_wf [OF op_service_create(1) wf op_service_create(2)] show ?thesis by (rule services)
  next
    case (op_service_update ud i sv)
    have "bookings db' = bookings db" using op_service_update(2)
      by (auto simp: service_update_def service_repo_update_def Let_def result_simps split: if_splits)
    with service_update_wf [OF op_service_update(1) wf op_service_update(2)] show ?thesis by (rule services)
  next
    case (op_service_remove now i u)
    have "bookings db' = bookings db" "services_wf db'" using op_service_remove(1) wf
      by (auto simp: service_remove_def service_softRemove_def services_wf_def service_wf_def list_all_iff rls_update_def Let_def result_simps
          split: if_splits dest!: update_checked_eq simp: update_where_def)
    then show ?thesis by (intro services)
  next
    case (op_booking_create sha256 jsonb toPlain kid i ev now key body dto rr)
    then show ?thesis by (intro bk booking) (rule booking_step.requested)
  next
    case (op_transition ev now i v st b)
    then show ?thesis by (intro bk booking) (rule booking_step.moved)
  next
    case (op_reschedule ev now i rdto ifMatch b)
    then show ?thesis by (intro bk booking) (rule booking_step.rescheduled)
  next
    case (op_cancelSeries gen js_now now rid n)
    then show ?thesis by (intro bk booking) (rule booking_step.series_cancelled)
  next
    case (op_recurrence_create rid bid evid now rd g res)
    then show ?thesis by (intro bk effectsD [OF recurrence_create_books [OF wf]])
  next
    case (op_subscribe env nonce i now planId p g sc)
    then show ?thesis by (intro keep effectsD [OF subscribe_keeps])
  next
    case (op_payment_event i now p e ty ref u)
    then show ?thesis by (intro keep) (rule apply_event_keeps)
  qed (rule keep, erule operation_keeps [THEN effectsD])+
qed

lemma process_events_ids:
  "process_events dispatch clk evs q rows n = (m, q', rows') \<Longrightarrow> map e_id rows' = map e_id rows"
proof (induction evs arbitrary: q rows n)
  case (Cons ev evs)
  have ids: "map e_id (update_where p f rows) = map e_id rows" if "\<And>e. e_id (f e) = e_id e"
    for p and f :: "outbox_event \<Rightarrow> outbox_event" and rows
    using that by (simp add: update_where_def)
  from Cons show ?case
    by (auto simp: markDispatched_def markFailed_def ids Let_def split: prod.splits if_splits)
qed simp

lemma outbox_sat_ids: "sat_all outbox_cs rows \<longleftrightarrow> distinct (map e_id rows)"
  by (auto simp: sat_all_def outbox_cs_def not_violates_nth pk_conflict_def distinct_conv_nth) (metis nat_neq_iff)+

lemma relay_step:
  assumes "processBatch dispatch clk now locked batchSize q (outbox_events db) = (n, q', rows)"
  shows "tdb_ok db \<Longrightarrow> tdb_ok (db\<lparr>outbox_events := rows\<rparr>)" "data_ok db \<Longrightarrow> data_ok (db\<lparr>outbox_events := rows\<rparr>)"
  using process_events_ids [OF assms [unfolded processBatch_def]]
  by (simp_all add: tdb_ok_def outbox_sat_ids data_ok_def services_wf_def)

lemma system_reach_ok: "system_reach lx dispatch db \<Longrightarrow> tdb_ok db \<and> data_ok db"
proof (induction rule: system_reach.induct)
  case reach_start
  then show ?case by (simp add: tdb_ok_empty data_ok_def services_wf_def) (simp add: empty_tdb_def)
next
  case (reach_step db db')
  from reach_step.hyps(2) show ?case
  proof cases
    case (step_tenant t)
    then show ?thesis using tenant_op_data [OF step_tenant(2,1)] tenant_op_safe [OF step_tenant(2)] reach_step.IH
      by (simp add: db_safe_def)
  next
    case (step_relay clk now locked batchSize q n q' rows)
    then show ?thesis using relay_step [OF step_relay(2)] reach_step.IH by simp
  qed
qed

section \<open>What a tenant can see\<close>

definition same_view :: "uuid \<Rightarrow> tdb \<Rightarrow> tdb \<Rightarrow> bool" where
  "same_view t db db' \<longleftrightarrow>
     own_rows t (services db) = own_rows t (services db') \<and>
     own_rows t (customers db) = own_rows t (customers db') \<and>
     own_rows t (staff_tbl db) = own_rows t (staff_tbl db') \<and>
     own_rows t (staff_services db) = own_rows t (staff_services db') \<and>
     own_rows t (working_hours db) = own_rows t (working_hours db') \<and>
     own_rows t (time_off db) = own_rows t (time_off db') \<and>
     own_rows t (bookings db) = own_rows t (bookings db') \<and>
     own_rows t (subscriptions db) = own_rows t (subscriptions db') \<and>
     own_rows t (webhook_endpoints db) = own_rows t (webhook_endpoints db') \<and>
     own_rows t (idempotency_keys db) = own_rows t (idempotency_keys db')"

lemma view_reads:
  assumes "same_view t db db'"
  shows
    "findOne (tenant_tx t) p0 (services db) = findOne (tenant_tx t) p0 (services db')"
    "findMany (tenant_tx t) q0 (services db) = findMany (tenant_tx t) q0 (services db')"
    "findOne (tenant_tx t) p1 (customers db) = findOne (tenant_tx t) p1 (customers db')"
    "findMany (tenant_tx t) q1 (customers db) = findMany (tenant_tx t) q1 (customers db')"
    "findOne (tenant_tx t) p2 (staff_tbl db) = findOne (tenant_tx t) p2 (staff_tbl db')"
    "findMany (tenant_tx t) q2 (staff_tbl db) = findMany (tenant_tx t) q2 (staff_tbl db')"
    "findOne (tenant_tx t) p3 (staff_services db) = findOne (tenant_tx t) p3 (staff_services db')"
    "findMany (tenant_tx t) q3 (staff_services db) = findMany (tenant_tx t) q3 (staff_services db')"
    "findOne (tenant_tx t) p4 (working_hours db) = findOne (tenant_tx t) p4 (working_hours db')"
    "findMany (tenant_tx t) q4 (working_hours db) = findMany (tenant_tx t) q4 (working_hours db')"
    "findOne (tenant_tx t) p5 (time_off db) = findOne (tenant_tx t) p5 (time_off db')"
    "findMany (tenant_tx t) q5 (time_off db) = findMany (tenant_tx t) q5 (time_off db')"
    "findOne (tenant_tx t) p6 (bookings db) = findOne (tenant_tx t) p6 (bookings db')"
    "findMany (tenant_tx t) q6 (bookings db) = findMany (tenant_tx t) q6 (bookings db')"
    "findOne (tenant_tx t) p7 (subscriptions db) = findOne (tenant_tx t) p7 (subscriptions db')"
    "findMany (tenant_tx t) q7 (subscriptions db) = findMany (tenant_tx t) q7 (subscriptions db')"
    "findOne (tenant_tx t) p8 (webhook_endpoints db) = findOne (tenant_tx t) p8 (webhook_endpoints db')"
    "findMany (tenant_tx t) q8 (webhook_endpoints db) = findMany (tenant_tx t) q8 (webhook_endpoints db')"
    "findOne (tenant_tx t) p9 (idempotency_keys db) = findOne (tenant_tx t) p9 (idempotency_keys db')"
  using assms unfolding same_view_def
  by (auto intro: findOne_own [of _ t] findMany_own [of _ t])

lemma find_own:
  assumes "same_view t db db'"
  shows "service_getById (tenant_tx t) i db = service_getById (tenant_tx t) i db'"
    "customer_getById (tenant_tx t) i db = customer_getById (tenant_tx t) i db'"
    "staff_findById (tenant_tx t) i db = staff_findById (tenant_tx t) i db'"
    "booking_getOrThrow (tenant_tx t) i db = booking_getOrThrow (tenant_tx t) i db'"
    "canPerform (tenant_tx t) i j db = canPerform (tenant_tx t) i j db'"
    "capableStaffIds (tenant_tx t) i db = capableStaffIds (tenant_tx t) i db'"
    "forStaffWeekday (tenant_tx t) i wd db = forStaffWeekday (tenant_tx t) i wd db'"
    "buildBlockers (tenant_tx t) i ds de b a db = buildBlockers (tenant_tx t) i ds de b a db'"
  unfolding service_getById_def service_findById_def customer_getById_def staff_findById_def booking_getOrThrow_def
    booking_findById_def canPerform_def capability_findLink_def capableStaffIds_def capability_findByService_def
    forStaffWeekday_def buildBlockers_def time_off_overlapping_def findActiveForStaffBetween_def
  by (simp_all only: view_reads [OF assms])

text \<open>The reads through \<open>findOne\<close> and \<open>findMany\<close>, and the computation of the slots.\<close>
lemma view_answers:
  assumes "same_view t db db'"
  shows "service_getById (tenant_tx t) i db = service_getById (tenant_tx t) i db' \<and>
    service_paginate so (tenant_tx t) q db = service_paginate so (tenant_tx t) q db' \<and>
    customer_getById (tenant_tx t) i db = customer_getById (tenant_tx t) i db' \<and>
    customer_paginate co (tenant_tx t) q db = customer_paginate co (tenant_tx t) q db' \<and>
    staff_getById (tenant_tx t) i db = staff_getById (tenant_tx t) i db' \<and>
    staff_list sto (tenant_tx t) q db = staff_list sto (tenant_tx t) q db' \<and>
    capability_list (tenant_tx t) i db = capability_list (tenant_tx t) i db' \<and>
    working_hours_list (tenant_tx t) i db = working_hours_list (tenant_tx t) i db' \<and>
    time_off_list (tenant_tx t) i db = time_off_list (tenant_tx t) i db' \<and>
    booking_get (tenant_tx t) i db = booking_get (tenant_tx t) i db' \<and>
    compute zl (tenant_tx t) aq g db = compute zl (tenant_tx t) aq g db' \<and>
    webhook_list (tenant_tx t) db = webhook_list (tenant_tx t) db' \<and>
    idem_replay (tenant_tx t) k h db = idem_replay (tenant_tx t) k h db'"
proof -
  note f = find_own [OF assms]
  have "staff_slots zl (tenant_tx t) aq sv zone db = staff_slots zl (tenant_tx t) aq sv zone db'" for sv zone
    by (intro ext) (simp only: staff_slots_def f)
  then have "compute zl (tenant_tx t) aq g db = compute zl (tenant_tx t) aq g db'"
    unfolding compute_def f by (simp only:)
  moreover have "service_paginate so (tenant_tx t) q db = service_paginate so (tenant_tx t) q db'"
    "customer_paginate co (tenant_tx t) q db = customer_paginate co (tenant_tx t) q db'"
    "staff_list sto (tenant_tx t) q db = staff_list sto (tenant_tx t) q db'"
    "capability_list (tenant_tx t) i db = capability_list (tenant_tx t) i db'"
    "working_hours_list (tenant_tx t) i db = working_hours_list (tenant_tx t) i db'"
    "time_off_list (tenant_tx t) i db = time_off_list (tenant_tx t) i db'"
    "webhook_list (tenant_tx t) db = webhook_list (tenant_tx t) db'"
    unfolding service_paginate_def customer_paginate_def staff_list_def findAndCount_def
      capability_list_def working_hours_list_def time_off_list_def webhook_list_def
    by (simp_all only: view_reads [OF assms])
  moreover have "idem_replay (tenant_tx t) k h db = idem_replay (tenant_tx t) k h db'"
    unfolding idem_replay_def idem_findByKey_def by (simp only: view_reads [OF assms])
  ultimately show ?thesis by (simp add: f booking_get_def staff_getById_def)
qed

text \<open>The reads with a query of their own: the latest subscription and the reports' base query.\<close>
lemma filter_own:
  assumes "own_rows t rows = own_rows t rows'" "\<And>r. p r \<Longrightarrow> e_tenantId r = t"
  shows "filter p rows = filter p rows'"
proof -
  have "filter p xs = filter p (own_rows t xs)" for xs
    unfolding own_rows_def filter_filter using assms(2) by (intro filter_cong) auto
  then show ?thesis using assms(1) by metis
qed

lemma subscription_findActive_own:
  assumes "own_rows t (subscriptions db) = own_rows t (subscriptions db')"
  shows "subscription_findActive (tenant_tx t) db = subscription_findActive (tenant_tx t) db'"
proof -
  have "filter (\<lambda>s. rls_visible (repo_manager (tenant_tx t)) s \<and> live s \<and> e_tenantId s = t) (subscriptions db) =
      filter (\<lambda>s. rls_visible (repo_manager (tenant_tx t)) s \<and> live s \<and> e_tenantId s = t) (subscriptions db')"
    using assms by (rule filter_own) simp
  then show ?thesis by (simp add: subscription_findActive_def getTenantId_def tenant_tx_def)
qed

section \<open>Properties\<close>

text \<open>
  C5. Tenants are isolated in what they write: whatever operation of a tenant commits, its requests and
  the payment events addressed to it, no row of another tenant is created, changed or removed in any
  tenant table.
\<close>
theorem tenant_isolation:
  assumes "tenant_op lx t db db'"
  shows "foreign_unchanged t db db'"
  using tenant_op_safe [OF assms] by (simp add: db_safe_def)

theorem tenant_isolation_witness: "foreign_unchanged ''t1'' sample_db sample_confirmed"
  using tenant_isolation [OF op_transition [where lx = sample_luxon, OF sample_confirm]] .

text \<open>
  C2. Every reachable database is consistent: starting empty, after any sequence of tenant operations (of
  any tenants), payment events and relay batches, all unique and exclusion constraints hold, every
  service obeys its bounds, and no two active bookings of one staff member overlap in time.
\<close>
theorem system_consistent:
  assumes "system_reach lx dispatch db"
  shows "tdb_ok db \<and> services_wf db \<and>
    sorted_wrt (\<lambda>a b. \<not> (booking_occupies a \<and> booking_occupies b \<and> e_tenantId a = e_tenantId b \<and>
        bk_staffId a = bk_staffId b \<and> bk_startsAt a < bk_endsAt b \<and> bk_startsAt b < bk_endsAt a)) (bookings db)"
proof -
  have ok: "tdb_ok db" "data_ok db" using system_reach_ok [OF assms] by simp_all
  have "\<not> violates booking_conflict (bookings db)"
    using ok(1) sat_allD [of bookings_cs "bookings db" exclusion_violation booking_conflict]
    by (simp add: tdb_ok_def bookings_cs_def)
  then have "sorted_wrt (\<lambda>a b. \<not> booking_conflict a b) (bookings db)" by (simp add: violates_def)
  then have "sorted_wrt (\<lambda>a b. \<not> (booking_occupies a \<and> booking_occupies b \<and> e_tenantId a = e_tenantId b \<and>
        bk_staffId a = bk_staffId b \<and> bk_startsAt a < bk_endsAt b \<and> bk_startsAt b < bk_endsAt a)) (bookings db)"
    by (rule sorted_wrt_mono_rel [rotated])
      (use ok(2) in \<open>auto simp: booking_conflict_def range_overlap_def data_ok_def list_all_iff\<close>)
  then show ?thesis using ok by (simp add: data_ok_def)
qed

definition sample_new_service :: create_service_dto where
  "sample_new_service =
     \<lparr>cs_name = ''Cut'', cs_durationMin = 30, cs_priceAmount = 100, cs_priceCurrency = None,
      cs_bufferBeforeMin = None, cs_bufferAfterMin = None\<rparr>"

theorem system_consistent_witness:
  "\<exists>db. system_reach sample_luxon (\<lambda>e q. (True, q :: unit)) db \<and> services db \<noteq> [] \<and> tdb_ok db \<and> services_wf db"
proof -
  let ?row = "service_of_dto ''sv1'' 0 sample_new_service\<lparr>e_tenantId := ''t1''\<rparr>"
  have "service_create (tenant_tx ''t1'') ''sv1'' 0 sample_new_service empty_tdb = Inr (?row, empty_tdb\<lparr>services := [?row]\<rparr>)"
    by (simp add: service_create_def sample_new_service_def int4_def empty_tdb_def insert_checked_def services_cs_def)
  moreover have "valid_create_service sample_new_service" by code_simp
  ultimately have "tenant_op sample_luxon ''t1'' empty_tdb (empty_tdb\<lparr>services := [?row]\<rparr>)"
    by (intro op_service_create)
  then have "system_reach sample_luxon (\<lambda>e q. (True, q :: unit)) (empty_tdb\<lparr>services := [?row]\<rparr>)"
    by (intro reach_step [OF reach_start] step_tenant) simp_all
  from system_consistent [OF this] this show ?thesis
    by (intro exI [of _ "empty_tdb\<lparr>services := [?row]\<rparr>"]) simp
qed

end
