(* ===== verification/Announcements.thy ===== *)
theory Announcements
  imports "HOL-Library.Multiset" System
begin

text \<open>
  From a booking to its announcement: the tenants' operations, the outbox relay, the job queues of
  \<open>src/jobs/queues\<close> and the two workers of \<open>src/jobs/workers\<close> as one system. The properties say to whom a
  worker can ever send something about a booking, and that one tick of the relay enqueues every due event
  exactly once.
\<close>

section \<open>The jobs of a system\<close>

text \<open>
  \<open>q\<close> holds the jobs BullMQ may still hand to a worker. \<open>del_worker\<close> is a completed job that is removed
  or a failed one that stays: the workers read the tables and write none.
\<close>
inductive delivery_reach ::
  "'d luxon \<Rightarrow> (queued_job \<Rightarrow> string \<Rightarrow> queued_job list \<Rightarrow> bool \<times> queued_job list) \<Rightarrow> tdb \<Rightarrow> queued_job list \<Rightarrow> bool"
  for lx :: "'d luxon" and add :: "queued_job \<Rightarrow> string \<Rightarrow> queued_job list \<Rightarrow> bool \<times> queued_job list" where
  del_start: "delivery_reach lx add empty_tdb []"
| del_tenant: "delivery_reach lx add db q \<Longrightarrow> t \<noteq> [] \<Longrightarrow> tenant_op lx t db db' \<Longrightarrow> delivery_reach lx add db' q"
| del_relay: "delivery_reach lx add db q \<Longrightarrow>
     processBatch (relay_dispatch add) clk now locked batchSize q (outbox_events db) = (n, q', rows) \<Longrightarrow>
     delivery_reach lx add (db\<lparr>outbox_events := rows\<rparr>) q'"
| del_worker: "delivery_reach lx add db q \<Longrightarrow> set q' \<subseteq> set q \<Longrightarrow> delivery_reach lx add db q'"

lemma delivery_reach_system: "delivery_reach lx add db q \<Longrightarrow> system_reach lx (relay_dispatch add) db"
proof (induction rule: delivery_reach.induct)
  case del_start
  show ?case by (rule reach_start)
next
  case (del_tenant db q t db')
  then show ?case by (blast intro: reach_step step_tenant)
next
  case (del_relay db q clk now locked batchSize n q' rows)
  then show ?case by (blast intro: reach_step step_relay)
qed

section \<open>What an event says\<close>

text \<open>The event names the booking, its customer and its tenant.\<close>
definition about :: "booking \<Rightarrow> outbox_event \<Rightarrow> bool" where
  "about b e \<longleftrightarrow>
     e_tenantId b \<noteq> [] \<and> e_tenantId e = e_tenantId b \<and> ob_aggregateId e = e_id b \<and>
     json_member (ob_payload e) ''bookingId'' = Some (JStr (e_id b)) \<and>
     json_member (ob_payload e) ''customerId'' = Some (JStr (bk_customerId b))"

definition subject :: "booking \<Rightarrow> uuid \<times> uuid \<times> uuid" where
  "subject b = (e_tenantId b, e_id b, bk_customerId b)"

lemma about_subject: "subject b = subject b' \<Longrightarrow> about b e = about b' e"
  by (simp add: about_def subject_def)

lemma announces_about: "announces t b e \<Longrightarrow> e_tenantId b = t \<Longrightarrow> t \<noteq> [] \<Longrightarrow> about b e"
  by (simp add: announces_def about_def json_member_def booking_payload_def)

text \<open>Bookings keep their subject, and every new event is about a booking.\<close>
definition speaks :: "tdb \<Rightarrow> tdb \<Rightarrow> bool" where
  "speaks db db' \<longleftrightarrow>
     subject ` set (bookings db) \<subseteq> subject ` set (bookings db') \<and>
     (\<forall>e \<in> set (outbox_events db'). e \<in> set (outbox_events db) \<or> (\<exists>b \<in> set (bookings db'). about b e))"

definition spoken :: "tdb \<Rightarrow> bool" where
  "spoken db \<longleftrightarrow> (\<forall>e \<in> set (outbox_events db). \<exists>b \<in> set (bookings db). about b e)"

lemma speaks_mem:
  assumes "speaks db db'" "b \<in> set (bookings db)"
  obtains b' where "b' \<in> set (bookings db')" "subject b = subject b'"
proof -
  have "subject b \<in> subject ` set (bookings db')" using assms by (auto simp: speaks_def)
  then show thesis using that by blast
qed

lemma speaks_refl: "speaks db db"
  by (simp add: speaks_def)

lemma speaks_about:
  assumes "speaks db db'" "\<exists>b \<in> set (bookings db). about b e"
  shows "\<exists>b \<in> set (bookings db'). about b e"
  using assms(2) speaks_mem [OF assms(1)] about_subject by metis

lemma speaks_event:
  "speaks db db' \<Longrightarrow> e \<in> set (outbox_events db') \<Longrightarrow>
     e \<in> set (outbox_events db) \<or> (\<exists>b \<in> set (bookings db'). about b e)"
  by (simp add: speaks_def)

lemma speaks_transp: "transp speaks"
proof (rule transpI)
  fix x y z
  assume xy: "speaks x y" and yz: "speaks y z"
  have "e \<in> set (outbox_events x) \<or> (\<exists>b \<in> set (bookings z). about b e)" if "e \<in> set (outbox_events z)" for e
    using speaks_event [OF yz that]
  proof
    assume "e \<in> set (outbox_events y)"
    from speaks_event [OF xy this] show ?thesis using speaks_about [OF yz] by auto
  qed simp
  moreover have "subject ` set (bookings x) \<subseteq> subject ` set (bookings z)"
    using xy yz by (simp only: speaks_def) (erule conjE, erule conjE, erule subset_trans)
  ultimately show "speaks x z" by (simp add: speaks_def)
qed

lemma speaks_spoken:
  assumes "speaks db db'" "spoken db"
  shows "spoken db'"
  unfolding spoken_def
proof
  fix e
  assume "e \<in> set (outbox_events db')"
  with assms(1) have "e \<in> set (outbox_events db) \<or> (\<exists>b \<in> set (bookings db'). about b e)" by (rule speaks_event)
  then show "\<exists>b \<in> set (bookings db'). about b e"
    using speaks_about [OF assms(1)] assms(2) by (auto simp: spoken_def)
qed

section \<open>Every operation speaks\<close>

definition quiet :: "tdb \<Rightarrow> tdb \<Rightarrow> bool" where
  "quiet db db' \<longleftrightarrow> bookings db' = bookings db \<and> outbox_events db' = outbox_events db"

lemma quiet_speaks: "quiet db db' \<Longrightarrow> speaks db db'"
  by (simp add: quiet_def speaks_def)

lemma quiet_transp: "transp quiet"
  by (rule transpI) (simp add: quiet_def)

lemma operation_quiet:
  "effects quiet db (service_create c i now cd db)"
  "effects quiet db (service_update c i ud db)"
  "effects quiet db (service_remove c now i db)"
  "effects quiet db (customer_create c i now cc db)"
  "effects quiet db (staff_create c i now sd g db)"
  "effects quiet db (staff_update c i su db)"
  "effects quiet db (staff_remove c now i db)"
  "effects quiet db (link c i now st sv db)"
  "effects quiet db (unlink c st sv db)"
  "effects quiet db (working_hours_create c i now st wd db)"
  "effects quiet db (working_hours_remove c i db)"
  "effects quiet db (time_off_create c i now st td db)"
  "effects quiet db (time_off_remove c i db)"
  "effects quiet db (webhook_create parse c i now secret url db)"
  "effects quiet db (webhook_remove c now i db)"
  unfolding service_create_def service_update_def service_repo_update_def service_remove_def service_softRemove_def
    customer_create_def staff_create_def staff_update_def staff_repo_update_def staff_remove_def
    staff_softRemove_def link_def unlink_def capability_repo_unlink_def working_hours_create_def
    working_hours_remove_def working_hours_repo_remove_def time_off_create_def time_off_remove_def
    time_off_repo_remove_def webhook_create_def webhook_remove_def webhook_repo_remove_def
  by (auto simp: effects_def Let_def quiet_def rls_delete_def result_simps split: sum.splits option.splits if_splits prod.splits)

lemma subscribe_quiet: "effects quiet db (subscribe env (tenant_tx t) nonce i now planId p g db)"
proof -
  have "effects quiet db (subscription_create (tenant_tx t) r db)" for r
    unfolding subscription_create_def by (intro safe_intros safe_read) (auto simp: quiet_def)
  then show ?thesis unfolding subscribe_def
    by (intro safe_read safe_Let safe_mapErr) (auto intro!: safe_Inr intro: effectsD)
qed

lemma apply_event_quiet:
  assumes "apply_event i now p e ty r (tenant_tx t) db = Inr (u, db')"
  shows "quiet db db'"
  using assms
proof (cases rule: apply_event_cases)
  case noted
  then show ?thesis by (auto simp: claimEvent_def quiet_def split: sum.splits)
next
  case (applied s db1)
  then show ?thesis using subscription_updateStatus_tx [OF applied(4)]
    by (auto simp: claimEvent_def quiet_def split: sum.splits)
qed (auto simp: quiet_def)

lemma list_all2_source: "list_all2 P xs ys \<Longrightarrow> y \<in> set ys \<Longrightarrow> \<exists>x \<in> set xs. P x y"
  by (induction rule: list_all2_induct) auto

lemma booking_effect_speaks:
  assumes "booking_effect t db db'" "t \<noteq> []"
  shows "speaks db db'"
proof -
  obtain rows new evs where r: "bookings db' = rows @ new" "list_all2 (row_evolves t) (bookings db) rows"
      "list_all (fresh_booking t) new" "outbox_events db' = outbox_events db @ evs"
      "list_all2 (announces t) (changed_rows (bookings db) rows @ new) evs"
    using assms(1) unfolding booking_effect_def by blast
  have "map subject rows = map subject (bookings db)"
    using r(2) by (induction rule: list_all2_induct) (auto simp: row_evolves_def subject_def set_status_def set_slot_def)
  then have "subject ` set rows = subject ` set (bookings db)" by (metis list.set_map)
  then have kept: "subject ` set (bookings db) \<subseteq> subject ` set (bookings db')" by (simp add: r(1) image_Un)
  have "e_tenantId b = t" if ch: "b \<in> set (changed_rows (bookings db) rows)" for b
  proof -
    obtain x where x: "(x, b) \<in> set (zip (bookings db) rows)" "x \<noteq> b" using ch by (auto simp: changed_rows_def)
    then have "row_evolves t x b" using r(2) by (auto simp: list_all2_iff)
    then show ?thesis using x(2) by (auto simp: row_evolves_def set_status_def set_slot_def)
  qed
  then have mine: "\<forall>b \<in> set (changed_rows (bookings db) rows @ new). e_tenantId b = t \<and> b \<in> set (bookings db')"
    using r(1,3) by (auto simp: list_all_iff fresh_booking_def changed_rows_def dest: set_zip_rightD)
  have "\<exists>b \<in> set (bookings db'). about b e" if e: "e \<in> set evs" for e
  proof -
    obtain b where b: "b \<in> set (changed_rows (bookings db) rows @ new)" "announces t b e"
      using list_all2_source [OF r(5) e] by blast
    then have "e_tenantId b = t" "b \<in> set (bookings db')" using mine by simp_all
    then show ?thesis using announces_about [OF b(2)] assms(2) by blast
  qed
  then show ?thesis by (simp add: speaks_def r(4) kept ball_Un)
qed

lemma createOccurrence_speaks:
  assumes "t \<noteq> []" "\<And>s e. bd_startsAt spec = Some s \<Longrightarrow> bd_endsAt spec = Some e \<Longrightarrow> s < e"
  shows "effects speaks db (createOccurrence (tenant_tx t) i ev now spec rid db)"
proof (cases "createOccurrence (tenant_tx t) i ev now spec rid db")
  case (Inl x)
  then show ?thesis by (simp add: effects_def)
next
  case (Inr p)
  then obtain b db' where r: "createOccurrence (tenant_tx t) i ev now spec rid db = Inr (b, db')" by (cases p) simp
  note c = createOccurrence_inserts [OF assms(1) r assms(2)]
  have "booking_effect t db db'" using booking_effect_insert [OF c(3,2,4)] by simp
  then show ?thesis using assms(1) by (simp add: r effects_def booking_effect_speaks)
qed

lemma recurrence_create_speaks:
  assumes "t \<noteq> []" "services_wf db"
  shows "effects speaks db (recurrence_create lx (tenant_tx t) rid bid evid now d g db)"
  by (rule recurrence_create_effects [OF speaks_transp speaks_refl recurrence_createOne_row createOccurrence_speaks [OF assms(1)] assms(2)])
    (simp_all add: quiet_speaks quiet_def)

lemma tenant_op_speaks:
  assumes "tenant_op lx t db db'" "t \<noteq> []" "data_ok db" "tdb_ok db"
  shows "speaks db db'"
proof -
  have wf: "services_wf db" and sat: "sat_all bookings_cs (bookings db)"
    using assms(3,4) by (simp_all add: data_ok_def tdb_ok_def)
  have booking: "speaks db db'" if "booking_step t db db'"
    using booking_step_effect [OF that assms(2) wf sat] assms(2) by (auto intro: booking_effect_speaks)
  from assms(1) show ?thesis
  proof cases
    case (op_booking_create sha256 jsonb toPlain kid i ev now key body dto rr)
    then show ?thesis by (intro booking) (rule booking_step.requested)
  next
    case (op_transition ev now i v st b)
    then show ?thesis by (intro booking) (rule booking_step.moved)
  next
    case (op_reschedule ev now i rdto ifMatch b)
    then show ?thesis by (intro booking) (rule booking_step.rescheduled)
  next
    case (op_cancelSeries gen js_now now rid n)
    then show ?thesis by (intro booking) (rule booking_step.series_cancelled)
  next
    case (op_recurrence_create rid bid evid now rd g res)
    then show ?thesis by (intro effectsD [OF recurrence_create_speaks [OF assms(2) wf]])
  next
    case (op_subscribe env nonce i now planId p g sc)
    then show ?thesis by (intro quiet_speaks effectsD [OF subscribe_quiet])
  next
    case (op_payment_event i now p e ty ref u)
    then show ?thesis by (intro quiet_speaks) (rule apply_event_quiet)
  qed (rule quiet_speaks, erule operation_quiet [THEN effectsD])+
qed

section \<open>The jobs of a batch\<close>

definition mail_job :: "outbox_event \<Rightarrow> booking_email_job" where
  "mail_job e =
     \<lparr>bej_eventType = ob_eventType e, bej_tenantId = e_tenantId e,
      bej_bookingId = js_String (json_member (ob_payload e) ''bookingId''),
      bej_customerId = js_String (json_member (ob_payload e) ''customerId'')\<rparr>"

definition hook_job :: "outbox_event \<Rightarrow> webhook_job" where
  "hook_job e =
     \<lparr>whj_tenantId = e_tenantId e, whj_eventType = ob_eventType e, whj_aggregateType = ob_aggregateType e,
      whj_aggregateId = ob_aggregateId e, whj_data = ob_payload e\<rparr>"

text \<open>The booking a job tells about.\<close>
fun job_about :: "booking \<Rightarrow> queued_job \<Rightarrow> bool" where
  "job_about b (EmailJob m) \<longleftrightarrow>
     e_tenantId b \<noteq> [] \<and> bej_tenantId m = e_tenantId b \<and> bej_bookingId m = e_id b \<and> bej_customerId m = bk_customerId b"
| "job_about b (WebhookJob w) \<longleftrightarrow> e_tenantId b \<noteq> [] \<and> whj_tenantId w = e_tenantId b \<and> whj_aggregateId w = e_id b"

lemma about_jobs: "about b e \<Longrightarrow> job_about b (EmailJob (mail_job e)) \<and> job_about b (WebhookJob (hook_job e))"
  by (simp add: about_def mail_job_def hook_job_def js_String_def)

lemma job_about_subject: "subject b = subject b' \<Longrightarrow> job_about b j = job_about b' j"
  by (cases j) (simp_all add: subject_def)

lemma about_row_outcomes: "about b (row_outcomes clk os e) = about b e"
proof -
  have "about b (row_outcome clk o' e) = about b e" for o' e
    by (simp add: row_outcome_def about_def set_dispatched_def set_failed_def Let_def)
  then show ?thesis unfolding row_outcomes_def by (induction os arbitrary: e) simp_all
qed

text \<open>What the relay expects of BullMQ: \<open>Queue.add\<close> puts no job into the queues but the one it is given.\<close>
definition honest_queue :: "(queued_job \<Rightarrow> string \<Rightarrow> queued_job list \<Rightarrow> bool \<times> queued_job list) \<Rightarrow> bool" where
  "honest_queue add \<longleftrightarrow> (\<forall>j k q. set (snd (add j k q)) \<subseteq> insert j (set q))"

lemma honest_queueD: "honest_queue add \<Longrightarrow> set (snd (add j k q)) \<subseteq> insert j (set q)"
  by (simp add: honest_queue_def)

lemma relay_dispatch_jobs:
  assumes "honest_queue add"
  shows "set (snd (relay_dispatch add e q)) \<subseteq> set q \<union> {EmailJob (mail_job e), WebhookJob (hook_job e)}"
proof -
  obtain ok q1 where a: "add (EmailJob (mail_job e)) (''email-'' @ e_id e) q = (ok, q1)" by fastforce
  have "set q1 \<subseteq> insert (EmailJob (mail_job e)) (set q)" using honest_queueD [OF assms, of "EmailJob (mail_job e)" _ q] a by (metis snd_conv)
  then show ?thesis using honest_queueD [OF assms, of "WebhookJob (hook_job e)" "''webhook-'' @ e_id e" q1] a
    by (auto simp: relay_dispatch_def mail_job_def hook_job_def Let_def)
qed

lemma outcomes_jobs:
  assumes "honest_queue add"
  shows "set (snd (outcomes (relay_dispatch add) evs q)) \<subseteq>
    set q \<union> (\<Union>e \<in> set evs. {EmailJob (mail_job e), WebhookJob (hook_job e)})"
proof (induction evs arbitrary: q)
  case Nil
  then show ?case by simp
next
  case (Cons e evs)
  have "set (snd (outcomes (relay_dispatch add) (e # evs) q)) =
      set (snd (outcomes (relay_dispatch add) evs (snd (relay_dispatch add e q))))"
    by (simp add: case_prod_beta Let_def)
  then show ?case
    using Cons [of "snd (relay_dispatch add e q)"] relay_dispatch_jobs [OF assms, of e q] by auto
qed

text \<open>Every job in the queues is about a booking of its tenant.\<close>
definition jobs_ok :: "tdb \<Rightarrow> queued_job list \<Rightarrow> bool" where
  "jobs_ok db q \<longleftrightarrow> (\<forall>j \<in> set q. \<exists>b \<in> set (bookings db). job_about b j)"

lemma jobs_ok_speaks:
  assumes "speaks db db'" "jobs_ok db q"
  shows "jobs_ok db' q"
  unfolding jobs_ok_def
proof
  fix j
  assume "j \<in> set q"
  then obtain b where "b \<in> set (bookings db)" "job_about b j" using assms(2) by (auto simp: jobs_ok_def)
  then show "\<exists>b \<in> set (bookings db'). job_about b j"
    using speaks_mem [OF assms(1)] job_about_subject by metis
qed

lemma batch_jobs_ok:
  assumes add: "honest_queue add"
    and "processBatch (relay_dispatch add) clk now locked n q (outbox_events db) = (m, q', rows)"
    and "spoken db" "jobs_ok db q"
  shows "spoken (db\<lparr>outbox_events := rows\<rparr>) \<and> jobs_ok (db\<lparr>outbox_events := rows\<rparr>) q'"
proof -
  let ?evs = "claimBatch now locked n (outbox_events db)"
  obtain os q2 where os: "outcomes (relay_dispatch add) ?evs q = (os, q2)" by fastforce
  have r: "rows = map (row_outcomes clk os) (outbox_events db)" "q' = q2"
    using assms(2) by (simp_all add: processBatch_def process_events_eq os)
  have "\<exists>b \<in> set (bookings db). job_about b j" if "j \<in> set q2" for j
  proof -
    have "j \<in> set q \<or> (\<exists>e \<in> set ?evs. j = EmailJob (mail_job e) \<or> j = WebhookJob (hook_job e))"
      using outcomes_jobs [OF add, of ?evs q] that os by auto
    then show ?thesis
    proof
      assume "j \<in> set q"
      then show ?thesis using assms(4) by (simp add: jobs_ok_def)
    next
      assume "\<exists>e \<in> set ?evs. j = EmailJob (mail_job e) \<or> j = WebhookJob (hook_job e)"
      then obtain e where e: "e \<in> set ?evs" "j = EmailJob (mail_job e) \<or> j = WebhookJob (hook_job e)" by blast
      then obtain b where "b \<in> set (bookings db)" "about b e"
        using set_claimBatch [OF e(1)] assms(3) by (auto simp: spoken_def)
      then show ?thesis using about_jobs e(2) by blast
    qed
  qed
  then show ?thesis using assms(3) by (auto simp: r spoken_def jobs_ok_def about_row_outcomes)
qed

lemma delivery_reach_jobs:
  assumes "honest_queue add"
  shows "delivery_reach lx add db q \<Longrightarrow> spoken db \<and> jobs_ok db q"
proof (induction rule: delivery_reach.induct)
  case del_start
  show ?case by (simp add: spoken_def jobs_ok_def) (simp add: empty_tdb_def)
next
  case (del_tenant db q t db')
  then have "tdb_ok db" "data_ok db" using system_reach_ok [OF delivery_reach_system] by blast+
  then have "speaks db db'" using tenant_op_speaks del_tenant by blast
  then show ?case using del_tenant.IH speaks_spoken jobs_ok_speaks by blast
next
  case (del_relay db q clk now locked batchSize n q' rows)
  then show ?case using batch_jobs_ok [OF assms] by blast
next
  case (del_worker db q q')
  then show ?case by (auto simp: jobs_ok_def)
qed

section \<open>What the workers send\<close>

definition hook_payload :: "webhook_job \<Rightarrow> webhook_payload" where
  "hook_payload w =
     \<lparr>wp_eventType = whj_eventType w, wp_aggregateType = whj_aggregateType w,
      wp_aggregateId = whj_aggregateId w, wp_data = whj_data w\<rparr>"

text \<open>Where a mail about \<open>b\<close> and a webhook about \<open>b\<close> may go.\<close>
definition mail_for :: "tdb \<Rightarrow> booking \<Rightarrow> booking_email_job \<Rightarrow> mail_message \<Rightarrow> bool" where
  "mail_for db b m x \<longleftrightarrow>
     (\<exists>cu \<in> set (customers db). e_tenantId cu = e_tenantId b \<and> e_id cu = bk_customerId b \<and> live cu \<and>
        mm_to x = cu_email cu \<and> (mm_subject x, mm_html x) = renderEmail (BookingEmail m))"

definition hook_for :: "tdb \<Rightarrow> hmac_fun \<Rightarrow> nat \<Rightarrow> booking \<Rightarrow> webhook_job \<Rightarrow> http_request \<Rightarrow> bool" where
  "hook_for db hmac now b w x \<longleftrightarrow>
     (\<exists>ep \<in> set (webhook_endpoints db). e_tenantId ep = e_tenantId b \<and> live ep \<and> we_active ep \<and>
        x = delivery_request hmac now (we_url ep) (we_secret ep) (hook_payload w))"

lemma email_work_mails:
  assumes "job_about b (EmailJob m)" "x \<in> set (snd (email_work configured send (BookingEmail m) db))"
  shows "mail_for db b m x"
proof -
  let ?p = "\<lambda>cu. e_tenantId cu = e_tenantId b \<and> live cu \<and> e_id cu = bk_customerId b"
  have g: "customer_getById (tenant_tx (bej_tenantId m)) (bej_customerId m) db =
      requireE (find ?p (customers db)) (NotFoundException ''Customer not found'')"
    using assms(1) by (simp add: customer_getById_def)
  show ?thesis
  proof (cases "find ?p (customers db)")
    case None
    then have "snd (email_work configured send (BookingEmail m) db) = []"
      by (simp add: email_work_def resolveRecipient_def g NotFoundException_def)
    then show ?thesis using assms(2) by simp
  next
    case (Some cu)
    have "mm_to x = cu_email cu \<and> (mm_subject x, mm_html x) = renderEmail (BookingEmail m)"
      using assms(2) Some
      by (auto simp: email_work_def resolveRecipient_def g mail_send_def split: list.splits if_splits)
    moreover have "cu \<in> set (customers db)" "?p cu" using find_Some_mem [OF Some] by simp_all
    ultimately show ?thesis unfolding mail_for_def by blast
  qed
qed

lemma webhook_work_requests:
  assumes "job_about b (WebhookJob w)" "x \<in> set (snd (webhook_work parse lookup fetch hmac now w db))"
  shows "hook_for db hmac now b w x"
proof -
  let ?p = "\<lambda>ep. e_tenantId ep = e_tenantId b \<and> live ep \<and> we_active ep"
  have g: "webhook_findActive (tenant_tx (whj_tenantId w)) db = Inr (find ?p (webhook_endpoints db))"
    using assms(1) by (simp add: webhook_findActive_def)
  obtain ep where ep: "find ?p (webhook_endpoints db) = Some ep"
    using assms(2) by (cases "find ?p (webhook_endpoints db)") (simp_all add: webhook_work_def g)
  obtain r sent where d: "deliver parse lookup fetch hmac now (we_url ep) (we_secret ep) (hook_payload w) = (r, sent)"
    by fastforce
  then obtain addr where "(addr, x) \<in> set sent"
    using assms(2) by (auto simp: webhook_work_def g ep hook_payload_def)
  with d have "x = delivery_request hmac now (we_url ep) (we_secret ep) (hook_payload w)"
    by (rule deliver_sends)
  then show ?thesis using find_Some_mem [OF ep] unfolding hook_for_def by blast
qed

section \<open>A tick without failures\<close>

definition jobs_of :: "outbox_event \<Rightarrow> queued_job list" where
  "jobs_of e = (if ob_aggregateType e = ''booking'' then [EmailJob (mail_job e), WebhookJob (hook_job e)] else [])"

lemma relay_dispatch_accepted:
  assumes "\<And>j k q. add j k q = (True, q @ [j])"
  shows "relay_dispatch add e q = (True, q @ jobs_of e)"
  by (simp add: relay_dispatch_def jobs_of_def mail_job_def hook_job_def assms)

lemma outcomes_accepted:
  assumes "\<And>j k q. add j k q = (True, q @ [j])"
  shows "outcomes (relay_dispatch add) evs q = (map (\<lambda>e. (e, True)) evs, q @ concat (map jobs_of evs))"
  by (induction evs arbitrary: q) (simp_all add: relay_dispatch_accepted [OF assms])

lemma processBatch_accepted:
  assumes "\<And>j k q. add j k q = (True, q @ [j])" "distinct (map e_id rows)"
  shows "processBatch (relay_dispatch add) clk now locked limit q rows =
    (let evs = claimBatch now locked limit rows in
     (length evs, q @ concat (map jobs_of evs), map (\<lambda>e. if e \<in> set evs then set_dispatched e else e) rows))"
proof -
  let ?evs = "claimBatch now locked limit rows"
  obtain n q' rows' where p: "processBatch (relay_dispatch add) clk now locked limit q rows = (n, q', rows')"
    by (metis prod_cases3)
  note r = processBatch_rows [OF assms(2) p outcomes_accepted [OF assms(1)]]
  have "map_of (map (\<lambda>e. (e, True)) ?evs) e = (if e \<in> set ?evs then Some True else None)" for e
    by (induction ?evs) (auto simp: map_of_map_restrict [where f = "\<lambda>_. True"] restrict_map_def)
  then have "rows' = map (\<lambda>e. if e \<in> set ?evs then set_dispatched e else e) rows"
    using r(1) by (simp add: if_distrib cong: if_cong)
  moreover have "n = length ?evs" using r(2) by (simp add: filter_map o_def)
  ultimately show ?thesis using r(3) by (simp add: p Let_def)
qed

text \<open>What a batch leaves due is what it did not claim.\<close>
lemma due_after_batch:
  assumes "distinct (map e_id rows)" "evs = claimBatch now (\<lambda>_. False) limit rows"
  shows "mset (filter (due now (\<lambda>_. False)) rows) =
    mset evs + mset (filter (due now (\<lambda>_. False)) (map (\<lambda>e. if e \<in> set evs then set_dispatched e else e) rows))"
proof -
  let ?due = "due now (\<lambda>_. False)"
  have d: "distinct rows" "distinct evs"
    using assms(1) distinct_claimBatch [OF assms(1)] unfolding assms(2) by (auto simp: distinct_map)
  have sub: "e \<in> set rows" "?due e" if "e \<in> set evs" for e
    using set_claimBatch that unfolding assms(2) by blast+
  have "set (filter (\<lambda>e. ?due e \<and> e \<in> set evs) rows) = set evs" using sub by auto
  then have claimed: "mset (filter (\<lambda>e. ?due e \<and> e \<in> set evs) rows) = mset evs"
    using set_eq_iff_mset_eq_distinct [OF distinct_filter [OF d(1)] d(2)] by simp
  have "filter ?due (map (\<lambda>e. if e \<in> set evs then set_dispatched e else e) rs) =
      filter (\<lambda>e. ?due e \<and> e \<notin> set evs) rs" for rs
    by (induction rs) (auto simp: due_def)
  then have left: "mset (filter ?due (map (\<lambda>e. if e \<in> set evs then set_dispatched e else e) rs)) =
      mset (filter (\<lambda>e. ?due e \<and> e \<notin> set evs) rs)" for rs by simp
  have "mset (filter ?due rs) =
      mset (filter (\<lambda>e. ?due e \<and> e \<in> set evs) rs) + mset (filter (\<lambda>e. ?due e \<and> e \<notin> set evs) rs)" for rs
    by (induction rs) auto
  from this [of rows] show ?thesis by (simp only: left claimed)
qed

section \<open>Properties\<close>

text \<open>
  C11. A booking is announced only to its own people: in every reachable state of the whole system, each job
  the workers may still run belongs to a booking of the job's tenant; the mail worker writes only to that
  booking's own customer, and the webhook worker calls only an active endpoint of that tenant.
\<close>
theorem announced_to_own:
  assumes "honest_queue add" "delivery_reach lx add db q"
  shows "(EmailJob m \<in> set q \<longrightarrow>
      (\<exists>b \<in> set (bookings db). e_tenantId b = bej_tenantId m \<and> e_id b = bej_bookingId m \<and>
         list_all (mail_for db b m) (snd (email_work configured send (BookingEmail m) db)))) \<and>
    (WebhookJob w \<in> set q \<longrightarrow>
      (\<exists>b \<in> set (bookings db). e_tenantId b = whj_tenantId w \<and> e_id b = whj_aggregateId w \<and>
         list_all (hook_for db hmac now b w) (snd (webhook_work parse lookup fetch hmac now w db))))"
proof -
  have jobs: "\<exists>b \<in> set (bookings db). job_about b j" if "j \<in> set q" for j
    using delivery_reach_jobs [OF assms] that by (simp add: jobs_ok_def)
  show ?thesis
  proof (intro conjI impI)
    assume "EmailJob m \<in> set q"
    then obtain b where b: "b \<in> set (bookings db)" "job_about b (EmailJob m)" using jobs by blast
    then show "\<exists>b \<in> set (bookings db). e_tenantId b = bej_tenantId m \<and> e_id b = bej_bookingId m \<and>
        list_all (mail_for db b m) (snd (email_work configured send (BookingEmail m) db))"
      using email_work_mails [OF b(2)] by (intro bexI [of _ b]) (simp_all add: list_all_iff)
  next
    assume "WebhookJob w \<in> set q"
    then obtain b where b: "b \<in> set (bookings db)" "job_about b (WebhookJob w)" using jobs by blast
    then show "\<exists>b \<in> set (bookings db). e_tenantId b = whj_tenantId w \<and> e_id b = whj_aggregateId w \<and>
        list_all (hook_for db hmac now b w) (snd (webhook_work parse lookup fetch hmac now w db))"
      using webhook_work_requests [OF b(2)] by (intro bexI [of _ b]) (simp_all add: list_all_iff)
  qed
qed

text \<open>A run from the empty database: a service, a customer, a staff member who offers the service, a booking.\<close>
definition run_service :: tdb where
  "run_service = empty_tdb\<lparr>services := [sample_service\<lparr>svc_bufferAfterMin := 0\<rparr>]\<rparr>"

definition run_customer :: tdb where
  "run_customer = run_service\<lparr>customers := [sample_customer]\<rparr>"

definition run_gdb :: gdb where
  "run_gdb = empty_gdb\<lparr>memberships := [\<lparr>e_id = ''m1'', e_createdAt = 0, e_deletedAt = None, mb_userId = ''u1'',
     mb_tenantId = ''t1'', mb_role = Staff\<rparr>]\<rparr>"

definition run_staff :: tdb where
  "run_staff = run_customer\<lparr>staff_tbl := [sample_staff]\<rparr>"

definition run_link :: tdb where
  "run_link = run_staff\<lparr>staff_services := [sample_link]\<rparr>"

definition run_booking :: booking where
  "run_booking = (sample_booking ''b1'' 3600000 Pending)\<lparr>e_createdAt := 5\<rparr>"

definition run_booked :: tdb where
  "run_booked = run_link\<lparr>bookings := [run_booking],
     outbox_events := [outbox_row ''e1'' 5 ''t1'' (booking_event run_booking ''booking.created'')]\<rparr>"

definition run_add :: "queued_job \<Rightarrow> string \<Rightarrow> queued_job list \<Rightarrow> bool \<times> queued_job list" where
  "run_add j k q = (True, q @ [j])"

lemma run_steps:
  "service_create (tenant_tx ''t1'') ''sv1'' 0 sample_new_service empty_tdb =
     Inr (sample_service\<lparr>svc_bufferAfterMin := 0\<rparr>, run_service)"
  "customer_create (tenant_tx ''t1'') ''c1'' 0 \<lparr>cc_name = ''An'', cc_email = ''an@x'', cc_phone = None\<rparr> run_service =
     Inr (sample_customer, run_customer)"
  "staff_create (tenant_tx ''t1'') ''st1'' 0 \<lparr>csd_userId = ''u1'', csd_displayName = ''An''\<rparr> run_gdb run_customer =
     Inr (sample_staff, run_staff)"
  "link (tenant_tx ''t1'') ''l1'' 0 ''st1'' ''sv1'' run_staff = Inr (sample_link, run_link)"
  by code_simp+

lemma run_create:
  "booking_create id id (\<lambda>_. JNull) (tenant_tx ''t1'') [] ''b1'' ''e1'' 5 None JNull (sample_request ''c1'' 3600000) run_link =
     Inr (Fresh run_booking, run_booked)"
proof -
  let ?sv = "sample_service\<lparr>svc_bufferAfterMin := 0\<rparr>" and ?r = "sample_request ''c1'' 3600000"
  have sv: "service_of ''t1'' ''sv1'' run_link = Some ?sv"
    by (simp add: service_of_def run_link_def run_staff_def run_customer_def run_service_def sample_service_def live_def)
  have cap: "capable ''t1'' ''st1'' ''sv1'' run_link"
    by (simp add: capable_def run_link_def sample_link_def live_def)
  have cu: "customer_of ''t1'' ''c1'' run_link \<noteq> None"
    by (simp add: customer_of_def run_link_def run_staff_def run_customer_def sample_customer_def live_def)
  have none: "bookings run_link = []" "outbox_events run_link = []"
    by (simp_all add: run_link_def run_staff_def run_customer_def run_service_def empty_tdb_def)
  have b: "created_booking ''t1'' ''b1'' 5 ?r 3600000 ?sv = run_booking"
    by (simp add: created_booking_def run_booking_def sample_booking_def sample_request_def sample_service_def MINUTE_MS_val)
  have "doCreate (tenant_tx ''t1'') ''b1'' ''e1'' 5 ?r run_link = Inr (run_booking, run_booked)"
    using sv cap cu b
    by (subst doCreate_spec) (simp_all add: none sample_request_def run_booked_def with_event_def)
  then show ?thesis by (simp add: booking_create_def idem_run_def)
qed

lemma run_reach: "delivery_reach sample_luxon run_add run_booked []"
proof -
  have t: "''t1'' \<noteq> []" by simp
  have "valid_create_service sample_new_service" by code_simp
  from del_tenant [OF del_start t op_service_create [OF this run_steps(1)]]
  have "delivery_reach sample_luxon run_add run_service []" .
  from del_tenant [OF this t op_customer_create [OF run_steps(2)]]
  have "delivery_reach sample_luxon run_add run_customer []" .
  from del_tenant [OF this t op_staff_create [OF run_steps(3)]]
  have "delivery_reach sample_luxon run_add run_staff []" .
  from del_tenant [OF this t op_link [OF run_steps(4)]]
  have "delivery_reach sample_luxon run_add run_link []" .
  from del_tenant [OF this t op_booking_create [OF run_create]] show ?thesis .
qed

definition run_mail :: booking_email_job where
  "run_mail = \<lparr>bej_eventType = ''booking.created'', bej_tenantId = ''t1'', bej_bookingId = ''b1'', bej_customerId = ''c1''\<rparr>"

theorem announced_to_own_witness:
  "\<exists>q rows. delivery_reach sample_luxon run_add (run_booked\<lparr>outbox_events := rows\<rparr>) q \<and> EmailJob run_mail \<in> set q \<and>
     (\<exists>b \<in> set (bookings run_booked). e_id b = ''b1'' \<and>
        list_all (mail_for (run_booked\<lparr>outbox_events := rows\<rparr>) b run_mail)
          (snd (email_work True (\<lambda>_. None) (BookingEmail run_mail) (run_booked\<lparr>outbox_events := rows\<rparr>))))"
proof -
  let ?batch = "processBatch (relay_dispatch run_add) (\<lambda>_. 0) 5 (\<lambda>_. False) 2 [] (outbox_events run_booked)"
  obtain n q rows where b: "?batch = (n, q, rows)" by (metis prod_cases3)
  let ?e = "outbox_row ''e1'' 5 ''t1'' (booking_event run_booking ''booking.created'')"
  have "claimBatch 5 (\<lambda>_. False) 2 (outbox_events run_booked) = [?e]"
    by (simp add: claimBatch_def run_booked_def due_def outbox_row_def live_def)
  moreover have "distinct (map e_id (outbox_events run_booked))" by (simp add: run_booked_def)
  ultimately have "q = jobs_of ?e" using b by (simp add: processBatch_accepted run_add_def Let_def)
  moreover have "EmailJob run_mail \<in> set (jobs_of ?e)"
    by (simp add: jobs_of_def mail_job_def run_mail_def outbox_row_def booking_event_def booking_payload_def
        json_member_def js_String_def run_booking_def sample_booking_def)
  ultimately have m: "EmailJob run_mail \<in> set q" by simp
  have r: "delivery_reach sample_luxon run_add (run_booked\<lparr>outbox_events := rows\<rparr>) q"
    by (rule del_relay [OF run_reach b])
  have "honest_queue run_add" by (auto simp: honest_queue_def run_add_def)
  from conjunct1 [OF announced_to_own [OF this r, of run_mail True "\<lambda>_. None"]] m r show ?thesis
    by (auto simp: run_mail_def)
qed

text \<open>
  C16. One tick announces each due event exactly once: when the queues accept, nothing is locked by another
  relay and the process is not stopping, the tick enqueues for every event due at its clock one mail and one
  webhook (nothing for an event that is not about a booking), marks those events dispatched, touches no
  other row and adds nothing else, in however many batches that takes.
\<close>
theorem tick_announces_once:
  assumes "\<And>j k q. add j k q = (True, q @ [j])"
    and "\<And>n. \<not> re_stopped (env n) \<and> re_now (env n) = now \<and> re_locked (env n) = (\<lambda>_. False)"
    and "distinct (map e_id rows)"
    and "relay_tick (relay_dispatch add) env i q rows = (q', rows')"
  shows "mset q' = mset q + mset (concat (map jobs_of (filter (due now (\<lambda>_. False)) rows))) \<and>
    rows' = map (\<lambda>e. if due now (\<lambda>_. False) e then set_dispatched e else e) rows"
  using assms(2-4)
proof (induction "relay_dispatch add" env i q rows rule: relay_tick.induct)
  case (1 env i q rows)
  let ?due = "due now (\<lambda>_. False)"
  define evs where "evs = claimBatch now (\<lambda>_. False) OUTBOX_BATCH_SIZE rows"
  define rows1 where "rows1 = map (\<lambda>e. if e \<in> set evs then set_dispatched e else e) rows"
  have p: "processBatch (relay_dispatch add) (re_clk (env i)) (re_now (env i)) (re_locked (env i)) OUTBOX_BATCH_SIZE q rows =
      (length evs, q @ concat (map jobs_of evs), rows1)"
    using processBatch_accepted [OF assms(1) "1.prems"(2)] "1.prems"(1) by (simp add: evs_def rows1_def Let_def)
  have split: "mset (filter ?due rows) = mset evs + mset (filter ?due rows1)"
    unfolding rows1_def by (rule due_after_batch [OF "1.prems"(2) evs_def])
  have ns: "\<not> re_stopped (env i)" using "1.prems"(1) by simp
  show ?case
  proof (cases "evs = []")
    case True
    have "\<not> ?due e" if "e \<in> set rows" for e
      using claimBatch_empty [of now "\<lambda>_. False" 19 rows e] True that by (simp add: evs_def OUTBOX_BATCH_SIZE_def)
    then have none: "filter ?due rows = []" "map (\<lambda>e. if ?due e then set_dispatched e else e) rows = rows"
      by (auto simp: filter_empty_conv intro: map_idI)
    have "(q', rows') = (q, rows1)" using "1.prems"(3) True by (subst (asm) relay_tick.simps) (simp add: p)
    then show ?thesis using True none by (simp add: rows1_def)
  next
    case False
    have "distinct (map e_id rows1)" using "1.prems"(2) by (simp add: rows1_def o_def if_distrib cong: if_cong)
    moreover have "relay_tick (relay_dispatch add) env (i + 1) (q @ concat (map jobs_of evs)) rows1 = (q', rows')"
      using "1.prems"(3) False ns by (subst (asm) relay_tick.simps) (simp add: p)
    ultimately have IH: "mset q' = mset (q @ concat (map jobs_of evs)) + mset (concat (map jobs_of (filter ?due rows1)))"
        "rows' = map (\<lambda>e. if ?due e then set_dispatched e else e) rows1"
      using "1.hyps" [OF p [symmetric] refl] False ns "1.prems"(1) by auto
    have jobs: "mset (concat (map jobs_of es)) = sum_mset (image_mset (mset \<circ> jobs_of) (mset es))" for es
      by (induction es) simp_all
    have "mset (concat (map jobs_of (filter ?due rows))) =
        mset (concat (map jobs_of evs)) + mset (concat (map jobs_of (filter ?due rows1)))"
      unfolding jobs split by simp
    moreover have "?due e" if "e \<in> set evs" for e
      using set_claimBatch that unfolding evs_def by blast
    then have "rows' = map (\<lambda>e. if ?due e then set_dispatched e else e) rows"
      unfolding IH(2) rows1_def by (auto simp: due_def)
    ultimately show ?thesis by (simp add: IH(1))
  qed
qed

theorem tick_announces_once_witness:
  "mset (fst (relay_tick (relay_dispatch (\<lambda>j k q. (True, q @ [j])))
        (\<lambda>_. \<lparr>re_now = 5, re_clk = (\<lambda>_. 6), re_locked = (\<lambda>_. False), re_stopped = False\<rparr>) 0 []
        [sample_event_row ''e1'' OutPending 0, sample_event_row ''e2'' OutDead 5])) =
   mset (jobs_of (sample_event_row ''e1'' OutPending 0))"
proof -
  let ?e1 = "sample_event_row ''e1'' OutPending 0" and ?e2 = "sample_event_row ''e2'' OutDead 5"
  have "distinct (map e_id [?e1, ?e2])" by (simp add: sample_event_row_def)
  note tick = tick_announces_once [of "\<lambda>j k q. (True, q @ [j])"
      "\<lambda>_. \<lparr>re_now = 5, re_clk = (\<lambda>_. 6), re_locked = (\<lambda>_. False), re_stopped = False\<rparr>" 5,
      OF _ _ this prod.collapse [symmetric], of 0 "[]"]
  have "filter (due 5 (\<lambda>_. False)) [?e1, ?e2] = [?e1]" by (simp add: sample_event_row_def due_def live_def)
  then show ?thesis using tick by simp
qed

end
