(* ===== verification/Calendar.thy ===== *)
theory Calendar
  imports Announcements
begin

text \<open>
  The abstract specification of booking: one calendar per tenant, a map from bookings to the time they take
  from a staff member. Three guarded events change it: reserving a free slot, advancing a status along the
  status table, and moving an active entry to a free slot. The detailed system refines it: whatever the
  tenants, the payment webhook and the relay do, each tenant's bookings move by these events alone.
\<close>

section \<open>The abstract calendar\<close>

record entry =
  en_staff :: uuid
  en_from :: instant
  en_till :: instant
  en_status :: booking_status

type_synonym calendar = "uuid \<rightharpoonup> entry"

definition clash :: "entry \<Rightarrow> entry \<Rightarrow> bool" where
  "clash a b \<longleftrightarrow>
     active_status (en_status a) \<and> active_status (en_status b) \<and> en_staff a = en_staff b \<and>
     range_overlap (en_from a, en_till a) (en_from b, en_till b)"

inductive calendar_step :: "calendar \<Rightarrow> calendar \<Rightarrow> bool" where
  reserve: "c i = None \<Longrightarrow> en_status e = Pending \<Longrightarrow> en_from e < en_till e \<Longrightarrow>
     (\<And>j x. c j = Some x \<Longrightarrow> \<not> clash e x) \<Longrightarrow> calendar_step c (c(i \<mapsto> e))"
| advance: "c i = Some e \<Longrightarrow> st \<in> set (booking_TRANSITIONS (en_status e)) \<Longrightarrow>
     calendar_step c (c(i \<mapsto> e\<lparr>en_status := st\<rparr>))"
| move: "c i = Some e \<Longrightarrow> active_status (en_status e) \<Longrightarrow> s < z \<Longrightarrow>
     (\<And>j x. j \<noteq> i \<Longrightarrow> c j = Some x \<Longrightarrow> \<not> clash (e\<lparr>en_from := s, en_till := z\<rparr>) x) \<Longrightarrow>
     calendar_step c (c(i \<mapsto> e\<lparr>en_from := s, en_till := z\<rparr>))"

inductive_cases calendar_stepE: "calendar_step c c'"

text \<open>The promises of the abstract specification.\<close>
definition calendar_ok :: "calendar \<Rightarrow> bool" where
  "calendar_ok c \<longleftrightarrow>
     (\<forall>i e. c i = Some e \<longrightarrow> en_from e < en_till e) \<and>
     (\<forall>i j a b. i \<noteq> j \<longrightarrow> c i = Some a \<longrightarrow> c j = Some b \<longrightarrow> \<not> clash a b)"

definition closed_kept :: "calendar \<Rightarrow> calendar \<Rightarrow> bool" where
  "closed_kept c c' \<longleftrightarrow> (\<forall>i e. c i = Some e \<longrightarrow> booking_closed (en_status e) \<longrightarrow> c' i = Some e)"

lemma clash_sym: "clash a b \<Longrightarrow> clash b a"
  by (auto simp: clash_def range_overlap_sym)

lemma calendar_okI:
  "(\<And>i e. c i = Some e \<Longrightarrow> en_from e < en_till e) \<Longrightarrow>
   (\<And>i j a b. i \<noteq> j \<Longrightarrow> c i = Some a \<Longrightarrow> c j = Some b \<Longrightarrow> \<not> clash a b) \<Longrightarrow> calendar_ok c"
  by (simp add: calendar_ok_def)

lemma calendar_okD:
  assumes "calendar_ok c" "c i = Some a"
  shows "en_from a < en_till a" "j \<noteq> i \<Longrightarrow> c j = Some b \<Longrightarrow> \<not> clash a b"
  using assms unfolding calendar_ok_def by metis+

lemma calendar_ok_upd:
  assumes "calendar_ok c" "en_from e < en_till e" "\<And>j x. j \<noteq> i \<Longrightarrow> c j = Some x \<Longrightarrow> \<not> clash e x"
  shows "calendar_ok (c(i \<mapsto> e))"
proof (rule calendar_okI)
  show "en_from x < en_till x" if "(c(i \<mapsto> e)) j = Some x" for j x
    using that assms(2) calendar_okD(1) [OF assms(1)] by (auto split: if_splits)
  show "\<not> clash x y" if "j \<noteq> k" "(c(i \<mapsto> e)) j = Some x" "(c(i \<mapsto> e)) k = Some y" for j k x y
  proof (cases "j = i")
    case True
    then show ?thesis using that assms(3) [of k y] by simp
  next
    case False
    then have cj: "c j = Some x" using that by simp
    show ?thesis
    proof (cases "k = i")
      case True
      then show ?thesis using that assms(3) [OF False cj] clash_sym by auto
    next
      case False
      then show ?thesis using that calendar_okD(2) [OF assms(1) cj, of k y] by simp
    qed
  qed
qed

lemma calendar_step_ok: "calendar_step c c' \<Longrightarrow> calendar_ok c \<Longrightarrow> calendar_ok c'"
proof (induction rule: calendar_step.induct)
  case (reserve c i e)
  then show ?case by (intro calendar_ok_upd) auto
next
  case (advance c i e st)
  have "clash (e\<lparr>en_status := st\<rparr>) x \<Longrightarrow> clash e x" for x
    using advance(2) by (cases "en_status e") (auto simp: clash_def)
  then show ?case using calendar_okD [OF advance(3,1)] advance(3) by (intro calendar_ok_upd) auto
next
  case (move c i e s z)
  then show ?case by (intro calendar_ok_upd) auto
qed

lemma calendar_step_closed: "calendar_step c c' \<Longrightarrow> closed_kept c c'"
proof (induction rule: calendar_step.induct)
  case (advance c i e st)
  then show ?case by (cases "en_status e") (auto simp: closed_kept_def booking_closed_def)
qed (auto simp: closed_kept_def booking_closed_def)

lemma calendar_steps_ok: "calendar_step\<^sup>*\<^sup>* c c' \<Longrightarrow> calendar_ok c \<Longrightarrow> calendar_ok c'"
  by (induction rule: rtranclp_induct) (auto dest: calendar_step_ok)

lemma calendar_steps_closed: "calendar_step\<^sup>*\<^sup>* c c' \<Longrightarrow> closed_kept c c'"
proof (induction rule: rtranclp_induct)
  case base
  show ?case by (simp add: closed_kept_def)
next
  case (step c' c'')
  then show ?case using calendar_step_closed [OF step(2)] by (simp add: closed_kept_def)
qed

text \<open>Advancing several entries at once.\<close>
lemma advance_all:
  assumes "finite A" "\<And>i. i \<in> A \<Longrightarrow> \<exists>e. c i = Some e \<and> st \<in> set (booking_TRANSITIONS (en_status e))"
  shows "calendar_step\<^sup>*\<^sup>* c (\<lambda>i. if i \<in> A then map_option (\<lambda>e. e\<lparr>en_status := st\<rparr>) (c i) else c i)"
  using assms
proof (induction A)
  case empty
  then show ?case by simp
next
  case (insert a A)
  let ?c = "\<lambda>i. if i \<in> A then map_option (\<lambda>e. e\<lparr>en_status := st\<rparr>) (c i) else c i"
  obtain e where e: "c a = Some e" "st \<in> set (booking_TRANSITIONS (en_status e))" using insert.prems by blast
  have "calendar_step ?c (?c(a \<mapsto> e\<lparr>en_status := st\<rparr>))"
    using e insert.hyps(2) by (intro advance) auto
  moreover have "?c(a \<mapsto> e\<lparr>en_status := st\<rparr>) =
      (\<lambda>i. if i \<in> insert a A then map_option (\<lambda>e. e\<lparr>en_status := st\<rparr>) (c i) else c i)"
    using e(1) by (auto simp: fun_eq_iff)
  ultimately have "calendar_step ?c (\<lambda>i. if i \<in> insert a A then map_option (\<lambda>e. e\<lparr>en_status := st\<rparr>) (c i) else c i)"
    by simp
  moreover have "calendar_step\<^sup>*\<^sup>* c ?c" using insert by blast
  ultimately show ?case by (rule rtranclp.rtrancl_into_rtrancl [rotated])
qed

section \<open>Abstraction\<close>

definition entry_of :: "booking \<Rightarrow> entry" where
  "entry_of b =
     \<lparr>en_staff = bk_staffId b, en_from = bk_startsAt b, en_till = bk_endsAt b, en_status = bk_status b\<rparr>"

definition calendar_of :: "uuid \<Rightarrow> tdb \<Rightarrow> calendar" where
  "calendar_of t db = (\<lambda>i. map_option entry_of (booking_of t i db))"

lemma calendar_of_cong: "bookings db' = bookings db \<Longrightarrow> calendar_of t db' = calendar_of t db"
  by (simp add: calendar_of_def booking_of_def)

lemma calendar_of_Some:
  "calendar_of t db i = Some e \<Longrightarrow>
     \<exists>b \<in> set (bookings db). booking_of t i db = Some b \<and> e = entry_of b \<and> e_tenantId b = t \<and> live b \<and> e_id b = i"
  by (auto simp: calendar_of_def dest: booking_of_Some)

lemma calendar_of_foreign:
  assumes "foreign_unchanged t db db'" "u \<noteq> t"
  shows "calendar_of u db' = calendar_of u db"
proof -
  have "booking_of u i d = find (\<lambda>b. e_tenantId b = u \<and> live b \<and> e_id b = i) (foreign_rows t (bookings d))" for i d
    using assms(2) by (auto simp: booking_of_def foreign_rows_def find_filter intro: find_cong_on)
  then show ?thesis using assms(1) by (simp add: calendar_of_def foreign_unchanged_def)
qed

text \<open>A row without a conflict clashes with no other entry.\<close>
lemma entry_clash:
  "clash (entry_of a) (entry_of b) \<Longrightarrow> live a \<Longrightarrow> live b \<Longrightarrow> e_tenantId a = e_tenantId b \<Longrightarrow> booking_conflict a b"
  by (simp add: clash_def entry_of_def booking_conflict_def booking_occupies_def)

section \<open>Every operation refines calendar events\<close>

definition refines :: "uuid \<Rightarrow> tdb \<Rightarrow> tdb \<Rightarrow> bool" where
  "refines t db db' \<longleftrightarrow> calendar_step\<^sup>*\<^sup>* (calendar_of t db) (calendar_of t db')"

lemma refines_same: "bookings db' = bookings db \<Longrightarrow> refines t db db'"
  using calendar_of_cong [of db' db t] by (simp add: refines_def)

lemma refines_transp: "transp (refines t)"
  by (rule transpI) (simp add: refines_def)

lemma refines_cong:
  assumes "refines t db1 db2" "bookings db1 = bookings db" "bookings db' = bookings db2"
  shows "refines t db db'"
  using assms(1) calendar_of_cong [OF assms(2), of t] calendar_of_cong [OF assms(3), of t] by (simp add: refines_def)

lemma refines_insert:
  assumes "insert_checked bookings_cs b (bookings db) = Inr rows" "bookings db' = bookings db @ [b]" "fresh_booking t b"
  shows "refines t db db'"
proof -
  let ?c = "calendar_of t db"
  have no: "\<not> pk_conflict b r" "\<not> booking_conflict b r" if "r \<in> set (bookings db)" for r
    using assms(1) that by (auto simp: insert_checked_Inr_iff bookings_cs_def)
  have fresh: "e_id r \<noteq> e_id b" if "r \<in> set (bookings db)" for r
    using no(1) [OF that] by (auto simp: pk_conflict_def)
  have t: "e_tenantId b = t" "live b" "bk_status b = Pending" "bk_startsAt b < bk_endsAt b"
    using assms(3) by (simp_all add: fresh_booking_def)
  have none: "booking_of t (e_id b) db = None"
    using fresh by (auto simp: booking_of_def find_None_iff)
  have "calendar_of t db' = ?c(e_id b \<mapsto> entry_of b)"
  proof
    fix i
    have "find p (rows @ [b]) = (case find p rows of None \<Rightarrow> if p b then Some b else None | Some x \<Rightarrow> Some x)"
      for p and rows :: "booking list"
      by (induction rows) auto
    then show "calendar_of t db' i = (?c(e_id b \<mapsto> entry_of b)) i"
      using none t by (cases "i = e_id b") (auto simp: calendar_of_def booking_of_def assms(2) split: option.splits)
  qed
  moreover have "calendar_step ?c (?c(e_id b \<mapsto> entry_of b))"
  proof (rule reserve)
    show "?c (e_id b) = None" using none by (simp add: calendar_of_def)
    show "en_status (entry_of b) = Pending" "en_from (entry_of b) < en_till (entry_of b)"
      using t by (simp_all add: entry_of_def)
    show "\<not> clash (entry_of b) x" if "?c j = Some x" for j x
      using calendar_of_Some [OF that] no(2) entry_clash t by metis
  qed
  ultimately show ?thesis by (simp add: refines_def)
qed

lemma calendar_of_updated:
  assumes "sat_all bookings_cs (bookings db)" "booking_of t i db = Some b"
    and "e_id (f b) = e_id b" "e_tenantId (f b) = e_tenantId b" "live (f b) = live b"
    and "bookings db' = update_where (\<lambda>x. x = b) f (bookings db)"
  shows "calendar_of t db' = (calendar_of t db)(i \<mapsto> entry_of (f b))"
proof
  fix j
  have b: "b \<in> set (bookings db)" "e_tenantId b = t" "live b" "e_id b = i" using booking_of_Some [OF assms(2)] by simp_all
  show "calendar_of t db' j = ((calendar_of t db)(i \<mapsto> entry_of (f b))) j"
  proof (cases "j = i")
    case True
    then show ?thesis using booking_of_updated [where f = f, OF assms(1-5)]
      by (simp add: calendar_of_def booking_of_def assms(6) with_booking_def)
  next
    case False
    have "find (\<lambda>x. e_tenantId x = t \<and> live x \<and> e_id x = j) (update_where (\<lambda>x. x = b) f rows) =
        find (\<lambda>x. e_tenantId x = t \<and> live x \<and> e_id x = j) rows" for rows
      using False b assms(3) by (induction rows) (auto simp: update_where_def)
    then show ?thesis using False by (simp add: calendar_of_def booking_of_def assms(6))
  qed
qed

lemma doCreate_refines:
  assumes "t \<noteq> []" "services_wf db" "doCreate (tenant_tx t) i ev now dto db = Inr (b, db')"
  shows "refines t db db'"
proof -
  obtain sv s where c: "service_of t (cb_serviceId dto) db = Some sv" "b = created_booking t i now dto s sv"
      "insert_checked bookings_cs b (bookings db) = Inr (bookings db @ [b])"
      "db' = with_event ev now t b ''booking.created'' (db\<lparr>bookings := bookings db @ [b]\<rparr>)"
    using assms(1,3) by (rule doCreate_Inr)
  have "fresh_booking t b"
    using service_of_wf [OF assms(2) c(1)] by (simp add: c(2) fresh_booking_def created_booking_def live_def)
  then show ?thesis by (intro refines_insert [OF c(3)]) (simp_all add: c(4))
qed

lemma booking_create_refines:
  assumes "t \<noteq> []" "services_wf db"
    and "booking_create sha256 jsonb toPlain (tenant_tx t) key_id i ev now key body dto db = Inr (r, db')"
  shows "refines t db db'"
  using assms(1,3)
proof (cases rule: booking_create_Inr)
  case replayed
  then show ?thesis by (simp add: refines_same)
next
  case (fresh b db0 db2)
  have same: "bookings db0 = bookings db" "services db0 = services db" by (subst fresh(2), simp)+
  have "bookings db' = bookings db2" by (subst fresh(4), simp)
  moreover have "refines t db0 db2"
    using assms(2) by (intro doCreate_refines [OF assms(1) _ fresh(3)]) (simp add: services_wf_def same)
  ultimately show ?thesis using same(1) by (blast intro: refines_cong)
qed

lemma createOccurrence_refines:
  assumes "t \<noteq> []" "\<And>s e. bd_startsAt spec = Some s \<Longrightarrow> bd_endsAt spec = Some e \<Longrightarrow> s < e"
  shows "effects (refines t) db (createOccurrence (tenant_tx t) i ev now spec rid db)"
proof (cases "createOccurrence (tenant_tx t) i ev now spec rid db")
  case (Inl x)
  then show ?thesis by (simp add: effects_def)
next
  case (Inr p)
  then obtain b db' where r: "createOccurrence (tenant_tx t) i ev now spec rid db = Inr (b, db')" by (cases p) simp
  note c = createOccurrence_inserts [OF assms(1) r assms(2)]
  show ?thesis unfolding r using refines_insert [OF c(1,2,3)] by (simp add: effects_def)
qed

lemma transition_refines:
  assumes "t \<noteq> []" "sat_all bookings_cs (bookings db)" "transition (tenant_tx t) ev now i v to db = Inr (b', db')"
  shows "refines t db db'"
proof -
  obtain b where b: "booking_of t i db = Some b" "booking_canTransition (bk_status b) to"
      "db' = with_event ev now t (set_status to b) (''booking.'' @ booking_status_str to) (with_booking b (set_status to) db)"
    using assms by (rule transition_Inr)
  have "calendar_of t db' = (calendar_of t db)(i \<mapsto> entry_of (set_status to b))"
    by (rule calendar_of_updated [OF assms(2) b(1)]) (simp_all add: b(3))
  moreover have "entry_of (set_status to b) = (entry_of b)\<lparr>en_status := to\<rparr>"
    by (simp add: entry_of_def set_status_def)
  moreover have "calendar_step (calendar_of t db) ((calendar_of t db)(i \<mapsto> (entry_of b)\<lparr>en_status := to\<rparr>))"
    using b(1,2) by (intro advance) (simp_all add: calendar_of_def entry_of_def booking_canTransition_def)
  ultimately show ?thesis by (simp add: refines_def r_into_rtranclp)
qed

lemma reschedule_refines:
  assumes "t \<noteq> []" "services_wf db" "sat_all bookings_cs (bookings db)"
    and "reschedule (tenant_tx t) ev now i dto m db = Inr (b', db')"
  shows "refines t db db'"
proof -
  obtain b sv s where b: "booking_of t i db = Some b" "active_status (bk_status b)"
      "service_of t (bk_serviceId b) db = Some sv" "b' = set_slot s (s + svc_durationMin sv * MINUTE_MS) b"
      "\<not> list_ex (\<lambda>x. x \<noteq> b \<and> booking_conflict b' x) (bookings db)"
      "db' = with_event ev now t b' ''booking.rescheduled'' (with_booking b (set_slot s (s + svc_durationMin sv * MINUTE_MS)) db)"
    using assms(1,3,4) by (rule reschedule_Inr)
  let ?z = "s + svc_durationMin sv * MINUTE_MS"
  have m: "b \<in> set (bookings db)" "e_tenantId b = t" "live b" "e_id b = i" using booking_of_Some [OF b(1)] by simp_all
  have b': "entry_of b' = (entry_of b)\<lparr>en_from := s, en_till := ?z\<rparr>" "e_tenantId b' = t" "live b'"
    using m by (simp_all add: b(4) entry_of_def set_slot_def live_def)
  have "calendar_of t db' = (calendar_of t db)(i \<mapsto> entry_of (set_slot s ?z b))"
    by (rule calendar_of_updated [OF assms(3) b(1)]) (simp_all add: b(6))
  then have cal: "calendar_of t db' = (calendar_of t db)(i \<mapsto> (entry_of b)\<lparr>en_from := s, en_till := ?z\<rparr>)"
    using b'(1) by (simp add: b(4))
  have "calendar_step (calendar_of t db) ((calendar_of t db)(i \<mapsto> (entry_of b)\<lparr>en_from := s, en_till := ?z\<rparr>))"
  proof (rule move)
    show "calendar_of t db i = Some (entry_of b)" using b(1) by (simp add: calendar_of_def)
    show "active_status (en_status (entry_of b))" using b(2) by (simp add: entry_of_def)
    show "s < ?z" using service_of_wf [OF assms(2) b(3)] by simp
    fix j x
    assume j: "j \<noteq> i" "calendar_of t db j = Some x"
    then obtain y where y: "y \<in> set (bookings db)" "x = entry_of y" "e_tenantId y = t" "live y" "e_id y = j"
      using calendar_of_Some by blast
    then have "\<not> booking_conflict b' y" using b(5) j(1) m(4) by (auto simp: list_ex_iff)
    then show "\<not> clash ((entry_of b)\<lparr>en_from := s, en_till := ?z\<rparr>) x"
      using entry_clash [of b' y] y b' by auto
  qed
  then show ?thesis by (simp add: refines_def cal r_into_rtranclp)
qed

lemma cancelSeries_refines:
  assumes "t \<noteq> []" "sat_all bookings_cs (bookings db)" "cancelSeries (tenant_tx t) gen js_now now rid db = Inr (n, db')"
  shows "refines t db db'"
proof -
  let ?p = "in_future_series t rid js_now" and ?rows = "bookings db"
  let ?A = "e_id ` {b \<in> set ?rows. ?p b \<and> live b}"
  have rows: "bookings db' = update_where ?p (set_status Cancelled) ?rows"
    by (rule booking_effect_cancelSeries(4) [OF assms(1-3)])
  have hit: "booking_of t (e_id b) db = Some b" if "b \<in> set ?rows" "?p b" "live b" for b
    unfolding booking_of_def using that
    by (intro bookings_tbl.find_key [OF assms(2)]) (auto simp: in_future_series_def)
  have "calendar_of t db' = (\<lambda>i. if i \<in> ?A then map_option (\<lambda>e. e\<lparr>en_status := Cancelled\<rparr>) (calendar_of t db i) else calendar_of t db i)"
  proof
    fix i
    have "find (\<lambda>x. e_tenantId x = t \<and> live x \<and> e_id x = i) (update_where ?p (set_status Cancelled) rs) =
        map_option (\<lambda>b. if ?p b then set_status Cancelled b else b) (find (\<lambda>x. e_tenantId x = t \<and> live x \<and> e_id x = i) rs)" for rs
      by (induction rs) (auto simp: update_where_def)
    then have b: "booking_of t i db' = map_option (\<lambda>b. if ?p b then set_status Cancelled b else b) (booking_of t i db)"
      by (simp add: booking_of_def rows)
    have "?p b \<longleftrightarrow> i \<in> ?A" if "booking_of t i db = Some b" for b
    proof
      assume "?p b"
      then show "i \<in> ?A" using booking_of_Some [OF that] by auto
    next
      assume "i \<in> ?A"
      then obtain x where "x \<in> set ?rows" "?p x" "live x" "i = e_id x" by blast
      then show "?p b" using hit that by auto
    qed
    then show "calendar_of t db' i = (if i \<in> ?A then map_option (\<lambda>e. e\<lparr>en_status := Cancelled\<rparr>) (calendar_of t db i) else calendar_of t db i)"
      by (cases "booking_of t i db") (auto simp: calendar_of_def b entry_of_def set_status_def)
  qed
  moreover have "calendar_step\<^sup>*\<^sup>* (calendar_of t db) \<dots>"
  proof (rule advance_all)
    fix i
    assume "i \<in> ?A"
    then obtain b where "b \<in> set ?rows" "?p b" "live b" "i = e_id b" by blast
    then show "\<exists>e. calendar_of t db i = Some e \<and> Cancelled \<in> set (booking_TRANSITIONS (en_status e))"
      using hit by (cases "bk_status b") (auto simp: calendar_of_def entry_of_def in_future_series_def)
  qed simp
  ultimately show ?thesis by (simp add: refines_def)
qed

lemma tenant_op_refines:
  assumes "tenant_op lx t db db'" "t \<noteq> []" "data_ok db" "tdb_ok db"
  shows "refines t db db'"
proof -
  have wf: "services_wf db" and sat: "sat_all bookings_cs (bookings db)"
    using assms(3,4) by (simp_all add: data_ok_def tdb_ok_def)
  have quiet: "refines t db db'" if "quiet db db'" using that by (simp add: quiet_def refines_same)
  from assms(1) show ?thesis
  proof cases
    case op_booking_create
    then show ?thesis by (intro booking_create_refines [OF assms(2) wf])
  next
    case op_transition
    then show ?thesis by (intro transition_refines [OF assms(2) sat])
  next
    case op_reschedule
    then show ?thesis by (intro reschedule_refines [OF assms(2) wf sat])
  next
    case op_cancelSeries
    then show ?thesis by (intro cancelSeries_refines [OF assms(2) sat])
  next
    case (op_recurrence_create rid bid evid now rd g res)
    have "effects (refines t) db (recurrence_create lx (tenant_tx t) rid bid evid now rd g db)"
      by (rule recurrence_create_effects [OF refines_transp _ recurrence_createOne_row createOccurrence_refines [OF assms(2)] wf])
        (simp_all add: refines_same)
    then show ?thesis using op_recurrence_create by (rule effectsD)
  next
    case op_subscribe
    then show ?thesis by (intro quiet effectsD [OF subscribe_quiet])
  next
    case op_payment_event
    then show ?thesis by (intro quiet) (rule apply_event_quiet)
  qed (rule quiet, erule operation_quiet [THEN effectsD])+
qed

lemma system_step_refines:
  assumes "system_reach lx dispatch db" "system_step lx dispatch db db'"
  shows "refines t db db'"
  using assms(2)
proof cases
  case (step_tenant u)
  note op = tenant_op_refines [OF step_tenant(2,1)] tenant_op_safe [OF step_tenant(2)]
  show ?thesis
  proof (cases "t = u")
    case True
    then show ?thesis using op(1) system_reach_ok [OF assms(1)] by simp
  next
    case False
    moreover have "foreign_unchanged u db db'" using op(2) by (simp add: db_safe_def)
    ultimately have "calendar_of t db' = calendar_of t db" by (intro calendar_of_foreign)
    then show ?thesis by (simp add: refines_def)
  qed
next
  case step_relay
  then show ?thesis by (simp add: refines_same)
qed

lemma system_reach_calendar: "system_reach lx dispatch db \<Longrightarrow> calendar_step\<^sup>*\<^sup>* Map.empty (calendar_of t db)"
proof (induction rule: system_reach.induct)
  case reach_start
  have "calendar_of t empty_tdb = Map.empty" by (simp add: calendar_of_def booking_of_def empty_tdb_def fun_eq_iff)
  then show ?case by simp
next
  case (reach_step db db')
  then show ?case using system_step_refines [OF reach_step(1,2), of t] by (simp add: refines_def)
qed

section \<open>Properties\<close>

text \<open>
  C4. The system refines a calendar per tenant: in every reachable database, each tenant's bookings are a
  state of the abstract calendar that starts empty and knows only reserving a free slot, advancing a status
  and moving to a free slot; and one step of the system is a sequence of such events for every tenant. So
  the abstract promises hold of the code: active entries of a staff member never overlap, and a closed
  entry never changes.
\<close>
theorem system_refines_calendar:
  assumes "system_reach lx dispatch db" "system_step lx dispatch db db'"
  shows "calendar_step\<^sup>*\<^sup>* Map.empty (calendar_of t db) \<and>
    calendar_step\<^sup>*\<^sup>* (calendar_of t db) (calendar_of t db') \<and>
    calendar_ok (calendar_of t db') \<and> closed_kept (calendar_of t db) (calendar_of t db')"
proof -
  have start: "calendar_step\<^sup>*\<^sup>* Map.empty (calendar_of t db)" by (rule system_reach_calendar [OF assms(1)])
  have next_state: "calendar_step\<^sup>*\<^sup>* (calendar_of t db) (calendar_of t db')"
    using system_step_refines [OF assms] by (simp add: refines_def)
  have "calendar_ok Map.empty" by (simp add: calendar_ok_def)
  then have "calendar_ok (calendar_of t db')"
    using calendar_steps_ok [OF rtranclp_trans [OF start next_state]] by simp
  then show ?thesis using start next_state calendar_steps_closed [OF next_state] by simp
qed

theorem system_refines_calendar_witness:
  "\<exists>db. calendar_of ''t1'' db ''b1'' \<noteq> None \<and> calendar_step\<^sup>*\<^sup>* Map.empty (calendar_of ''t1'' db) \<and>
     calendar_ok (calendar_of ''t1'' db)"
proof -
  have reach: "system_reach sample_luxon (relay_dispatch run_add) run_booked"
    by (rule delivery_reach_system [OF run_reach])
  obtain n q rows where b: "processBatch (relay_dispatch run_add) (\<lambda>_. 0) 5 (\<lambda>_. False) 2 [] (outbox_events run_booked) = (n, q, rows)"
    by (metis prod_cases3)
  have "calendar_of ''t1'' run_booked ''b1'' \<noteq> None"
    by (simp add: calendar_of_def booking_of_def run_booked_def run_booking_def sample_booking_def live_def)
  moreover have "calendar_of ''t1'' (run_booked\<lparr>outbox_events := rows\<rparr>) = calendar_of ''t1'' run_booked"
    by (rule calendar_of_cong) simp
  ultimately show ?thesis using system_refines_calendar [OF reach step_relay [OF b], of "''t1''"]
    by (intro exI [of _ run_booked]) simp
qed

end
