(* ===== verification/Config.thy ===== *)
theory Config
  imports Prelude
begin

text \<open>
  The environment of \<open>config/env.ts\<close>: which variables the program reads, how each is validated and what it
  defaults to. The validators of envalid are a parameter; a variable that is missing without a default or does not
  validate stops the process.
\<close>

datatype validator = Str_Var | Choice_Var "string list" | Host_Var | Port_Var | Num_Var | Bool_Var

datatype env_value = VStr string | VNum int | VBool bool | VUndefined

text \<open>A variable, its validator and its default; \<open>None\<close> means that it is required.\<close>
type_synonym env_rule = "string \<times> validator \<times> env_value option"

definition env_spec :: "env_rule list" where
  "env_spec =
     [(''NODE_ENV'', Choice_Var [''development'', ''test'', ''production''], Some (VStr ''development'')),
      (''PORT'', Port_Var, Some (VNum 3000)),
      (''APP_URL'', Str_Var, Some (VStr ''http://localhost:3000'')),
      (''WEB_APP_URL'', Str_Var, Some (VStr ''http://localhost:5173'')),
      (''CORS_ORIGIN'', Str_Var, Some (VStr ''*'')),
      (''RATE_LIMIT_WINDOW_MS'', Num_Var, Some (VNum (15 * 60 * 1000))),
      (''RATE_LIMIT_MAX'', Num_Var, Some (VNum 100)),
      (''DB_HOST'', Host_Var, Some (VStr ''localhost'')),
      (''DB_PORT'', Port_Var, Some (VNum 5432)),
      (''DB_USER'', Str_Var, None),
      (''DB_PASSWORD'', Str_Var, None),
      (''DB_NAME'', Str_Var, None),
      (''DB_POOL_MAX'', Num_Var, Some (VNum 10)),
      (''JWT_SECRET'', Str_Var, None),
      (''JWT_EXPIRES_IN'', Str_Var, Some (VStr ''15m'')),
      (''REFRESH_TOKEN_TTL_DAYS'', Num_Var, Some (VNum 30)),
      (''INVITE_TTL_DAYS'', Num_Var, Some (VNum 7)),
      (''GOOGLE_CLIENT_ID'', Str_Var, Some VUndefined),
      (''GOOGLE_CLIENT_SECRET'', Str_Var, Some VUndefined),
      (''GOOGLE_CALLBACK_URL'', Str_Var, Some VUndefined),
      (''GOOGLE_SUCCESS_REDIRECT'', Str_Var, Some VUndefined),
      (''SEPAY_WEBHOOK_SECRET'', Str_Var, None),
      (''STRIPE_WEBHOOK_SECRET'', Str_Var, None),
      (''STRIPE_WEBHOOK_TOLERANCE_SECONDS'', Num_Var, Some (VNum 300)),
      (''RESEND_API_KEY'', Str_Var, Some VUndefined),
      (''MAIL_FROM'', Str_Var, Some (VStr ''Booking <onboarding@resend.dev>'')),
      (''REDIS_HOST'', Host_Var, Some (VStr ''localhost'')),
      (''REDIS_PORT'', Port_Var, Some (VNum 6379)),
      (''REDIS_PASSWORD'', Str_Var, None),
      (''LOG_LEVEL'', Str_Var, Some (VStr ''info'')),
      (''SWAGGER_ENABLED'', Bool_Var, Some (VBool True)),
      (''METRICS_ENABLED'', Bool_Var, Some (VBool True)),
      (''WORKER_METRICS_PORT'', Port_Var, Some (VNum 9100)),
      (''OTEL_ENABLED'', Bool_Var, Some (VBool False)),
      (''OTEL_SERVICE_NAME'', Str_Var, Some (VStr ''booking-platform-api'')),
      (''OTEL_EXPORTER_OTLP_ENDPOINT'', Str_Var, None)]"

text \<open>One variable; \<open>parse\<close> is envalid's validator on the text of the process environment.\<close>
definition env_read :: "(validator \<Rightarrow> string \<Rightarrow> env_value option) \<Rightarrow> (string \<Rightarrow> string option) \<Rightarrow> env_rule \<Rightarrow> env_value option" where
  "env_read parse raw r =
     (case r of (name, v, dflt) \<Rightarrow> (case raw name of None \<Rightarrow> dflt | Some text \<Rightarrow> parse v text))"

text \<open>The values, or the names the process complains about before it exits.\<close>
definition cleanEnv ::
  "(validator \<Rightarrow> string \<Rightarrow> env_value option) \<Rightarrow> (string \<Rightarrow> string option) \<Rightarrow> string list + (string \<times> env_value) list" where
  "cleanEnv parse raw =
     (let bad = filter (\<lambda>r. env_read parse raw r = None) env_spec in
      if bad \<noteq> [] then Inl (map fst bad)
      else Inr (map (\<lambda>r. (fst r, the (env_read parse raw r))) env_spec))"

lemma env_names_distinct: "distinct (map fst env_spec)"
  by code_simp

lemma cleanEnv_starts_iff:
  "(\<exists>env. cleanEnv parse raw = Inr env) \<longleftrightarrow>
   (\<forall>(name, v, dflt) \<in> set env_spec. case raw name of None \<Rightarrow> dflt \<noteq> None | Some text \<Rightarrow> parse v text \<noteq> None)"
proof -
  have "(\<exists>env. cleanEnv parse raw = Inr env) \<longleftrightarrow> (\<forall>r \<in> set env_spec. env_read parse raw r \<noteq> None)"
    by (simp add: cleanEnv_def filter_empty_conv)
  also have "\<dots> \<longleftrightarrow>
      (\<forall>(name, v, dflt) \<in> set env_spec. case raw name of None \<Rightarrow> dflt \<noteq> None | Some text \<Rightarrow> parse v text \<noteq> None)"
    by (rule ball_cong) (auto simp: env_read_def split: option.splits)
  finally show ?thesis .
qed

lemma cleanEnv_lookup:
  assumes "cleanEnv parse raw = Inr env" "(name, v, dflt) \<in> set env_spec"
  shows "map_of env name = (case raw name of None \<Rightarrow> dflt | Some text \<Rightarrow> parse v text)"
proof -
  have ok: "filter (\<lambda>r. env_read parse raw r = None) env_spec = []"
    and env: "env = map (\<lambda>r. (fst r, the (env_read parse raw r))) env_spec"
    using assms(1) by (auto simp: cleanEnv_def Let_def split: if_splits)
  have some: "env_read parse raw (name, v, dflt) \<noteq> None" using ok assms(2) by (metis (mono_tags, lifting) filter_empty_conv)
  have "map fst env = map fst env_spec" by (simp add: env comp_def)
  then have "distinct (map fst env)" by (simp only: env_names_distinct)
  moreover have "(name, the (env_read parse raw (name, v, dflt))) \<in> set env"
    using assms(2) unfolding env by (metis (mono_tags, lifting) fst_conv image_eqI list.set_map)
  ultimately have "map_of env name = Some (the (env_read parse raw (name, v, dflt)))" by simp
  then show ?thesis using some by (simp add: env_read_def)
qed

text \<open>What must be set.\<close>
lemma env_required:
  "map fst (filter (\<lambda>(_, _, dflt). dflt = None) env_spec) =
     [''DB_USER'', ''DB_PASSWORD'', ''DB_NAME'', ''JWT_SECRET'', ''SEPAY_WEBHOOK_SECRET'', ''STRIPE_WEBHOOK_SECRET'',
      ''REDIS_PASSWORD'', ''OTEL_EXPORTER_OTLP_ENDPOINT'']"
  by code_simp

end
