(* ===== verification/Sessions.thy ===== *)
theory Sessions
  imports Onboarding
begin

text \<open>
  Accounts and sessions: \<open>src/modules/user\<close>, \<open>src/modules/refresh-token\<close>, \<open>src/modules/auth\<close> and the
  endpoint of \<open>src/modules/tenant/tenant.controller.ts\<close>. Everything is written on the pooled
  connection, statement by statement, so an operation returns the new tables beside its error.
  bcrypt, SHA-256 and ILIKE are parameters; \<open>jwt.sign\<close> is represented by its claims.
\<close>

text \<open>
  What one request draws from its surroundings: the database's clock and generated ids, the
  successive readings of \<open>Date.now()\<close>, the random bytes in hex and the fresh family id.
\<close>
record draws =
  dr_now :: instant
  dr_js :: "nat \<Rightarrow> instant"
  dr_id :: "nat \<Rightarrow> uuid"
  dr_token :: string
  dr_family :: uuid

type_synonym 'a pooled = "gdb \<Rightarrow> (exn + 'a) \<times> gdb"

section \<open>Users\<close>

definition user_findById :: "uuid \<Rightarrow> gdb \<Rightarrow> user option" where
  "user_findById i g = find (\<lambda>u. live u \<and> e_id u = i) (users g)"

definition user_findByEmail :: "string \<Rightarrow> gdb \<Rightarrow> user option" where
  "user_findByEmail em g = find (\<lambda>u. live u \<and> us_email u = em) (users g)"

definition user_findByProviderAccount :: "string \<Rightarrow> string \<Rightarrow> gdb \<Rightarrow> user option" where
  "user_findByProviderAccount p acc g =
     find (\<lambda>u. live u \<and> us_provider u = Some p \<and> us_providerAccountId u = Some acc) (users g)"

definition user_row ::
  "uuid \<Rightarrow> instant \<Rightarrow> string \<Rightarrow> string \<Rightarrow> string option \<Rightarrow> string option \<Rightarrow> string option \<Rightarrow> user" where
  "user_row i now em nm pw p acc =
     \<lparr>e_id = i, e_createdAt = now, e_deletedAt = None, us_email = em, us_name = nm, us_passwordHash = pw,
      us_provider = p, us_providerAccountId = acc, us_isSuperAdmin = False\<rparr>"

definition user_create :: "user \<Rightarrow> user pooled" where
  "user_create u g =
     (case insert_checked users_cs u (users g) of
        Inl e \<Rightarrow> (Inl e, g)
      | Inr rows \<Rightarrow> (Inr u, g\<lparr>users := rows\<rparr>))"

definition linkProvider :: "uuid \<Rightarrow> string \<Rightarrow> string \<Rightarrow> unit pooled" where
  "linkProvider i p acc g =
     (case update_checked users_cs (\<lambda>u. e_id u = i)
             (\<lambda>u. u\<lparr>us_provider := Some p, us_providerAccountId := Some acc\<rparr>) (users g) of
        Inl e \<Rightarrow> (Inl e, g)
      | Inr rows \<Rightarrow> (Inr (), g\<lparr>users := rows\<rparr>))"

definition user_getById :: "uuid \<Rightarrow> gdb \<Rightarrow> exn + user" where
  "user_getById i g = requireE (user_findById i g) (NotFoundException (''User '' @ i @ '' not found''))"

record user_query = base_query +
  uq_name :: "string option"
  uq_email :: "string option"

text \<open>\<open>if (query.name) where.name = ILike(`%..%`)\<close>: absent and empty filters are dropped.\<close>
definition user_paginate :: "(string \<Rightarrow> string \<Rightarrow> bool) \<Rightarrow> user_query \<Rightarrow> gdb \<Rightarrow> user list \<times> nat" where
  "user_paginate ilike q g =
     (let flt = (\<lambda>f x. case f of None \<Rightarrow> True | Some s \<Rightarrow> s = [] \<or> ilike (''%'' @ s @ ''%'') x);
          rows = filter (\<lambda>u. live u \<and> flt (uq_name q) (us_name u) \<and> flt (uq_email q) (us_email u)) (users g)
      in (take (q_limit q) (drop ((q_page q - 1) * q_limit q) (sort_key (\<lambda>u. - e_createdAt u) rows)),
          length rows))"

definition user_list :: "(string \<Rightarrow> string \<Rightarrow> bool) \<Rightarrow> user_query \<Rightarrow> gdb \<Rightarrow> user list \<times> unit page_meta" where
  "user_list ilike q g =
     (let (items, n) = user_paginate ilike q g in paginated items (q_page q) (q_limit q) n)"

section \<open>Refresh tokens\<close>

record auth_env =
  ae_sha256 :: "string \<Rightarrow> string"
  ae_bcrypt_hash :: "string \<Rightarrow> string"
  ae_bcrypt_compare :: "string \<Rightarrow> string \<Rightarrow> bool"
  ae_ttlDays :: int

record session_scope =
  sc_tenantId :: "uuid option"
  sc_role :: "membership_role option"

record claimed_session = session_scope +
  cl_userId :: uuid
  cl_familyId :: uuid

definition refresh_findByHash :: "string \<Rightarrow> gdb \<Rightarrow> refresh_token option" where
  "refresh_findByHash h g = find (\<lambda>r. live r \<and> rt_tokenHash r = h) (refresh_tokens g)"

definition markUsedIfUnused :: "uuid \<Rightarrow> instant \<Rightarrow> gdb \<Rightarrow> bool \<times> gdb" where
  "markUsedIfUnused i stamp g =
     (let p = (\<lambda>r. e_id r = i \<and> rt_usedAt r = None) in
      (0 < affected p (refresh_tokens g),
       g\<lparr>refresh_tokens := update_where p (\<lambda>r. r\<lparr>rt_usedAt := Some stamp\<rparr>) (refresh_tokens g)\<rparr>))"

definition revokeFamily :: "uuid \<Rightarrow> instant \<Rightarrow> gdb \<Rightarrow> gdb" where
  "revokeFamily fam stamp g =
     g\<lparr>refresh_tokens := update_where (\<lambda>r. rt_familyId r = fam \<and> rt_revokedAt r = None)
         (\<lambda>r. r\<lparr>rt_revokedAt := Some stamp\<rparr>) (refresh_tokens g)\<rparr>"

definition refresh_row ::
  "auth_env \<Rightarrow> draws \<Rightarrow> instant \<Rightarrow> uuid \<Rightarrow> session_scope \<Rightarrow> uuid option \<Rightarrow> refresh_token" where
  "refresh_row env dr js_now u sc fam =
     \<lparr>e_id = dr_id dr 0, e_createdAt = dr_now dr, e_deletedAt = None, rt_userId = u,
      rt_familyId = (case fam of None \<Rightarrow> dr_family dr | Some f \<Rightarrow> f),
      rt_tokenHash = ae_sha256 env (dr_token dr), rt_tenantId = sc_tenantId sc, rt_role = sc_role sc,
      rt_expiresAt = js_now + ae_ttlDays env * DAY_MS, rt_usedAt = None, rt_revokedAt = None\<rparr>"

definition refresh_issue ::
  "auth_env \<Rightarrow> draws \<Rightarrow> instant \<Rightarrow> uuid \<Rightarrow> session_scope \<Rightarrow> uuid option \<Rightarrow> string pooled" where
  "refresh_issue env dr js_now u sc fam g =
     (case insert_checked refresh_tokens_cs (refresh_row env dr js_now u sc fam) (refresh_tokens g) of
        Inl e \<Rightarrow> (Inl e, g)
      | Inr rows \<Rightarrow> (Inr (dr_token dr), g\<lparr>refresh_tokens := rows\<rparr>))"

definition refresh_check :: "auth_env \<Rightarrow> instant \<Rightarrow> string \<Rightarrow> gdb \<Rightarrow> exn + refresh_token" where
  "refresh_check env js_now plaintext g =
     bindE (requireE (refresh_findByHash (ae_sha256 env plaintext) g) (UnauthorizedException ''Invalid refresh token'')) (\<lambda>r.
     bindE (guardE (rt_revokedAt r = None) (UnauthorizedException ''Invalid refresh token'')) (\<lambda>_.
     bindE (guardE (\<not> rt_expiresAt r < js_now) (UnauthorizedException ''Refresh token expired'')) (\<lambda>_. Inr r)))"

text \<open>The statement that consumes the record the checks read.\<close>
definition refresh_consume :: "draws \<Rightarrow> refresh_token \<Rightarrow> claimed_session pooled" where
  "refresh_consume dr r g =
     (let (won, g1) = markUsedIfUnused (e_id r) (dr_js dr 1) g in
      if \<not> won then (Inl (UnauthorizedException ''Refresh token reuse detected''),
                     revokeFamily (rt_familyId r) (dr_js dr 2) g1)
      else (Inr \<lparr>sc_tenantId = rt_tenantId r, sc_role = rt_role r, cl_userId = rt_userId r,
                 cl_familyId = rt_familyId r\<rparr>, g1))"

definition refresh_claim :: "auth_env \<Rightarrow> draws \<Rightarrow> string \<Rightarrow> claimed_session pooled" where
  "refresh_claim env dr plaintext g =
     (case refresh_check env (dr_js dr 0) plaintext g of
        Inl e \<Rightarrow> (Inl e, g)
      | Inr r \<Rightarrow> refresh_consume dr r g)"

definition refresh_revoke :: "auth_env \<Rightarrow> draws \<Rightarrow> string \<Rightarrow> gdb \<Rightarrow> gdb" where
  "refresh_revoke env dr plaintext g =
     (case refresh_findByHash (ae_sha256 env plaintext) g of
        None \<Rightarrow> g
      | Some r \<Rightarrow> revokeFamily (rt_familyId r) (dr_js dr 0) g)"

section \<open>Authentication\<close>

record jwt_payload =
  jp_sub :: uuid
  jp_tenantId :: "uuid option"
  jp_role :: "membership_role option"

text \<open>An access token is represented by the claims it signs.\<close>
record session_tokens =
  st_token :: jwt_payload
  st_refreshToken :: string

definition identity_only :: session_scope where
  "identity_only = \<lparr>sc_tenantId = None, sc_role = None\<rparr>"

definition sign_scope :: "uuid \<Rightarrow> session_scope \<Rightarrow> jwt_payload" where
  "sign_scope u sc = \<lparr>jp_sub = u, jp_tenantId = sc_tenantId sc, jp_role = sc_role sc\<rparr>"

definition issueSession :: "auth_env \<Rightarrow> draws \<Rightarrow> uuid \<Rightarrow> session_scope \<Rightarrow> session_tokens pooled" where
  "issueSession env dr u sc g =
     (case refresh_issue env dr (dr_js dr 3) u sc None g of
        (Inl e, g') \<Rightarrow> (Inl e, g')
      | (Inr rt, g') \<Rightarrow> (Inr \<lparr>st_token = sign_scope u sc, st_refreshToken = rt\<rparr>, g'))"

definition issueSessionFor :: "auth_env \<Rightarrow> draws \<Rightarrow> user \<Rightarrow> session_tokens pooled" where
  "issueSessionFor env dr u g =
     issueSession env dr (e_id u)
       (case membership_findByUser (e_id u) g of
          [] \<Rightarrow> identity_only
        | m # _ \<Rightarrow> \<lparr>sc_tenantId = Some (mb_tenantId m), sc_role = Some (mb_role m)\<rparr>) g"

record register_dto =
  rd_email :: string
  rd_name :: string
  rd_password :: string

definition valid_register :: "(string \<Rightarrow> bool) \<Rightarrow> register_dto \<Rightarrow> bool" where
  "valid_register isEmail d \<longleftrightarrow> isEmail (rd_email d) \<and> 2 \<le> length (rd_name d) \<and> 8 \<le> length (rd_password d)"

text \<open>\<open>{ user, ...(await issueSession(..)) }\<close>; the user row is committed before the session is.\<close>
definition with_user :: "user \<Rightarrow> (exn + session_tokens) \<times> gdb \<Rightarrow> (exn + user \<times> session_tokens) \<times> gdb" where
  "with_user u r = (case r of (Inl e, g) \<Rightarrow> (Inl e, g) | (Inr s, g) \<Rightarrow> (Inr (u, s), g))"

definition register :: "auth_env \<Rightarrow> draws \<Rightarrow> register_dto \<Rightarrow> (user \<times> session_tokens) pooled" where
  "register env dr d g =
     (case user_findByEmail (rd_email d) g of
        Some _ \<Rightarrow> (Inl (ConflictException ''Email already in use''), g)
      | None \<Rightarrow>
          (case user_create (user_row (dr_id dr 1) (dr_now dr) (rd_email d) (rd_name d)
                               (Some (ae_bcrypt_hash env (rd_password d))) None None) g of
             (Inl e, g') \<Rightarrow> (Inl e, g')
           | (Inr u, g') \<Rightarrow> with_user u (issueSession env dr (e_id u) identity_only g')))"

definition login :: "auth_env \<Rightarrow> draws \<Rightarrow> string \<Rightarrow> string \<Rightarrow> (user \<times> session_tokens) pooled" where
  "login env dr em pw g =
     (case user_findByEmail em g of
        None \<Rightarrow> (Inl (UnauthorizedException ''Invalid credentials''), g)
      | Some u \<Rightarrow>
          (case us_passwordHash u of
             None \<Rightarrow> (Inl (UnauthorizedException ''Invalid credentials''), g)
           | Some h \<Rightarrow>
               if h = [] \<or> \<not> ae_bcrypt_compare env pw h
               then (Inl (UnauthorizedException ''Invalid credentials''), g)
               else with_user u (issueSessionFor env dr u g)))"

record google_identity =
  gi_sub :: string
  gi_email :: string
  gi_emailVerified :: bool
  gi_name :: string

definition resolveGoogleUser :: "draws \<Rightarrow> google_identity \<Rightarrow> user pooled" where
  "resolveGoogleUser dr ident g =
     (if \<not> gi_emailVerified ident then (Inl (UnauthorizedException ''Google account email is not verified''), g)
      else case user_findByProviderAccount ''google'' (gi_sub ident) g of
        Some u \<Rightarrow> (Inr u, g)
      | None \<Rightarrow>
          (case user_findByEmail (gi_email ident) g of
             Some u \<Rightarrow> (case linkProvider (e_id u) ''google'' (gi_sub ident) g of
                            (Inl e, g') \<Rightarrow> (Inl e, g') | (Inr _, g') \<Rightarrow> (Inr u, g'))
           | None \<Rightarrow> user_create (user_row (dr_id dr 1) (dr_now dr) (gi_email ident) (gi_name ident)
                         None (Some ''google'') (Some (gi_sub ident))) g))"

text \<open>The fields of a Google profile that \<open>toIdentity\<close> reads.\<close>
record google_profile =
  gp_id :: string
  gp_firstEmail :: "string option"
  gp_jsonEmail :: "string option"
  gp_emailVerified :: "bool option"
  gp_displayName :: string
  gp_jsonName :: "string option"

definition toIdentity :: "google_profile \<Rightarrow> exn + google_identity" where
  "toIdentity p =
     (case (case gp_firstEmail p of Some e \<Rightarrow> Some e | None \<Rightarrow> gp_jsonEmail p) of
        None \<Rightarrow> Inl (PlainError ''Google profile has no email'')
      | Some [] \<Rightarrow> Inl (PlainError ''Google profile has no email'')
      | Some em \<Rightarrow> Inr \<lparr>gi_sub = gp_id p, gi_email = em, gi_emailVerified = or_default False (gp_emailVerified p),
          gi_name = (if gp_displayName p \<noteq> [] then gp_displayName p
                     else case gp_jsonName p of Some (x # xs) \<Rightarrow> x # xs | _ \<Rightarrow> em)\<rparr>)"

definition switchTenant :: "auth_env \<Rightarrow> draws \<Rightarrow> user \<Rightarrow> uuid \<Rightarrow> (user \<times> session_tokens) pooled" where
  "switchTenant env dr u t g =
     (let role = resolveRole (e_id u) t g in
      if role = None \<and> \<not> us_isSuperAdmin u
      then (Inl (UnauthorizedException ''Not a member of this tenant''), g)
      else with_user u (issueSession env dr (e_id u) \<lparr>sc_tenantId = Some t, sc_role = role\<rparr> g))"

definition startTenantSession :: "auth_env \<Rightarrow> draws \<Rightarrow> uuid \<Rightarrow> uuid \<Rightarrow> membership_role \<Rightarrow> session_tokens pooled" where
  "startTenantSession env dr u t role g = issueSession env dr u \<lparr>sc_tenantId = Some t, sc_role = Some role\<rparr> g"

definition refresh :: "auth_env \<Rightarrow> draws \<Rightarrow> string \<Rightarrow> session_tokens pooled" where
  "refresh env dr plaintext g =
     (case refresh_claim env dr plaintext g of
        (Inl e, g1) \<Rightarrow> (Inl e, g1)
      | (Inr cl, g1) \<Rightarrow>
          let scope = (case sc_tenantId cl of
                None \<Rightarrow> Some identity_only
              | Some t \<Rightarrow> if t = [] then Some identity_only
                  else map_option (\<lambda>r. \<lparr>sc_tenantId = Some t, sc_role = Some r\<rparr>) (resolveRole (cl_userId cl) t g1)) in
          (case scope of
             None \<Rightarrow> (Inl (UnauthorizedException ''Membership no longer valid''),
                      revokeFamily (cl_familyId cl) (dr_js dr 2) g1)
           | Some sc \<Rightarrow>
               (case refresh_issue env dr (dr_js dr 3) (cl_userId cl) sc (Some (cl_familyId cl)) g1 of
                  (Inl e, g2) \<Rightarrow> (Inl e, g2)
                | (Inr rt, g2) \<Rightarrow> (Inr \<lparr>st_token = sign_scope (cl_userId cl) sc, st_refreshToken = rt\<rparr>, g2))))"

definition logout :: "auth_env \<Rightarrow> draws \<Rightarrow> string \<Rightarrow> gdb \<Rightarrow> gdb" where
  "logout env dr plaintext g = refresh_revoke env dr plaintext g"

text \<open>\<open>POST /tenants\<close>: onboarding, then a session as its owner.\<close>
definition tenant_create_endpoint ::
  "auth_env \<Rightarrow> draws \<Rightarrow> user \<Rightarrow> create_tenant_dto \<Rightarrow> (tenant \<times> session_tokens) pooled" where
  "tenant_create_endpoint env dr u d g =
     (case onboard (dr_id dr 1) (dr_id dr 2) (dr_now dr) (e_id u) d g of
        Inl e \<Rightarrow> (Inl e, g)
      | Inr (tn, g1) \<Rightarrow>
          (case startTenantSession env dr (e_id u) (e_id tn) Owner g1 of
             (Inl e, g2) \<Rightarrow> (Inl e, g2) | (Inr s, g2) \<Rightarrow> (Inr (tn, s), g2)))"

text \<open>The passport strategy: the user a verified token names, if it still exists.\<close>
definition jwt_user :: "jwt_payload \<Rightarrow> gdb \<Rightarrow> user option" where
  "jwt_user p g = user_findById (jp_sub p) g"

section \<open>How tokens evolve\<close>

inductive session_step :: "invite_env \<Rightarrow> auth_env \<Rightarrow> gdb \<Rightarrow> gdb \<Rightarrow> bool" for ienv env where
  step_register: "register env dr d g = (r1, g') \<Longrightarrow> session_step ienv env g g'"
| step_login: "login env dr em pw g = (r1, g') \<Longrightarrow> session_step ienv env g g'"
| step_google: "resolveGoogleUser dr ident g = (r2, g') \<Longrightarrow> session_step ienv env g g'"
| step_session: "issueSessionFor env dr u g = (r3, g') \<Longrightarrow> session_step ienv env g g'"
| step_switch: "switchTenant env dr u t g = (r1, g') \<Longrightarrow> session_step ienv env g g'"
| step_refresh: "refresh env dr pt g = (r3, g') \<Longrightarrow> session_step ienv env g g'"
| step_logout: "logout env dr pt g = g' \<Longrightarrow> session_step ienv env g g'"
| step_tenant: "tenant_create_endpoint env dr u ct g = (r4, g') \<Longrightarrow> session_step ienv env g g'"
| step_other: "onboarding_step ienv g g' \<Longrightarrow> session_step ienv env g g'"

definition session_reach :: "invite_env \<Rightarrow> auth_env \<Rightarrow> gdb \<Rightarrow> gdb \<Rightarrow> bool" where
  "session_reach ienv env = (session_step ienv env)\<^sup>*\<^sup>*"

text \<open>A token keeps its identity; once used or revoked it stays so.\<close>
definition tok_le :: "refresh_token \<Rightarrow> refresh_token \<Rightarrow> bool" where
  "tok_le a b \<longleftrightarrow>
     e_id b = e_id a \<and> live b = live a \<and> rt_tokenHash b = rt_tokenHash a \<and> rt_familyId b = rt_familyId a \<and>
     (rt_usedAt a \<noteq> None \<longrightarrow> rt_usedAt b \<noteq> None) \<and> (rt_revokedAt a \<noteq> None \<longrightarrow> rt_revokedAt b \<noteq> None)"

definition tokens_evolve :: "gdb \<Rightarrow> gdb \<Rightarrow> bool" where
  "tokens_evolve g g' \<longleftrightarrow>
     (\<exists>f new. refresh_tokens g' = map f (refresh_tokens g) @ new \<and> (\<forall>r. tok_le r (f r))) \<and>
     (sat_all refresh_tokens_cs (refresh_tokens g) \<longrightarrow> sat_all refresh_tokens_cs (refresh_tokens g'))"

lemma tok_le_refl [simp]: "tok_le r r"
  by (simp add: tok_le_def)

lemma tokens_evolve_same: "refresh_tokens g' = refresh_tokens g \<Longrightarrow> tokens_evolve g g'"
  unfolding tokens_evolve_def by (rule conjI, rule exI [of _ "\<lambda>r. r"], rule exI [of _ "[]"]) simp_all

lemma tokens_evolve_trans:
  assumes "tokens_evolve a b" "tokens_evolve b c"
  shows "tokens_evolve a c"
proof -
  obtain f1 n1 where 1: "refresh_tokens b = map f1 (refresh_tokens a) @ n1" "\<And>r. tok_le r (f1 r)"
    using assms(1) unfolding tokens_evolve_def by blast
  obtain f2 n2 where 2: "refresh_tokens c = map f2 (refresh_tokens b) @ n2" "\<And>r. tok_le r (f2 r)"
    using assms(2) unfolding tokens_evolve_def by blast
  have "refresh_tokens c = map (f2 \<circ> f1) (refresh_tokens a) @ (map f2 n1 @ n2)" using 1(1) 2(1) by simp
  moreover have "tok_le r ((f2 \<circ> f1) r)" for r
    using 1(2) [of r] 2(2) [of "f1 r"] by (simp add: tok_le_def)
  ultimately show ?thesis using assms unfolding tokens_evolve_def by blast
qed

lemma tokens_evolve_update:
  assumes "\<And>r. tok_le r (h r)"
  shows "tokens_evolve g (g\<lparr>refresh_tokens := update_where p h (refresh_tokens g)\<rparr>)"
proof -
  have "sat_all refresh_tokens_cs (update_where p h (refresh_tokens g))"
    if "sat_all refresh_tokens_cs (refresh_tokens g)"
  proof (rule refresh_tokens_tbl.update_harmless [OF that])
    fix code C a b
    assume "(code, C) \<in> set refresh_tokens_cs"
      and "C (if p a then h a else a) (if p b then h b else b)"
    then show "C a b"
      using assms [of a] assms [of b]
      by (auto simp: refresh_tokens_cs_def pk_conflict_def tok_le_def split: if_splits)
  qed
  moreover have "refresh_tokens (g\<lparr>refresh_tokens := update_where p h (refresh_tokens g)\<rparr>) =
      map (\<lambda>r. if p r then h r else r) (refresh_tokens g) @ []"
    by (simp add: update_where_def)
  moreover have "tok_le r (if p r then h r else r)" for r using assms by simp
  ultimately show ?thesis unfolding tokens_evolve_def by auto
qed

lemma markUsed_evolve: "tokens_evolve g (snd (markUsedIfUnused i stamp g))"
  unfolding markUsedIfUnused_def Let_def snd_conv
  by (rule tokens_evolve_update) (simp add: tok_le_def live_def)

lemma revokeFamily_evolve: "tokens_evolve g (revokeFamily fam stamp g)"
  unfolding revokeFamily_def by (rule tokens_evolve_update) (simp add: tok_le_def live_def)

lemma refresh_issue_evolve: "tokens_evolve g (snd (refresh_issue env dr now u sc fam g))"
proof (cases "insert_checked refresh_tokens_cs (refresh_row env dr now u sc fam) (refresh_tokens g)")
  case (Inl e)
  then show ?thesis by (simp add: refresh_issue_def tokens_evolve_same)
next
  case (Inr rows)
  note eq = insert_checked_eq [OF Inr]
  show ?thesis unfolding tokens_evolve_def
    by (rule conjI, rule exI [of _ "\<lambda>r. r"], rule exI [of _ "[refresh_row env dr now u sc fam]"])
      (use Inr eq refresh_tokens_tbl.insert_sat [OF _ Inr] in \<open>simp_all add: refresh_issue_def\<close>)
qed

lemma refresh_consume_evolve: "tokens_evolve g (snd (refresh_consume dr r g))"
  using markUsed_evolve [of g "e_id r" "dr_js dr 1"] revokeFamily_evolve
  by (auto simp: refresh_consume_def case_prod_beta Let_def intro: tokens_evolve_trans)

lemma refresh_claim_evolve: "tokens_evolve g (snd (refresh_claim env dr pt g))"
  by (auto simp: refresh_claim_def refresh_consume_evolve tokens_evolve_same split: sum.splits)

lemma issueSession_evolve: "tokens_evolve g (snd (issueSession env dr u sc g))"
  using refresh_issue_evolve [of g env dr "dr_js dr 3" u sc None]
  by (auto simp: issueSession_def split: sum.splits prod.splits)

lemma snd_with_user [simp]: "snd (with_user u r) = snd r"
  by (auto simp: with_user_def split: prod.splits sum.splits)

lemma user_create_tokens [simp]: "refresh_tokens (snd (user_create u g)) = refresh_tokens g"
  by (auto simp: user_create_def split: sum.splits)

lemma linkProvider_tokens [simp]: "refresh_tokens (snd (linkProvider i p a g)) = refresh_tokens g"
  by (auto simp: linkProvider_def split: sum.splits)

lemma register_evolve: "tokens_evolve g (snd (register env dr d g))"
proof (cases "user_findByEmail (rd_email d) g")
  case (Some u)
  then show ?thesis by (simp add: register_def tokens_evolve_same)
next
  case None
  let ?u = "user_row (dr_id dr 1) (dr_now dr) (rd_email d) (rd_name d) (Some (ae_bcrypt_hash env (rd_password d))) None None"
  obtain r g1 where c: "user_create ?u g = (r, g1)" by fastforce
  then have "tokens_evolve g g1" using user_create_tokens [of ?u g] by (simp add: tokens_evolve_same)
  then show ?thesis using None c
    by (cases r) (auto simp: register_def intro: tokens_evolve_trans issueSession_evolve)
qed

lemma login_evolve: "tokens_evolve g (snd (login env dr em pw g))"
  by (auto simp: login_def issueSessionFor_def issueSession_evolve tokens_evolve_same
      split: option.splits list.splits)

lemma google_tokens: "refresh_tokens (snd (resolveGoogleUser dr ident g)) = refresh_tokens g"
proof (cases "user_findByProviderAccount ''google'' (gi_sub ident) g")
  case (Some u)
  then show ?thesis by (simp add: resolveGoogleUser_def)
next
  case none: None
  show ?thesis
  proof (cases "user_findByEmail (gi_email ident) g")
    case None
    then show ?thesis using none by (simp add: resolveGoogleUser_def)
  next
    case (Some u)
    obtain r g1 where l: "linkProvider (e_id u) ''google'' (gi_sub ident) g = (r, g1)" by fastforce
    then show ?thesis using none Some linkProvider_tokens [of "e_id u" "''google''" "gi_sub ident" g]
      by (cases r) (simp_all add: resolveGoogleUser_def)
  qed
qed

lemma issueSessionFor_evolve: "tokens_evolve g (snd (issueSessionFor env dr u g))"
  unfolding issueSessionFor_def by (rule issueSession_evolve)

lemma switchTenant_evolve: "tokens_evolve g (snd (switchTenant env dr u t g))"
  by (simp add: switchTenant_def Let_def issueSession_evolve tokens_evolve_same)

lemma refresh_evolve: "tokens_evolve g (snd (refresh env dr pt g))"
proof -
  obtain r g1 where c: "refresh_claim env dr pt g = (r, g1)" by fastforce
  then have e1: "tokens_evolve g g1" using refresh_claim_evolve [of g env dr pt] by simp
  show ?thesis
  proof (cases r)
    case (Inl e)
    then show ?thesis using c e1 by (simp add: refresh_def)
  next
    case (Inr cl)
    have i: "tokens_evolve g (snd (refresh_issue env dr now u sc fam g1))" for now u sc fam
      by (rule tokens_evolve_trans [OF e1 refresh_issue_evolve])
    have v: "tokens_evolve g (revokeFamily fam stamp g1)" for fam stamp
      by (rule tokens_evolve_trans [OF e1 revokeFamily_evolve])
    show ?thesis using c Inr v i
      by (auto simp: refresh_def Let_def split: option.splits prod.splits sum.splits) (metis snd_conv)+
  qed
qed

lemma logout_evolve: "tokens_evolve g (logout env dr pt g)"
  by (auto simp: logout_def refresh_revoke_def revokeFamily_evolve tokens_evolve_same split: option.splits)

lemma onboarding_tokens:
  assumes "onboarding_step ienv g g'"
  shows "refresh_tokens g' = refresh_tokens g"
  using assms
proof cases
  case step_onboard
  then show ?thesis by (elim onboard_Inr) simp
next
  case step_invite
  then show ?thesis by (auto dest!: invite_create_effect)
next
  case step_accept
  from invite_accept_effect [OF this] show ?thesis by (elim disjE exE conjE) simp_all
next
  case step_suspend
  then show ?thesis unfolding suspend_def by (elim changeStatus_Inr) simp
next
  case step_reactivate
  then show ?thesis unfolding reactivate_def by (elim changeStatus_Inr) simp
next
  case step_detail
  then show ?thesis by (auto dest!: getTenantDetail_effect)
qed

lemma tenant_create_evolve: "tokens_evolve g (snd (tenant_create_endpoint env dr u d g))"
proof (cases "onboard (dr_id dr 1) (dr_id dr 2) (dr_now dr) (e_id u) d g")
  case (Inl e)
  then show ?thesis by (simp add: tenant_create_endpoint_def tokens_evolve_same)
next
  case (Inr p)
  obtain tn g1 where p: "p = (tn, g1)" by fastforce
  have "refresh_tokens g1 = refresh_tokens g" using Inr [unfolded p] by (elim onboard_Inr) simp
  then have "tokens_evolve g (snd (startTenantSession env dr (e_id u) (e_id tn) Owner g1))"
    unfolding startTenantSession_def
    by (rule tokens_evolve_trans [OF tokens_evolve_same issueSession_evolve])
  then show ?thesis using Inr p
    by (auto simp: tenant_create_endpoint_def split: prod.splits sum.splits)
qed

lemma session_step_evolve: "session_step ienv env g g' \<Longrightarrow> tokens_evolve g g'"
proof (induction rule: session_step.induct)
  case (step_register dr d g r1 g')
  then show ?case using register_evolve [of g env dr d] by simp
next
  case (step_login dr em pw g r1 g')
  then show ?case using login_evolve [of g env dr em pw] by simp
next
  case (step_google dr ident g r2 g')
  then show ?case using google_tokens [of dr ident g] by (simp add: tokens_evolve_same)
next
  case (step_session dr u g r3 g')
  then show ?case using issueSessionFor_evolve [of g env dr u] by simp
next
  case (step_switch dr u t g r1 g')
  then show ?case using switchTenant_evolve [of g env dr u t] by simp
next
  case (step_refresh dr pt g r3 g')
  then show ?case using refresh_evolve [of g env dr pt] by simp
next
  case (step_logout dr pt g g')
  then show ?case using logout_evolve [of g env dr pt] by simp
next
  case (step_tenant dr u ct g r4 g')
  then show ?case using tenant_create_evolve [of g env dr u ct] by simp
next
  case (step_other g g')
  then show ?case by (simp add: onboarding_tokens tokens_evolve_same)
qed

lemma session_reach_evolve:
  assumes "session_reach ienv env g g'"
  shows "tokens_evolve g g'"
  using assms unfolding session_reach_def
  by (induction rule: rtranclp_induct) (auto intro: tokens_evolve_same tokens_evolve_trans session_step_evolve)

lemma find_evolved:
  assumes "tokens_evolve g g'" "refresh_findByHash h g = Some r"
  obtains r' where "refresh_findByHash h g' = Some r'" "tok_le r r'"
proof -
  obtain f new where f: "refresh_tokens g' = map f (refresh_tokens g) @ new" "\<And>r. tok_le r (f r)"
    using assms(1) unfolding tokens_evolve_def by blast
  have eq: "live (f r) = live r \<and> rt_tokenHash (f r) = rt_tokenHash r" for r
    using f(2) [of r] by (simp add: tok_le_def)
  have "find (\<lambda>r. live r \<and> rt_tokenHash r = h) (map f rows) =
      map_option f (find (\<lambda>r. live r \<and> rt_tokenHash r = h) rows)" for rows
    by (induction rows) (auto simp: eq)
  then have "find (\<lambda>r. live r \<and> rt_tokenHash r = h) (map f (refresh_tokens g)) = Some (f r)"
    using assms(2) by (simp add: refresh_findByHash_def)
  then have "refresh_findByHash h g' = Some (f r)"
    using find_append_Some by (simp add: refresh_findByHash_def f(1))
  then show thesis using that f(2) by blast
qed

section \<open>Consuming a token\<close>

lemma markUsed_wins: "fst (markUsedIfUnused i stamp g) \<longleftrightarrow>
    list_ex (\<lambda>r. e_id r = i \<and> rt_usedAt r = None) (refresh_tokens g)"
  by (simp add: markUsedIfUnused_def Let_def affected_pos list_ex_iff Bex_def)

definition token_spent :: "gdb \<Rightarrow> uuid \<Rightarrow> bool" where
  "token_spent g i \<longleftrightarrow> \<not> list_ex (\<lambda>r. e_id r = i \<and> rt_usedAt r = None) (refresh_tokens g)"

definition spend_row :: "uuid \<Rightarrow> instant \<Rightarrow> refresh_token \<Rightarrow> refresh_token" where
  "spend_row i stamp r = (if e_id r = i \<and> rt_usedAt r = None then r\<lparr>rt_usedAt := Some stamp\<rparr> else r)"

lemma markUsed_tokens:
  "snd (markUsedIfUnused i stamp g) = g\<lparr>refresh_tokens := map (spend_row i stamp) (refresh_tokens g)\<rparr>"
  by (auto simp: markUsedIfUnused_def Let_def update_where_def spend_row_def)

interpretation refresh_once: claim_once "\<lambda>i g. markUsedIfUnused i stamp g" token_spent "\<lambda>_. True"
  for stamp :: instant
  by unfold_locales
    (auto simp: markUsed_wins token_spent_def markUsed_tokens list_ex_iff spend_row_def)

lemma markUsed_spent:
  assumes "sat_all refresh_tokens_cs (refresh_tokens g)" "r \<in> set (refresh_tokens g)" "rt_usedAt r \<noteq> None"
  shows "markUsedIfUnused (e_id r) stamp g = (False, g)"
proof -
  have n: "\<not> (e_id x = e_id r \<and> rt_usedAt x = None)" if "x \<in> set (refresh_tokens g)" for x
    using refresh_tokens_tbl.key_inj [OF assms(1) that assms(2)] assms(3) by auto
  then have "update_where (\<lambda>x. e_id x = e_id r \<and> rt_usedAt x = None) h (refresh_tokens g) = refresh_tokens g" for h
    by (rule update_where_none)
  moreover have "\<not> fst (markUsedIfUnused (e_id r) stamp g)"
    using n by (auto simp: markUsed_wins list_ex_iff)
  ultimately show ?thesis by (simp add: markUsedIfUnused_def Let_def)
qed

lemma findByHash_mem: "refresh_findByHash h g = Some r \<Longrightarrow> r \<in> set (refresh_tokens g) \<and> live r \<and> rt_tokenHash r = h"
  unfolding refresh_findByHash_def by (drule find_Some_mem) simp

lemma refresh_check_Inr:
  assumes "refresh_check env js pt g = Inr r"
  shows "refresh_findByHash (ae_sha256 env pt) g = Some r" "rt_revokedAt r = None" "js \<le> rt_expiresAt r"
  using assms by (auto simp: refresh_check_def result_simps)

text \<open>A spent token: the claim fails, and revokes the family unless the token is revoked or expired already.\<close>
lemma refresh_claim_spent:
  assumes "sat_all refresh_tokens_cs (refresh_tokens g)"
    and "refresh_findByHash (ae_sha256 env pt) g = Some r" "rt_usedAt r \<noteq> None"
  shows "refresh_claim env dr pt g =
    (if rt_revokedAt r \<noteq> None then (Inl (UnauthorizedException ''Invalid refresh token''), g)
     else if rt_expiresAt r < dr_js dr 0 then (Inl (UnauthorizedException ''Refresh token expired''), g)
     else (Inl (UnauthorizedException ''Refresh token reuse detected''), revokeFamily (rt_familyId r) (dr_js dr 2) g))"
  using assms(2) markUsed_spent [OF assms(1) _ assms(3)] findByHash_mem [OF assms(2)]
  by (cases "rt_revokedAt r") (simp_all add: refresh_claim_def refresh_check_def refresh_consume_def)

lemma refresh_claim_Inr:
  assumes "refresh_claim env dr pt g = (Inr cl, g1)"
  obtains r where "refresh_findByHash (ae_sha256 env pt) g = Some r" "rt_revokedAt r = None"
    "dr_js dr 0 \<le> rt_expiresAt r" "rt_usedAt r = None \<or> \<not> sat_all refresh_tokens_cs (refresh_tokens g)"
    "g1 = snd (markUsedIfUnused (e_id r) (dr_js dr 1) g)"
    "cl = \<lparr>sc_tenantId = rt_tenantId r, sc_role = rt_role r, cl_userId = rt_userId r, cl_familyId = rt_familyId r\<rparr>"
proof -
  obtain r where c: "refresh_check env (dr_js dr 0) pt g = Inr r" and k: "refresh_consume dr r g = (Inr cl, g1)"
    using assms by (auto simp: refresh_claim_def split: sum.splits)
  note f = refresh_check_Inr [OF c]
  have "rt_usedAt r = None" if s: "sat_all refresh_tokens_cs (refresh_tokens g)"
  proof (rule ccontr)
    assume "rt_usedAt r \<noteq> None"
    from refresh_claim_spent [OF s f(1) this, of dr] assms show False
      by (cases "rt_revokedAt r") (simp_all split: if_splits)
  qed
  moreover have "g1 = snd (markUsedIfUnused (e_id r) (dr_js dr 1) g)"
    "cl = \<lparr>sc_tenantId = rt_tenantId r, sc_role = rt_role r, cl_userId = rt_userId r, cl_familyId = rt_familyId r\<rparr>"
    using k by (auto simp: refresh_consume_def case_prod_beta Let_def split: if_splits)
  ultimately show thesis using that f by blast
qed

lemma refresh_claim_spends:
  assumes "refresh_claim env dr pt g = (Inr cl, g1)"
  obtains r where "refresh_findByHash (ae_sha256 env pt) g1 = Some r" "rt_usedAt r \<noteq> None"
proof -
  from assms obtain r where r: "refresh_findByHash (ae_sha256 env pt) g = Some r"
      "g1 = snd (markUsedIfUnused (e_id r) (dr_js dr 1) g)"
    by (rule refresh_claim_Inr)
  have "tokens_evolve g g1" unfolding r(2) by (rule markUsed_evolve)
  from find_evolved [OF this r(1)] obtain r' where r': "refresh_findByHash (ae_sha256 env pt) g1 = Some r'" "tok_le r r'"
    by blast
  have "r' \<in> set (refresh_tokens g1)" using findByHash_mem [OF r'(1)] by simp
  then have "rt_usedAt r' \<noteq> None"
    using r'(2) unfolding r(2)
    by (auto simp: markUsedIfUnused_def Let_def set_update_where tok_le_def)
  then show thesis using that r'(1) by blast
qed

section \<open>Properties\<close>

definition sample_aenv :: auth_env where
  "sample_aenv = \<lparr>ae_sha256 = (\<lambda>s. s), ae_bcrypt_hash = (\<lambda>s. s), ae_bcrypt_compare = (=), ae_ttlDays = 30\<rparr>"

definition sample_draws :: "uuid \<Rightarrow> string \<Rightarrow> draws" where
  "sample_draws i tok =
     \<lparr>dr_now = 5, dr_js = (\<lambda>n. 10 + int n), dr_id = (\<lambda>n. i), dr_token = tok, dr_family = ''f''\<rparr>"

definition sample_token :: "uuid \<Rightarrow> string \<Rightarrow> instant option \<Rightarrow> refresh_token" where
  "sample_token i h used =
     \<lparr>e_id = i, e_createdAt = 0, e_deletedAt = None, rt_userId = ''u1'', rt_familyId = ''f1'', rt_tokenHash = h,
      rt_tenantId = Some ''t1'', rt_role = Some Owner, rt_expiresAt = 1000, rt_usedAt = used, rt_revokedAt = None\<rparr>"

text \<open>
  C26. A refresh token is good for one rotation: once it has been claimed, then after whatever sessions,
  logins, rotations, logouts and onboarding follow, every further claim of it is a 401.
\<close>
theorem refresh_single_use:
  assumes "sat_all refresh_tokens_cs (refresh_tokens g)"
    and "refresh_claim env dr pt g = (Inr cl, g1)" "session_reach ienv env g1 g2"
  shows "\<exists>m. fst (refresh_claim env dr' pt g2) = Inl (UnauthorizedException m)"
proof -
  obtain r where r: "refresh_findByHash (ae_sha256 env pt) g1 = Some r" "rt_usedAt r \<noteq> None"
    using assms(2) by (rule refresh_claim_spends)
  have e: "tokens_evolve g1 g2" using assms(3) by (rule session_reach_evolve)
  obtain r' where r': "refresh_findByHash (ae_sha256 env pt) g2 = Some r'" "tok_le r r'"
    using find_evolved [OF e r(1)] by blast
  have "sat_all refresh_tokens_cs (refresh_tokens g1)"
    using assms(1) refresh_claim_evolve [of g env dr pt] assms(2) by (simp add: tokens_evolve_def)
  then have "sat_all refresh_tokens_cs (refresh_tokens g2)" using e by (simp add: tokens_evolve_def)
  moreover have "rt_usedAt r' \<noteq> None" using r(2) r'(2) by (simp add: tok_le_def)
  ultimately have "refresh_claim env dr' pt g2 =
    (if rt_revokedAt r' \<noteq> None then (Inl (UnauthorizedException ''Invalid refresh token''), g2)
     else if rt_expiresAt r' < dr_js dr' 0 then (Inl (UnauthorizedException ''Refresh token expired''), g2)
     else (Inl (UnauthorizedException ''Refresh token reuse detected''), revokeFamily (rt_familyId r') (dr_js dr' 2) g2))"
    by (rule refresh_claim_spent [OF _ r'(1)])
  then show ?thesis by (cases "rt_revokedAt r'"; cases "rt_expiresAt r' < dr_js dr' 0") auto
qed

theorem refresh_single_use_witness:
  "let g1 = snd (refresh_claim sample_aenv (sample_draws ''r2'' ''new'') ''old'' (empty_gdb\<lparr>refresh_tokens := [sample_token ''r1'' ''old'' None]\<rparr>))
   in \<exists>m. fst (refresh_claim sample_aenv (sample_draws ''r3'' ''x'') ''old'' g1) = Inl (UnauthorizedException m)"
proof -
  let ?g = "empty_gdb\<lparr>refresh_tokens := [sample_token ''r1'' ''old'' None]\<rparr>"
  let ?r = "refresh_claim sample_aenv (sample_draws ''r2'' ''new'') ''old'' ?g"
  have "fst ?r = Inr \<lparr>sc_tenantId = Some ''t1'', sc_role = Some Owner, cl_userId = ''u1'', cl_familyId = ''f1''\<rparr>"
    by code_simp
  then have c: "?r = (Inr \<lparr>sc_tenantId = Some ''t1'', sc_role = Some Owner, cl_userId = ''u1'', cl_familyId = ''f1''\<rparr>, snd ?r)"
    by (metis prod.collapse)
  have s: "sat_all refresh_tokens_cs (refresh_tokens ?g)" by (simp add: sat_all_def violates_def list_all_iff)
  have "session_reach sample_ienv sample_aenv (snd ?r) (snd ?r)" by (simp add: session_reach_def)
  from refresh_single_use [OF s c this] show ?thesis by (simp add: Let_def)
qed

text \<open>
  Replaying a rotated token is treated as theft: the replay is a 401, and from then on, whatever other
  operations run, every token its family had at that moment (the stolen one's successors included) is refused.
\<close>
theorem reuse_burns_family:
  assumes "sat_all refresh_tokens_cs (refresh_tokens g)"
    and "refresh_findByHash (ae_sha256 env pt) g = Some r" "rt_usedAt r \<noteq> None"
    and "rt_revokedAt r = None" "dr_js dr 0 \<le> rt_expiresAt r"
    and "refresh_claim env dr pt g = (res, g1)" "session_reach ienv env g1 g2"
    and "refresh_findByHash (ae_sha256 env pt2) g = Some r2" "rt_familyId r2 = rt_familyId r"
  shows "res = Inl (UnauthorizedException ''Refresh token reuse detected'') \<and>
         refresh_claim env dr2 pt2 g2 = (Inl (UnauthorizedException ''Invalid refresh token''), g2)"
proof -
  have c: "res = Inl (UnauthorizedException ''Refresh token reuse detected'')"
    "g1 = revokeFamily (rt_familyId r) (dr_js dr 2) g"
    using refresh_claim_spent [OF assms(1-3), of dr] assms(4-6) by simp_all
  have e1: "tokens_evolve g g1" unfolding c(2) by (rule revokeFamily_evolve)
  obtain r1 where r1: "refresh_findByHash (ae_sha256 env pt2) g1 = Some r1" "tok_le r2 r1"
    using find_evolved [OF e1 assms(8)] by blast
  have "rt_familyId r1 = rt_familyId r" using r1(2) assms(9) by (simp add: tok_le_def)
  moreover have "r1 \<in> set (refresh_tokens g1)" using findByHash_mem [OF r1(1)] by simp
  ultimately have v: "rt_revokedAt r1 \<noteq> None"
    unfolding c(2) by (auto simp: revokeFamily_def set_update_where)
  obtain r' where r': "refresh_findByHash (ae_sha256 env pt2) g2 = Some r'" "tok_le r1 r'"
    using find_evolved [OF session_reach_evolve [OF assms(7)] r1(1)] by blast
  have "rt_revokedAt r' \<noteq> None" using v r'(2) by (simp add: tok_le_def)
  then obtain x where "rt_revokedAt r' = Some x" by blast
  then show ?thesis using c(1) r'(1) by (simp add: refresh_claim_def refresh_check_def)
qed

theorem reuse_burns_family_witness:
  "let g = empty_gdb\<lparr>refresh_tokens := [sample_token ''r1'' ''old'' (Some 3), sample_token ''r2'' ''new'' None]\<rparr>;
       g1 = snd (refresh_claim sample_aenv (sample_draws ''r3'' ''x'') ''old'' g)
   in refresh_claim sample_aenv (sample_draws ''r4'' ''y'') ''new'' g1 =
        (Inl (UnauthorizedException ''Invalid refresh token''), g1)"
proof -
  let ?g = "empty_gdb\<lparr>refresh_tokens := [sample_token ''r1'' ''old'' (Some 3), sample_token ''r2'' ''new'' None]\<rparr>"
  let ?r = "refresh_claim sample_aenv (sample_draws ''r3'' ''x'') ''old'' ?g"
  have s: "sat_all refresh_tokens_cs (refresh_tokens ?g)"
    by (simp add: sat_all_def violates_def list_all_iff refresh_tokens_cs_def pk_conflict_def sample_token_def)
  have f: "refresh_findByHash (ae_sha256 sample_aenv ''old'') ?g = Some (sample_token ''r1'' ''old'' (Some 3))"
    "refresh_findByHash (ae_sha256 sample_aenv ''new'') ?g = Some (sample_token ''r2'' ''new'' None)"
    by code_simp+
  have "session_reach sample_ienv sample_aenv (snd ?r) (snd ?r)" by (simp add: session_reach_def)
  from reuse_burns_family [OF s f(1) _ _ _ prod.collapse [symmetric] this f(2)]
  show ?thesis unfolding Let_def by (simp add: sample_token_def sample_draws_def)
qed

text \<open>The claims a token may carry: identity only, or a tenant with the user's present role in it.\<close>
definition true_claims :: "gdb \<Rightarrow> bool \<Rightarrow> jwt_payload \<Rightarrow> bool" where
  "true_claims g super p \<longleftrightarrow>
     (case jp_tenantId p of
        None \<Rightarrow> jp_role p = None
      | Some t \<Rightarrow> jp_role p = resolveRole (jp_sub p) t g \<and> (jp_role p = None \<longrightarrow> super))"

lemma issueSession_Inr:
  assumes "issueSession env dr u sc g = (Inr s, g')"
  shows "st_token s = sign_scope u sc" "memberships g' = memberships g"
  using assms by (auto simp: issueSession_def refresh_issue_def split: sum.splits)

lemma resolveRole_cong: "memberships g' = memberships g \<Longrightarrow> resolveRole u t g' = resolveRole u t g"
  by (simp add: resolveRole_def)

lemma with_user_Inr:
  assumes "with_user u r = (Inr (v, s), g')"
  shows "v = u" "r = (Inr s, g')"
  using assms by (auto simp: with_user_def split: prod.splits sum.splits)

lemma resolveRole_first:
  assumes "sat_all memberships_cs (memberships g)" "m \<in> set (membership_findByUser u g)"
  shows "resolveRole u (mb_tenantId m) g = Some (mb_role m)"
proof -
  have m: "m \<in> set (memberships g)" "live m" "mb_userId m = u"
    using assms(2) by (auto simp: membership_findByUser_def)
  have "find (\<lambda>x. live x \<and> mb_userId x = u \<and> mb_tenantId x = mb_tenantId m) (memberships g) = Some m"
  proof (rule find_unique [OF m(1)])
    fix y assume y: "y \<in> set (memberships g)" "live y \<and> mb_userId y = u \<and> mb_tenantId y = mb_tenantId m"
    show "y = m"
    proof (rule ccontr)
      assume "y \<noteq> m"
      moreover have "(unique_violation, \<lambda>a b. mb_userId a = mb_userId b \<and> mb_tenantId a = mb_tenantId b) \<in> set memberships_cs"
        by (simp add: memberships_cs_def)
      ultimately have "\<not> (mb_userId y = mb_userId m \<and> mb_tenantId y = mb_tenantId m)"
        using memberships_tbl.no_conflict [OF assms(1) _ y(1) m(1)] by fastforce
      then show False using y(2) m(3) by simp
    qed
  qed (use m in simp)
  then show ?thesis by (simp add: resolveRole_def)
qed

lemma issueSessionFor_claims:
  assumes "sat_all memberships_cs (memberships g)" "issueSessionFor env dr u g = (Inr s, g')"
  shows "jp_sub (st_token s) = e_id u" "true_claims g' False (st_token s)"
proof -
  note i = issueSession_Inr [OF assms(2) [unfolded issueSessionFor_def]]
  show "jp_sub (st_token s) = e_id u" by (simp add: i(1) sign_scope_def)
  show "true_claims g' False (st_token s)"
  proof (cases "membership_findByUser (e_id u) g")
    case Nil
    then show ?thesis by (simp add: i(1) sign_scope_def true_claims_def identity_only_def)
  next
    case (Cons m ms)
    then show ?thesis using resolveRole_first [OF assms(1), of m "e_id u"] resolveRole_cong [OF i(2)]
      by (simp add: i(1) sign_scope_def true_claims_def)
  qed
qed

text \<open>
  C28. Tokens never claim authority the user does not have: the access token of a login, a tenant switch or a
  refresh names either no tenant and no role, or a tenant with exactly the user's role in its memberships
  at that moment; only a super-admin's switch may name a tenant without a role.
\<close>
theorem issued_claims_true:
  assumes "sat_all memberships_cs (memberships g)"
  shows "(login env dr em pw g = (Inr (u, s), g') \<longrightarrow> jp_sub (st_token s) = e_id u \<and> true_claims g' False (st_token s)) \<and>
    (switchTenant env dr v t g = (Inr (u, s), g') \<longrightarrow> jp_sub (st_token s) = e_id v \<and> true_claims g' (us_isSuperAdmin v) (st_token s)) \<and>
    (refresh env dr pt g = (Inr s, g') \<longrightarrow> true_claims g' False (st_token s))"
proof (intro conjI impI)
  assume "login env dr em pw g = (Inr (u, s), g')"
  then obtain w where "with_user w (issueSessionFor env dr w g) = (Inr (u, s), g')"
    by (auto simp: login_def split: option.splits if_splits)
  note l = with_user_Inr [OF this]
  show "jp_sub (st_token s) = e_id u" "true_claims g' False (st_token s)"
    using issueSessionFor_claims [OF assms l(2)] l(1) by simp_all
next
  assume "switchTenant env dr v t g = (Inr (u, s), g')"
  then have k: "\<not> (resolveRole (e_id v) t g = None \<and> \<not> us_isSuperAdmin v)"
    and w: "with_user v (issueSession env dr (e_id v) \<lparr>sc_tenantId = Some t, sc_role = resolveRole (e_id v) t g\<rparr> g) = (Inr (u, s), g')"
    unfolding switchTenant_def Let_def by (simp_all split: if_splits)
  note i = issueSession_Inr [OF with_user_Inr(2) [OF w]]
  show "jp_sub (st_token s) = e_id v" by (simp add: i(1) sign_scope_def)
  show "true_claims g' (us_isSuperAdmin v) (st_token s)"
    using k resolveRole_cong [OF i(2)] by (auto simp: i(1) sign_scope_def true_claims_def)
next
  assume r: "refresh env dr pt g = (Inr s, g')"
  obtain cl g1 where c: "refresh_claim env dr pt g = (Inr cl, g1)"
    using r by (auto simp: refresh_def split: prod.splits sum.splits)
  define scope where "scope = (case sc_tenantId cl of
      None \<Rightarrow> Some identity_only
    | Some t \<Rightarrow> if t = [] then Some identity_only
        else map_option (\<lambda>r. \<lparr>sc_tenantId = Some t, sc_role = Some r\<rparr>) (resolveRole (cl_userId cl) t g1))"
  obtain sc rt where sc: "scope = Some sc" "refresh_issue env dr (dr_js dr 3) (cl_userId cl) sc (Some (cl_familyId cl)) g1 = (Inr rt, g')"
    and s: "s = \<lparr>st_token = sign_scope (cl_userId cl) sc, st_refreshToken = rt\<rparr>"
    using r by (auto simp: refresh_def c Let_def scope_def [symmetric] split: option.splits prod.splits sum.splits)
  have "memberships g' = memberships g1"
    using sc(2) by (auto simp: refresh_issue_def split: sum.splits)
  then show "true_claims g' False (st_token s)"
    using sc(1) resolveRole_cong [of g' g1]
    by (auto simp: s scope_def sign_scope_def true_claims_def identity_only_def split: option.splits if_splits)
qed

theorem issued_claims_true_witness:
  "let g = empty_gdb\<lparr>memberships := [\<lparr>e_id = ''m'', e_createdAt = 1, e_deletedAt = None, mb_userId = ''u1'',
                                      mb_tenantId = ''t1'', mb_role = Staff\<rparr>],
                     refresh_tokens := [sample_token ''r1'' ''old'' None]\<rparr>
   in \<exists>s g'. refresh sample_aenv (sample_draws ''r2'' ''new'') ''old'' g = (Inr s, g') \<and> true_claims g' False (st_token s) \<and>
        jp_role (st_token s) = Some Staff"
proof -
  let ?g = "empty_gdb\<lparr>memberships := [\<lparr>e_id = ''m'', e_createdAt = 1, e_deletedAt = None, mb_userId = ''u1'',
                                      mb_tenantId = ''t1'', mb_role = Staff\<rparr>],
                     refresh_tokens := [sample_token ''r1'' ''old'' None]\<rparr>"
  let ?r = "refresh sample_aenv (sample_draws ''r2'' ''new'') ''old'' ?g"
  let ?s = "\<lparr>st_token = \<lparr>jp_sub = ''u1'', jp_tenantId = Some ''t1'', jp_role = Some Staff\<rparr>, st_refreshToken = ''new''\<rparr>"
  have "fst ?r = Inr ?s" by code_simp
  then have r: "?r = (Inr ?s, snd ?r)" by (metis prod.collapse)
  have m: "sat_all memberships_cs (memberships ?g)" by (simp add: sat_all_def violates_def list_all_iff)
  have "true_claims (snd ?r) False (st_token ?s)"
    using issued_claims_true [OF m, of sample_aenv "sample_draws ''r2'' ''new''"] r by blast
  then show ?thesis unfolding Let_def by (intro exI [of _ ?s] exI [of _ "snd ?r"] conjI r) simp_all
qed

section \<open>Known gaps\<close>

text \<open>A super-admin's switched session has a tenant and no membership: its first refresh burns it.\<close>
lemma super_admin_refresh_burned:
  assumes "refresh_claim env dr pt g = (Inr cl, g1)" "sc_tenantId cl = Some t" "t \<noteq> []"
    and "resolveRole (cl_userId cl) t g1 = None"
  shows "refresh env dr pt g =
    (Inl (UnauthorizedException ''Membership no longer valid''), revokeFamily (cl_familyId cl) (dr_js dr 2) g1)"
  using assms by (simp add: refresh_def Let_def)

text \<open>
  A rotation that has consumed its token but not yet issued the successor survives a logout in between:
  the successor is issued into the revoked family and is live.
\<close>
lemma logout_race:
  "let g = empty_gdb\<lparr>refresh_tokens := [sample_token ''r1'' ''old'' None]\<rparr>;
       (res, g1) = refresh_claim sample_aenv (sample_draws ''x'' ''x'') ''old'' g;
       g2 = logout sample_aenv (sample_draws ''x'' ''x'') ''old'' g1;
       (res2, g3) = refresh_issue sample_aenv (sample_draws ''r2'' ''new'') 13 ''u1'' identity_only (Some ''f1'') g2
   in list_all (\<lambda>r. rt_revokedAt r \<noteq> None) (refresh_tokens g2) \<and>
      refresh_check sample_aenv 20 ''new'' g3 \<noteq> Inl (UnauthorizedException ''Invalid refresh token'')"
  by code_simp

end
