(* ===== verification/Http_Pipeline.thy ===== *)
theory Http_Pipeline
  imports System Sessions
begin

text \<open>
  The request pipeline: \<open>common/middlewares/tenant-context.middleware.ts\<close>, \<open>common/interceptors\<close> and the
  authorization checker of \<open>server.ts\<close>, around a controller's handler. The transaction of a request is
  a small state machine: the interceptor commits it, the response's \<open>finish\<close> and \<open>close\<close> events roll
  it back, and whichever comes first settles it.
\<close>

section \<open>The transaction of a request\<close>

text \<open>
  \<open>rq_work\<close> holds the tables as the handler left them, \<open>rq_store\<close> the committed ones; \<open>rq_settled\<close> is
  \<open>req.tenantTxSettled\<close>, \<open>rq_released\<close> counts the calls of \<open>queryRunner.release\<close>.
\<close>
record request_tx =
  rq_work :: tdb
  rq_store :: tdb
  rq_settled :: bool
  rq_released :: nat

definition begin_tx :: "tdb \<Rightarrow> request_tx" where
  "begin_tx db = \<lparr>rq_work = db, rq_store = db, rq_settled = False, rq_released = 0\<rparr>"

text \<open>The middleware's \<open>rollback\<close>; a failing ROLLBACK is logged and the connection released all the same.\<close>
definition tx_rollback :: "request_tx \<Rightarrow> request_tx" where
  "tx_rollback tx =
     (if rq_settled tx then tx
      else tx\<lparr>rq_settled := True, rq_work := rq_store tx, rq_released := rq_released tx + 1\<rparr>)"

text \<open>\<open>TenantTransactionInterceptor\<close>; \<open>commit\<close> is the error COMMIT fails with, if it does.\<close>
definition tx_commit :: "exn option \<Rightarrow> request_tx \<Rightarrow> (exn + unit) \<times> request_tx" where
  "tx_commit commit tx =
     (if rq_settled tx then (Inr (), tx)
      else case commit of
        None \<Rightarrow> (Inr (), tx\<lparr>rq_settled := True, rq_store := rq_work tx, rq_released := rq_released tx + 1\<rparr>)
      | Some e \<Rightarrow> (Inl e, tx\<lparr>rq_settled := True, rq_work := rq_store tx, rq_released := rq_released tx + 1\<rparr>))"

datatype tx_event = Intercepted "exn option" | Finished | Closed

fun tx_on :: "tx_event \<Rightarrow> request_tx \<Rightarrow> request_tx" where
  "tx_on (Intercepted commit) tx = snd (tx_commit commit tx)"
| "tx_on Finished tx = tx_rollback tx"
| "tx_on Closed tx = tx_rollback tx"

section \<open>Before the handler\<close>

text \<open>\<open>header?.startsWith('Bearer ') ? header.slice(7) : undefined\<close>, an empty token being falsy.\<close>
definition bearer_token :: "string option \<Rightarrow> string option" where
  "bearer_token header =
     (case header of None \<Rightarrow> None
      | Some h \<Rightarrow> if starts_with ''Bearer '' h \<and> drop 7 h \<noteq> [] then Some (drop 7 h) else None)"

text \<open>
  What the pipeline takes from its libraries: \<open>TokenService.verify\<close> (\<open>None\<close>: it throws), the token
  passport-jwt extracts and verifies, the error with which the connection, BEGIN, \<open>set_config\<close> or the
  status query fails, the error with which COMMIT fails, the error routing-controllers raises when
  the checker says no, and whether the client's connection closes while the handler runs, before the
  interceptor.
\<close>
record pipeline_env =
  pl_verify :: "string \<Rightarrow> jwt_payload option"
  pl_passport :: "string option \<Rightarrow> jwt_payload option"
  pl_connect :: "exn option"
  pl_commit :: "exn option"
  pl_denied :: "auth_role list \<Rightarrow> exn"
  pl_closed :: bool

datatype entry =
    Anonymous "jwt_payload option" \<comment> \<open>no tenant; \<open>req.tokenClaims\<close> if the token verified\<close>
  | Rejected exn \<comment> \<open>\<open>next(error)\<close>\<close>
  | Pinned jwt_payload uuid \<comment> \<open>claims and tenant, its transaction open\<close>

definition tenant_middleware :: "pipeline_env \<Rightarrow> string option \<Rightarrow> gdb \<Rightarrow> entry" where
  "tenant_middleware env header g =
     (case bearer_token header of
        None \<Rightarrow> Anonymous None
      | Some token \<Rightarrow>
          (case pl_verify env token of
             None \<Rightarrow> Anonymous None
           | Some claims \<Rightarrow>
               (case jp_tenantId claims of
                  None \<Rightarrow> Anonymous (Some claims)
                | Some t \<Rightarrow>
                    if t = [] then Anonymous (Some claims)
                    else (case pl_connect env of
                       Some e \<Rightarrow> Rejected e
                     | None \<Rightarrow>
                         (case find (\<lambda>r. e_id r = t \<and> live r) (tenants g) of
                            None \<Rightarrow> Rejected (ForbiddenException ''Tenant not found'')
                          | Some tn \<Rightarrow>
                              if tn_status tn = TenantSuspended
                              then Rejected (ForbiddenException ''Tenant is suspended'')
                              else Pinned claims t)))))"

text \<open>\<open>authorizationChecker\<close>: \<open>claims\<close> is \<open>req.tokenClaims\<close>.\<close>
definition authorized ::
  "pipeline_env \<Rightarrow> string option \<Rightarrow> jwt_payload option \<Rightarrow> gdb \<Rightarrow> auth_role list \<Rightarrow> bool" where
  "authorized env header claims g roles =
     (case pl_passport env header of
        None \<Rightarrow> False
      | Some p \<Rightarrow>
          (case jwt_user p g of
             None \<Rightarrow> False
           | Some user \<Rightarrow>
               us_isSuperAdmin user \<or> roles = [] \<or>
               (case claims of None \<Rightarrow> False
                | Some c \<Rightarrow> (case jp_role c of None \<Rightarrow> False | Some r \<Rightarrow> TenantRole r \<in> set roles))))"

section \<open>After the handler\<close>

text \<open>\<open>ResponseInterceptor\<close>; \<open>None\<close> is \<open>undefined\<close>.\<close>
definition envelope :: "json option \<Rightarrow> json" where
  "envelope content =
     (let wrapped = JObj [(''success'', JBool True), (''data'', case content of None \<Rightarrow> JNull | Some j \<Rightarrow> j)] in
      case content of
        Some (JObj ms) \<Rightarrow> if list_ex (\<lambda>m. fst m = ''success'') ms then JObj ms else wrapped
      | _ \<Rightarrow> wrapped)"

datatype reply = Success json | Failure exn

text \<open>
  A request: \<open>roles\<close> is the route's \<open>@Authorized\<close> list (\<open>None\<close>: not guarded); \<open>handler\<close> gets the tenant
  context and the tables and says what it answers and how it left them. Without a tenant there is no
  transaction, so what the handler wrote stays written. The reply is what the code hands to Express; a client
  that has closed its connection does not get it. When it closes while the handler runs, \<open>rollback\<close> settles
  the transaction before the interceptor does, and the handler can write no tenant row afterwards: the query
  runner is released, and a statement still queued behind the ROLLBACK has no \<open>app.tenant_id\<close>, so row level
  security admits no row.
\<close>
definition serve ::
  "pipeline_env \<Rightarrow> auth_role list option \<Rightarrow> (ctx \<Rightarrow> tdb \<Rightarrow> (exn + json option) \<times> tdb) \<Rightarrow> string option \<Rightarrow>
     gdb \<Rightarrow> tdb \<Rightarrow> reply \<times> tdb" where
  "serve env roles handler header g db =
     (case tenant_middleware env header g of
        Rejected e \<Rightarrow> (Failure e, db)
      | Anonymous claims \<Rightarrow>
          if \<not> (case roles of None \<Rightarrow> True | Some rs \<Rightarrow> authorized env header claims g rs)
          then (Failure (pl_denied env (the roles)), db)
          else (case handler None db of
             (Inl e, db') \<Rightarrow> (Failure e, db')
           | (Inr x, db') \<Rightarrow> (Success (envelope x), db'))
      | Pinned claims t \<Rightarrow>
          let tx = begin_tx db in
          if \<not> (case roles of None \<Rightarrow> True | Some rs \<Rightarrow> authorized env header (Some claims) g rs)
          then (Failure (pl_denied env (the roles)), rq_store (fold tx_on [Finished, Closed] tx))
          else (case handler (tenant_tx t) (rq_work tx) of
             (Inl e, db') \<Rightarrow> (Failure e, rq_store (fold tx_on [Finished, Closed] (tx\<lparr>rq_work := db'\<rparr>)))
           | (Inr x, db') \<Rightarrow>
               (case tx_commit (pl_commit env)
                  (fold tx_on (if pl_closed env then [Closed] else []) (tx\<lparr>rq_work := db'\<rparr>)) of
                  (Inl e, tx') \<Rightarrow> (Failure e, rq_store (fold tx_on [Finished, Closed] tx'))
                | (Inr _, tx') \<Rightarrow> (Success (envelope x), rq_store (fold tx_on [Finished, Closed] tx')))))"

text \<open>An operation of a tenant module as a controller's handler.\<close>
definition handler_of :: "(ctx \<Rightarrow> tdb \<Rightarrow> exn + 'a \<times> tdb) \<Rightarrow> ('a \<Rightarrow> json option) \<Rightarrow> ctx \<Rightarrow> tdb \<Rightarrow> (exn + json option) \<times> tdb" where
  "handler_of f render c db = (case f c db of Inl e \<Rightarrow> (Inl e, db) | Inr (x, db') \<Rightarrow> (Inr (render x), db'))"

section \<open>Facts\<close>

lemma settled_stays: "rq_settled tx \<Longrightarrow> fold tx_on evs tx = tx"
proof (induction evs)
  case (Cons ev evs)
  then show ?case by (cases ev) (simp_all add: tx_commit_def tx_rollback_def)
qed simp

lemma serve_pinned:
  assumes "tenant_middleware env header g = Pinned claims t"
  shows "serve env roles handler header g db =
     (if \<not> (case roles of None \<Rightarrow> True | Some rs \<Rightarrow> authorized env header (Some claims) g rs)
      then (Failure (pl_denied env (the roles)), db)
      else case handler (tenant_tx t) db of
        (Inl e, _) \<Rightarrow> (Failure e, db)
      | (Inr x, db') \<Rightarrow>
          if pl_closed env then (Success (envelope x), db)
          else (case pl_commit env of None \<Rightarrow> (Success (envelope x), db') | Some e \<Rightarrow> (Failure e, db)))"
  using assms
  by (simp add: serve_def begin_tx_def tx_rollback_def tx_commit_def Let_def split: prod.splits sum.splits option.splits)

lemma pinned_tenant:
  assumes "tenant_middleware env header g = Pinned claims t"
  shows "t \<noteq> []" "jp_tenantId claims = Some t" "\<exists>token. bearer_token header = Some token \<and> pl_verify env token = Some claims"
    "\<exists>tn. tenant_findById t g = Some tn \<and> tn_status tn = TenantActive"
proof -
  obtain token where k: "bearer_token header = Some token" using assms by (cases "bearer_token header") (simp_all add: tenant_middleware_def)
  obtain cl where c: "pl_verify env token = Some cl" using assms k by (cases "pl_verify env token") (simp_all add: tenant_middleware_def)
  obtain t' where t': "jp_tenantId cl = Some t'" using assms k c by (cases "jp_tenantId cl") (simp_all add: tenant_middleware_def)
  have ne: "t' \<noteq> []" "pl_connect env = None"
    using assms k c t' by (auto simp: tenant_middleware_def split: if_splits option.splits)
  obtain tn where f: "find (\<lambda>r. e_id r = t' \<and> live r) (tenants g) = Some tn" "tn_status tn \<noteq> TenantSuspended"
      "claims = cl" "t = t'"
    using assms k c t' ne by (auto simp: tenant_middleware_def split: if_splits option.splits)
  have "find (\<lambda>r. live r \<and> e_id r = t') (tenants g) = Some tn" using f(1) by (simp add: conj_commute)
  then show "t \<noteq> []" "jp_tenantId claims = Some t" "\<exists>token. bearer_token header = Some token \<and> pl_verify env token = Some claims"
    "\<exists>tn. tenant_findById t g = Some tn \<and> tn_status tn = TenantActive"
    using f ne t' k c by (cases "tn_status tn"; auto simp: tenant_findById_def)+
qed

section \<open>Properties\<close>

text \<open>
  A request's transaction is settled exactly once: in whatever order and however often the
  interceptor, \<open>finish\<close> and \<open>close\<close> run, the connection is released once, and the handler's writes are
  kept precisely when a successful commit came first.
\<close>
theorem request_tx_settles_once:
  "let tx = fold tx_on evs ((begin_tx db)\<lparr>rq_work := w\<rparr>) in
     rq_released tx = (if evs = [] then 0 else 1) \<and> rq_settled tx = (evs \<noteq> []) \<and>
     rq_store tx = (case evs of Intercepted None # _ \<Rightarrow> w | _ \<Rightarrow> db)"
proof (cases evs)
  case Nil
  then show ?thesis by (simp add: begin_tx_def)
next
  case (Cons ev rest)
  let ?tx = "(begin_tx db)\<lparr>rq_work := w\<rparr>"
  have s: "rq_settled (tx_on ev ?tx)" "rq_released (tx_on ev ?tx) = 1"
    "rq_store (tx_on ev ?tx) = (case ev of Intercepted None \<Rightarrow> w | _ \<Rightarrow> db)"
    by (cases ev; auto simp: begin_tx_def tx_commit_def tx_rollback_def split: option.splits)+
  have "fold tx_on evs ?tx = tx_on ev ?tx" using settled_stays [OF s(1)] by (simp add: Cons)
  then show ?thesis using s by (simp add: Cons Let_def split: tx_event.splits option.splits)
qed


text \<open>
  C37. No request of a blocked tenant runs: with a verified token of a tenant that is suspended or gone,
  the answer is 403, whatever the route's guard and handler, and nothing is written.
\<close>
theorem blocked_tenant_refused:
  assumes "bearer_token header = Some token" "pl_verify env token = Some claims" "jp_tenantId claims = Some t"
    and "t \<noteq> []" "pl_connect env = None"
    and "\<nexists>tn. tenant_findById t g = Some tn \<and> tn_status tn = TenantActive"
  shows "\<exists>why. serve env roles handler header g db = (Failure (ForbiddenException why), db)"
proof -
  have f: "find (\<lambda>r. e_id r = t \<and> live r) (tenants g) = tenant_findById t g"
    by (simp add: tenant_findById_def conj_commute)
  show ?thesis
  proof (cases "tenant_findById t g")
    case None
    then show ?thesis using assms by (simp add: serve_def tenant_middleware_def f) blast
  next
    case (Some tn)
    then have "tn_status tn = TenantSuspended" using assms(6) by (cases "tn_status tn") auto
    then show ?thesis using assms Some by (simp add: serve_def tenant_middleware_def f) blast
  qed
qed

text \<open>
  A tenant's request touches only its tenant: on any route whose handler is an operation of the
  tenant modules, the tables of every other tenant are the same afterwards, the tenant being the one the
  verified token names, and an existing, active one.
\<close>
theorem request_isolated:
  assumes "tenant_middleware env header g = Pinned claims t"
    and "\<And>db. safe t db (f (tenant_tx t) db)"
  shows "foreign_unchanged t db (snd (serve env roles (handler_of f render) header g db)) \<and>
    jp_tenantId claims = Some t \<and> (\<exists>tn. tenant_findById t g = Some tn \<and> tn_status tn = TenantActive)"
proof -
  have "foreign_unchanged t db db'" if "f (tenant_tx t) db = Inr (x, db')" for x db'
    using effectsD [OF assms(2) that] by (simp add: db_safe_def)
  then have "foreign_unchanged t db (snd (serve env roles (handler_of f render) header g db))"
    unfolding serve_pinned [OF assms(1)] handler_of_def by (auto split: sum.splits option.splits)
  then show ?thesis using pinned_tenant [OF assms(1)] by simp
qed

definition sample_claims :: jwt_payload where
  "sample_claims = \<lparr>jp_sub = ''u1'', jp_tenantId = Some ''t1'', jp_role = Some Owner\<rparr>"

definition sample_pipeline :: pipeline_env where
  "sample_pipeline =
     \<lparr>pl_verify = (\<lambda>_. Some sample_claims), pl_passport = (\<lambda>_. Some sample_claims), pl_connect = None,
      pl_commit = None, pl_denied = (\<lambda>_. ForbiddenException ''denied''), pl_closed = False\<rparr>"

lemma sample_bearer: "bearer_token (Some ''Bearer x'') = Some ''x''"
  by (simp add: bearer_token_def starts_with_def)

lemma sample_pinned:
  "tenant_middleware (sample_pipeline\<lparr>pl_commit := e\<rparr>) (Some ''Bearer x'') sample_gdb = Pinned sample_claims ''t1''"
  by (simp add: tenant_middleware_def sample_bearer)
    (simp add: sample_pipeline_def sample_claims_def sample_gdb_def sample_tenant_def live_def)



theorem blocked_tenant_refused_witness:
  "\<exists>why. serve sample_pipeline None (\<lambda>c db. (Inr None, db\<lparr>bookings := []\<rparr>)) (Some ''Bearer x'') empty_gdb sample_db =
     (Failure (ForbiddenException why), sample_db)"
  by (rule blocked_tenant_refused [of _ "''x''" _ sample_claims "''t1''"])
    (simp_all add: sample_bearer sample_pipeline_def sample_claims_def tenant_findById_def empty_gdb_def)

theorem request_isolated_witness:
  "foreign_unchanged ''t1'' sample_db (snd (serve sample_pipeline None
     (handler_of (\<lambda>c. transition c ''e1'' 5 ''b1'' 1 Confirmed) (\<lambda>_. None)) (Some ''Bearer x'') sample_gdb sample_db))"
proof -
  have p: "tenant_middleware sample_pipeline (Some ''Bearer x'') sample_gdb = Pinned sample_claims ''t1''"
    using sample_pinned [of None] by (simp add: sample_pipeline_def)
  have "safe ''t1'' db (transition (tenant_tx ''t1'') ''e1'' 5 ''b1'' 1 Confirmed db)" for db
    by (rule operation_safes)
  with request_isolated [OF p, of "\<lambda>c. transition c ''e1'' 5 ''b1'' 1 Confirmed"] show ?thesis by blast
qed

end
