(* ===== verification/Contract.thy ===== *)
theory Contract
  imports Http_Pipeline
begin

text \<open>
  The published contract of \<open>config/swagger.ts\<close>: the schemas of the error and success bodies, read as JSON
  Schema, and the pass that gives every operation its error response. The generators of the document
  (routing-controllers-openapi, class-validator-jsonschema) are parameters.
\<close>

section \<open>The schemas\<close>

text \<open>A property whose value has a type and possibly an example.\<close>
definition typed :: "string \<Rightarrow> json option \<Rightarrow> json" where
  "typed ty ex = JObj ((''type'', JStr ty) # (case ex of None \<Rightarrow> [] | Some v \<Rightarrow> [(''example'', v)]))"

definition free_object :: json where
  "free_object = JObj [(''type'', JStr ''object''), (''additionalProperties'', JBool True)]"

definition ProblemDetails :: json where
  "ProblemDetails =
     JObj [(''type'', JStr ''object''),
           (''properties'', JObj
              [(''type'', typed ''string'' (Some (JStr ''about:blank''))),
               (''title'', typed ''string'' (Some (JStr ''Conflict''))),
               (''status'', typed ''integer'' (Some (JNum 409))),
               (''detail'', typed ''string'' (Some (JStr ''This time slot is no longer available''))),
               (''instance'', typed ''string'' None),
               (''code'', typed ''string'' (Some (JStr ''BOOKING_SLOT_TAKEN''))),
               (''errors'', free_object),
               (''traceId'', typed ''string'' None)]),
           (''required'', JArr [JStr ''title'', JStr ''status'', JStr ''code''])]"

definition ApiSuccess :: json where
  "ApiSuccess =
     JObj [(''type'', JStr ''object''),
           (''properties'', JObj
              [(''success'', typed ''boolean'' (Some (JBool True))), (''data'', JObj []), (''meta'', free_object)]),
           (''required'', JArr [JStr ''success'', JStr ''data''])]"

section \<open>The document\<close>

record 'a operation =
  op_responses :: "(string \<times> json) list option"
  op_rest :: 'a

text \<open>The reference to the shared response.\<close>
definition problem_ref :: json where
  "problem_ref = JObj [(''$ref'', JStr ''#/components/responses/Problem'')]"

text \<open>\<open>operation.responses ??= {}\<close>, then \<open>operation.responses.default ??= ...\<close>.\<close>
definition with_default :: "'a operation \<Rightarrow> 'a operation" where
  "with_default op =
     (let rs = (case op_responses op of None \<Rightarrow> [] | Some rs \<Rightarrow> rs) in
      op\<lparr>op_responses := Some (case map_of rs ''default'' of None \<Rightarrow> rs @ [(''default'', problem_ref)] | Some _ \<Rightarrow> rs)\<rparr>)"

type_synonym 'a api_paths = "(string \<times> (string \<times> 'a operation) list) list"

definition server_entry :: "string \<times> string \<Rightarrow> json" where
  "server_entry e = JObj [(''url'', JStr (fst e)), (''description'', JStr (snd e))]"

text \<open>What the program adds to the generated document; its own schemas win over generated ones of the same name.\<close>
definition spec_extras :: "string \<Rightarrow> (string \<times> json) list \<Rightarrow> json" where
  "spec_extras version schemas =
     JObj [(''info'', JObj [(''title'', JStr ''booking-platform-api''), (''version'', JStr version),
                          (''description'', JStr ''Multi-tenant booking SaaS API.'')]),
           (''servers'', JArr (map server_entry
              [(''http://localhost:3000'', ''Local''), (''https://staging-api.example.com'', ''Staging''),
               (''https://api.example.com'', ''Production'')])),
           (''components'', JObj
              [(''schemas'', JObj (filter (\<lambda>s. fst s \<notin> {''ProblemDetails'', ''ApiSuccess''}) schemas @
                                 [(''ProblemDetails'', ProblemDetails), (''ApiSuccess'', ApiSuccess)])),
               (''securitySchemes'', JObj
                  [(''bearerAuth'', JObj [(''type'', JStr ''http''), (''scheme'', JStr ''bearer''), (''bearerFormat'', JStr ''JWT'')])]),
               (''responses'', JObj
                  [(''Problem'', JObj
                      [(''description'', JStr ''RFC 7807 error''),
                       (''content'', JObj [(''application/problem+json'',
                          JObj [(''schema'', JObj [(''$ref'', JStr ''#/components/schemas/ProblemDetails'')])])])])])]),
           (''security'', JArr [JObj [(''bearerAuth'', JArr [])]])]"

text \<open>\<open>schemas\<close> are those of the validation classes; \<open>generate\<close> answers the paths, if any, and the rest of the document.\<close>
definition buildOpenApiSpec ::
  "string \<Rightarrow> (string \<times> json) list \<Rightarrow> (json \<Rightarrow> 'a api_paths option \<times> 'd) \<Rightarrow> 'a api_paths option \<times> 'd" where
  "buildOpenApiSpec version schemas generate =
     (let spec = generate (spec_extras version schemas) in
      (map_option (map (\<lambda>(path, ops). (path, map (\<lambda>(m, op). (m, with_default op)) ops))) (fst spec), snd spec))"

section \<open>JSON Schema\<close>

definition member :: "json \<Rightarrow> string \<Rightarrow> json option" where
  "member j k = (case j of JObj ms \<Rightarrow> map_of ms k | _ \<Rightarrow> None)"

fun has_type :: "string \<Rightarrow> json \<Rightarrow> bool" where
  "has_type ty (JStr _) = (ty = ''string'')"
| "has_type ty (JNum _) = (ty = ''integer'' \<or> ty = ''number'')"
| "has_type ty (JBool _) = (ty = ''boolean'')"
| "has_type ty (JObj _) = (ty = ''object'')"
| "has_type ty (JArr _) = (ty = ''array'')"
| "has_type ty JNull = (ty = ''null'')"

text \<open>The keyword \<open>type\<close>; an absent one allows any value.\<close>
definition type_ok :: "json \<Rightarrow> json \<Rightarrow> bool" where
  "type_ok schema v = (case member schema ''type'' of Some (JStr ty) \<Rightarrow> has_type ty v | _ \<Rightarrow> True)"

text \<open>The keywords of the two schemas: \<open>type\<close>, \<open>properties\<close> one level deep, \<open>required\<close>.\<close>
definition conforms :: "json \<Rightarrow> json \<Rightarrow> bool" where
  "conforms schema v \<longleftrightarrow>
     type_ok schema v \<and>
     (case member schema ''properties'' of
        Some (JObj ps) \<Rightarrow> list_all (\<lambda>(k, sub). case member v k of None \<Rightarrow> True | Some x \<Rightarrow> type_ok sub x) ps
      | _ \<Rightarrow> True) \<and>
     (case member schema ''required'' of
        Some (JArr ks) \<Rightarrow> list_all (\<lambda>k. case k of JStr s \<Rightarrow> member v s \<noteq> None | _ \<Rightarrow> False) ks
      | _ \<Rightarrow> True)"

section \<open>The bodies\<close>

definition optional :: "string \<Rightarrow> ('a \<Rightarrow> json) \<Rightarrow> 'a option \<Rightarrow> (string \<times> json) list" where
  "optional k f x = (case x of None \<Rightarrow> [] | Some v \<Rightarrow> [(k, f v)])"

text \<open>\<open>res.json(problem)\<close>: absent members are left out.\<close>
definition problem_json :: "problem \<Rightarrow> json" where
  "problem_json pb =
     JObj ([(''type'', JStr (pb_type pb)), (''title'', JStr (pb_title pb)), (''status'', JNum (int (pb_status pb))),
            (''detail'', JStr (pb_detail pb))] @
           optional ''instance'' JStr (pb_instance pb) @ [(''code'', JStr (pb_code pb))] @
           optional ''errors'' id (pb_errors pb) @ optional ''traceId'' JStr (pb_traceId pb))"

definition object_or_absent :: "json option \<Rightarrow> bool" where
  "object_or_absent j \<longleftrightarrow> (case j of None \<Rightarrow> True | Some v \<Rightarrow> has_type ''object'' v)"

lemma problem_conforms: "conforms ProblemDetails (problem_json pb) \<longleftrightarrow> object_or_absent (pb_errors pb)"
  by (cases "pb_instance pb"; cases "pb_errors pb"; cases "pb_traceId pb")
    (simp_all add: conforms_def type_ok_def member_def ProblemDetails_def typed_def free_object_def problem_json_def
      optional_def object_or_absent_def)

text \<open>What the thrown value gives the handler to put in \<open>errors\<close>.\<close>
definition handler_errors :: "thrown \<Rightarrow> json option" where
  "handler_errors e =
     (case th_errors e of
        NoErrors \<Rightarrow> th_details e
      | ValidationErrors es \<Rightarrow>
          if es \<noteq> [] then Some (formatValidationErrors es)
          else (if th_details e = None then Some (JArr []) else th_details e)
      | OtherErrors j \<Rightarrow> if th_details e = None then Some j else th_details e)"

lemma handler_errors_sent:
  assumes "error_handler isProduction trace False url e = Responded st pb line"
  shows "pb_errors pb = (if 500 \<le> st \<and> isProduction then None else handler_errors e)"
  using assms by (cases "th_errors e") (auto simp: error_handler_def handler_errors_def buildProblem_def Let_def)

lemma format_not_object: "\<not> object_or_absent (Some (formatValidationErrors es))"
  by (simp add: object_or_absent_def formatValidationErrors_def)

text \<open>
  C38. The error contract. A body the error middleware sends conforms to the published \<open>ProblemDetails\<close> schema,
  whatever was thrown, unless the thrown value is a list of validation errors or carries another non-object for
  \<open>errors\<close>; in production a 5xx answer always conforms.
\<close>
theorem error_contract:
  assumes "error_handler isProduction trace False url e = Responded st pb line"
  shows "conforms ProblemDetails (problem_json pb) \<longleftrightarrow>
    500 \<le> st \<and> isProduction \<or>
    (case th_errors e of
       ValidationErrors es \<Rightarrow> es = [] \<and> th_details e \<noteq> None \<and> object_or_absent (th_details e)
     | OtherErrors j \<Rightarrow> object_or_absent (if th_details e = None then Some j else th_details e)
     | NoErrors \<Rightarrow> object_or_absent (th_details e))"
  unfolding problem_conforms handler_errors_sent [OF assms]
  by (cases "th_errors e") (auto simp: handler_errors_def format_not_object, auto simp: object_or_absent_def)

theorem error_contract_witness:
  "conforms ProblemDetails (problem_json
     (the (response_body (error_handler True None False ''/x'' (thrown_of (ConflictException ''taken'')))))) \<and>
   \<not> conforms ProblemDetails (problem_json
     (the (response_body (error_handler True None False ''/x'' ((thrown_of (BadRequestException ''bad''))
        \<lparr>th_errors := ValidationErrors [ValidationError ''startsAt'' (Some [(''isISO8601'', ''must be a date'')]) []]\<rparr>)))))"
proof -
  let ?a = "thrown_of (ConflictException ''taken'')"
  let ?b = "(thrown_of (BadRequestException ''bad''))
    \<lparr>th_errors := ValidationErrors [ValidationError ''startsAt'' (Some [(''isISO8601'', ''must be a date'')]) []]\<rparr>"
  obtain st pb line where a: "error_handler True None False ''/x'' ?a = Responded st pb line"
    by (simp add: error_handler_def exception_defs Let_def)
  obtain st' pb' line' where b: "error_handler True None False ''/x'' ?b = Responded st' pb' line'"
    by (simp add: error_handler_def exception_defs Let_def)
  have "st' = 422" using b by (simp add: error_handler_def exception_defs Let_def)
  moreover have "conforms ProblemDetails (problem_json pb)"
    unfolding error_contract [OF a] by (simp add: exception_defs object_or_absent_def)
  ultimately show ?thesis using error_contract [OF b] by (simp add: a b)
qed

text \<open>Success bodies: what a handler returns is wrapped, and pages carry their counts in \<open>meta\<close>.\<close>
lemma envelope_conforms:
  assumes "\<And>ms. content = Some (JObj ms) \<Longrightarrow> \<forall>m \<in> set ms. fst m \<noteq> ''success''"
  shows "conforms ApiSuccess (envelope content)"
proof -
  have "envelope content = JObj [(''success'', JBool True), (''data'', case content of None \<Rightarrow> JNull | Some j \<Rightarrow> j)]"
    using assms by (cases content; (cases "the content")?) (auto simp: envelope_def list_ex_iff Let_def)
  then show ?thesis by (simp add: conforms_def type_ok_def member_def ApiSuccess_def typed_def free_object_def)
qed

definition page_json :: "json list \<times> unit page_meta \<Rightarrow> json" where
  "page_json pg =
     (let m = snd pg; num = (\<lambda>n. JNum (int n)) in
      JObj [(''success'', JBool True), (''data'', JArr (fst pg)),
            (''meta'', JObj [(''page'', num (pm_page m)), (''limit'', num (pm_limit m)), (''total'', num (pm_total m)),
                           (''totalPages'', num (pm_totalPages m))])])"

lemma page_conforms: "envelope (Some (page_json pg)) = page_json pg" "conforms ApiSuccess (page_json pg)"
  by (simp_all add: page_json_def Let_def envelope_def conforms_def type_ok_def member_def ApiSuccess_def typed_def
      free_object_def)

text \<open>The reference of an error response leads to the schema the bodies are checked against.\<close>
lemma problem_ref_resolves:
  "Option.bind (Option.bind (Option.bind (Option.bind (Option.bind (Option.bind (member (spec_extras version schemas)
     ''components'') (\<lambda>c. member c ''responses'')) (\<lambda>r. member r ''Problem'')) (\<lambda>p. member p ''content''))
     (\<lambda>c. member c ''application/problem+json'')) (\<lambda>j. member j ''schema'')) (\<lambda>j. member j ''$ref'') =
     Some (JStr ''#/components/schemas/ProblemDetails'')"
  "Option.bind (Option.bind (member (spec_extras version schemas) ''components'') (\<lambda>c. member c ''schemas''))
     (\<lambda>c. member c ''ProblemDetails'') = Some ProblemDetails"
proof -
  have "map_of (filter (\<lambda>s. fst s \<noteq> ''ProblemDetails'' \<and> fst s \<noteq> ''ApiSuccess'') schemas) ''ProblemDetails'' = None"
    by (auto simp: map_of_eq_None_iff)
  then show "Option.bind (Option.bind (member (spec_extras version schemas) ''components'') (\<lambda>c. member c ''schemas''))
     (\<lambda>c. member c ''ProblemDetails'') = Some ProblemDetails"
    by (simp add: spec_extras_def member_def map_add_def)
qed (simp add: spec_extras_def member_def)

text \<open>Every operation of the document says what an error looks like, and keeps the responses it had.\<close>
lemma spec_responses:
  assumes "buildOpenApiSpec version schemas generate = (Some paths, d)" "(path, ops) \<in> set paths" "(m, op) \<in> set ops"
  shows "\<exists>rs. op_responses op = Some rs \<and> map_of rs ''default'' \<noteq> None"
  using assms by (auto simp: buildOpenApiSpec_def with_default_def Let_def map_add_def split: option.splits)

lemma with_default_keeps:
  assumes "op_responses op = Some rs" "map_of rs k = Some v"
  shows "\<exists>rs'. op_responses (with_default op) = Some rs' \<and> map_of rs' k = Some v"
  using assms by (auto simp: with_default_def map_add_def split: option.splits)

section \<open>Known gaps\<close>

text \<open>The schema says that \<open>errors\<close> is an object; failed validation, the common case, answers with an array.\<close>
lemma validation_undocumented:
  assumes "error_handler isProduction trace False url e = Responded st pb line" "th_errors e = ValidationErrors (x # xs)"
  shows "\<not> conforms ProblemDetails (problem_json pb)"
proof -
  have "st = 422" using assms by (simp add: error_handler_def Let_def)
  then show ?thesis
    unfolding problem_conforms handler_errors_sent [OF assms(1)] by (simp add: handler_errors_def assms(2) format_not_object)
qed

text \<open>
  The success schema requires \<open>data\<close>; the removals answer \<open>{ success: true }\<close>, which passes the interceptor as it is.
\<close>
lemma removal_undocumented: "\<not> conforms ApiSuccess (envelope (Some (JObj [(''success'', JBool True)])))"
  by (simp add: envelope_def conforms_def type_ok_def member_def ApiSuccess_def typed_def free_object_def)

end
