(* ===== verification/Reporting.thy ===== *)
theory Reporting
  imports "HOL-Library.Multiset" Availability
begin

text \<open>
  Reports (\<open>src/modules/reporting\<close>): the range check and the two aggregate queries. PostgreSQL's time zone
  arithmetic and collation are parameters.
\<close>

section \<open>Queries\<close>

datatype report_group_by = By_Day | By_Week | By_Month | By_Service | By_Staff

text \<open>\<open>rp_fromDate\<close> and \<open>rp_toDate\<close> are \<open>new Date(..)\<close> of the two texts.\<close>
record report_query =
  rp_from :: string
  rp_to :: string
  rp_fromDate :: js_date
  rp_toDate :: js_date
  rp_groupBy :: report_group_by
  rp_staffId :: "uuid option"
  rp_serviceId :: "uuid option"

record report_filters =
  rf_from :: string
  rf_to :: string
  rf_timezone :: string
  rf_staffId :: "uuid option"
  rf_serviceId :: "uuid option"

text \<open>
  \<open>pg_local s z\<close> is \<open>s::timestamp AT TIME ZONE z\<close> (\<open>None\<close>: the cast fails), \<open>pg_trunc u z t\<close> the local day
  on which the unit of \<open>t\<close> begins, as text, \<open>pg_order\<close> the ORDER BY of bucket texts, \<open>pg_order2\<close> that of
  bucket and currency.
\<close>
record pg_calendar =
  pg_local :: "string \<Rightarrow> string \<Rightarrow> instant option"
  pg_trunc :: "report_group_by \<Rightarrow> string \<Rightarrow> instant \<Rightarrow> string"
  pg_order :: "string list \<Rightarrow> string list"
  pg_order2 :: "(string \<times> string) list \<Rightarrow> (string \<times> string) list"

record booking_bucket_row =
  bb_bucket :: string
  bb_total :: nat
  bb_pending :: nat
  bb_confirmed :: nat
  bb_completed :: nat
  bb_cancelled :: nat
  bb_no_show :: nat

record revenue_bucket_row =
  rb_bucket :: string
  rb_amount :: int
  rb_currency :: string

definition REVENUE_STATUSES :: "booking_status list" where "REVENUE_STATUSES = [Completed]"

definition bucketExpr :: "pg_calendar \<Rightarrow> string \<Rightarrow> report_group_by \<Rightarrow> booking \<Rightarrow> string" where
  "bucketExpr pg zone groupBy b =
     (case groupBy of By_Service \<Rightarrow> bk_serviceId b | By_Staff \<Rightarrow> bk_staffId b
      | u \<Rightarrow> pg_trunc pg u zone (bk_startsAt b))"

definition baseQuery :: "pg_calendar \<Rightarrow> ctx \<Rightarrow> report_filters \<Rightarrow> tdb \<Rightarrow> exn + booking list" where
  "baseQuery pg c f db =
     bindE (getTenantId c) (\<lambda>t.
       case (pg_local pg (rf_from f) (rf_timezone f), pg_local pg (rf_to f) (rf_timezone f)) of
         (Some a, Some z) \<Rightarrow>
           Inr (filter (\<lambda>b. rls_visible (repo_manager c) b \<and> e_tenantId b = t \<and> live b \<and>
                  a \<le> bk_startsAt b \<and> bk_startsAt b < z \<and>
                  opt (\<lambda>s. s = [] \<or> bk_staffId b = s) (rf_staffId f) \<and>
                  opt (\<lambda>s. s = [] \<or> bk_serviceId b = s) (rf_serviceId f)) (bookings db))
       | _ \<Rightarrow> Inl (DbError bad_datetime))"

text \<open>\<open>COUNT( * ) FILTER (WHERE b.status = ..)\<close>\<close>
definition count_status :: "booking_status \<Rightarrow> booking list \<Rightarrow> nat" where
  "count_status st bs = length (filter (\<lambda>b. bk_status b = st) bs)"

definition bucket_row :: "string \<Rightarrow> booking list \<Rightarrow> booking_bucket_row" where
  "bucket_row k bs =
     \<lparr>bb_bucket = k, bb_total = length bs, bb_pending = count_status Pending bs,
      bb_confirmed = count_status Confirmed bs, bb_completed = count_status Completed bs,
      bb_cancelled = count_status Cancelled bs, bb_no_show = count_status NoShow bs\<rparr>"

definition report_repo_bookings ::
  "pg_calendar \<Rightarrow> ctx \<Rightarrow> report_group_by \<Rightarrow> report_filters \<Rightarrow> tdb \<Rightarrow> exn + booking_bucket_row list" where
  "report_repo_bookings pg c groupBy f db =
     bindE (baseQuery pg c f db) (\<lambda>bs.
       let bucket = bucketExpr pg (rf_timezone f) groupBy in
       Inr (map (\<lambda>k. bucket_row k (filter (\<lambda>b. bucket b = k) bs)) (pg_order pg (remdups (map bucket bs)))))"

definition report_repo_revenue ::
  "pg_calendar \<Rightarrow> ctx \<Rightarrow> report_group_by \<Rightarrow> report_filters \<Rightarrow> tdb \<Rightarrow> exn + revenue_bucket_row list" where
  "report_repo_revenue pg c groupBy f db =
     bindE (baseQuery pg c f db) (\<lambda>all.
       let bs = filter (\<lambda>b. bk_status b \<in> set REVENUE_STATUSES) all;
           key = (\<lambda>b. (bucketExpr pg (rf_timezone f) groupBy b, bk_priceCurrency b)) in
       Inr (map (\<lambda>k. \<lparr>rb_bucket = fst k, rb_amount = sum_list (map bk_priceAmount (filter (\<lambda>b. key b = k) bs)),
                      rb_currency = snd k\<rparr>) (pg_order2 pg (remdups (map key bs)))))"

section \<open>Service\<close>

text \<open>A comparison with \<open>NaN\<close> is false, so an unparsable date passes both checks.\<close>
definition valid_range :: "js_date \<Rightarrow> js_date \<Rightarrow> exn + unit" where
  "valid_range from to =
     (case (from, to) of
        (Some a, Some z) \<Rightarrow>
          if z \<le> a then Inl (ValidationException ''`to` must be after `from`'')
          else if REPORT_MAX_RANGE_MS < z - a then Inl (ValidationException ''Report range must not exceed one year'')
          else Inr ()
      | _ \<Rightarrow> Inr ())"

definition report_run ::
  "ctx \<Rightarrow> report_query \<Rightarrow> (report_filters \<Rightarrow> exn + 'a) \<Rightarrow> gdb \<Rightarrow> exn + 'a" where
  "report_run c q exec g =
     bindE (valid_range (rp_fromDate q) (rp_toDate q)) (\<lambda>_.
     bindE (bindE (getTenantId c) (\<lambda>t. tenant_getById t g)) (\<lambda>tn.
       exec \<lparr>rf_from = rp_from q, rf_to = rp_to q, rf_timezone = tn_timezone tn,
             rf_staffId = rp_staffId q, rf_serviceId = rp_serviceId q\<rparr>))"

definition report_bookings :: "pg_calendar \<Rightarrow> ctx \<Rightarrow> report_query \<Rightarrow> gdb \<Rightarrow> tdb \<Rightarrow> exn + booking_bucket_row list" where
  "report_bookings pg c q g db = report_run c q (\<lambda>f. report_repo_bookings pg c (rp_groupBy q) f db) g"

definition report_revenue :: "pg_calendar \<Rightarrow> ctx \<Rightarrow> report_query \<Rightarrow> gdb \<Rightarrow> tdb \<Rightarrow> exn + revenue_bucket_row list" where
  "report_revenue pg c q g db = report_run c q (\<lambda>f. report_repo_revenue pg c (rp_groupBy q) f db) g"

section \<open>Grouping loses nothing\<close>

lemma sum_over_keys:
  fixes g :: "'a \<Rightarrow> 'b :: comm_monoid_add"
  assumes "finite K" "key ` set xs \<subseteq> K"
  shows "(\<Sum>k\<in>K. sum_list (map g (filter (\<lambda>x. key x = k) xs))) = sum_list (map g xs)"
  using assms(2)
proof (induction xs)
  case Nil
  then show ?case by simp
next
  case (Cons x xs)
  have "(\<Sum>k\<in>K. sum_list (map g (filter (\<lambda>y. key y = k) (x # xs)))) =
        (\<Sum>k\<in>K. (if key x = k then g x else 0) + sum_list (map g (filter (\<lambda>y. key y = k) xs)))"
    by (rule sum.cong) simp_all
  also have "\<dots> = g x + sum_list (map g xs)"
    using Cons assms(1) by (simp add: sum.distrib)
  finally show ?case by simp
qed

lemma group_sum:
  fixes g :: "'a \<Rightarrow> 'b :: comm_monoid_add"
  assumes "mset ks = mset (remdups (map key xs))"
  shows "sum_list (map (\<lambda>k. sum_list (map g (filter (\<lambda>x. key x = k) xs))) ks) = sum_list (map g xs)"
proof -
  have d: "distinct ks" "set ks = key ` set xs"
    using assms mset_eq_imp_distinct_iff [OF assms] mset_eq_setD [OF assms] by simp_all
  then show ?thesis by (simp add: sum_list_distinct_conv_sum_set sum_over_keys)
qed

lemma length_sum_list: "length xs = sum_list (map (\<lambda>_. 1) xs)"
  by (induction xs) simp_all

lemma count_statuses:
  "length bs = count_status Pending bs + count_status Confirmed bs + count_status Completed bs +
     count_status Cancelled bs + count_status NoShow bs"
proof (induction bs)
  case (Cons b bs)
  then show ?case by (cases "bk_status b") (simp_all add: count_status_def)
qed (simp add: count_status_def)

lemma sum_list_filter_if: "sum_list (map f (filter p xs)) = sum_list (map (\<lambda>x. if p x then f x else (0 :: int)) xs)"
  by (induction xs) simp_all

lemma priced_bucket:
  "(if snd k = cur then sum_list (map bk_priceAmount (filter (\<lambda>b. (f b, bk_priceCurrency b) = k) bs)) else 0) =
     sum_list (map (\<lambda>b. if bk_priceCurrency b = cur then bk_priceAmount b else 0)
       (filter (\<lambda>b. (f b, bk_priceCurrency b) = k) bs))"
  by (induction bs) auto

section \<open>Properties\<close>

text \<open>The bookings of tenant \<open>t\<close> a report is about: those that start in \<open>[a, z)\<close> and match the filters.\<close>
definition report_scope :: "uuid \<Rightarrow> instant \<Rightarrow> instant \<Rightarrow> report_query \<Rightarrow> tdb \<Rightarrow> booking list" where
  "report_scope t a z q db =
     filter (\<lambda>b. e_tenantId b = t \<and> live b \<and> a \<le> bk_startsAt b \<and> bk_startsAt b < z \<and>
       opt (\<lambda>s. s = [] \<or> bk_staffId b = s) (rp_staffId q) \<and>
       opt (\<lambda>s. s = [] \<or> bk_serviceId b = s) (rp_serviceId q)) (bookings db)"

definition filters_of :: "report_query \<Rightarrow> string \<Rightarrow> report_filters" where
  "filters_of q zone =
     \<lparr>rf_from = rp_from q, rf_to = rp_to q, rf_timezone = zone, rf_staffId = rp_staffId q, rf_serviceId = rp_serviceId q\<rparr>"

lemma baseQuery_tx:
  assumes "t \<noteq> []"
  shows "baseQuery pg (tenant_tx t) (filters_of q zone) db =
     (case (pg_local pg (rp_from q) zone, pg_local pg (rp_to q) zone) of
        (Some a, Some z) \<Rightarrow> Inr (report_scope t a z q db) | _ \<Rightarrow> Inl (DbError bad_datetime))"
  using assms
  by (auto simp: baseQuery_def filters_of_def report_scope_def rls_visible_def app_tenant_id_def
      split: option.splits intro!: filter_cong)

lemma report_run_tx:
  assumes "t \<noteq> []" "report_run (tenant_tx t) q exec g = Inr x"
  obtains tn where "tenant_getById t g = Inr tn" "exec (filters_of q (tn_timezone tn)) = Inr x"
  using assms by (auto simp: report_run_def filters_of_def result_simps)

text \<open>
  The bookings report accounts for every booking once: its buckets are distinct, each total is the sum
  of its status counts, and the totals add up to the number of the tenant's bookings that start in the
  range and match the filters, however they are grouped. The range is read in the timezone of the
  tenant's row.
\<close>
theorem report_bookings_conserve:
  assumes "\<And>xs. mset (pg_order pg xs) = mset xs"
    and "report_bookings pg (tenant_tx t) q g db = Inr rows" "t \<noteq> []"
  shows "\<exists>tn a z. tenant_getById t g = Inr tn \<and>
    pg_local pg (rp_from q) (tn_timezone tn) = Some a \<and> pg_local pg (rp_to q) (tn_timezone tn) = Some z \<and>
    distinct (map bb_bucket rows) \<and>
    list_all (\<lambda>r. bb_total r = bb_pending r + bb_confirmed r + bb_completed r + bb_cancelled r + bb_no_show r) rows \<and>
    sum_list (map bb_total rows) = length (report_scope t a z q db)"
proof -
  obtain tn where tn: "tenant_getById t g = Inr tn"
    and run: "report_repo_bookings pg (tenant_tx t) (rp_groupBy q) (filters_of q (tn_timezone tn)) db = Inr rows"
    using assms(2) unfolding report_bookings_def by (rule report_run_tx [OF assms(3)])
  let ?zone = "tn_timezone tn"
  obtain a z where az: "pg_local pg (rp_from q) ?zone = Some a" "pg_local pg (rp_to q) ?zone = Some z"
    using run assms(3) by (auto simp: report_repo_bookings_def baseQuery_tx result_simps split: option.splits)
  let ?bs = "report_scope t a z q db" and ?key = "bucketExpr pg ?zone (rp_groupBy q)"
  let ?ks = "pg_order pg (remdups (map ?key ?bs))"
  have "rf_timezone (filters_of q ?zone) = ?zone" by (simp add: filters_of_def)
  then have rows: "rows = map (\<lambda>k. bucket_row k (filter (\<lambda>b. ?key b = k) ?bs)) ?ks"
    using run assms(3) az by (simp add: report_repo_bookings_def baseQuery_tx Let_def)
  have ks: "mset ?ks = mset (remdups (map ?key ?bs))" by (rule assms(1))
  have "map bb_bucket rows = ?ks" by (simp add: rows bucket_row_def comp_def)
  moreover have "distinct ?ks" using mset_eq_imp_distinct_iff [OF ks] by simp
  moreover have "list_all (\<lambda>r. bb_total r = bb_pending r + bb_confirmed r + bb_completed r + bb_cancelled r + bb_no_show r) rows"
    unfolding rows list_all_iff by (auto simp: bucket_row_def intro: count_statuses)
  moreover have "sum_list (map bb_total rows) = length ?bs"
  proof -
    have "map bb_total rows = map (\<lambda>k. sum_list (map (\<lambda>_. 1) (filter (\<lambda>b. ?key b = k) ?bs))) ?ks"
      unfolding rows map_map comp_def by (simp add: bucket_row_def length_sum_list)
    then show ?thesis unfolding length_sum_list [of ?bs] by (simp only: group_sum [OF ks])
  qed
  ultimately show ?thesis using tn az by (intro exI [of _ tn] exI [of _ a] exI [of _ z]) simp
qed

text \<open>
  C40. Revenue never mixes currencies and counts delivered services only. The report reads its range and
  its days in the timezone of the tenant's own row; no two rows share bucket and currency; each row's amount is the sum of the
  snapshot prices of the tenant's completed bookings of that bucket and currency that start in the range
  and match the filters; and for each currency the rows add up to all of those bookings, so grouping
  loses and doubles none.
\<close>
theorem report_revenue_conserves:
  assumes "\<And>xs. mset (pg_order2 pg xs) = mset xs"
    and "report_revenue pg (tenant_tx t) q g db = Inr rows" "t \<noteq> []"
  shows "\<exists>tn a z. tenant_getById t g = Inr tn \<and>
    pg_local pg (rp_from q) (tn_timezone tn) = Some a \<and> pg_local pg (rp_to q) (tn_timezone tn) = Some z \<and>
    distinct (map (\<lambda>r. (rb_bucket r, rb_currency r)) rows) \<and>
    list_all (\<lambda>r. rb_amount r = sum_list (map bk_priceAmount (filter (\<lambda>b. bk_status b = Completed \<and>
      bk_priceCurrency b = rb_currency r \<and> bucketExpr pg (tn_timezone tn) (rp_groupBy q) b = rb_bucket r)
      (report_scope t a z q db)))) rows \<and>
    sum_list (map rb_amount (filter (\<lambda>r. rb_currency r = cur) rows)) =
    sum_list (map bk_priceAmount (filter (\<lambda>b. bk_status b = Completed \<and> bk_priceCurrency b = cur) (report_scope t a z q db)))"
proof -
  obtain tn where tn: "tenant_getById t g = Inr tn"
    and run: "report_repo_revenue pg (tenant_tx t) (rp_groupBy q) (filters_of q (tn_timezone tn)) db = Inr rows"
    using assms(2) unfolding report_revenue_def by (rule report_run_tx [OF assms(3)])
  let ?zone = "tn_timezone tn"
  obtain a z where az: "pg_local pg (rp_from q) ?zone = Some a" "pg_local pg (rp_to q) ?zone = Some z"
    using run assms(3) by (auto simp: report_repo_revenue_def baseQuery_tx result_simps split: option.splits)
  let ?bs = "filter (\<lambda>b. bk_status b = Completed) (report_scope t a z q db)"
  let ?key = "\<lambda>b. (bucketExpr pg ?zone (rp_groupBy q) b, bk_priceCurrency b)"
  let ?price = "\<lambda>b. if bk_priceCurrency b = cur then bk_priceAmount b else 0"
  let ?ks = "pg_order2 pg (remdups (map ?key ?bs))"
  have "rf_timezone (filters_of q ?zone) = ?zone" by (simp add: filters_of_def)
  then have rows: "rows = map (\<lambda>k. \<lparr>rb_bucket = fst k, rb_amount = sum_list (map bk_priceAmount (filter (\<lambda>b. ?key b = k) ?bs)),
       rb_currency = snd k\<rparr>) ?ks"
    using run assms(3) az by (simp add: report_repo_revenue_def baseQuery_tx Let_def REVENUE_STATUSES_def del: filter_filter)
  have ks: "mset ?ks = mset (remdups (map ?key ?bs))" by (rule assms(1))
  have bucket: "(if snd k = cur then sum_list (map bk_priceAmount (filter (\<lambda>b. ?key b = k) ?bs)) else 0) =
      sum_list (map ?price (filter (\<lambda>b. ?key b = k) ?bs))" for k
    by (rule priced_bucket)
  have "sum_list (map rb_amount (filter (\<lambda>r. rb_currency r = cur) rows)) =
      sum_list (map (\<lambda>k. if snd k = cur then sum_list (map bk_priceAmount (filter (\<lambda>b. ?key b = k) ?bs)) else 0) ?ks)"
    unfolding sum_list_filter_if [of rb_amount] rows map_map comp_def by (simp cong: if_cong)
  also have "\<dots> = sum_list (map (\<lambda>k. sum_list (map ?price (filter (\<lambda>b. ?key b = k) ?bs))) ?ks)"
    unfolding bucket ..
  also have "\<dots> = sum_list (map ?price ?bs)" by (rule group_sum [OF ks])
  also have "\<dots> = sum_list (map bk_priceAmount (filter (\<lambda>b. bk_priceCurrency b = cur) ?bs))"
    unfolding sum_list_filter_if [of bk_priceAmount "\<lambda>b. bk_priceCurrency b = cur"] ..
  also have "\<dots> = sum_list (map bk_priceAmount (filter (\<lambda>b. bk_status b = Completed \<and> bk_priceCurrency b = cur) (report_scope t a z q db)))"
    by (simp add: conj_commute)
  finally have total: "sum_list (map rb_amount (filter (\<lambda>r. rb_currency r = cur) rows)) = \<dots>" .
  have keys: "map (\<lambda>r. (rb_bucket r, rb_currency r)) rows = ?ks" by (simp add: rows comp_def)
  have "distinct ?ks" using mset_eq_imp_distinct_iff [OF ks] by simp
  then have once: "distinct (map (\<lambda>r. (rb_bucket r, rb_currency r)) rows)" unfolding keys .
  have amounts: "list_all (\<lambda>r. rb_amount r = sum_list (map bk_priceAmount (filter (\<lambda>b. bk_status b = Completed \<and>
      bk_priceCurrency b = rb_currency r \<and> bucketExpr pg ?zone (rp_groupBy q) b = rb_bucket r)
      (report_scope t a z q db)))) rows"
    unfolding rows list_all_iff by (auto simp: filter_filter conj_ac intro!: arg_cong [of _ _ sum_list] map_cong filter_cong)
  show ?thesis using tn az once amounts total by (intro exI [of _ tn] exI [of _ a] exI [of _ z] conjI)
qed

definition sample_pg :: pg_calendar where
  "sample_pg = \<lparr>pg_local = (\<lambda>s _. if s = ''2026-01-01'' then Some 0 else Some 86400000),
     pg_trunc = (\<lambda>_ _ _. ''2026-01-01''), pg_order = id, pg_order2 = id\<rparr>"

definition sample_report :: report_query where
  "sample_report = \<lparr>rp_from = ''2026-01-01'', rp_to = ''2026-01-02'', rp_fromDate = Some 0, rp_toDate = Some 86400000,
     rp_groupBy = By_Staff, rp_staffId = None, rp_serviceId = None\<rparr>"

lemma sample_run: "report_run (tenant_tx ''t1'') sample_report exec sample_gdb = exec (filters_of sample_report ''UTC'')"
  by (simp add: report_run_def valid_range_def sample_report_def time_unit_defs REPORT_MAX_RANGE_MS_def
      tenant_getById_def sample_gdb_tenant filters_of_def) (simp add: sample_tenant_def)

lemma sample_scope: "report_scope ''t1'' 0 86400000 sample_report sample_db = bookings sample_db"
  by (simp add: report_scope_def sample_report_def opt_def sample_db_def sample_booking_def live_def)

lemma sample_base: "baseQuery sample_pg (tenant_tx ''t1'') (filters_of sample_report ''UTC'') sample_db = Inr (bookings sample_db)"
  by (simp add: baseQuery_tx sample_scope) (simp add: sample_pg_def sample_report_def sample_scope [unfolded sample_report_def])

theorem report_bookings_conserve_witness:
  "\<exists>rows. report_bookings sample_pg (tenant_tx ''t1'') sample_report sample_gdb sample_db = Inr rows \<and>
     sum_list (map bb_total rows) = 2"
proof -
  obtain rows where r: "report_bookings sample_pg (tenant_tx ''t1'') sample_report sample_gdb sample_db = Inr rows"
    by (simp add: report_bookings_def sample_run report_repo_bookings_def sample_base Let_def)
  have "mset (pg_order sample_pg xs) = mset xs" for xs by (simp add: sample_pg_def)
  from report_bookings_conserve [OF this r] have "sum_list (map bb_total rows) = length (bookings sample_db)"
    by (auto simp: sample_pg_def sample_report_def sample_scope [unfolded sample_report_def])
  then show ?thesis using r by (simp add: sample_db_def)
qed

theorem report_revenue_conserves_witness:
  "\<exists>rows. report_revenue sample_pg (tenant_tx ''t1'') sample_report sample_gdb sample_db = Inr rows \<and>
     sum_list (map rb_amount (filter (\<lambda>r. rb_currency r = ''VND'') rows)) = 100"
proof -
  obtain rows where r: "report_revenue sample_pg (tenant_tx ''t1'') sample_report sample_gdb sample_db = Inr rows"
    by (simp add: report_revenue_def sample_run report_repo_revenue_def sample_base Let_def)
  have "mset (pg_order2 sample_pg xs) = mset xs" for xs by (simp add: sample_pg_def)
  from report_revenue_conserves [OF this r, of "''VND''"]
  have "sum_list (map rb_amount (filter (\<lambda>r. rb_currency r = ''VND'') rows)) =
      sum_list (map bk_priceAmount (filter (\<lambda>b. bk_status b = Completed \<and> bk_priceCurrency b = ''VND'') (bookings sample_db)))"
    by (auto simp: sample_pg_def sample_report_def sample_scope [unfolded sample_report_def])
  then show ?thesis using r by (simp add: sample_db_def sample_booking_def)
qed

section \<open>Known gaps\<close>

text \<open>
  A bound that \<open>new Date\<close> cannot read passes both guards, and the range of "one year" admits 366 days in
  every year.
\<close>
lemma unreadable_range_accepted: "valid_range None z = Inr () \<and> valid_range a None = Inr ()"
  by (simp add: valid_range_def split: option.splits)

lemma leap_range_accepted: "valid_range (Some a) (Some (a + 366 * 86400000)) = Inr ()"
  by (simp add: valid_range_def REPORT_MAX_RANGE_MS_def time_unit_defs)

end
