(* ===== verification/Routes.thy ===== *)
theory Routes
  imports Schema
begin

text \<open>
  The route table: every action of the controllers under \<open>src/modules\<close> with its method, path and
  \<open>@Authorized\<close> roles (\<open>None\<close>: the decorator is absent, so anyone may call it; an empty list: any
  authenticated user), and the name of the controller's method.
\<close>

datatype http_method = GET | POST | PATCH | DELETE

record route =
  rt_method :: http_method
  rt_path :: string
  rt_roles :: "auth_role list option"
  rt_action :: string

abbreviation route :: "http_method \<Rightarrow> string \<Rightarrow> auth_role list option \<Rightarrow> string \<Rightarrow> route" where
  "route m p r a \<equiv> \<lparr>rt_method = m, rt_path = p, rt_roles = r, rt_action = a\<rparr>"

definition auth_routes :: "route list" where
  "auth_routes =
     [route POST ''/auth/register'' None ''register'',
      route POST ''/auth/login'' None ''login'',
      route POST ''/auth/switch-tenant'' (Some []) ''switchTenant'',
      route POST ''/auth/refresh'' None ''refresh'',
      route POST ''/auth/logout'' None ''logout'']"

definition user_routes :: "route list" where
  "user_routes =
     [route GET ''/users/me'' (Some []) ''me'',
      route GET ''/users'' (Some SUPER_ADMIN_ONLY) ''list'',
      route GET ''/users/:id'' (Some []) ''byId'']"

definition tenant_routes :: "route list" where
  "tenant_routes =
     [route POST ''/tenants'' (Some []) ''create'']"

definition invite_routes :: "route list" where
  "invite_routes =
     [route POST ''/invites'' (Some OWNER_ONLY) ''create'',
      route POST ''/invites/accept'' (Some []) ''accept'']"

definition admin_routes :: "route list" where
  "admin_routes =
     [route GET ''/admin/tenants'' (Some SUPER_ADMIN_ONLY) ''listTenants'',
      route GET ''/admin/tenants/:id'' (Some SUPER_ADMIN_ONLY) ''tenantDetail'',
      route POST ''/admin/tenants/:id/suspend'' (Some SUPER_ADMIN_ONLY) ''suspend'',
      route POST ''/admin/tenants/:id/reactivate'' (Some SUPER_ADMIN_ONLY) ''reactivate'']"

definition plan_routes :: "route list" where
  "plan_routes =
     [route GET ''/plans'' (Some []) ''list'']"

definition subscription_routes :: "route list" where
  "subscription_routes =
     [route GET ''/subscriptions/current'' (Some TENANT_MEMBER) ''current'',
      route POST ''/subscriptions'' (Some OWNER_ONLY) ''subscribe'']"

definition payment_routes :: "route list" where
  "payment_routes =
     [route POST ''/payments/webhooks/:provider'' None ''handleWebhook'']"

definition service_routes :: "route list" where
  "service_routes =
     [route GET ''/services'' (Some []) ''list'',
      route GET ''/services/:id'' (Some []) ''get'',
      route POST ''/services'' (Some OWNER_ONLY) ''create'',
      route PATCH ''/services/:id'' (Some OWNER_ONLY) ''update'',
      route DELETE ''/services/:id'' (Some OWNER_ONLY) ''remove'']"

definition customer_routes :: "route list" where
  "customer_routes =
     [route GET ''/customers'' (Some []) ''list'',
      route GET ''/customers/:id'' (Some []) ''get'',
      route POST ''/customers'' (Some TENANT_MEMBER) ''create'']"

definition staff_routes :: "route list" where
  "staff_routes =
     [route GET ''/staff'' (Some []) ''list'',
      route GET ''/staff/:id'' (Some []) ''get'',
      route POST ''/staff'' (Some OWNER_ONLY) ''create'',
      route PATCH ''/staff/:id'' (Some OWNER_ONLY) ''update'',
      route DELETE ''/staff/:id'' (Some OWNER_ONLY) ''remove'']"

definition staff_service_routes :: "route list" where
  "staff_service_routes =
     [route GET ''/staff/:staffId/services'' (Some []) ''list'',
      route POST ''/staff/:staffId/services'' (Some OWNER_ONLY) ''link'',
      route DELETE ''/staff/:staffId/services/:serviceId'' (Some OWNER_ONLY) ''unlink'']"

definition working_hours_routes :: "route list" where
  "working_hours_routes =
     [route GET ''/staff/:staffId/working-hours'' (Some []) ''list'',
      route POST ''/staff/:staffId/working-hours'' (Some OWNER_ONLY) ''create'',
      route DELETE ''/staff/:staffId/working-hours/:id'' (Some OWNER_ONLY) ''remove'']"

definition time_off_routes :: "route list" where
  "time_off_routes =
     [route GET ''/staff/:staffId/time-off'' (Some []) ''list'',
      route POST ''/staff/:staffId/time-off'' (Some OWNER_ONLY) ''create'',
      route DELETE ''/staff/:staffId/time-off/:id'' (Some OWNER_ONLY) ''remove'']"

definition availability_routes :: "route list" where
  "availability_routes =
     [route GET ''/availability'' (Some []) ''compute'']"

definition booking_routes :: "route list" where
  "booking_routes =
     [route POST ''/bookings'' (Some TENANT_MEMBER) ''create'',
      route GET ''/bookings/:id'' (Some []) ''get'',
      route POST ''/bookings/:id/confirm'' (Some TENANT_MEMBER) ''confirm'',
      route POST ''/bookings/:id/complete'' (Some TENANT_MEMBER) ''complete'',
      route POST ''/bookings/:id/cancel'' (Some TENANT_MEMBER) ''cancel'',
      route POST ''/bookings/:id/no-show'' (Some TENANT_MEMBER) ''noShow'',
      route PATCH ''/bookings/:id/reschedule'' (Some TENANT_MEMBER) ''reschedule'']"

definition recurrence_routes :: "route list" where
  "recurrence_routes =
     [route POST ''/recurrences'' (Some TENANT_MEMBER) ''create'',
      route POST ''/recurrences/:id/cancel'' (Some TENANT_MEMBER) ''cancel'']"

definition reporting_routes :: "route list" where
  "reporting_routes =
     [route GET ''/reports/bookings'' (Some OWNER_ONLY) ''bookings'',
      route GET ''/reports/revenue'' (Some OWNER_ONLY) ''revenue'']"

definition webhook_routes :: "route list" where
  "webhook_routes =
     [route GET ''/webhooks'' (Some OWNER_ONLY) ''list'',
      route POST ''/webhooks'' (Some OWNER_ONLY) ''create'',
      route DELETE ''/webhooks/:id'' (Some OWNER_ONLY) ''remove'']"

definition routes :: "route list" where
  "routes =
     auth_routes @ user_routes @ tenant_routes @ invite_routes @ admin_routes @ plan_routes @ subscription_routes @ payment_routes @ service_routes @ customer_routes @ staff_routes @ staff_service_routes @ working_hours_routes @ time_off_routes @ availability_routes @ booking_routes @ recurrence_routes @ reporting_routes @ webhook_routes"

section \<open>Properties\<close>

text \<open>The segments of a path, and whether two routes answer a common request.\<close>
fun segments :: "string \<Rightarrow> string \<Rightarrow> string list" where
  "segments acc [] = [rev acc]"
| "segments acc (c # cs) = (if c = CHR ''/'' then rev acc # segments [] cs else segments (c # acc) cs)"

definition same_segment :: "string \<Rightarrow> string \<Rightarrow> bool" where
  "same_segment a b \<longleftrightarrow> a = b \<or> take 1 a = '':'' \<or> take 1 b = '':''"

definition collide :: "http_method \<times> string list \<Rightarrow> http_method \<times> string list \<Rightarrow> bool" where
  "collide a b \<longleftrightarrow> fst a = fst b \<and> list_all2 same_segment (snd a) (snd b)"

fun colliding :: "(http_method \<times> string list) list \<Rightarrow> nat" where
  "colliding [] = 0"
| "colliding (r # rs) = length (filter (collide r) rs) + colliding rs"

text \<open>The requests that change state and need no tenant role.\<close>
definition open_writes :: "string list" where
  "open_writes =
     [''/auth/register'', ''/auth/login'', ''/auth/switch-tenant'', ''/auth/refresh'', ''/auth/logout'',
      ''/tenants'', ''/invites/accept'', ''/payments/webhooks/:provider'']"

text \<open>
  The guards cover the writes: every route that is not a GET is restricted to owners, members or super
  admins, except sign-up, sessions, onboarding, accepting an invite and the signature-gated payment
  webhook; every admin route is for super admins only; and no two routes answer the same request, but
  for \<open>/users/me\<close> and \<open>/users/:id\<close>.
\<close>
theorem route_guards:
  "list_all (\<lambda>r. rt_method r = GET \<or> rt_path r \<in> set open_writes \<or>
      rt_roles r \<in> {Some OWNER_ONLY, Some TENANT_MEMBER, Some SUPER_ADMIN_ONLY}) routes \<and>
   list_all (\<lambda>r. take 7 (rt_path r) = ''/admin/'' \<longleftrightarrow> r \<in> set admin_routes) routes \<and>
   list_all (\<lambda>r. rt_roles r = Some SUPER_ADMIN_ONLY) admin_routes \<and>
   colliding (map (\<lambda>r. (rt_method r, segments [] (rt_path r))) routes) = 1"
  by code_simp

end
