(* ===== verification/Server.thy ===== *)
theory Server
  imports Http_Pipeline Routes
begin

text \<open>
  The HTTP application of \<open>server.ts\<close>: in which order it tries its routes, its fallback, and the browser
  routes of the Google sign-in (\<open>modules/auth/strategies/google.strategy.ts\<close>). Express's path matching and
  the rate limiter's verdict are parameters; routing-controllers answers with the first action that matches.
\<close>

section \<open>Google sign-in\<close>

text \<open>The environment variables it reads; \<open>None\<close> is \<open>undefined\<close>.\<close>
record google_env =
  ge_clientId :: "string option"
  ge_clientSecret :: "string option"
  ge_successRedirect :: "string option"

definition google_configured :: "'a google_env_scheme \<Rightarrow> bool" where
  "google_configured env \<longleftrightarrow> or_default [] (ge_clientId env) \<noteq> [] \<and> or_default [] (ge_clientSecret env) \<noteq> []"

text \<open>A template literal renders an absent value as the word.\<close>
definition js_template :: "string option \<Rightarrow> string" where
  "js_template x = or_default ''undefined'' x"

definition failureRedirect :: "'a google_env_scheme \<Rightarrow> string" where
  "failureRedirect env = js_template (ge_successRedirect env) @ ''?error=google_auth_failed''"

text \<open>The verify callback of the strategy.\<close>
definition google_verify :: "draws \<Rightarrow> google_profile \<Rightarrow> user pooled" where
  "google_verify dr p g = (case toIdentity p of Inl e \<Rightarrow> (Inl e, g) | Inr ident \<Rightarrow> resolveGoogleUser dr ident g)"

text \<open>What \<open>passport.authenticate\<close> has from Google: a refusal or a profile.\<close>
datatype google_outcome = Google_Refuses | Google_Profile google_profile

text \<open>A session for the browser, the failure page, or an error passed to Express.\<close>
datatype google_reply = Signed_In session_tokens | Sign_In_Failed | Next_Error exn

definition google_callback :: "auth_env \<Rightarrow> draws \<Rightarrow> google_outcome \<Rightarrow> gdb \<Rightarrow> google_reply \<times> gdb" where
  "google_callback aenv dr outcome g =
     (case outcome of
        Google_Refuses \<Rightarrow> (Sign_In_Failed, g)
      | Google_Profile p \<Rightarrow>
          (case google_verify dr p g of
             (Inl e, g1) \<Rightarrow> (Next_Error e, g1)
           | (Inr u, g1) \<Rightarrow>
               (case issueSessionFor aenv dr u g1 of
                  (Inl e, g2) \<Rightarrow> (Sign_In_Failed, g2)
                | (Inr s, g2) \<Rightarrow> (Signed_In s, g2))))"

text \<open>Where the browser is sent; \<open>sign\<close> renders the claims as a JSON Web Token.\<close>
definition google_location :: "'a google_env_scheme \<Rightarrow> (jwt_payload \<Rightarrow> string) \<Rightarrow> google_reply \<Rightarrow> string option" where
  "google_location env sign r =
     (case r of
        Signed_In s \<Rightarrow> Some (js_template (ge_successRedirect env) @ ''#token='' @ sign (st_token s) @
                          ''&refreshToken='' @ st_refreshToken s)
      | Sign_In_Failed \<Rightarrow> Some (failureRedirect env)
      | Next_Error e \<Rightarrow> None)"

section \<open>The application\<close>

record server_env = google_env +
  sv_metrics :: bool
  sv_swagger :: bool

text \<open>Express: whether a pattern matches a path, and whether a path lies under a mount point.\<close>
record express =
  ex_match :: "string \<Rightarrow> string \<Rightarrow> bool"
  ex_under :: "string \<Rightarrow> string \<Rightarrow> bool"

record http_request_line =
  hr_method :: string
  hr_path :: string
  hr_originalUrl :: string
  hr_authorization :: "string option"

definition method_str :: "http_method \<Rightarrow> string" where
  "method_str m = (case m of GET \<Rightarrow> ''GET'' | POST \<Rightarrow> ''POST'' | PATCH \<Rightarrow> ''PATCH'' | DELETE \<Rightarrow> ''DELETE'')"

text \<open>Express answers HEAD with the GET route.\<close>
definition handles :: "http_method \<Rightarrow> string \<Rightarrow> bool" where
  "handles m method \<longleftrightarrow> method = method_str m \<or> method = ''HEAD'' \<and> m = GET"

definition routePrefix :: string where
  "routePrefix = ''/api/v1''"

definition GOOGLE_ROUTE :: string where
  "GOOGLE_ROUTE = ''/api/v1/auth/google''"

datatype response =
    Metrics_Text
  | Too_Many_Requests
  | Api_Reply reply
  | Google_Route
  | Api_Docs
  | Problem_Response problem

definition matched_route :: "express \<Rightarrow> http_request_line \<Rightarrow> route option" where
  "matched_route ex rq =
     find (\<lambda>r. handles (rt_method r) (hr_method rq) \<and> ex_match ex (routePrefix @ rt_path r) (hr_path rq)) routes"

text \<open>The fallback: no route took the request.\<close>
definition not_found :: "string option \<Rightarrow> http_request_line \<Rightarrow> problem" where
  "not_found trace rq =
     buildProblem trace 404 ''NOT_FOUND'' (''Route '' @ hr_method rq @ '' '' @ hr_path rq @ '' not found'')
       (Some (hr_originalUrl rq)) None"

text \<open>
  \<open>createServer\<close>: metrics, the limiter on \<open>/api\<close>, the tenant middleware and the controllers, Google, the
  documentation, the fallback. \<open>handler\<close> is the action of a route, \<open>limited\<close> the limiter's verdict. The
  tenant middleware runs for every request that comes so far, also when no action matches.
\<close>
definition app_dispatch ::
  "express \<Rightarrow> server_env \<Rightarrow> pipeline_env \<Rightarrow> (route \<Rightarrow> ctx \<Rightarrow> tdb \<Rightarrow> (exn + json option) \<times> tdb) \<Rightarrow> bool \<Rightarrow>
     string option \<Rightarrow> http_request_line \<Rightarrow> gdb \<Rightarrow> tdb \<Rightarrow> response \<times> tdb" where
  "app_dispatch ex env penv handler limited trace rq g db =
     (let get = handles GET (hr_method rq); path = hr_path rq in
      if sv_metrics env \<and> get \<and> ex_match ex ''/metrics'' path then (Metrics_Text, db)
      else if ex_under ex ''/api'' path \<and> limited then (Too_Many_Requests, db)
      else case matched_route ex rq of
        Some r \<Rightarrow>
          (case serve penv (rt_roles r) (handler r) (hr_authorization rq) g db of (x, db') \<Rightarrow> (Api_Reply x, db'))
      | None \<Rightarrow>
          (case tenant_middleware penv (hr_authorization rq) g of
             Rejected e \<Rightarrow> (Api_Reply (Failure e), db)
           | _ \<Rightarrow>
               if google_configured env \<and> get \<and>
                  (ex_match ex GOOGLE_ROUTE path \<or> ex_match ex (GOOGLE_ROUTE @ ''/callback'') path)
               then (Google_Route, db)
               else if sv_swagger env \<and> (ex_under ex ''/api-docs'' path \<or> get \<and> ex_match ex ''/api-docs.json'' path)
               then (Api_Docs, db)
               else (Problem_Response (not_found trace rq), db)))"

section \<open>Facts\<close>

definition google_link :: "google_identity \<Rightarrow> user \<Rightarrow> user" where
  "google_link ident u = u\<lparr>us_provider := Some ''google'', us_providerAccountId := Some (gi_sub ident)\<rparr>"

text \<open>The account an identity opens: one linked before, the one that holds the address, or a new one.\<close>
definition google_owner :: "google_identity \<Rightarrow> gdb \<Rightarrow> user \<Rightarrow> gdb \<Rightarrow> bool" where
  "google_owner ident g u g' \<longleftrightarrow>
     (case (user_findByProviderAccount ''google'' (gi_sub ident) g, user_findByEmail (gi_email ident) g) of
        (Some v, _) \<Rightarrow> u = v \<and> users g' = users g
      | (None, Some v) \<Rightarrow> u = v \<and> users g' = update_where (\<lambda>x. e_id x = e_id v) (google_link ident) (users g)
      | (None, None) \<Rightarrow> users g' = users g @ [u] \<and> live u \<and> us_email u = gi_email ident \<and>
          us_provider u = Some ''google'' \<and> us_providerAccountId u = Some (gi_sub ident) \<and>
          us_passwordHash u = None \<and> \<not> us_isSuperAdmin u)"

lemma resolveGoogleUser_owner:
  assumes "resolveGoogleUser dr ident g = (Inr u, g')"
  shows "gi_emailVerified ident" "google_owner ident g u g'" "memberships g' = memberships g"
proof -
  show v: "gi_emailVerified ident" using assms by (auto simp: resolveGoogleUser_def split: if_splits)
  have "google_owner ident g u g' \<and> memberships g' = memberships g"
  proof (cases "user_findByProviderAccount ''google'' (gi_sub ident) g")
    case (Some w)
    then show ?thesis using assms v by (simp add: resolveGoogleUser_def google_owner_def)
  next
    case none: None
    show ?thesis
    proof (cases "user_findByEmail (gi_email ident) g")
      case (Some w)
      obtain r g1 where l: "linkProvider (e_id w) ''google'' (gi_sub ident) g = (r, g1)" by fastforce
      have "r = Inr ()" "u = w" "g' = g1" using assms v none Some l by (auto simp: resolveGoogleUser_def split: sum.splits)
      moreover have "(\<lambda>x. x\<lparr>us_provider := Some ''google'', us_providerAccountId := Some (gi_sub ident)\<rparr>) = google_link ident"
        by (simp add: fun_eq_iff google_link_def)
      ultimately show ?thesis using l none Some
        by (auto simp: linkProvider_def google_owner_def split: sum.splits dest!: update_checked_eq)
    next
      case None
      then show ?thesis using assms v none
        by (auto simp: resolveGoogleUser_def user_create_def user_row_def google_owner_def live_def split: sum.splits dest!: insert_checked_eq)
    qed
  qed
  then show "google_owner ident g u g'" "memberships g' = memberships g" by simp_all
qed

lemma find_append_one: "find p xs = None \<Longrightarrow> p x \<Longrightarrow> find p (xs @ [x]) = Some x"
  by (induction xs) (auto split: if_splits)

text \<open>From then on the Google account resolves to that user.\<close>
lemma google_owner_found:
  assumes "google_owner ident g u g'" "sat_all users_cs (users g)"
  shows "map_option e_id (user_findByProviderAccount ''google'' (gi_sub ident) g') = Some (e_id u)"
proof (cases "user_findByProviderAccount ''google'' (gi_sub ident) g")
  case (Some v)
  then show ?thesis using assms(1) by (simp add: google_owner_def user_findByProviderAccount_def)
next
  case none: None
  let ?p = "\<lambda>x. live x \<and> us_provider x = Some ''google'' \<and> us_providerAccountId x = Some (gi_sub ident)"
  show ?thesis
  proof (cases "user_findByEmail (gi_email ident) g")
    case None
    then show ?thesis using assms(1) none
      by (simp add: google_owner_def user_findByProviderAccount_def find_append_one)
  next
    case (Some v)
    then have u: "u = v" "users g' = update_where (\<lambda>x. e_id x = e_id v) (google_link ident) (users g)"
      using assms(1) none by (simp_all add: google_owner_def)
    have v: "v \<in> set (users g)" "live v" using Some by (auto simp: user_findByEmail_def dest!: find_Some_mem)
    have old: "\<not> ?p x" if "x \<in> set (users g)" for x
      using none that by (auto simp: user_findByProviderAccount_def find_None_iff)
    have "find ?p (update_where (\<lambda>x. e_id x = e_id v) (google_link ident) (users g)) = Some (google_link ident v)"
    proof (rule find_unique)
      show "google_link ident v \<in> set (update_where (\<lambda>x. e_id x = e_id v) (google_link ident) (users g))"
        using v(1) by (auto simp: set_update_where)
      show "?p (google_link ident v)" using v(2) by (simp add: google_link_def live_def)
      fix y
      assume "y \<in> set (update_where (\<lambda>x. e_id x = e_id v) (google_link ident) (users g))" "?p y"
      then show "y = google_link ident v"
        using old users_tbl.key_inj [OF assms(2) _ v(1)] by (auto simp: set_update_where)
    qed
    then show ?thesis by (simp add: user_findByProviderAccount_def u google_link_def)
  qed
qed

lemma issueSessionFor_users: "users (snd (issueSessionFor env dr u g)) = users g"
  by (auto simp: issueSessionFor_def issueSession_def refresh_issue_def split: sum.splits)

text \<open>Every route that is not a GET is guarded, but for the open ones.\<close>
definition write_roles :: "auth_role list list" where
  "write_roles = [OWNER_ONLY, TENANT_MEMBER, SUPER_ADMIN_ONLY]"

lemma write_routes_guarded:
  "list_all (\<lambda>r. rt_method r = GET \<or> rt_path r \<in> set open_writes \<or> rt_roles r \<in> Some ` set write_roles) routes"
  by code_simp

text \<open>Who the guard lets pass.\<close>
definition has_role :: "pipeline_env \<Rightarrow> string option \<Rightarrow> gdb \<Rightarrow> auth_role list \<Rightarrow> bool" where
  "has_role penv header g roles \<longleftrightarrow>
     (\<exists>p u. pl_passport penv header = Some p \<and> jwt_user p g = Some u \<and>
       (us_isSuperAdmin u \<or>
        (\<exists>token claims ro. bearer_token header = Some token \<and> pl_verify penv token = Some claims \<and>
           jp_role claims = Some ro \<and> TenantRole ro \<in> set roles)))"

lemma authorized_role:
  assumes "authorized penv header claims g roles" "roles \<noteq> []"
    and "\<And>c. claims = Some c \<Longrightarrow> \<exists>token. bearer_token header = Some token \<and> pl_verify penv token = Some c"
  shows "has_role penv header g roles"
proof -
  obtain p u where pu: "pl_passport penv header = Some p" "jwt_user p g = Some u"
      "us_isSuperAdmin u \<or> (case claims of None \<Rightarrow> False | Some c \<Rightarrow> (case jp_role c of None \<Rightarrow> False | Some r \<Rightarrow> TenantRole r \<in> set roles))"
    using assms(1,2) by (auto simp: authorized_def split: option.splits)
  then show ?thesis using assms(3) unfolding has_role_def by (fastforce split: option.splits)
qed

lemma middleware_claims:
  "tenant_middleware penv header g = Anonymous (Some c) \<Longrightarrow> \<exists>token. bearer_token header = Some token \<and> pl_verify penv token = Some c"
  by (auto simp: tenant_middleware_def Let_def split: option.splits if_splits)

lemma serve_write_authorized:
  assumes "serve penv (Some roles) h header g db = (r, db')" "db' \<noteq> db" "roles \<noteq> []"
  shows "has_role penv header g roles"
proof (cases "tenant_middleware penv header g")
  case (Anonymous claims)
  then have "authorized penv header claims g roles"
    using assms(1,2) by (auto simp: serve_def split: if_splits)
  then show ?thesis using assms(3) Anonymous middleware_claims by (intro authorized_role) auto
next
  case (Rejected e)
  then show ?thesis using assms(1,2) by (simp add: serve_def)
next
  case (Pinned claims t)
  then have "authorized penv header (Some claims) g roles"
    using assms(1,2) by (auto simp: serve_pinned split: if_splits)
  then show ?thesis using assms(3) pinned_tenant(3) [OF Pinned] by (intro authorized_role) auto
qed

lemma serve_read_only:
  assumes "serve penv roles h header g db = (y, db')" "\<And>c d. snd (h c d) = d"
  shows "db' = db"
proof (cases "tenant_middleware penv header g")
  case (Anonymous claims)
  then show ?thesis using assms(1) assms(2) [of None db]
    by (auto simp: serve_def split: if_splits prod.splits sum.splits)
next
  case (Rejected e)
  then show ?thesis using assms(1) by (simp add: serve_def)
next
  case (Pinned claims t)
  then show ?thesis using assms(1) assms(2) [of "tenant_tx t" db]
    by (auto simp: serve_pinned split: if_splits prod.splits sum.splits option.splits)
qed

section \<open>Properties\<close>

text \<open>
  Only those who may write do: if a request changes any tenant table then an action took it that is not
  a GET, and either that action is one of the open ones (sign-up, sessions, onboarding, accepting an
  invite, the signature-gated payment webhook) or the caller's token belongs to an existing user who is a
  super admin or whose verified claims carry one of the action's roles. The handlers are any functions, those
  of GET routes only reading.
\<close>
theorem writes_need_authority:
  assumes "app_dispatch ex env penv handler limited trace rq g db = (x, db')" "db' \<noteq> db"
    and "\<And>r c d. rt_method r = GET \<Longrightarrow> snd (handler r c d) = d"
  shows "\<exists>r \<in> set routes. handles (rt_method r) (hr_method rq) \<and> ex_match ex (routePrefix @ rt_path r) (hr_path rq) \<and>
    rt_method r \<noteq> GET \<and>
    (rt_path r \<in> set open_writes \<or>
     (\<exists>roles \<in> set write_roles. rt_roles r = Some roles \<and> has_role penv (hr_authorization rq) g roles))"
proof -
  obtain r y where r: "matched_route ex rq = Some r" "serve penv (rt_roles r) (handler r) (hr_authorization rq) g db = (y, db')"
    using assms(1,2) by (auto simp: app_dispatch_def Let_def split: if_splits option.splits entry.splits prod.splits)
  then have m: "r \<in> set routes" "handles (rt_method r) (hr_method rq)" "ex_match ex (routePrefix @ rt_path r) (hr_path rq)"
    by (auto simp: matched_route_def dest!: find_Some_mem)
  have get: "rt_method r \<noteq> GET"
  proof
    assume "rt_method r = GET"
    then have "db' = db" using assms(3) by (intro serve_read_only [OF r(2)])
    with assms(2) show False by simp
  qed
  have "rt_path r \<in> set open_writes \<or> (\<exists>roles \<in> set write_roles. rt_roles r = Some roles)"
    using write_routes_guarded m(1) get by (auto simp: list_all_iff)
  moreover have "has_role penv (hr_authorization rq) g roles" if "roles \<in> set write_roles" "rt_roles r = Some roles" for roles
  proof -
    have "roles \<noteq> []" using that(1) by (auto simp: write_roles_def OWNER_ONLY_def TENANT_MEMBER_def SUPER_ADMIN_ONLY_def)
    then show ?thesis by (rule serve_write_authorized [OF r(2) [unfolded that(2)] assms(2)])
  qed
  ultimately show ?thesis using m get by blast
qed

definition sample_server :: server_env where
  "sample_server = \<lparr>ge_clientId = Some ''id'', ge_clientSecret = Some ''secret'', ge_successRedirect = Some ''https://app'',
     sv_metrics = True, sv_swagger = False\<rparr>"

definition exact_paths :: express where
  "exact_paths = \<lparr>ex_match = (=), ex_under = (\<lambda>a b. starts_with a b)\<rparr>"

definition sample_post :: http_request_line where
  "sample_post = \<lparr>hr_method = ''POST'', hr_path = ''/api/v1/services'', hr_originalUrl = ''/api/v1/services'',
     hr_authorization = Some ''Bearer x''\<rparr>"

definition wipe_bookings :: "route \<Rightarrow> ctx \<Rightarrow> tdb \<Rightarrow> (exn + json option) \<times> tdb" where
  "wipe_bookings r c d = (if rt_method r = GET then (Inr None, d) else (Inr None, d\<lparr>bookings := []\<rparr>))"

text \<open>
  C27. A Google sign-in opens the one account its profile selects, and rewrites no other: tokens are issued only
  when the profile's JSON says its address is verified, and they are the session of the account this Google
  id was linked to before, else of the account that holds the profile's address (which is linked now, its
  password and rights unchanged), else of a new ordinary account; no other user changes, the claims are
  true, and the next sign-in with the same Google id finds the same user. The profile's address is the
  first one it lists, else that of its JSON; it is the address the flag is about when the two agree or none is
  listed. A listed address that differs from the JSON's is used as well, without the flag being about it
  (\<open>other_email_counts_as_verified\<close>), so the claim does not say that the account's owner has proved that address.
\<close>
theorem google_sign_in_account:
  assumes "google_callback aenv dr outcome g = (Signed_In s, g')"
    and "sat_all users_cs (users g)" "sat_all memberships_cs (memberships g)"
  shows "\<exists>p ident u. outcome = Google_Profile p \<and> toIdentity p = Inr ident \<and> gp_emailVerified p = Some True \<and>
    gi_sub ident = gp_id p \<and>
    Some (gi_email ident) = (case gp_firstEmail p of None \<Rightarrow> gp_jsonEmail p | Some em \<Rightarrow> Some em) \<and>
    (gp_firstEmail p = None \<or> gp_firstEmail p = gp_jsonEmail p \<longrightarrow> gp_jsonEmail p = Some (gi_email ident)) \<and>
    jp_sub (st_token s) = e_id u \<and> google_owner ident g u g' \<and> true_claims g' False (st_token s) \<and>
    map_option e_id (user_findByProviderAccount ''google'' (gp_id p) g') = Some (e_id u)"
proof -
  obtain p u g1 where p: "outcome = Google_Profile p" "google_verify dr p g = (Inr u, g1)" "issueSessionFor aenv dr u g1 = (Inr s, g')"
    using assms(1) by (auto simp: google_callback_def split: google_outcome.splits prod.splits sum.splits)
  obtain ident where i: "toIdentity p = Inr ident" "resolveGoogleUser dr ident g = (Inr u, g1)"
    using p(2) by (auto simp: google_verify_def split: sum.splits)
  note o = resolveGoogleUser_owner [OF i(2)]
  have id: "gi_emailVerified ident = or_default False (gp_emailVerified p)" "gi_sub ident = gp_id p"
    "Some (gi_email ident) = (case gp_firstEmail p of None \<Rightarrow> gp_jsonEmail p | Some em \<Rightarrow> Some em)"
    using i(1) by (auto simp: toIdentity_def split: option.splits list.splits)
  then have v: "gp_emailVerified p = Some True" using o(1) id(1) by (cases "gp_emailVerified p") simp_all
  have same: "users g' = users g1" using issueSessionFor_users [of aenv dr u g1] p(3) by simp
  then have own: "google_owner ident g u g'" using o(2) by (simp add: google_owner_def split: option.splits)
  have "sat_all memberships_cs (memberships g1)" using assms(3) o(3) by simp
  note claims = issueSessionFor_claims [OF this p(3)]
  have json: "gp_firstEmail p = None \<or> gp_firstEmail p = gp_jsonEmail p \<longrightarrow> gp_jsonEmail p = Some (gi_email ident)"
    using id(3) by (auto split: option.splits)
  have "map_option e_id (user_findByProviderAccount ''google'' (gp_id p) g') = Some (e_id u)"
    using google_owner_found [OF own assms(2)] id(2) by simp
  then show ?thesis using p(1) i(1) v id(2,3) json own claims by blast
qed

definition sample_profile :: google_profile where
  "sample_profile = \<lparr>gp_id = ''g1'', gp_firstEmail = Some ''an@x'', gp_jsonEmail = Some ''an@x'',
     gp_emailVerified = Some True, gp_displayName = ''An'', gp_jsonName = None\<rparr>"

theorem google_sign_in_account_witness:
  "\<exists>s g'. google_callback sample_aenv (sample_draws ''r1'' ''tok'') (Google_Profile sample_profile)
      (empty_gdb\<lparr>users := [user_row ''u1'' 0 ''an@x'' ''An'' (Some ''hash'') None None]\<rparr>) = (Signed_In s, g') \<and>
     jp_sub (st_token s) = ''u1''"
proof -
  let ?g = "empty_gdb\<lparr>users := [user_row ''u1'' 0 ''an@x'' ''An'' (Some ''hash'') None None]\<rparr>"
  let ?r = "google_callback sample_aenv (sample_draws ''r1'' ''tok'') (Google_Profile sample_profile) ?g"
  have "(case fst ?r of Signed_In s \<Rightarrow> jp_sub (st_token s) = ''u1'' | _ \<Rightarrow> False)" by code_simp
  then obtain s where "fst ?r = Signed_In s" "jp_sub (st_token s) = ''u1''" by (cases "fst ?r") simp_all
  then have r: "?r = (Signed_In s, snd ?r)" by (metis prod.collapse)
  have "sat_all users_cs (users ?g)" "sat_all memberships_cs (memberships ?g)"
    by (simp_all add: sat_all_def violates_def list_all_iff empty_gdb_def)
  from google_sign_in_account [OF r this] r \<open>jp_sub (st_token s) = ''u1''\<close> show ?thesis by blast
qed

theorem writes_need_authority_witness:
  "\<exists>x db'. app_dispatch exact_paths sample_server sample_pipeline wipe_bookings False None sample_post
       (sample_gdb\<lparr>users := [user_row ''u1'' 0 ''an@x'' ''An'' None None None]\<rparr>) sample_db = (x, db') \<and> db' \<noteq> sample_db \<and>
     has_role sample_pipeline (Some ''Bearer x'') (sample_gdb\<lparr>users := [user_row ''u1'' 0 ''an@x'' ''An'' None None None]\<rparr>) OWNER_ONLY"
proof -
  let ?g = "sample_gdb\<lparr>users := [user_row ''u1'' 0 ''an@x'' ''An'' None None None]\<rparr>"
  let ?d = "app_dispatch exact_paths sample_server sample_pipeline wipe_bookings False None sample_post ?g sample_db"
  have ne: "bookings (snd ?d) = [] \<and> bookings sample_db \<noteq> []" by code_simp
  then have "snd ?d \<noteq> sample_db" by force
  from writes_need_authority [OF prod.collapse [symmetric] this] 
  obtain r where "r \<in> set routes" "handles (rt_method r) ''POST''" "routePrefix @ rt_path r = ''/api/v1/services''"
    "rt_path r \<in> set open_writes \<or>
     (\<exists>roles \<in> set write_roles. rt_roles r = Some roles \<and> has_role sample_pipeline (Some ''Bearer x'') ?g roles)"
    by (auto simp: wipe_bookings_def sample_post_def exact_paths_def)
  moreover have "list_all (\<lambda>r. handles (rt_method r) ''POST'' \<and> routePrefix @ rt_path r = ''/api/v1/services'' \<longrightarrow>
      rt_path r \<notin> set open_writes \<and> rt_roles r = Some OWNER_ONLY) routes" by code_simp
  ultimately have "has_role sample_pipeline (Some ''Bearer x'') ?g OWNER_ONLY" by (auto simp: list_all_iff)
  then show ?thesis using \<open>snd ?d \<noteq> sample_db\<close> by (intro exI [of _ "fst ?d"] exI [of _ "snd ?d"]) simp
qed

section \<open>Known gaps\<close>

text \<open>
  The comment says the verified \<open>_json\<close> is preferred; its \<open>email_verified\<close> is read, but the address is the first of
  the profile, so an address that differs from the verified one counts as verified.
\<close>
lemma other_email_counts_as_verified:
  assumes "gp_firstEmail p = Some em" "em \<noteq> []" "gp_emailVerified p = Some True" "gp_jsonEmail p = Some em'" "em' \<noteq> em"
  shows "\<exists>ident. toIdentity p = Inr ident \<and> gi_email ident = em \<and> gi_emailVerified ident"
  using assms by (cases em) (simp_all add: toIdentity_def or_default_def)

text \<open>With the two credentials set but no redirect address, the tokens are sent to a page called \<open>undefined\<close>.\<close>
lemma undefined_redirect:
  assumes "ge_successRedirect env = None"
  shows "google_location env sign (Signed_In s) = Some (''undefined#token='' @ sign (st_token s) @ ''&refreshToken='' @ st_refreshToken s)"
    "google_location env sign Sign_In_Failed = Some ''undefined?error=google_auth_failed''"
  by (simp_all add: google_location_def failureRedirect_def js_template_def assms or_default_def)

end
