(* ===== verification/Controllers.thy ===== *)
theory Controllers
  imports Reporting Server
begin

text \<open>
  The actions of the tenant controllers (\<open>modules/*/*.controller.ts\<close>): what each does with its decoded
  parameters, and the application of \<open>Server\<close> with these actions as its handlers. Decoding a request into a
  controller's parameters is routing-controllers' and class-transformer's and a parameter here, as is the
  rendering of what an action returns.
\<close>

section \<open>Calls and answers\<close>

text \<open>An action with its decoded parameters.\<close>
datatype service_call =
    Services_List base_query | Services_Get uuid | Services_Create create_service_dto
   | Services_Update uuid update_service_dto | Services_Remove uuid

datatype customer_call =
    Customers_List base_query | Customers_Get uuid | Customers_Create create_customer_dto

datatype staff_call =
    Staff_List base_query | Staff_Get uuid | Staff_Create create_staff_dto
   | Staff_Update uuid update_staff_dto | Staff_Remove uuid

datatype staff_service_call =
    Capabilities_List uuid | Capabilities_Link uuid uuid | Capabilities_Unlink uuid uuid

datatype working_hours_call =
    Hours_List uuid | Hours_Create uuid create_working_hours_dto | Hours_Remove uuid uuid

datatype time_off_call =
    Time_Off_List uuid | Time_Off_Create uuid create_time_off_dto | Time_Off_Remove uuid uuid

datatype booking_call =
    Bookings_Create json create_booking_dto "string option" | Bookings_Get uuid | Bookings_Confirm uuid int
   | Bookings_Complete uuid int | Bookings_Cancel uuid int | Bookings_NoShow uuid int
   | Bookings_Reschedule uuid reschedule_booking_dto "string option"

datatype recurrence_call =
    Recurrences_Create create_recurrence_dto | Recurrences_Cancel uuid

datatype reporting_call =
    Reports_Bookings report_query | Reports_Revenue report_query

datatype webhook_call =
    Webhooks_List | Webhooks_Create string | Webhooks_Remove uuid

datatype subscription_call =
    Subscriptions_Current | Subscriptions_Create uuid provider_name

datatype availability_call =
    Availability_Compute availability_query

datatype call =
    On_Services service_call
  | On_Customers customer_call
  | On_Staff staff_call
  | On_Capabilities staff_service_call
  | On_Hours working_hours_call
  | On_Time_Off time_off_call
  | On_Bookings booking_call
  | On_Recurrences recurrence_call
  | On_Reports reporting_call
  | On_Webhooks webhook_call
  | On_Subscriptions subscription_call
  | On_Availability availability_call

text \<open>The route of a call.\<close>
fun call_route :: "call \<Rightarrow> http_method \<times> string" where
  "call_route (On_Services (Services_List _)) = (GET, ''/services'')"
| "call_route (On_Services (Services_Get _)) = (GET, ''/services/:id'')"
| "call_route (On_Services (Services_Create _)) = (POST, ''/services'')"
| "call_route (On_Services (Services_Update _ _)) = (PATCH, ''/services/:id'')"
| "call_route (On_Services (Services_Remove _)) = (DELETE, ''/services/:id'')"
| "call_route (On_Customers (Customers_List _)) = (GET, ''/customers'')"
| "call_route (On_Customers (Customers_Get _)) = (GET, ''/customers/:id'')"
| "call_route (On_Customers (Customers_Create _)) = (POST, ''/customers'')"
| "call_route (On_Staff (Staff_List _)) = (GET, ''/staff'')"
| "call_route (On_Staff (Staff_Get _)) = (GET, ''/staff/:id'')"
| "call_route (On_Staff (Staff_Create _)) = (POST, ''/staff'')"
| "call_route (On_Staff (Staff_Update _ _)) = (PATCH, ''/staff/:id'')"
| "call_route (On_Staff (Staff_Remove _)) = (DELETE, ''/staff/:id'')"
| "call_route (On_Capabilities (Capabilities_List _)) = (GET, ''/staff/:staffId/services'')"
| "call_route (On_Capabilities (Capabilities_Link _ _)) = (POST, ''/staff/:staffId/services'')"
| "call_route (On_Capabilities (Capabilities_Unlink _ _)) = (DELETE, ''/staff/:staffId/services/:serviceId'')"
| "call_route (On_Hours (Hours_List _)) = (GET, ''/staff/:staffId/working-hours'')"
| "call_route (On_Hours (Hours_Create _ _)) = (POST, ''/staff/:staffId/working-hours'')"
| "call_route (On_Hours (Hours_Remove _ _)) = (DELETE, ''/staff/:staffId/working-hours/:id'')"
| "call_route (On_Time_Off (Time_Off_List _)) = (GET, ''/staff/:staffId/time-off'')"
| "call_route (On_Time_Off (Time_Off_Create _ _)) = (POST, ''/staff/:staffId/time-off'')"
| "call_route (On_Time_Off (Time_Off_Remove _ _)) = (DELETE, ''/staff/:staffId/time-off/:id'')"
| "call_route (On_Bookings (Bookings_Create _ _ _)) = (POST, ''/bookings'')"
| "call_route (On_Bookings (Bookings_Get _)) = (GET, ''/bookings/:id'')"
| "call_route (On_Bookings (Bookings_Confirm _ _)) = (POST, ''/bookings/:id/confirm'')"
| "call_route (On_Bookings (Bookings_Complete _ _)) = (POST, ''/bookings/:id/complete'')"
| "call_route (On_Bookings (Bookings_Cancel _ _)) = (POST, ''/bookings/:id/cancel'')"
| "call_route (On_Bookings (Bookings_NoShow _ _)) = (POST, ''/bookings/:id/no-show'')"
| "call_route (On_Bookings (Bookings_Reschedule _ _ _)) = (PATCH, ''/bookings/:id/reschedule'')"
| "call_route (On_Recurrences (Recurrences_Create _)) = (POST, ''/recurrences'')"
| "call_route (On_Recurrences (Recurrences_Cancel _)) = (POST, ''/recurrences/:id/cancel'')"
| "call_route (On_Reports (Reports_Bookings _)) = (GET, ''/reports/bookings'')"
| "call_route (On_Reports (Reports_Revenue _)) = (GET, ''/reports/revenue'')"
| "call_route (On_Webhooks Webhooks_List) = (GET, ''/webhooks'')"
| "call_route (On_Webhooks (Webhooks_Create _)) = (POST, ''/webhooks'')"
| "call_route (On_Webhooks (Webhooks_Remove _)) = (DELETE, ''/webhooks/:id'')"
| "call_route (On_Subscriptions Subscriptions_Current) = (GET, ''/subscriptions/current'')"
| "call_route (On_Subscriptions (Subscriptions_Create _ _)) = (POST, ''/subscriptions'')"
| "call_route (On_Availability (Availability_Compute _)) = (GET, ''/availability'')"

text \<open>What an action returns.\<close>
datatype view =
    V_Services "service_row list \<times> unit page_meta" | V_Service service_row
  | V_Customers "customer_row list \<times> unit page_meta" | V_Customer customer_row
  | V_Staff_List "staff_row list \<times> unit page_meta" | V_Staff staff_row
  | V_Capabilities "staff_service_row list" | V_Capability staff_service_row
  | V_Hours_List "working_hours_row list" | V_Hours working_hours_row
  | V_Time_Off_List "time_off_row list" | V_Time_Off time_off_row
  | V_Booking_Run "booking run_result" | V_Booking booking | V_Booking_Etag "booking \<times> string"
  | V_Series recurrence_result | V_Cancelled nat
  | V_Booking_Buckets "booking_bucket_row list" | V_Revenue_Buckets "revenue_bucket_row list"
  | V_Webhooks "webhook_endpoint list" | V_Webhook "uuid \<times> string \<times> bool \<times> string"
  | V_Subscription "subscription option" | V_Checkout "subscription \<times> checkout_session"
  | V_Slots "availability_slot list"
  | V_Done \<comment> \<open>\<open>{ success: true }\<close>\<close>

text \<open>What a request takes from the database, the process and the libraries.\<close>
record 'd call_env =
  ce_gen :: "nat \<Rightarrow> uuid"
  ce_gen2 :: "nat \<Rightarrow> uuid"
  ce_now :: instant
  ce_js_now :: instant
  ce_secret :: string
  ce_nonce :: uuid
  ce_sha256 :: "string \<Rightarrow> string"
  ce_jsonb :: "json \<Rightarrow> json"
  ce_plain :: "booking \<Rightarrow> json"
  ce_luxon :: "'d luxon"
  ce_zone :: zone_lib
  ce_pg :: pg_calendar
  ce_parse_url :: "string \<Rightarrow> url option"
  ce_payment :: payment_env
  ce_isEmail :: "string \<Rightarrow> bool"
  ce_isUUID :: "string \<Rightarrow> bool"
  ce_order_services :: "service_row list \<Rightarrow> service_row list"
  ce_order_customers :: "customer_row list \<Rightarrow> customer_row list"
  ce_order_staff :: "staff_row list \<Rightarrow> staff_row list"
  ce_invalid :: exn
  ce_render :: "view \<Rightarrow> json option"

section \<open>Controllers\<close>

text \<open>A read answers with what it found and leaves the tables; a write also returns them.\<close>
definition reads :: "('a \<Rightarrow> view) \<Rightarrow> tdb \<Rightarrow> exn + 'a \<Rightarrow> exn + view \<times> tdb" where
  "reads v db r = bindE r (\<lambda>x. Inr (v x, db))"

definition writes :: "('a \<Rightarrow> view) \<Rightarrow> exn + 'a \<times> tdb \<Rightarrow> exn + view \<times> tdb" where
  "writes v r = bindE r (\<lambda>(x, db'). Inr (v x, db'))"

definition page_of :: "base_query \<Rightarrow> 'a list \<times> nat \<Rightarrow> 'a list \<times> unit page_meta" where
  "page_of q r = paginated (fst r) (q_page q) (q_limit q) (snd r)"

text \<open>
  The slots of a service with a duration of zero are never found; no stored service has one
  (\<open>compute_returns\<close>), and the answer of that branch is never used.
\<close>
definition compute_answer :: "(exn + availability_slot list) option \<Rightarrow> exn + availability_slot list" where
  "compute_answer r = (case r of None \<Rightarrow> Inl (PlainError ''does not return'') | Some x \<Rightarrow> x)"

fun service_controller :: "'d call_env \<Rightarrow> service_call \<Rightarrow> ctx \<Rightarrow> tdb \<Rightarrow> exn + view \<times> tdb" where
  "service_controller env (Services_List q) c db =
     reads (V_Services \<circ> page_of q) db (service_paginate (ce_order_services env) c q db)"
| "service_controller env (Services_Get i) c db = reads V_Service db (service_getById c i db)"
| "service_controller env (Services_Create d) c db = writes V_Service (service_create c (ce_gen env 0) (ce_now env) d db)"
| "service_controller env (Services_Update i d) c db = writes V_Service (service_update c i d db)"
| "service_controller env (Services_Remove i) c db = writes (\<lambda>_. V_Done) (service_remove c (ce_now env) i db)"

fun customer_controller :: "'d call_env \<Rightarrow> customer_call \<Rightarrow> ctx \<Rightarrow> tdb \<Rightarrow> exn + view \<times> tdb" where
  "customer_controller env (Customers_List q) c db =
     reads (V_Customers \<circ> page_of q) db (customer_paginate (ce_order_customers env) c q db)"
| "customer_controller env (Customers_Get i) c db = reads V_Customer db (customer_getById c i db)"
| "customer_controller env (Customers_Create d) c db = writes V_Customer (customer_create c (ce_gen env 0) (ce_now env) d db)"

fun staff_controller :: "'d call_env \<Rightarrow> gdb \<Rightarrow> staff_call \<Rightarrow> ctx \<Rightarrow> tdb \<Rightarrow> exn + view \<times> tdb" where
  "staff_controller env g (Staff_List q) c db = reads (V_Staff_List \<circ> page_of q) db (staff_list (ce_order_staff env) c q db)"
| "staff_controller env g (Staff_Get i) c db = reads V_Staff db (staff_getById c i db)"
| "staff_controller env g (Staff_Create d) c db = writes V_Staff (staff_create c (ce_gen env 0) (ce_now env) d g db)"
| "staff_controller env g (Staff_Update i d) c db = writes V_Staff (staff_update c i d db)"
| "staff_controller env g (Staff_Remove i) c db = writes (\<lambda>_. V_Done) (staff_remove c (ce_now env) i db)"

fun staff_service_controller :: "'d call_env \<Rightarrow> staff_service_call \<Rightarrow> ctx \<Rightarrow> tdb \<Rightarrow> exn + view \<times> tdb" where
  "staff_service_controller env (Capabilities_List s) c db = reads V_Capabilities db (capability_list c s db)"
| "staff_service_controller env (Capabilities_Link s v) c db = writes V_Capability (link c (ce_gen env 0) (ce_now env) s v db)"
| "staff_service_controller env (Capabilities_Unlink s v) c db = writes (\<lambda>_. V_Done) (unlink c s v db)"

fun working_hours_controller :: "'d call_env \<Rightarrow> working_hours_call \<Rightarrow> ctx \<Rightarrow> tdb \<Rightarrow> exn + view \<times> tdb" where
  "working_hours_controller env (Hours_List s) c db = reads V_Hours_List db (working_hours_list c s db)"
| "working_hours_controller env (Hours_Create s d) c db =
     writes V_Hours (working_hours_create c (ce_gen env 0) (ce_now env) s d db)"
| "working_hours_controller env (Hours_Remove s i) c db = writes (\<lambda>_. V_Done) (working_hours_remove c i db)"

fun time_off_controller :: "'d call_env \<Rightarrow> time_off_call \<Rightarrow> ctx \<Rightarrow> tdb \<Rightarrow> exn + view \<times> tdb" where
  "time_off_controller env (Time_Off_List s) c db = reads V_Time_Off_List db (time_off_list c s db)"
| "time_off_controller env (Time_Off_Create s d) c db =
     writes V_Time_Off (time_off_create c (ce_gen env 0) (ce_now env) s d db)"
| "time_off_controller env (Time_Off_Remove s i) c db = writes (\<lambda>_. V_Done) (time_off_remove c i db)"

fun booking_controller :: "'d call_env \<Rightarrow> booking_call \<Rightarrow> ctx \<Rightarrow> tdb \<Rightarrow> exn + view \<times> tdb" where
  "booking_controller env (Bookings_Create body d key) c db =
     writes V_Booking_Run (booking_create (ce_sha256 env) (ce_jsonb env) (ce_plain env) c (ce_gen env 0) (ce_gen env 1)
       (ce_gen env 2) (ce_now env) key body d db)"
| "booking_controller env (Bookings_Get i) c db = reads V_Booking_Etag db (booking_get c i db)"
| "booking_controller env (Bookings_Confirm i v) c db = writes V_Booking (confirm c (ce_gen env 0) (ce_now env) i v db)"
| "booking_controller env (Bookings_Complete i v) c db = writes V_Booking (complete_booking c (ce_gen env 0) (ce_now env) i v db)"
| "booking_controller env (Bookings_Cancel i v) c db = writes V_Booking (cancel c (ce_gen env 0) (ce_now env) i v db)"
| "booking_controller env (Bookings_NoShow i v) c db = writes V_Booking (noShow c (ce_gen env 0) (ce_now env) i v db)"
| "booking_controller env (Bookings_Reschedule i d h) c db =
     writes V_Booking (reschedule_endpoint c (ce_gen env 0) (ce_now env) i d h db)"

fun recurrence_controller :: "'d call_env \<Rightarrow> gdb \<Rightarrow> recurrence_call \<Rightarrow> ctx \<Rightarrow> tdb \<Rightarrow> exn + view \<times> tdb" where
  "recurrence_controller env g (Recurrences_Create d) c db =
     writes V_Series (recurrence_create (ce_luxon env) c (ce_nonce env) (ce_gen env) (ce_gen2 env) (ce_now env) d g db)"
| "recurrence_controller env g (Recurrences_Cancel i) c db =
     writes V_Cancelled (cancelSeries c (ce_gen env) (ce_js_now env) (ce_now env) i db)"

fun reporting_controller :: "'d call_env \<Rightarrow> gdb \<Rightarrow> reporting_call \<Rightarrow> ctx \<Rightarrow> tdb \<Rightarrow> exn + view \<times> tdb" where
  "reporting_controller env g (Reports_Bookings q) c db = reads V_Booking_Buckets db (report_bookings (ce_pg env) c q g db)"
| "reporting_controller env g (Reports_Revenue q) c db = reads V_Revenue_Buckets db (report_revenue (ce_pg env) c q g db)"

fun webhook_controller :: "'d call_env \<Rightarrow> webhook_call \<Rightarrow> ctx \<Rightarrow> tdb \<Rightarrow> exn + view \<times> tdb" where
  "webhook_controller env Webhooks_List c db = reads V_Webhooks db (webhook_list c db)"
| "webhook_controller env (Webhooks_Create u) c db =
     writes V_Webhook (webhook_create (ce_parse_url env) c (ce_gen env 0) (ce_now env) (ce_secret env) u db)"
| "webhook_controller env (Webhooks_Remove i) c db = writes (\<lambda>_. V_Done) (webhook_remove c (ce_now env) i db)"

fun subscription_controller :: "'d call_env \<Rightarrow> gdb \<Rightarrow> subscription_call \<Rightarrow> ctx \<Rightarrow> tdb \<Rightarrow> exn + view \<times> tdb" where
  "subscription_controller env g Subscriptions_Current c db = reads V_Subscription db (subscription_findActive c db)"
| "subscription_controller env g (Subscriptions_Create p n) c db =
     writes V_Checkout (subscribe (ce_payment env) c (ce_nonce env) (ce_gen env 0) (ce_now env) p n g db)"

fun availability_controller :: "'d call_env \<Rightarrow> gdb \<Rightarrow> availability_call \<Rightarrow> ctx \<Rightarrow> tdb \<Rightarrow> exn + view \<times> tdb" where
  "availability_controller env g (Availability_Compute q) c db =
     reads V_Slots db (compute_answer (compute (ce_zone env) c q g db))"

definition controller :: "'d call_env \<Rightarrow> gdb \<Rightarrow> call \<Rightarrow> ctx \<Rightarrow> tdb \<Rightarrow> exn + view \<times> tdb" where
  "controller env g call =
     (case call of
        On_Services k \<Rightarrow> service_controller env k
      | On_Customers k \<Rightarrow> customer_controller env k
      | On_Staff k \<Rightarrow> staff_controller env g k
      | On_Capabilities k \<Rightarrow> staff_service_controller env k
      | On_Hours k \<Rightarrow> working_hours_controller env k
      | On_Time_Off k \<Rightarrow> time_off_controller env k
      | On_Bookings k \<Rightarrow> booking_controller env k
      | On_Recurrences k \<Rightarrow> recurrence_controller env g k
      | On_Reports k \<Rightarrow> reporting_controller env g k
      | On_Webhooks k \<Rightarrow> webhook_controller env k
      | On_Subscriptions k \<Rightarrow> subscription_controller env g k
      | On_Availability k \<Rightarrow> availability_controller env g k)"

lemmas controller_simps = controller_def service_controller.simps customer_controller.simps staff_controller.simps staff_service_controller.simps working_hours_controller.simps time_off_controller.simps booking_controller.simps recurrence_controller.simps reporting_controller.simps webhook_controller.simps subscription_controller.simps availability_controller.simps

text \<open>
  class-validator on the bodies and queries the components leave open. That a date is written in ISO 8601 is part
  of its decoding: a date that \<open>new Date\<close> cannot read is \<open>None\<close>.
\<close>
definition valid_create_booking :: "(string \<Rightarrow> bool) \<Rightarrow> create_booking_dto \<Rightarrow> bool" where
  "valid_create_booking isUUID d \<longleftrightarrow> isUUID (cb_staffId d) \<and> isUUID (cb_serviceId d) \<and> isUUID (cb_customerId d)"

definition valid_create_time_off :: "create_time_off_dto \<Rightarrow> bool" where
  "valid_create_time_off d \<longleftrightarrow> opt (len_between 0 200) (cto_reason d)"

definition valid_link_service :: "(string \<Rightarrow> bool) \<Rightarrow> uuid \<Rightarrow> bool" where
  "valid_link_service isUUID serviceId \<longleftrightarrow> isUUID serviceId"

definition valid_create_subscription :: "(string \<Rightarrow> bool) \<Rightarrow> uuid \<Rightarrow> provider_name \<Rightarrow> bool" where
  "valid_create_subscription isUUID planId provider \<longleftrightarrow> isUUID planId \<and> provider \<in> {Sepay, Stripe}"

definition valid_report_query :: "(string \<Rightarrow> bool) \<Rightarrow> report_query \<Rightarrow> bool" where
  "valid_report_query isUUID q \<longleftrightarrow> opt isUUID (rp_staffId q) \<and> opt isUUID (rp_serviceId q)"

text \<open>The class-validator rules of the body or the query of a call.\<close>
fun valid_call :: "'d call_env \<Rightarrow> call \<Rightarrow> bool" where
  "valid_call env (On_Services (Services_List q)) = valid_base_query q"
| "valid_call env (On_Services (Services_Create d)) = valid_create_service d"
| "valid_call env (On_Services (Services_Update i d)) = valid_update_service d"
| "valid_call env (On_Customers (Customers_List q)) = valid_base_query q"
| "valid_call env (On_Customers (Customers_Create d)) = valid_create_customer (ce_isEmail env) d"
| "valid_call env (On_Staff (Staff_List q)) = valid_base_query q"
| "valid_call env (On_Staff (Staff_Create d)) = valid_create_staff (ce_isUUID env) d"
| "valid_call env (On_Staff (Staff_Update i d)) = valid_update_staff d"
| "valid_call env (On_Capabilities (Capabilities_Link s v)) = valid_link_service (ce_isUUID env) v"
| "valid_call env (On_Hours (Hours_Create s d)) = valid_create_working_hours d"
| "valid_call env (On_Time_Off (Time_Off_Create s d)) = valid_create_time_off d"
| "valid_call env (On_Bookings (Bookings_Create body d key)) = valid_create_booking (ce_isUUID env) d"
| "valid_call env (On_Bookings (Bookings_Confirm i v)) = valid_transition_version v"
| "valid_call env (On_Bookings (Bookings_Complete i v)) = valid_transition_version v"
| "valid_call env (On_Bookings (Bookings_Cancel i v)) = valid_transition_version v"
| "valid_call env (On_Bookings (Bookings_NoShow i v)) = valid_transition_version v"
| "valid_call env (On_Bookings (Bookings_Reschedule i d h)) = valid_reschedule d"
| "valid_call env (On_Recurrences (Recurrences_Create d)) = valid_create_recurrence (ce_isUUID env) d"
| "valid_call env (On_Reports (Reports_Bookings q)) = valid_report_query (ce_isUUID env) q"
| "valid_call env (On_Reports (Reports_Revenue q)) = valid_report_query (ce_isUUID env) q"
| "valid_call env (On_Webhooks (Webhooks_Create u)) = valid_create_webhook u"
| "valid_call env (On_Subscriptions (Subscriptions_Create p n)) = valid_create_subscription (ce_isUUID env) p n"
| "valid_call env (On_Availability (Availability_Compute q)) = valid_availability_query (ce_isUUID env) q"
| "valid_call env _ = True"

text \<open>
  The handler of a route: \<open>decode\<close> are the parameters routing-controllers reads off the request, if they can be
  read. The remaining routes work on the global tables or, as the payment webhook does, in a transaction of their
  own, and leave this one alone.
\<close>
definition api_handler ::
  "'d call_env \<Rightarrow> (route \<Rightarrow> call option) \<Rightarrow> (route \<Rightarrow> exn + json option) \<Rightarrow> gdb \<Rightarrow> route \<Rightarrow> ctx \<Rightarrow> tdb \<Rightarrow>
     (exn + json option) \<times> tdb" where
  "api_handler env decode other g r c db =
     (case decode r of
        Some call \<Rightarrow>
          if \<not> valid_call env call then (Inl (ce_invalid env), db)
          else (case controller env g call c db of
                  Inl e \<Rightarrow> (Inl e, db)
                | Inr (v, db') \<Rightarrow> (Inr (ce_render env v), db'))
      | None \<Rightarrow> (other r, db))"

section \<open>What an action may do\<close>

lemma reads_db: "reads f db r = Inr (v, db') \<Longrightarrow> db' = db"
  by (auto simp: reads_def result_simps)

lemma writes_Inr: "writes f r = Inr (v, db') \<Longrightarrow> \<exists>x. r = Inr (x, db')"
  by (auto simp: writes_def result_simps)

text \<open>A GET leaves the tables.\<close>
lemma controller_get: "fst (call_route call) = GET \<Longrightarrow> controller env g call c db = Inr (v, db') \<Longrightarrow> db' = db"
  by (cases call rule: call_route.cases) (auto simp: controller_simps dest: reads_db)

text \<open>Any other action is an operation of the tenant.\<close>
lemma controller_op:
  assumes "controller env g call (tenant_tx t) db = Inr (v, db')" "valid_call env call"
  shows "db' = db \<or> tenant_op (ce_luxon env) t db db'"
  using assms
  by (cases call rule: call_route.cases)
    (auto dest!: reads_db writes_Inr
      simp: controller_simps confirm_def complete_booking_def cancel_def noShow_def reschedule_endpoint_def intro: tenant_op.intros)

lemma scopedWhere_outside: "scopedWhere None p = Inl (UnauthorizedException ''Tenant context is not set'')"
  by (simp add: scopedWhere_def)

lemmas outside = scopedWhere_outside findOne_no_context findMany_no_context persist_no_context

text \<open>Without a tenant no operation gets as far as writing.\<close>
lemma outside_catalog:
  "service_create None i now cd db \<noteq> Inr r1" "service_update None i ud db \<noteq> Inr r2" "service_remove None now i db \<noteq> Inr r3"
  "customer_create None i now cc db \<noteq> Inr r4"
  by (simp_all add: service_create_def service_update_def service_repo_update_def service_remove_def service_softRemove_def
      customer_create_def outside result_simps)

lemma outside_directory:
  "staff_create None i now sd g db \<noteq> Inr r1" "staff_update None i su db \<noteq> Inr r2" "staff_remove None now i db \<noteq> Inr r3"
  "link None i now s v db \<noteq> Inr r4" "unlink None s v db \<noteq> Inr r5" "working_hours_create None i now s wd db \<noteq> Inr r6"
  "working_hours_remove None i db \<noteq> Inr r7" "time_off_create None i now s td db \<noteq> Inr r8" "time_off_remove None i db \<noteq> Inr r9"
  by (auto simp: staff_create_def staff_update_def staff_repo_update_def staff_remove_def staff_softRemove_def
      link_def unlink_def capability_repo_unlink_def working_hours_create_def working_hours_remove_def
      working_hours_repo_remove_def time_off_create_def time_off_remove_def time_off_repo_remove_def staff_getById_def
      staff_findById_def staff_count_def outside result_simps Let_def split: option.splits if_splits)

lemma outside_bookings:
  "booking_create sha256 jsonb toPlain None kid i ev now key body dto db \<noteq> Inr r1" "transition None ev now i w st db \<noteq> Inr r2"
  "reschedule None ev now i rd ifm db \<noteq> Inr r3" "recurrence_create lx None rid bid evid now rdto g db \<noteq> Inr r4"
  "cancelSeries None gen js_now now rid db \<noteq> Inr r5"
proof -
  have sv: "service_getById None x db = Inl (UnauthorizedException ''Tenant context is not set'')" for x
    by (simp add: service_getById_def service_findById_def outside)
  have bk: "booking_getOrThrow None x db = Inl (UnauthorizedException ''Tenant context is not set'')" for x
    by (simp add: booking_getOrThrow_def booking_findById_def outside)
  have "doCreate None i ev now dto db = Inl (UnauthorizedException ''Tenant context is not set'')"
    by (simp add: doCreate_def sv)
  moreover have "idem_claim None kid now k h db = Inl (UnauthorizedException ''Tenant context is not set'')" for k h
    by (simp add: idem_claim_def)
  ultimately show "booking_create sha256 jsonb toPlain None kid i ev now key body dto db \<noteq> Inr r1"
    by (simp add: booking_create_def idem_run_def Let_def)
  show "transition None ev now i w st db \<noteq> Inr r2" by (simp add: transition_def bk)
  show "reschedule None ev now i rd ifm db \<noteq> Inr r3" by (auto simp: reschedule_def bk result_simps)
  show "recurrence_create lx None rid bid evid now rdto g db \<noteq> Inr r4" by (auto simp: recurrence_create_def sv result_simps)
  show "cancelSeries None gen js_now now rid db \<noteq> Inr r5" by (simp add: cancelSeries_def cancelFutureSeries_def)
qed

lemma outside_rest:
  "webhook_create parse None i now secret u db \<noteq> Inr r1" "webhook_remove None now i db \<noteq> Inr r2"
  "subscribe penv None nonce i now p n g db \<noteq> Inr r3"
  by (auto simp: webhook_create_def webhook_findActive_def webhook_remove_def webhook_repo_remove_def subscribe_def
      subscription_findActive_def outside result_simps Let_def)

lemma controller_outside: "controller env g call None db = Inr (v, db') \<Longrightarrow> db' = db"
  by (cases call rule: call_route.cases)
    (auto dest!: reads_db writes_Inr
      simp: controller_simps confirm_def complete_booking_def cancel_def noShow_def reschedule_endpoint_def
        outside_catalog outside_directory outside_bookings outside_rest)

lemma compute_returns:
  assumes "t \<noteq> []" "services_wf db"
  shows "compute zl (tenant_tx t) q g db \<noteq> None"
proof (cases "zl_valid zl (aq_date q)")
  case valid: True
  show ?thesis
  proof (cases "service_of t (aq_serviceId q) db")
    case None
    then show ?thesis using assms(1) valid
      by (simp add: compute_def isValidLocalDate_def service_getById_tx service_of_def)
  next
    case (Some sv)
    show ?thesis
    proof (cases "tenant_findById t g")
      case None
      then show ?thesis using assms(1) valid Some
        by (simp add: compute_def isValidLocalDate_def service_getById_tx service_of_def tenant_getById_def)
    next
      case tn: (Some tn)
      then show ?thesis using compute_tx [OF assms valid Some] by simp
    qed
  qed
qed (simp add: compute_def isValidLocalDate_def)

section \<open>What an action may read\<close>

lemma baseQuery_own:
  assumes "own_rows t (bookings db) = own_rows t (bookings db')"
  shows "baseQuery pg (tenant_tx t) f db = baseQuery pg (tenant_tx t) f db'"
proof -
  have "filter (\<lambda>b. rls_visible (repo_manager (tenant_tx t)) b \<and> e_tenantId b = t \<and> q b) (bookings db) =
      filter (\<lambda>b. rls_visible (repo_manager (tenant_tx t)) b \<and> e_tenantId b = t \<and> q b) (bookings db')" for q
    using assms by (rule filter_own) simp
  then show ?thesis by (simp add: baseQuery_def getTenantId_def tenant_tx_def split: option.splits)
qed

lemma reports_own:
  assumes "own_rows t (bookings db) = own_rows t (bookings db')"
  shows "report_bookings pg (tenant_tx t) q g db = report_bookings pg (tenant_tx t) q g db'"
    and "report_revenue pg (tenant_tx t) q g db = report_revenue pg (tenant_tx t) q g db'"
  by (simp_all only: report_bookings_def report_revenue_def report_repo_bookings_def report_repo_revenue_def
      baseQuery_own [OF assms])

lemma reads_answer: "map_sum id fst (reads v db r) = map_sum id v r"
  by (cases r) (simp_all add: reads_def)

section \<open>Requests\<close>

lemma api_handler_call:
  assumes "api_handler env decode other g r c db = (Inr j, db')" "db' \<noteq> db"
  obtains call v where "decode r = Some call" "valid_call env call" "controller env g call c db = Inr (v, db')"
    "j = ce_render env v"
  using assms by (auto simp: api_handler_def split: option.splits if_splits sum.splits prod.splits)

lemma api_handler_failed: "api_handler env decode other g r c db = (Inl e, db') \<Longrightarrow> db' = db"
  by (auto simp: api_handler_def split: option.splits if_splits sum.splits prod.splits)

text \<open>A request that changes the tables was pinned to a tenant and its action committed.\<close>
lemma served_call:
  assumes "serve penv roles (api_handler env decode other g r) header g db = (y, db')" "db' \<noteq> db"
  obtains claims t call v where "tenant_middleware penv header g = Pinned claims t" "decode r = Some call"
    "valid_call env call" "controller env g call (tenant_tx t) db = Inr (v, db')" "y = Success (envelope (ce_render env v))"
    "pl_commit penv = None"
proof (cases "tenant_middleware penv header g")
  case (Anonymous claims)
  then obtain h where h: "api_handler env decode other g r None db = (h, db')"
    using assms by (auto simp: serve_def split: if_splits prod.splits sum.splits)
  have "db' = db"
  proof (cases h)
    case (Inl e)
    then show ?thesis using api_handler_failed h by blast
  next
    case (Inr j)
    then show ?thesis using api_handler_call [OF h [unfolded Inr]] controller_outside by metis
  qed
  then show thesis using assms(2) by blast
next
  case (Rejected e)
  then show thesis using assms by (simp add: serve_def)
next
  case (Pinned claims t)
  then obtain j where j: "api_handler env decode other g r (tenant_tx t) db = (Inr j, db')" "y = Success (envelope j)"
      "pl_commit penv = None"
    using assms by (auto simp: serve_pinned split: if_splits prod.splits sum.splits option.splits)
  obtain call v where "decode r = Some call" "valid_call env call" "controller env g call (tenant_tx t) db = Inr (v, db')"
      "j = ce_render env v" by (rule api_handler_call [OF j(1) assms(2)])
  then show thesis using that Pinned j by blast
qed

lemma dispatch_served:
  assumes "app_dispatch ex senv penv handler limited trace rq g db = (x, db')" "db' \<noteq> db"
  obtains r y where "matched_route ex rq = Some r" "x = Api_Reply y"
    "serve penv (rt_roles r) (handler r) (hr_authorization rq) g db = (y, db')"
  using assms by (auto simp: app_dispatch_def Let_def split: if_splits option.splits entry.splits prod.splits)

text \<open>No call is on an open route, and the routes of the calls exist.\<close>
lemma call_route_guarded: "snd (call_route call) \<notin> set open_writes"
  by (cases call rule: call_route.cases) (simp_all add: open_writes_def)

section \<open>Requests as steps of the system\<close>

lemma payment_op:
  assumes "handleWebhook penv isUUID pg_text now_ms i now provider raw header db = Inr (u, db')"
  shows "db' = db \<or> (\<exists>t. t \<noteq> [] \<and> tenant_op lx t db db')"
proof -
  obtain p ev where c: "consumeWebhook isUUID pg_text i now p ev db = Inr (u, db')"
    using assms by (auto simp: handleWebhook_def result_simps Let_def)
  show ?thesis
  proof (cases rule: consumeWebhook_cases [OF c])
    case (1 r)
    then show ?thesis by simp
  next
    case (2 r t)
    then show ?thesis using tenantFromReference_uuid [OF 2(2)] by (blast intro: tenant_op.intros)
  qed
qed

text \<open>Any sequence of requests, payment callbacks and relay batches, from the empty tables.\<close>
inductive http_reach :: "'d luxon \<Rightarrow> (outbox_event \<Rightarrow> 'q \<Rightarrow> bool \<times> 'q) \<Rightarrow> tdb \<Rightarrow> bool"
  for lx :: "'d luxon" and dispatch :: "outbox_event \<Rightarrow> 'q \<Rightarrow> bool \<times> 'q" where
  http_start: "http_reach lx dispatch empty_tdb"
| http_request: "http_reach lx dispatch db \<Longrightarrow> ce_luxon env = lx \<Longrightarrow>
     app_dispatch ex senv penv (api_handler env decode other g) limited trace rq g db = (x, db') \<Longrightarrow> http_reach lx dispatch db'"
| http_payment: "http_reach lx dispatch db \<Longrightarrow>
     handleWebhook paenv isUUID pg_text now_ms i now provider raw header db = Inr (u, db') \<Longrightarrow> http_reach lx dispatch db'"
| http_relay: "http_reach lx dispatch db \<Longrightarrow>
     processBatch dispatch clk now locked batchSize q (outbox_events db) = (n, q', rows) \<Longrightarrow>
     http_reach lx dispatch (db\<lparr>outbox_events := rows\<rparr>)"

lemma http_reach_system: "http_reach lx dispatch db \<Longrightarrow> system_reach lx dispatch db"
proof (induction rule: http_reach.induct)
  case http_start
  show ?case by (rule reach_start)
next
  case (http_request db env ex senv penv decode other g limited trace rq x db')
  show ?case
  proof (cases "db' = db")
    case False
    obtain r y where "serve penv (rt_roles r) (api_handler env decode other g r) (hr_authorization rq) g db = (y, db')"
      by (rule dispatch_served [OF http_request.hyps(3) False])
    then obtain claims t call v where p: "tenant_middleware penv (hr_authorization rq) g = Pinned claims t"
        "valid_call env call" "controller env g call (tenant_tx t) db = Inr (v, db')"
      using served_call False by metis
    have "tenant_op lx t db db'" using controller_op [OF p(3,2)] False http_request.hyps(2) by simp
    then have "system_step lx dispatch db db'" by (rule system_step.step_tenant [OF pinned_tenant(1) [OF p(1)]])
    then show ?thesis by (rule reach_step [OF http_request.IH])
  qed (use http_request.IH in simp)
next
  case (http_payment db paenv isUUID pg_text now_ms i now provider raw header u db')
  then show ?case using payment_op [OF http_payment.hyps(2), of lx] by (blast intro: reach_step system_step.step_tenant)
next
  case (http_relay db clk now locked batchSize q n q' rows)
  show ?case by (rule reach_step [OF http_relay.IH system_step.step_relay [OF http_relay.hyps(2)]])
qed

section \<open>Properties\<close>

text \<open>
  C8. A request that changes tenant data runs one operation: its token verified and named an existing, active
  tenant; an action that is not a GET matched it, with valid parameters; the caller holds a role of that action; the
  action succeeded on that tenant's transaction, which committed; and the tables are as the action left them.
  Parameters are decoded to a call of the matched route.
\<close>
theorem request_runs_one_operation:
  assumes "app_dispatch ex senv penv (api_handler env decode other g) limited trace rq g db = (x, db')" "db' \<noteq> db"
    and "\<And>r call. decode r = Some call \<Longrightarrow> call_route call = (rt_method r, rt_path r)"
  shows "\<exists>claims t r call v. tenant_middleware penv (hr_authorization rq) g = Pinned claims t \<and>
    matched_route ex rq = Some r \<and> decode r = Some call \<and> rt_method r \<noteq> GET \<and> valid_call env call \<and>
    (\<exists>roles. rt_roles r = Some roles \<and> has_role penv (hr_authorization rq) g roles) \<and>
    controller env g call (tenant_tx t) db = Inr (v, db') \<and> pl_commit penv = None \<and>
    x = Api_Reply (Success (envelope (ce_render env v)))"
proof -
  obtain r y where r: "matched_route ex rq = Some r" "x = Api_Reply y"
    "serve penv (rt_roles r) (api_handler env decode other g r) (hr_authorization rq) g db = (y, db')"
    by (rule dispatch_served [OF assms(1,2)])
  obtain claims t call v where c: "tenant_middleware penv (hr_authorization rq) g = Pinned claims t" "decode r = Some call"
    "valid_call env call" "controller env g call (tenant_tx t) db = Inr (v, db')"
    "y = Success (envelope (ce_render env v))" "pl_commit penv = None"
    by (rule served_call [OF r(3) assms(2)])
  have route: "call_route call = (rt_method r, rt_path r)" by (rule assms(3) [OF c(2)])
  have get: "rt_method r \<noteq> GET" using controller_get [OF _ c(4)] assms(2) route by auto
  have "r \<in> set routes" using r(1) by (auto simp: matched_route_def dest!: find_Some_mem)
  moreover have "rt_path r \<notin> set open_writes" using call_route_guarded [of call] by (simp add: route)
  ultimately obtain roles where roles: "roles \<in> set write_roles" "rt_roles r = Some roles"
    using write_routes_guarded get by (auto simp: list_all_iff)
  then have "roles \<noteq> []" by (auto simp: write_roles_def OWNER_ONLY_def TENANT_MEMBER_def SUPER_ADMIN_ONLY_def)
  then have "has_role penv (hr_authorization rq) g roles"
    by (rule serve_write_authorized [OF r(3) [unfolded roles(2)] assms(2)])
  then show ?thesis using r(1,2) c get roles(2) by blast
qed

text \<open>
  C9. Tenants are isolated in what they read: on two databases that agree on a tenant's own rows, every
  GET of the tenant controllers, reports, availability and the current subscription included, answers that tenant the
  same, and so does the replay of a stored response for an Idempotency-Key; none of these answers depends on a row of
  another tenant.
\<close>
theorem tenant_reads_own:
  assumes "same_view t db db'"
  shows "(fst (call_route call) = GET \<longrightarrow>
      map_sum id fst (controller env g call (tenant_tx t) db) = map_sum id fst (controller env g call (tenant_tx t) db')) \<and>
    idem_replay (tenant_tx t) k h db = idem_replay (tenant_tx t) k h db'"
proof -
  note a = view_answers [OF assms]
  have "subscription_findActive (tenant_tx t) db = subscription_findActive (tenant_tx t) db'"
    using assms by (intro subscription_findActive_own) (simp add: same_view_def)
  moreover have "own_rows t (bookings db) = own_rows t (bookings db')"
    using assms by (simp add: same_view_def)
  moreover note reports_own [OF this]
  ultimately have "fst (call_route call) = GET \<longrightarrow>
      map_sum id fst (controller env g call (tenant_tx t) db) = map_sum id fst (controller env g call (tenant_tx t) db')"
    by (cases call rule: call_route.cases) (simp_all add: controller_simps reads_answer a)
  then show ?thesis using a by blast
qed

text \<open>
  C7. The application refines the system: whatever requests are sent to it, in any order and by anyone, with payment
  callbacks and relay batches in between, its tables are ones the transition system of the tenants' operations
  reaches; so they satisfy every constraint, no staff member has two active bookings at a time, and every service
  keeps the bounds of its DTO.
\<close>
theorem http_refines_system:
  assumes "http_reach lx dispatch db"
  shows "system_reach lx dispatch db \<and> tdb_ok db \<and> services_wf db \<and>
    sorted_wrt (\<lambda>a b. \<not> booking_conflict a b) (bookings db)"
proof -
  have s: "system_reach lx dispatch db" by (rule http_reach_system [OF assms])
  then have ok: "tdb_ok db" "data_ok db" using system_reach_ok by blast+
  then have "sat_all bookings_cs (bookings db)" by (simp add: tdb_ok_def)
  then have "sorted_wrt (\<lambda>a b. \<not> booking_conflict a b) (bookings db)"
    by (auto simp: sat_all_def violates_def bookings_cs_def elim: sorted_wrt_mono_rel [rotated])
  then show ?thesis using s ok by (simp add: data_ok_def)
qed

section \<open>A request\<close>

definition sample_call_env :: "int call_env" where
  "sample_call_env =
     \<lparr>ce_gen = (\<lambda>k. ''i'' @ nat_str k), ce_gen2 = (\<lambda>k. ''j'' @ nat_str k), ce_now = 0, ce_js_now = 0, ce_secret = ''s'',
      ce_nonce = ''n'', ce_sha256 = id, ce_jsonb = id, ce_plain = (\<lambda>_. JNull), ce_luxon = sample_luxon,
      ce_zone = sample_zone, ce_pg = sample_pg, ce_parse_url = (\<lambda>_. None), ce_payment = sample_env,
      ce_isEmail = (\<lambda>_. True), ce_isUUID = (\<lambda>_. True), ce_order_services = id, ce_order_customers = id,
      ce_order_staff = id, ce_invalid = BadRequestException ''Invalid body'', ce_render = (\<lambda>_. None)\<rparr>"

definition sample_decode :: "route \<Rightarrow> call option" where
  "sample_decode r =
     (if (rt_method r, rt_path r) = (POST, ''/services'') then Some (On_Services (Services_Create sample_new_service)) else None)"

definition sample_users :: gdb where
  "sample_users = sample_gdb\<lparr>users := [user_row ''u1'' 0 ''an@x'' ''An'' None None None]\<rparr>"

abbreviation sample_answer :: "response \<times> tdb" where
  "sample_answer \<equiv>
     app_dispatch exact_paths sample_server sample_pipeline (api_handler sample_call_env sample_decode (\<lambda>_. Inr None) sample_users)
       False None sample_post sample_users empty_tdb"

lemma sample_created: "map svc_name (services (snd sample_answer)) = [svc_name (service_of_dto [] 0 sample_new_service)]"
  by code_simp
theorem request_runs_one_operation_witness:
  "\<exists>x db' t call v. sample_answer = (x, db') \<and> db' \<noteq> empty_tdb \<and> call_route call = (POST, ''/services'') \<and>
     controller sample_call_env sample_users call (tenant_tx t) empty_tdb = Inr (v, db')"
proof -
  have ne: "snd sample_answer \<noteq> empty_tdb" using sample_created by (auto simp: empty_tdb_def)
  have "call_route call = (rt_method r, rt_path r)" if "sample_decode r = Some call" for r call
    using that by (auto simp: sample_decode_def split: if_splits)
  from request_runs_one_operation [OF prod.collapse [symmetric] ne this]
  obtain t r call v where "sample_decode r = Some call"
      "controller sample_call_env sample_users call (tenant_tx t) empty_tdb = Inr (v, snd sample_answer)" by blast
  moreover from this(1) have "call_route call = (POST, ''/services'')" by (auto simp: sample_decode_def split: if_splits)
  ultimately show ?thesis using ne by (metis prod.collapse)
qed

text \<open>Another tenant books; the revenue of the first one stays what it was.\<close>
definition sample_crowded :: tdb where
  "sample_crowded =
     sample_db\<lparr>bookings := sample_booking ''b9'' 0 Completed\<lparr>e_tenantId := ''t2''\<rparr> # bookings sample_db\<rparr>"

theorem tenant_reads_own_witness:
  "map_sum id fst (controller sample_call_env sample_gdb (On_Reports (Reports_Revenue sample_report)) (tenant_tx ''t1'') sample_db) =
   map_sum id fst (controller sample_call_env sample_gdb (On_Reports (Reports_Revenue sample_report)) (tenant_tx ''t1'') sample_crowded)"
proof -
  have "same_view ''t1'' sample_db sample_crowded"
    by (simp add: same_view_def own_rows_def sample_crowded_def)
  from tenant_reads_own [OF this, of "On_Reports (Reports_Revenue sample_report)" sample_call_env sample_gdb]
  show ?thesis by simp
qed

theorem http_refines_system_witness:
  "system_reach sample_luxon (\<lambda>e (q :: unit). (True, q)) (snd sample_answer) \<and> services (snd sample_answer) \<noteq> [] \<and>
   tdb_ok (snd sample_answer)"
proof -
  have "http_reach sample_luxon (\<lambda>e (q :: unit). (True, q)) (snd sample_answer)"
    by (rule http_request [OF http_start _ prod.collapse [symmetric]]) (simp add: sample_call_env_def)
  from http_refines_system [OF this] show ?thesis using sample_created by (auto simp del: append.simps)
qed

section \<open>Known gaps\<close>

text \<open>
  The paths say that hours and absences are removed from the staff member they name; the id alone decides, so the
  row of another staff member of the tenant goes as well.
\<close>
lemma staff_in_path_ignored:
  "controller env g (On_Hours (Hours_Remove s i)) c db = controller env g (On_Hours (Hours_Remove s' i)) c db"
  "controller env g (On_Time_Off (Time_Off_Remove s i)) c db = controller env g (On_Time_Off (Time_Off_Remove s' i)) c db"
  by (simp_all add: controller_simps)

end
