(* ===== verification/Accounts.thy ===== *)
theory Accounts
  imports Controllers
begin

text \<open>
  The actions of the controllers on the global tables (\<open>modules/auth\<close>, \<open>user\<close>, \<open>tenant\<close>, \<open>invite\<close>,
  \<open>admin\<close>, \<open>plan\<close>), and the whole platform: the application of \<open>Server\<close> with every controller, the Google
  callback, the payment callback and the relay, on the global and the tenant tables together.
\<close>

section \<open>Calls and answers\<close>

datatype auth_call =
    Auth_Register register_dto | Auth_Login string string | Auth_Switch uuid | Auth_Refresh string | Auth_Logout string

datatype user_call =
    Users_Me | Users_List user_query | Users_Get uuid

datatype invite_call =
    Invites_Create string membership_role | Invites_Accept string

datatype admin_call =
    Admin_Tenants | Admin_Detail uuid | Admin_Suspend uuid "string option" | Admin_Reactivate uuid

datatype account_call =
    On_Auth auth_call
  | On_Users user_call
  | On_Tenants create_tenant_dto
  | On_Invites invite_call
  | On_Admin admin_call
  | On_Plans

text \<open>The route of a call.\<close>
fun account_route :: "account_call \<Rightarrow> http_method \<times> string" where
  "account_route (On_Auth (Auth_Register _)) = (POST, ''/auth/register'')"
| "account_route (On_Auth (Auth_Login _ _)) = (POST, ''/auth/login'')"
| "account_route (On_Auth (Auth_Switch _)) = (POST, ''/auth/switch-tenant'')"
| "account_route (On_Auth (Auth_Refresh _)) = (POST, ''/auth/refresh'')"
| "account_route (On_Auth (Auth_Logout _)) = (POST, ''/auth/logout'')"
| "account_route (On_Users Users_Me) = (GET, ''/users/me'')"
| "account_route (On_Users (Users_List _)) = (GET, ''/users'')"
| "account_route (On_Users (Users_Get _)) = (GET, ''/users/:id'')"
| "account_route (On_Tenants _) = (POST, ''/tenants'')"
| "account_route (On_Invites (Invites_Create _ _)) = (POST, ''/invites'')"
| "account_route (On_Invites (Invites_Accept _)) = (POST, ''/invites/accept'')"
| "account_route (On_Admin Admin_Tenants) = (GET, ''/admin/tenants'')"
| "account_route (On_Admin (Admin_Detail _)) = (GET, ''/admin/tenants/:id'')"
| "account_route (On_Admin (Admin_Suspend _ _)) = (POST, ''/admin/tenants/:id/suspend'')"
| "account_route (On_Admin (Admin_Reactivate _)) = (POST, ''/admin/tenants/:id/reactivate'')"
| "account_route On_Plans = (GET, ''/plans'')"

datatype account_view =
    AV_Account "user \<times> session_tokens" | AV_Session session_tokens
  | AV_User user | AV_Users "user list \<times> unit page_meta"
  | AV_Tenant_Session "tenant \<times> session_tokens"
  | AV_Invite uuid string membership_role instant string
  | AV_Joined uuid membership_role
  | AV_Tenants "tenant list" | AV_Tenant_Detail "tenant \<times> subscription option" | AV_Tenant tenant
  | AV_Plans "plan list"
  | AV_Done \<comment> \<open>\<open>{ success: true }\<close>\<close>

text \<open>
  What an account request takes from its surroundings; \<open>ac_no_user\<close> is the error of a required
  \<open>@CurrentUser\<close> without a user.
\<close>
record account_env =
  ac_auth :: auth_env
  ac_invite :: invite_env
  ac_draws :: draws
  ac_ilike :: "string \<Rightarrow> string \<Rightarrow> bool"
  ac_isEmail :: "string \<Rightarrow> bool"
  ac_isUUID :: "string \<Rightarrow> bool"
  ac_isTimeZone :: "string \<Rightarrow> bool"
  ac_invalid :: exn
  ac_no_user :: exn
  ac_render :: "account_view \<Rightarrow> json option"

section \<open>Validation\<close>

definition valid_login :: "(string \<Rightarrow> bool) \<Rightarrow> string \<Rightarrow> bool" where
  "valid_login isEmail em \<longleftrightarrow> isEmail em"

definition valid_refresh_token :: "string \<Rightarrow> bool" where
  "valid_refresh_token rt \<longleftrightarrow> 32 \<le> length rt"

definition valid_switch_tenant :: "(string \<Rightarrow> bool) \<Rightarrow> uuid \<Rightarrow> bool" where
  "valid_switch_tenant isUUID t \<longleftrightarrow> isUUID t"

definition valid_create_invite :: "(string \<Rightarrow> bool) \<Rightarrow> string \<Rightarrow> membership_role \<Rightarrow> bool" where
  "valid_create_invite isEmail em role \<longleftrightarrow> isEmail em \<and> role \<in> {Owner, Staff}"

definition valid_accept_invite :: "string \<Rightarrow> bool" where
  "valid_accept_invite token \<longleftrightarrow> 32 \<le> length token"

fun valid_account_call :: "account_env \<Rightarrow> account_call \<Rightarrow> bool" where
  "valid_account_call env (On_Auth (Auth_Register d)) = valid_register (ac_isEmail env) d"
| "valid_account_call env (On_Auth (Auth_Login em pw)) = valid_login (ac_isEmail env) em"
| "valid_account_call env (On_Auth (Auth_Switch t)) = valid_switch_tenant (ac_isUUID env) t"
| "valid_account_call env (On_Auth (Auth_Refresh rt)) = valid_refresh_token rt"
| "valid_account_call env (On_Auth (Auth_Logout rt)) = valid_refresh_token rt"
| "valid_account_call env (On_Users (Users_List q)) = valid_base_query (base_query.truncate q)"
| "valid_account_call env (On_Tenants d) = valid_create_tenant (ac_isTimeZone env) d"
| "valid_account_call env (On_Invites (Invites_Create em role)) = valid_create_invite (ac_isEmail env) em role"
| "valid_account_call env (On_Invites (Invites_Accept token)) = valid_accept_invite token"
| "valid_account_call env (On_Admin (Admin_Suspend t reason)) = valid_suspend_tenant reason"
| "valid_account_call env _ = True"

section \<open>Controllers\<close>

text \<open>The action's answer; an operation in a transaction of its own leaves the tables when it fails.\<close>
definition answers :: "('a \<Rightarrow> account_view) \<Rightarrow> (exn + 'a) \<times> gdb \<Rightarrow> (exn + account_view) \<times> gdb" where
  "answers v r = (case r of (Inl e, g) \<Rightarrow> (Inl e, g) | (Inr x, g) \<Rightarrow> (Inr (v x), g))"

definition in_tx :: "gdb \<Rightarrow> exn + 'a \<times> gdb \<Rightarrow> (exn + 'a) \<times> gdb" where
  "in_tx g r = (case r of Inl e \<Rightarrow> (Inl e, g) | Inr (x, g') \<Rightarrow> (Inr x, g'))"

text \<open>\<open>@CurrentUser({ required: true })\<close>\<close>
definition as_user :: "account_env \<Rightarrow> user option \<Rightarrow> (user \<Rightarrow> 'a pooled) \<Rightarrow> 'a pooled" where
  "as_user env u f g = (case u of None \<Rightarrow> (Inl (ac_no_user env), g) | Some x \<Rightarrow> f x g)"

fun auth_controller :: "account_env \<Rightarrow> user option \<Rightarrow> auth_call \<Rightarrow> account_view pooled" where
  "auth_controller env u (Auth_Register d) g = answers AV_Account (register (ac_auth env) (ac_draws env) d g)"
| "auth_controller env u (Auth_Login em pw) g = answers AV_Account (login (ac_auth env) (ac_draws env) em pw g)"
| "auth_controller env u (Auth_Switch t) g =
     answers AV_Account (as_user env u (\<lambda>x. switchTenant (ac_auth env) (ac_draws env) x t) g)"
| "auth_controller env u (Auth_Refresh rt) g = answers AV_Session (refresh (ac_auth env) (ac_draws env) rt g)"
| "auth_controller env u (Auth_Logout rt) g = (Inr AV_Done, logout (ac_auth env) (ac_draws env) rt g)"

fun user_controller :: "account_env \<Rightarrow> user option \<Rightarrow> user_call \<Rightarrow> account_view pooled" where
  "user_controller env u Users_Me g = answers AV_User (as_user env u (\<lambda>x g. (Inr x, g)) g)"
| "user_controller env u (Users_List q) g = (Inr (AV_Users (user_list (ac_ilike env) q g)), g)"
| "user_controller env u (Users_Get i) g = answers AV_User (user_getById i g, g)"

definition tenant_controller :: "account_env \<Rightarrow> user option \<Rightarrow> create_tenant_dto \<Rightarrow> account_view pooled" where
  "tenant_controller env u d g =
     answers AV_Tenant_Session (as_user env u (\<lambda>x. tenant_create_endpoint (ac_auth env) (ac_draws env) x d) g)"

fun invite_controller :: "account_env \<Rightarrow> ctx \<Rightarrow> user option \<Rightarrow> invite_call \<Rightarrow> account_view pooled" where
  "invite_controller env c u (Invites_Create em role) g =
     answers (\<lambda>(iv, token, _). AV_Invite (e_id iv) (inv_email iv) (inv_role iv) (inv_expiresAt iv) token)
       (invite_create (ac_invite env) c (dr_id (ac_draws env) 0) (dr_now (ac_draws env)) (dr_js (ac_draws env) 0)
          (dr_token (ac_draws env)) em role g)"
| "invite_controller env c u (Invites_Accept token) g =
     answers (\<lambda>m. AV_Joined (mb_tenantId m) (mb_role m))
       (as_user env u (\<lambda>x. invite_accept (ac_invite env) (dr_id (ac_draws env) 0) (dr_now (ac_draws env))
          (dr_js (ac_draws env) 0) (dr_js (ac_draws env) 1) x token) g)"

fun admin_controller :: "account_env \<Rightarrow> user option \<Rightarrow> admin_call \<Rightarrow> tdb \<Rightarrow> account_view pooled" where
  "admin_controller env u Admin_Tenants db g = (Inr (AV_Tenants (tenant_listAll g)), g)"
| "admin_controller env u (Admin_Detail t) db g =
     answers AV_Tenant_Detail
       (as_user env u (\<lambda>x. getTenantDetail (dr_id (ac_draws env) 0) (dr_now (ac_draws env)) (e_id x) t db) g)"
| "admin_controller env u (Admin_Suspend t reason) db g =
     answers AV_Tenant
       (as_user env u (\<lambda>x g. in_tx g (suspend (dr_id (ac_draws env) 0) (dr_now (ac_draws env)) (e_id x) t reason g)) g)"
| "admin_controller env u (Admin_Reactivate t) db g =
     answers AV_Tenant
       (as_user env u (\<lambda>x g. in_tx g (reactivate (dr_id (ac_draws env) 0) (dr_now (ac_draws env)) (e_id x) t g)) g)"

definition plan_controller :: "account_view pooled" where
  "plan_controller g = (Inr (AV_Plans (plan_list g)), g)"

definition account_controller :: "account_env \<Rightarrow> ctx \<Rightarrow> user option \<Rightarrow> account_call \<Rightarrow> tdb \<Rightarrow> account_view pooled" where
  "account_controller env c u k db =
     (case k of
        On_Auth a \<Rightarrow> auth_controller env u a
      | On_Users a \<Rightarrow> user_controller env u a
      | On_Tenants d \<Rightarrow> tenant_controller env u d
      | On_Invites a \<Rightarrow> invite_controller env c u a
      | On_Admin a \<Rightarrow> admin_controller env u a db
      | On_Plans \<Rightarrow> plan_controller)"

section \<open>The platform\<close>

text \<open>What the pipeline hands the action: \<open>req.user\<close> and the tenant of the context.\<close>
definition current_user :: "pipeline_env \<Rightarrow> string option \<Rightarrow> gdb \<Rightarrow> user option" where
  "current_user penv header g = (case pl_passport penv header of None \<Rightarrow> None | Some p \<Rightarrow> jwt_user p g)"

definition entry_ctx :: "entry \<Rightarrow> ctx" where
  "entry_ctx e = (case e of Pinned _ t \<Rightarrow> tenant_tx t | _ \<Rightarrow> None)"

text \<open>Whether \<open>serve\<close> gets as far as the handler.\<close>
definition admitted :: "pipeline_env \<Rightarrow> auth_role list option \<Rightarrow> string option \<Rightarrow> gdb \<Rightarrow> bool" where
  "admitted penv roles header g =
     (let guard = (\<lambda>claims. case roles of None \<Rightarrow> True | Some rs \<Rightarrow> authorized penv header claims g rs) in
      case tenant_middleware penv header g of
        Rejected _ \<Rightarrow> False
      | Anonymous claims \<Rightarrow> guard claims
      | Pinned claims _ \<Rightarrow> guard (Some claims))"

text \<open>An account action on its decoded parameters; only a guarded route has a current user.\<close>
definition account_answer ::
  "account_env \<Rightarrow> pipeline_env \<Rightarrow> string option \<Rightarrow> route \<Rightarrow> account_call \<Rightarrow> tdb \<Rightarrow> json option pooled" where
  "account_answer env penv header r k db g =
     (if \<not> valid_account_call env k then (Inl (ac_invalid env), g)
      else case account_controller env (entry_ctx (tenant_middleware penv header g))
                  (if rt_roles r = None then None else current_user penv header g) k db g of
             (Inl e, g') \<Rightarrow> (Inl e, g')
           | (Inr v, g') \<Rightarrow> (Inr (ac_render env v), g'))"

text \<open>
  What a request meets: the libraries and settings of the parts, the decoded parameters of the matched route (of
  a tenant or of an account controller), what Google says, and the answer of the payment webhook, whose own
  transaction is a step of its own.
\<close>
record 'd platform_env =
  pf_express :: express
  pf_server :: server_env
  pf_pipeline :: pipeline_env
  pf_call :: "'d call_env"
  pf_account :: account_env
  pf_google :: google_outcome
  pf_decode :: "route \<Rightarrow> call option"
  pf_account_decode :: "route \<Rightarrow> account_call option"
  pf_other :: "route \<Rightarrow> exn + json option"

definition account_effect :: "'d platform_env \<Rightarrow> http_request_line \<Rightarrow> tdb \<Rightarrow> gdb \<Rightarrow> gdb" where
  "account_effect pf rq db g =
     (case matched_route (pf_express pf) rq of
        None \<Rightarrow> g
      | Some r \<Rightarrow>
          if pf_decode pf r = None \<and> admitted (pf_pipeline pf) (rt_roles r) (hr_authorization rq) g
          then (case pf_account_decode pf r of
                  None \<Rightarrow> g
                | Some k \<Rightarrow> snd (account_answer (pf_account pf) (pf_pipeline pf) (hr_authorization rq) r k db g))
          else g)"

text \<open>\<open>mountGoogleRoutes\<close>: the first route only redirects, the callback signs in.\<close>
definition google_effect :: "'d platform_env \<Rightarrow> http_request_line \<Rightarrow> gdb \<Rightarrow> gdb" where
  "google_effect pf rq g =
     (if \<not> ex_match (pf_express pf) GOOGLE_ROUTE (hr_path rq) \<and>
         ex_match (pf_express pf) (GOOGLE_ROUTE @ ''/callback'') (hr_path rq)
      then snd (google_callback (ac_auth (pf_account pf)) (ac_draws (pf_account pf)) (pf_google pf) g)
      else g)"

text \<open>
  One request: the tenant tables as \<open>app_dispatch\<close> leaves them, the global ones as the account action or the
  Google callback does; global rows are written on pooled connections, so they stay whatever becomes of the
  request's transaction.
\<close>
definition platform_dispatch ::
  "'d platform_env \<Rightarrow> bool \<Rightarrow> string option \<Rightarrow> http_request_line \<Rightarrow> gdb \<Rightarrow> tdb \<Rightarrow> response \<times> gdb \<times> tdb" where
  "platform_dispatch pf limited trace rq g db =
     (let other = (\<lambda>r. case pf_account_decode pf r of
                         None \<Rightarrow> pf_other pf r
                       | Some k \<Rightarrow> fst (account_answer (pf_account pf) (pf_pipeline pf) (hr_authorization rq) r k db g));
          (x, db') = app_dispatch (pf_express pf) (pf_server pf) (pf_pipeline pf)
                       (api_handler (pf_call pf) (pf_decode pf) other g) limited trace rq g db
      in (x, case x of
               Api_Reply _ \<Rightarrow> account_effect pf rq db g
             | Google_Route \<Rightarrow> google_effect pf rq g
             | _ \<Rightarrow> g, db'))"

text \<open>
  Any sequence of requests, payment callbacks and relay batches on a fresh installation: the plans and the first
  accounts (the administrators) are put there by its operator, every other table is empty.
\<close>
inductive platform_reach :: "'d luxon \<Rightarrow> (outbox_event \<Rightarrow> 'q \<Rightarrow> bool \<times> 'q) \<Rightarrow> gdb \<Rightarrow> tdb \<Rightarrow> bool"
  for lx :: "'d luxon" and dispatch :: "outbox_event \<Rightarrow> 'q \<Rightarrow> bool \<times> 'q" where
  platform_start: "sat_all plans_cs ps \<Longrightarrow> sat_all users_cs us \<Longrightarrow>
     platform_reach lx dispatch (empty_gdb\<lparr>plans := ps, users := us\<rparr>) empty_tdb"
| platform_request: "platform_reach lx dispatch g db \<Longrightarrow> ce_luxon (pf_call pf) = lx \<Longrightarrow>
     platform_dispatch pf limited trace rq g db = (x, g', db') \<Longrightarrow> platform_reach lx dispatch g' db'"
| platform_payment: "platform_reach lx dispatch g db \<Longrightarrow>
     handleWebhook paenv isUUID pg_text now_ms i now provider raw header db = Inr (u, db') \<Longrightarrow>
     platform_reach lx dispatch g db'"
| platform_relay: "platform_reach lx dispatch g db \<Longrightarrow>
     processBatch dispatch clk now locked batchSize q (outbox_events db) = (n, q', rows) \<Longrightarrow>
     platform_reach lx dispatch g (db\<lparr>outbox_events := rows\<rparr>)"

text \<open>Its tenant side is the application of \<open>Controllers\<close>.\<close>
lemma platform_reach_http: "platform_reach lx dispatch g db \<Longrightarrow> http_reach lx dispatch db"
proof (induction rule: platform_reach.induct)
  case platform_start
  show ?case by (rule http_start)
next
  case (platform_request g db pf limited trace rq x g' db')
  then obtain other where "app_dispatch (pf_express pf) (pf_server pf) (pf_pipeline pf)
      (api_handler (pf_call pf) (pf_decode pf) other g) limited trace rq g db = (x, db')"
    by (fastforce simp: platform_dispatch_def Let_def split: prod.splits)
  then show ?case by (rule http_request [OF platform_request.IH platform_request.hyps(2)])
next
  case platform_payment
  then show ?case by (blast intro: http_payment)
next
  case platform_relay
  then show ?case by (blast intro: http_relay)
qed

text \<open>The calls are actions of the route table, guarded as it says.\<close>
lemma account_routes_exist:
  "list_ex (\<lambda>r. (rt_method r, rt_path r) = account_route k) (auth_routes @ user_routes @ tenant_routes @ invite_routes @ admin_routes @ plan_routes)"
  by (cases k rule: account_route.cases)
    (simp_all add: auth_routes_def user_routes_def tenant_routes_def invite_routes_def admin_routes_def plan_routes_def)

end
