(* ===== verification/References.thy ===== *)
theory References
  imports Announcements
begin

text \<open>
  Referential integrity. The foreign keys of \<open>src/database/migrations\<close> compare ids only and are checked
  outside row-level security, so that a row refers to a row of its own tenant is up to the services. Here
  every reference a tenant's row holds is followed through every operation: in every reachable database it
  resolves, and inside the tenant; hence no foreign key is ever the reason a modelled statement fails.
\<close>

section \<open>The foreign keys\<close>

text \<open>The tenant-side \<open>FOREIGN KEY\<close> clauses, on ids alone.\<close>
definition staff_services_fks :: "tdb \<Rightarrow> bool" where
  "staff_services_fks db \<longleftrightarrow>
     list_all (\<lambda>r. ss_staffId r \<in> e_id ` set (staff_tbl db) \<and> ss_serviceId r \<in> e_id ` set (services db)) (staff_services db)"

definition working_hours_fks :: "tdb \<Rightarrow> bool" where
  "working_hours_fks db \<longleftrightarrow> list_all (\<lambda>r. wh_staffId r \<in> e_id ` set (staff_tbl db)) (working_hours db)"

definition time_off_fks :: "tdb \<Rightarrow> bool" where
  "time_off_fks db \<longleftrightarrow> list_all (\<lambda>r. to_staffId r \<in> e_id ` set (staff_tbl db)) (time_off db)"

definition bookings_fks :: "tdb \<Rightarrow> bool" where
  "bookings_fks db \<longleftrightarrow>
     list_all (\<lambda>b. bk_staffId b \<in> e_id ` set (staff_tbl db) \<and> bk_serviceId b \<in> e_id ` set (services db) \<and>
       bk_customerId b \<in> e_id ` set (customers db)) (bookings db)"

definition recurrence_fk :: "tdb \<Rightarrow> bool" where
  "recurrence_fk db \<longleftrightarrow>
     list_all (\<lambda>b. pred_option (\<lambda>i. i \<in> e_id ` set (recurrences db)) (bk_recurrenceId b)) (bookings db)"

definition foreign_keys :: "tdb \<Rightarrow> bool" where
  "foreign_keys db \<longleftrightarrow>
     staff_services_fks db \<and> working_hours_fks db \<and> time_off_fks db \<and> bookings_fks db \<and> recurrence_fk db"

section \<open>References inside a tenant\<close>

datatype referenced = StaffTable | ServiceTable | CustomerTable | RecurrenceTable

type_synonym reference = "referenced \<times> uuid \<times> uuid"

definition keys_of :: "'a tenant_entity_scheme list \<Rightarrow> (uuid \<times> uuid) set" where
  "keys_of rows = (\<lambda>r. (e_tenantId r, e_id r)) ` set rows"

definition provided :: "tdb \<Rightarrow> reference set" where
  "provided db =
     Pair StaffTable ` keys_of (staff_tbl db) \<union> Pair ServiceTable ` keys_of (services db) \<union>
     Pair CustomerTable ` keys_of (customers db) \<union> Pair RecurrenceTable ` keys_of (recurrences db)"

definition visit_refs :: "uuid \<Rightarrow> uuid \<Rightarrow> uuid \<Rightarrow> uuid \<Rightarrow> reference set" where
  "visit_refs t staff service customer =
     {(StaffTable, t, staff), (ServiceTable, t, service), (CustomerTable, t, customer)}"

definition booking_refs :: "booking \<Rightarrow> reference set" where
  "booking_refs b =
     visit_refs (e_tenantId b) (bk_staffId b) (bk_serviceId b) (bk_customerId b) \<union>
     (\<lambda>i. (RecurrenceTable, e_tenantId b, i)) ` set_option (bk_recurrenceId b)"

definition recurrence_refs :: "recurrence_row \<Rightarrow> reference set" where
  "recurrence_refs r = visit_refs (e_tenantId r) (rc_staffId r) (rc_serviceId r) (rc_customerId r)"

definition link_refs :: "staff_service_row \<Rightarrow> reference set" where
  "link_refs r = {(StaffTable, e_tenantId r, ss_staffId r), (ServiceTable, e_tenantId r, ss_serviceId r)}"

definition demanded :: "tdb \<Rightarrow> reference set" where
  "demanded db =
     (\<Union>r \<in> set (staff_services db). link_refs r) \<union>
     (\<lambda>r. (StaffTable, e_tenantId r, wh_staffId r)) ` set (working_hours db) \<union>
     (\<lambda>r. (StaffTable, e_tenantId r, to_staffId r)) ` set (time_off db) \<union>
     (\<Union>b \<in> set (bookings db). booking_refs b) \<union> (\<Union>r \<in> set (recurrences db). recurrence_refs r)"

lemma provided_iff [simp]:
  "(StaffTable, t, i) \<in> provided db \<longleftrightarrow> (t, i) \<in> keys_of (staff_tbl db)"
  "(ServiceTable, t, i) \<in> provided db \<longleftrightarrow> (t, i) \<in> keys_of (services db)"
  "(CustomerTable, t, i) \<in> provided db \<longleftrightarrow> (t, i) \<in> keys_of (customers db)"
  "(RecurrenceTable, t, i) \<in> provided db \<longleftrightarrow> (t, i) \<in> keys_of (recurrences db)"
  by (auto simp: provided_def)

lemma keys_ofI: "r \<in> set rows \<Longrightarrow> e_tenantId r = t \<Longrightarrow> e_id r = i \<Longrightarrow> (t, i) \<in> keys_of rows"
  by (auto simp: keys_of_def)

lemma keys_of_id: "(t, i) \<in> keys_of rows \<Longrightarrow> i \<in> e_id ` set rows"
  by (auto simp: keys_of_def)

lemma keys_of_append [simp]: "keys_of (rows @ [r]) = insert (e_tenantId r, e_id r) (keys_of rows)"
  by (auto simp: keys_of_def)

lemma keys_of_update:
  "(\<And>r. e_id (f r) = e_id r) \<Longrightarrow> (\<And>r. e_tenantId (f r) = e_tenantId r) \<Longrightarrow> keys_of (update_where p f rows) = keys_of rows"
  by (induction rows) (simp_all add: keys_of_def update_where_def)

lemma keys_of_found: "find (\<lambda>r. e_tenantId r = t \<and> live r \<and> e_id r = i) rows = Some r \<Longrightarrow> (t, i) \<in> keys_of rows"
  by (auto dest!: find_Some_mem intro: keys_ofI)

text \<open>The reference of row \<open>r\<close> to row \<open>i\<close> of \<open>rows\<close> resolves, inside the tenant of \<open>r\<close>.\<close>
definition refers :: "'a tenant_entity_scheme list \<Rightarrow> 'b tenant_entity_scheme \<Rightarrow> uuid \<Rightarrow> bool" where
  "refers rows r i \<longleftrightarrow> list_ex (\<lambda>x. e_tenantId x = e_tenantId r \<and> e_id x = i) rows"

definition own_references :: "tdb \<Rightarrow> bool" where
  "own_references db \<longleftrightarrow>
     list_all (\<lambda>r. refers (staff_tbl db) r (ss_staffId r) \<and> refers (services db) r (ss_serviceId r)) (staff_services db) \<and>
     list_all (\<lambda>r. refers (staff_tbl db) r (wh_staffId r)) (working_hours db) \<and>
     list_all (\<lambda>r. refers (staff_tbl db) r (to_staffId r)) (time_off db) \<and>
     list_all (\<lambda>b. refers (staff_tbl db) b (bk_staffId b) \<and> refers (services db) b (bk_serviceId b) \<and>
       refers (customers db) b (bk_customerId b) \<and>
       pred_option (refers (recurrences db) b) (bk_recurrenceId b)) (bookings db) \<and>
     list_all (\<lambda>r. refers (staff_tbl db) r (rc_staffId r) \<and> refers (services db) r (rc_serviceId r) \<and>
       refers (customers db) r (rc_customerId r)) (recurrences db)"

lemma refers_keys: "refers rows r i \<longleftrightarrow> (e_tenantId r, i) \<in> keys_of rows"
  by (force simp: refers_def keys_of_def list_ex_iff)

lemma refers_id: "refers rows r i \<Longrightarrow> i \<in> e_id ` set rows"
  by (auto simp: refers_def list_ex_iff)

lemma resolved_own:
  assumes "demanded db \<subseteq> provided db"
  shows "own_references db"
proof -
  have "link_refs r \<subseteq> provided db" if "r \<in> set (staff_services db)" for r
    using that assms by (auto simp: demanded_def)
  moreover have "(StaffTable, e_tenantId r, wh_staffId r) \<in> provided db" if "r \<in> set (working_hours db)" for r
    using that assms by (auto simp: demanded_def)
  moreover have "(StaffTable, e_tenantId r, to_staffId r) \<in> provided db" if "r \<in> set (time_off db)" for r
    using that assms by (auto simp: demanded_def)
  moreover have "booking_refs b \<subseteq> provided db" if "b \<in> set (bookings db)" for b
    using that assms by (auto simp: demanded_def)
  moreover have "recurrence_refs r \<subseteq> provided db" if "r \<in> set (recurrences db)" for r
    using that assms by (auto simp: demanded_def)
  ultimately show ?thesis
    by (simp add: own_references_def list_all_iff refers_keys link_refs_def booking_refs_def recurrence_refs_def
        visit_refs_def option.pred_set image_subset_iff)
qed

lemma own_foreign_keys: "own_references db \<Longrightarrow> foreign_keys db"
  unfolding own_references_def foreign_keys_def staff_services_fks_def working_hours_fks_def time_off_fks_def
    bookings_fks_def recurrence_fk_def list_all_iff option.pred_set
  by (blast intro: refers_id)

section \<open>What an operation may do to references\<close>

text \<open>
  No row that others refer to disappears, and a reference that appears resolves or is one of \<open>S\<close>, which the
  caller has checked.
\<close>
definition relinks :: "reference set \<Rightarrow> tdb \<Rightarrow> tdb \<Rightarrow> bool" where
  "relinks S db db' \<longleftrightarrow>
     provided db \<subseteq> provided db' \<and> demanded db' \<subseteq> demanded db \<union> provided db' \<union> S"

lemma relinks_refl [intro]: "relinks S db db"
  by (auto simp: relinks_def)

lemma relinks_transp: "transp (relinks S)"
  by (rule transpI) (auto simp: relinks_def)

lemma relinks_checked:
  "relinks S db db' \<Longrightarrow> demanded db \<subseteq> provided db \<Longrightarrow> S \<subseteq> provided db' \<Longrightarrow> demanded db' \<subseteq> provided db'"
  by (auto simp: relinks_def)

lemma relinks_keys [intro]:
  "keys_of (staff_tbl db) \<subseteq> keys_of r0 \<Longrightarrow> relinks S db (db\<lparr>staff_tbl := r0\<rparr>)"
  "keys_of (services db) \<subseteq> keys_of r1 \<Longrightarrow> relinks S db (db\<lparr>services := r1\<rparr>)"
  "keys_of (customers db) \<subseteq> keys_of r2 \<Longrightarrow> relinks S db (db\<lparr>customers := r2\<rparr>)"
  by (auto simp: relinks_def provided_def demanded_def)

lemma relinks_other [intro]:
  "relinks S db (db\<lparr>subscriptions := r0\<rparr>)" "relinks S db (db\<lparr>webhook_endpoints := r1\<rparr>)"
  "relinks S db (db\<lparr>webhook_receipts := r2\<rparr>)" "relinks S db (db\<lparr>outbox_events := r3\<rparr>)"
  "relinks S db (db\<lparr>idempotency_keys := r4\<rparr>)"
  by (auto simp: relinks_def provided_def demanded_def)

lemma relinks_rows [intro]:
  "set r0 \<subseteq> set (staff_services db) \<Longrightarrow> relinks S db (db\<lparr>staff_services := r0\<rparr>)"
  "set r1 \<subseteq> set (working_hours db) \<Longrightarrow> relinks S db (db\<lparr>working_hours := r1\<rparr>)"
  "set r2 \<subseteq> set (time_off db) \<Longrightarrow> relinks S db (db\<lparr>time_off := r2\<rparr>)"
  by (auto simp: relinks_def provided_def demanded_def)

lemma relinks_bookings:
  "(\<And>b. b \<in> set rows \<Longrightarrow> booking_refs b \<subseteq> demanded db \<union> provided db \<union> S) \<Longrightarrow> relinks S db (db\<lparr>bookings := rows\<rparr>)"
proof -
  assume new: "\<And>b. b \<in> set rows \<Longrightarrow> booking_refs b \<subseteq> demanded db \<union> provided db \<union> S"
  have "provided (db\<lparr>bookings := rows\<rparr>) = provided db" by (simp add: provided_def)
  moreover have "demanded (db\<lparr>bookings := rows\<rparr>) \<subseteq> demanded db \<union> (\<Union>b \<in> set rows. booking_refs b)"
    by (auto simp: demanded_def)
  ultimately show ?thesis using new by (simp add: relinks_def) blast
qed

lemma persist_keys: "persist c cs r rows = Inr (r', rows') \<Longrightarrow> keys_of rows \<subseteq> keys_of rows'"
  by (auto simp: persist_def Let_def result_simps split: if_splits dest!: insert_checked_eq)

lemma persist_row:
  "persist (tenant_tx t) cs r rows = Inr (r', rows') \<Longrightarrow> r' = r\<lparr>e_tenantId := t\<rparr> \<and> rows' = rows @ [r']"
  by (auto simp: persist_def Let_def getTenantId_def tenant_tx_def result_simps split: if_splits dest!: insert_checked_eq)

lemma rls_update_keys:
  "rls_update c cs p f rows = Inr (n, rows') \<Longrightarrow> (\<And>r. e_id (f r) = e_id r) \<Longrightarrow> (\<And>r. e_tenantId (f r) = e_tenantId r) \<Longrightarrow>
     keys_of rows \<subseteq> keys_of rows'"
  by (auto simp: rls_update_def Let_def result_simps keys_of_update dest!: update_checked_eq)

lemma rls_delete_rows: "rls_delete c p rows = (n, rows') \<Longrightarrow> set rows' \<subseteq> set rows"
  by (auto simp: rls_delete_def Let_def delete_where_def)

lemmas relinks_write = effects_write [OF relinks_transp]

section \<open>Every operation keeps references resolved\<close>

lemma catalog_relinks:
  "effects (relinks S) db (service_create c i now cd db)"
  "effects (relinks S) db (service_update c i ud db)"
  "effects (relinks S) db (service_remove c now i db)"
  "effects (relinks S) db (customer_create c i now cc db)"
proof -
  show "effects (relinks S) db (service_create c i now cd db)" unfolding service_create_def
    by (intro safe_intros safe_read) (auto dest: persist_keys)
  show "effects (relinks S) db (customer_create c i now cc db)" unfolding customer_create_def
    by (intro safe_intros safe_read) (auto dest: persist_keys)
  have "effects (relinks S) db (service_repo_update c i ud db)" unfolding service_repo_update_def
    by (intro safe_intros safe_read) (auto dest!: rls_update_keys simp: apply_service_update_def)
  then show "effects (relinks S) db (service_update c i ud db)" unfolding service_update_def
    by (intro safe_mapErr relinks_write safe_prod safe_read safe_Inr) auto
  have "effects (relinks S) db (service_softRemove c now i db)" unfolding service_softRemove_def
    by (intro safe_intros safe_read) (auto dest!: rls_update_keys)
  then show "effects (relinks S) db (service_remove c now i db)" unfolding service_remove_def
    by (intro relinks_write safe_intros) auto
qed

lemma directory_relinks:
  "effects (relinks S) db (staff_create c i now sd g db)"
  "effects (relinks S) db (staff_update c i su db)"
  "effects (relinks S) db (staff_remove c now i db)"
  "effects (relinks S) db (unlink c st sv db)"
  "effects (relinks S) db (working_hours_remove c i db)"
  "effects (relinks S) db (time_off_remove c i db)"
proof -
  show "effects (relinks S) db (staff_create c i now sd g db)" unfolding staff_create_def
    by (intro safe_intros safe_read) (auto dest: persist_keys)
  have "effects (relinks S) db (staff_repo_update c i su db)" unfolding staff_repo_update_def
    by (intro safe_intros safe_read) (auto dest!: rls_update_keys simp: apply_staff_update_def)
  then show "effects (relinks S) db (staff_update c i su db)" unfolding staff_update_def
    by (intro relinks_write safe_prod safe_read safe_Inr) auto
  have "effects (relinks S) db (staff_softRemove c now i db)" unfolding staff_softRemove_def
    by (intro safe_intros safe_read) (auto dest!: rls_update_keys)
  then show "effects (relinks S) db (staff_remove c now i db)" unfolding staff_remove_def
    by (intro relinks_write safe_intros) auto
  have "effects (relinks S) db (capability_repo_unlink c st sv db)" unfolding capability_repo_unlink_def
    by (intro safe_intros safe_read) (auto dest!: rls_delete_rows)
  then show "effects (relinks S) db (unlink c st sv db)" unfolding unlink_def
    by (intro relinks_write safe_intros) auto
  have "effects (relinks S) db (working_hours_repo_remove c i db)" unfolding working_hours_repo_remove_def
    by (intro safe_intros safe_read) (auto dest!: rls_delete_rows)
  then show "effects (relinks S) db (working_hours_remove c i db)" unfolding working_hours_remove_def
    by (intro relinks_write safe_intros) auto
  have "effects (relinks S) db (time_off_repo_remove c i db)" unfolding time_off_repo_remove_def
    by (intro safe_intros safe_read) (auto dest!: rls_delete_rows)
  then show "effects (relinks S) db (time_off_remove c i db)" unfolding time_off_remove_def
    by (intro relinks_write safe_intros) auto
qed

lemma webhook_relinks:
  "effects (relinks S) db (webhook_create parse c i now secret url db)"
  "effects (relinks S) db (webhook_remove c now i db)"
proof -
  show "effects (relinks S) db (webhook_create parse c i now secret url db)" unfolding webhook_create_def
    by (intro safe_intros safe_read) auto
  have "effects (relinks S) db (webhook_repo_remove c now i db)" unfolding webhook_repo_remove_def
    by (intro safe_intros safe_read) auto
  then show "effects (relinks S) db (webhook_remove c now i db)" unfolding webhook_remove_def
    by (intro relinks_write safe_intros) auto
qed

lemma subscribe_relinks: "effects (relinks S) db (subscribe env (tenant_tx t) nonce i now planId p g db)"
proof -
  have "effects (relinks S) db (subscription_create (tenant_tx t) r db)" for r
    unfolding subscription_create_def by (intro safe_intros safe_read) auto
  then show ?thesis unfolding subscribe_def
    by (intro safe_read safe_Let safe_mapErr) (auto intro!: safe_Inr intro: effectsD)
qed

lemma apply_event_relinks:
  assumes "apply_event i now p e ty r (tenant_tx t) db = Inr (u, db')"
  shows "relinks S db db'"
  using assms
proof (cases rule: apply_event_cases)
  case noted
  then show ?thesis by (auto simp: claimEvent_def split: sum.splits)
next
  case (applied s db1)
  have "relinks S db db1" using applied by (auto simp: claimEvent_def split: sum.splits)
  moreover have "relinks S db1 db'" using subscription_updateStatus_tx(1) [OF applied(4)] by auto
  ultimately show ?thesis by (rule transpD [OF relinks_transp])
qed auto

text \<open>A found staff member, a found link, a found service.\<close>
lemma staff_getById_key: "t \<noteq> [] \<Longrightarrow> staff_getById (tenant_tx t) i db = Inr r \<Longrightarrow> (t, i) \<in> keys_of (staff_tbl db)"
  by (auto simp: staff_getById_tx requireE_def split: option.splits dest: keys_of_found)

lemma lookup_keys:
  "service_of t i db = Some sv \<Longrightarrow> (t, i) \<in> keys_of (services db)"
  "customer_of t i db = Some cu \<Longrightarrow> (t, i) \<in> keys_of (customers db)"
  by (simp_all add: service_of_def customer_of_def keys_of_found)

lemma capable_demands: "capable t st sv db \<Longrightarrow> {(StaffTable, t, st), (ServiceTable, t, sv)} \<subseteq> demanded db"
  by (fastforce simp: capable_def list_ex_iff demanded_def link_refs_def)

lemma relinks_new_rows:
  "link_refs r0 \<subseteq> provided db \<Longrightarrow> relinks S db (db\<lparr>staff_services := staff_services db @ [r0]\<rparr>)"
  "(StaffTable, e_tenantId r1, wh_staffId r1) \<in> provided db \<Longrightarrow> relinks S db (db\<lparr>working_hours := working_hours db @ [r1]\<rparr>)"
  "(StaffTable, e_tenantId r2, to_staffId r2) \<in> provided db \<Longrightarrow> relinks S db (db\<lparr>time_off := time_off db @ [r2]\<rparr>)"
  by (auto simp: relinks_def provided_def demanded_def)

lemma schedule_relinks:
  assumes "t \<noteq> []"
  shows "effects (relinks S) db (link (tenant_tx t) i now st sv db)"
    "effects (relinks S) db (working_hours_create (tenant_tx t) i now st wd db)"
    "effects (relinks S) db (time_off_create (tenant_tx t) i now st td db)"
proof -
  note staff = staff_getById_key [OF assms]
  have link: "relinks S db (db\<lparr>staff_services := rows\<rparr>)"
    if "staff_getById (tenant_tx t) st db = Inr x" "service_getById (tenant_tx t) sv db = Inr y"
      "persist (tenant_tx t) staff_services_cs (link_row i now st sv) (staff_services db) = Inr (r, rows)" for x y r rows
  proof -
    have "(t, sv) \<in> keys_of (services db)"
      using that(2) assms by (auto simp: lookup_tx requireE_def split: option.splits dest: lookup_keys)
    then have "link_refs (link_row i now st sv\<lparr>e_tenantId := t\<rparr>) \<subseteq> provided db"
      using staff [OF that(1)] by (simp add: link_refs_def link_row_def)
    then show ?thesis using persist_row [OF that(3)] relinks_new_rows(1) by metis
  qed
  show "effects (relinks S) db (link (tenant_tx t) i now st sv db)" unfolding link_def
    by (intro safe_read safe_mapErr) (auto intro!: safe_Inr link)
  have hours: "relinks S db (db\<lparr>working_hours := rows\<rparr>)"
    if "staff_getById (tenant_tx t) st db = Inr x"
      "persist (tenant_tx t) working_hours_cs (working_hours_row_of i now st wd) (working_hours db) = Inr (r, rows)" for x r rows
    using staff [OF that(1)] persist_row [OF that(2)] by (auto intro: relinks_new_rows simp: working_hours_row_of_def)
  show "effects (relinks S) db (working_hours_create (tenant_tx t) i now st wd db)" unfolding working_hours_create_def
    by (intro safe_read safe_mapErr) (auto intro!: safe_Inr hours)
  have off: "relinks S db (db\<lparr>time_off := rows\<rparr>)"
    if "staff_getById (tenant_tx t) st db = Inr x"
      "persist (tenant_tx t) time_off_cs (time_off_row_of i now st s e re) (time_off db) = Inr (r, rows)" for x s e re r rows
    using staff [OF that(1)] persist_row [OF that(2)] by (auto intro: relinks_new_rows simp: time_off_row_of_def)
  show "effects (relinks S) db (time_off_create (tenant_tx t) i now st td db)" unfolding time_off_create_def
    by (intro safe_read safe_prod safe_option) (auto intro!: safe_Inr safe_read safe_Inl off)
qed

text \<open>Bookings: a status or slot change keeps the references, a new row brings checked ones.\<close>
lemma booking_refs_kept [simp]:
  "booking_refs (set_status st b) = booking_refs b" "booking_refs (set_slot s e b) = booking_refs b"
  by (simp_all add: booking_refs_def set_status_def set_slot_def)

lemma booking_refs_demanded: "b \<in> set (bookings db) \<Longrightarrow> booking_refs b \<subseteq> demanded db"
  by (auto simp: demanded_def)

lemma relinks_booking_frame:
  assumes "db' = db\<lparr>bookings := bookings db', outbox_events := outbox_events db'\<rparr>"
    and "\<And>b. b \<in> set (bookings db') \<Longrightarrow> booking_refs b \<subseteq> demanded db \<union> provided db \<union> S"
  shows "relinks S db db'"
proof -
  have "relinks S db (db\<lparr>bookings := bookings db'\<rparr>)" by (rule relinks_bookings) (rule assms(2))
  moreover have "relinks S (db\<lparr>bookings := bookings db'\<rparr>) (db\<lparr>bookings := bookings db', outbox_events := outbox_events db'\<rparr>)"
    by (rule relinks_other)
  ultimately have "relinks S db (db\<lparr>bookings := bookings db', outbox_events := outbox_events db'\<rparr>)"
    by (rule transpD [OF relinks_transp])
  then show ?thesis by (subst assms(1))
qed

lemma relinks_updated:
  assumes "db' = db\<lparr>bookings := bookings db', outbox_events := outbox_events db'\<rparr>"
    and "bookings db' = update_where p f (bookings db)" "\<And>b. booking_refs (f b) = booking_refs b"
  shows "relinks S db db'"
proof (rule relinks_booking_frame [OF assms(1)])
  fix b
  assume "b \<in> set (bookings db')"
  then obtain x where "x \<in> set (bookings db)" "booking_refs b = booking_refs x"
    using assms(2,3) by (auto simp: update_where_def split: if_splits)
  then show "booking_refs b \<subseteq> demanded db \<union> provided db \<union> S" using booking_refs_demanded by blast
qed

lemma relinks_inserted:
  assumes "db' = db\<lparr>bookings := bookings db', outbox_events := outbox_events db'\<rparr>"
    and "bookings db' = bookings db @ [b]" "booking_refs b \<subseteq> demanded db \<union> provided db \<union> S"
  shows "relinks S db db'"
proof (rule relinks_booking_frame [OF assms(1)])
  fix x
  assume "x \<in> set (bookings db')"
  then have "x \<in> set (bookings db) \<or> x = b" by (simp add: assms(2)) blast
  then show "booking_refs x \<subseteq> demanded db \<union> provided db \<union> S"
    using booking_refs_demanded assms(3) by blast
qed

lemma doCreate_relinks:
  assumes "t \<noteq> []" "doCreate (tenant_tx t) i ev now dto db = Inr (b, db')"
  shows "relinks S db db'"
proof -
  obtain sv s cu where c: "service_of t (cb_serviceId dto) db = Some sv"
      "capable t (cb_staffId dto) (cb_serviceId dto) db" "customer_of t (cb_customerId dto) db = Some cu"
      "b = created_booking t i now dto s sv"
      "db' = with_event ev now t b ''booking.created'' (db\<lparr>bookings := bookings db @ [b]\<rparr>)"
    by (rule doCreate_Inr [OF assms]) blast
  have "booking_refs b \<subseteq> demanded db \<union> provided db"
    using lookup_keys(1) [OF c(1)] lookup_keys(2) [OF c(3)] capable_demands [OF c(2)]
    by (auto simp: c(4) booking_refs_def visit_refs_def created_booking_def)
  then show ?thesis by (intro relinks_inserted [where b = b]) (auto simp: c(5) with_event_def)
qed

lemma booking_create_relinks:
  assumes "t \<noteq> []" "booking_create sha256 jsonb toPlain (tenant_tx t) kid i ev now key body dto db = Inr (r, db')"
  shows "relinks S db db'"
  using assms
proof (cases rule: booking_create_Inr)
  case replayed
  then show ?thesis by auto
next
  case (fresh b db0 db2)
  have "relinks S db db0" by (subst fresh(2)) (rule relinks_other)
  moreover have "relinks S db0 db2" by (rule doCreate_relinks [OF assms(1) fresh(3)])
  moreover have "relinks S db2 db'" by (subst fresh(4)) (rule relinks_other)
  ultimately show ?thesis using transpD [OF relinks_transp] by blast
qed

text \<open>What the occurrences of a series refer to: what its request was checked for, and the rule itself.\<close>
definition series_refs :: "uuid \<Rightarrow> uuid \<Rightarrow> create_recurrence_dto \<Rightarrow> reference set" where
  "series_refs t rid d =
     insert (RecurrenceTable, t, rid) (visit_refs t (cr_staffId d) (cr_serviceId d) (cr_customerId d))"

lemma createOccurrence_relinks:
  assumes "t \<noteq> []" "bd_staffId spec = cr_staffId d" "bd_serviceId spec = cr_serviceId d" "bd_customerId spec = cr_customerId d"
    and "\<And>s e. bd_startsAt spec = Some s \<Longrightarrow> bd_endsAt spec = Some e \<Longrightarrow> s < e"
  shows "effects (relinks (series_refs t rid d)) db (createOccurrence (tenant_tx t) i ev now spec rid db)"
proof (cases "createOccurrence (tenant_tx t) i ev now spec rid db")
  case (Inl x)
  then show ?thesis by (simp add: effects_def)
next
  case (Inr p)
  then obtain b db' where r: "createOccurrence (tenant_tx t) i ev now spec rid db = Inr (b, db')" by (cases p) simp
  note c = createOccurrence_inserts [OF assms(1) r assms(5)]
  have "booking_refs b = series_refs t rid d"
    using c(3,6,7) assms(2-4) by (simp add: booking_refs_def series_refs_def fresh_booking_def)
  then have "relinks (series_refs t rid d) db db'" using c(5,2) by (auto intro: relinks_inserted)
  then show ?thesis by (simp add: r effects_def)
qed

lemma recurrence_create_resolved:
  assumes "t \<noteq> []" "services_wf db" "demanded db \<subseteq> provided db"
    and "recurrence_create lx (tenant_tx t) rid bid evid now d g db = Inr (res, db')"
  shows "demanded db' \<subseteq> provided db'"
proof -
  let ?S = "series_refs t rid d"
  obtain sv cu tz r db1 where c: "service_getById (tenant_tx t) (cr_serviceId d) db = Inr sv"
      "canPerform (tenant_tx t) (cr_staffId d) (cr_serviceId d) db = Inr True"
      "customer_getById (tenant_tx t) (cr_customerId d) db = Inr cu"
      "recurrence_createOne (tenant_tx t) (recurrence_of_dto rid now d tz) db = Inr (r, db1)" "relinks ?S db1 db'"
    by (rule recurrence_create_run [OF relinks_transp relinks_refl createOccurrence_relinks [OF assms(1)] assms(2,4)])
  let ?r = "recurrence_of_dto rid now d tz\<lparr>e_tenantId := t\<rparr>"
  have db1: "db1 = db\<lparr>recurrences := recurrences db @ [?r]\<rparr>"
    using c(4) by (auto simp: recurrence_createOne_def result_simps dest: persist_row)
  have row: "e_id ?r = rid" "recurrence_refs ?r = visit_refs t (cr_staffId d) (cr_serviceId d) (cr_customerId d)"
    by (simp_all add: recurrence_of_dto_def recurrence_refs_def)
  have found: "service_of t (cr_serviceId d) db = Some sv" "customer_of t (cr_customerId d) db = Some cu"
      "capable t (cr_staffId d) (cr_serviceId d) db"
    using c(1-3) assms(1) by (simp_all add: lookup_tx result_simps)
  have checked: "visit_refs t (cr_staffId d) (cr_serviceId d) (cr_customerId d) \<subseteq> provided db"
  proof -
    have "(StaffTable, t, cr_staffId d) \<in> provided db" using capable_demands [OF found(3)] assms(3) by blast
    then show ?thesis
      using lookup_keys(1) [OF found(1)] lookup_keys(2) [OF found(2)] by (simp add: visit_refs_def)
  qed
  have prov: "provided db1 = insert (RecurrenceTable, t, rid) (provided db)"
    using row(1) by (simp add: db1 provided_def)
  have "demanded db1 = demanded db \<union> recurrence_refs ?r" by (auto simp: db1 demanded_def)
  then have "demanded db1 \<subseteq> provided db1" using assms(3) checked by (auto simp: prov row(2))
  moreover have "?S \<subseteq> provided db1" using checked by (auto simp: prov series_refs_def)
  ultimately show ?thesis
    using c(5) by (auto simp: relinks_def)
qed

lemma tenant_op_resolved:
  assumes "tenant_op lx t db db'" "t \<noteq> []" "data_ok db" "tdb_ok db" "demanded db \<subseteq> provided db"
  shows "demanded db' \<subseteq> provided db'"
proof -
  have wf: "services_wf db" and sat: "sat_all bookings_cs (bookings db)"
    using assms(3,4) by (simp_all add: data_ok_def tdb_ok_def)
  have keep: ?thesis if "relinks {} db db'" by (rule relinks_checked [OF that assms(5)]) simp
  from assms(1) show ?thesis
  proof cases
    case op_booking_create
    then show ?thesis by (intro keep booking_create_relinks [OF assms(2)])
  next
    case (op_transition ev now i v st b)
    then obtain x where "db' = with_event ev now t (set_status st x) (''booking.'' @ booking_status_str st) (with_booking x (set_status st) db)"
      using assms(2) sat by (blast elim: transition_Inr)
    then show ?thesis
      by (intro keep relinks_updated [where f = "set_status st"]) (simp_all add: with_event_def with_booking_def)
  next
    case (op_reschedule ev now i rdto ifMatch b)
    then obtain x s e where "db' = with_event ev now t b ''booking.rescheduled'' (with_booking x (set_slot s e) db)"
      using assms(2) sat by (blast elim: reschedule_Inr)
    then show ?thesis
      by (intro keep relinks_updated [where f = "set_slot s e"]) (simp_all add: with_event_def with_booking_def)
  next
    case (op_cancelSeries gen js_now now rid n)
    then show ?thesis using booking_effect_cancelSeries(3,4) [OF assms(2) sat]
      by (intro keep relinks_updated [where f = "set_status Cancelled"]) simp_all
  next
    case op_recurrence_create
    then show ?thesis by (rule recurrence_create_resolved [OF assms(2) wf assms(5)])
  next
    case op_subscribe
    then show ?thesis by (intro keep effectsD [OF subscribe_relinks])
  next
    case op_payment_event
    then show ?thesis by (intro keep apply_event_relinks)
  qed (rule keep, erule catalog_relinks [THEN effectsD] directory_relinks [THEN effectsD] webhook_relinks [THEN effectsD]
        schedule_relinks [OF assms(2), THEN effectsD])+
qed

lemma system_reach_resolved: "system_reach lx dispatch db \<Longrightarrow> demanded db \<subseteq> provided db"
proof (induction rule: system_reach.induct)
  case reach_start
  show ?case by (simp add: demanded_def empty_tdb_def)
next
  case (reach_step db db')
  from reach_step.hyps(2) show ?case
  proof cases
    case (step_tenant t)
    then show ?thesis using tenant_op_resolved system_reach_ok [OF reach_step.hyps(1)] reach_step.IH by blast
  next
    case (step_relay clk now locked batchSize q n q' rows)
    have "relinks {} db (db\<lparr>outbox_events := rows\<rparr>)" by (rule relinks_other)
    from relinks_checked [OF this reach_step.IH] show ?thesis by (simp add: step_relay(1))
  qed
qed

section \<open>Properties\<close>

text \<open>
  References stay inside their tenant: in every reachable database, whatever the tenants have created,
  soft-deleted and unlinked, each link, working-hours, absence, booking and series row refers to an existing
  staff, service, customer and series row of its own tenant. In particular all foreign keys hold, so no
  operation of the model is one PostgreSQL would refuse with a foreign key violation.
\<close>
theorem references_resolve:
  assumes "system_reach lx dispatch db"
  shows "own_references db \<and> foreign_keys db"
  using resolved_own [OF system_reach_resolved [OF assms]] own_foreign_keys by blast

theorem references_resolve_witness:
  "\<exists>db. system_reach sample_luxon (relay_dispatch run_add) db \<and> length (bookings db) = 1 \<and>
     length (staff_services db) = 1 \<and> own_references db \<and> foreign_keys db"
proof -
  have reach: "system_reach sample_luxon (relay_dispatch run_add) run_booked"
    by (rule delivery_reach_system [OF run_reach])
  have "length (bookings run_booked) = 1" "length (staff_services run_booked) = 1"
    by (simp_all add: run_booked_def run_link_def)
  then show ?thesis using references_resolve [OF reach] reach by (intro exI [of _ run_booked]) simp
qed

end
