(* ===== verification/Platform.thy ===== *)
theory Platform
  imports Accounts References
begin

text \<open>
  The platform in operation: in every state that requests, payment callbacks and the relay can reach from a fresh
  installation, the constraints of all tables hold, and so do all foreign keys of \<open>src/database/migrations\<close>,
  those between the tenant tables (\<open>References\<close>) and those to users, tenants and plans.
\<close>

section \<open>The keys to users, tenants and plans\<close>

definition user_ids :: "gdb \<Rightarrow> uuid set" where
  "user_ids g = e_id ` set (users g)"

definition tenant_ids :: "gdb \<Rightarrow> uuid set" where
  "tenant_ids g = e_id ` set (tenants g)"

definition plan_ids :: "gdb \<Rightarrow> uuid set" where
  "plan_ids g = e_id ` set (plans g)"

text \<open>\<open>FK_memberships_user\<close>, \<open>FK_memberships_tenant\<close>, \<open>FK_refresh_tokens_user\<close>, \<open>FK_invites_tenant\<close>.\<close>
definition memberships_fks :: "gdb \<Rightarrow> bool" where
  "memberships_fks g \<longleftrightarrow> list_all (\<lambda>m. mb_userId m \<in> user_ids g \<and> mb_tenantId m \<in> tenant_ids g) (memberships g)"

definition refresh_tokens_fk :: "gdb \<Rightarrow> bool" where
  "refresh_tokens_fk g \<longleftrightarrow> list_all (\<lambda>r. rt_userId r \<in> user_ids g) (refresh_tokens g)"

definition invites_fk :: "gdb \<Rightarrow> bool" where
  "invites_fk g \<longleftrightarrow> list_all (\<lambda>i. e_tenantId i \<in> tenant_ids g) (invites g)"

definition account_fks :: "gdb \<Rightarrow> bool" where
  "account_fks g \<longleftrightarrow> memberships_fks g \<and> refresh_tokens_fk g \<and> invites_fk g"

lemmas account_fks_defs = account_fks_def memberships_fks_def refresh_tokens_fk_def invites_fk_def list_all_iff

text \<open>The tenant ids of all rows of the tenant tables.\<close>
definition owners :: "tdb \<Rightarrow> uuid list" where
  "owners db =
     map e_tenantId (services db) @ map e_tenantId (customers db) @ map e_tenantId (staff_tbl db) @
     map e_tenantId (staff_services db) @ map e_tenantId (working_hours db) @ map e_tenantId (time_off db) @
     map e_tenantId (bookings db) @ map e_tenantId (idempotency_keys db) @ map e_tenantId (outbox_events db) @
     map e_tenantId (recurrences db) @ map e_tenantId (subscriptions db) @ map e_tenantId (webhook_endpoints db)"

text \<open>\<open>FK_staff_user\<close>, \<open>FK_subscriptions_plan\<close>, and the \<open>FK_.._tenant\<close> of every tenant table.\<close>
definition staff_user_fk :: "gdb \<Rightarrow> tdb \<Rightarrow> bool" where
  "staff_user_fk g db \<longleftrightarrow> list_all (\<lambda>r. st_userId r \<in> user_ids g) (staff_tbl db)"

definition subscriptions_plan_fk :: "gdb \<Rightarrow> tdb \<Rightarrow> bool" where
  "subscriptions_plan_fk g db \<longleftrightarrow> list_all (\<lambda>s. sub_planId s \<in> plan_ids g) (subscriptions db)"

definition tenancy_fks :: "gdb \<Rightarrow> tdb \<Rightarrow> bool" where
  "tenancy_fks g db \<longleftrightarrow>
     list_all (\<lambda>t. t \<in> tenant_ids g) (owners db) \<and> staff_user_fk g db \<and> subscriptions_plan_fk g db"

lemmas tenancy_fks_defs = tenancy_fks_def staff_user_fk_def subscriptions_plan_fk_def

text \<open>The constraints of the global tables.\<close>
definition gdb_ok :: "gdb \<Rightarrow> bool" where
  "gdb_ok g \<longleftrightarrow>
     sat_all plans_cs (plans g) \<and> sat_all tenants_cs (tenants g) \<and> sat_all users_cs (users g) \<and>
     sat_all memberships_cs (memberships g) \<and> sat_all refresh_tokens_cs (refresh_tokens g) \<and>
     sat_all invites_cs (invites g) \<and> sat_all audit_logs_cs (audit_logs g)"

section \<open>Account operations\<close>

definition linked :: "gdb \<Rightarrow> bool" where
  "linked g \<longleftrightarrow> gdb_ok g \<and> account_fks g"

text \<open>An operation keeps the global tables linked, and no user, tenant or plan disappears.\<close>
definition grows :: "gdb \<Rightarrow> gdb \<Rightarrow> bool" where
  "grows g g' \<longleftrightarrow> linked g' \<and> user_ids g \<subseteq> user_ids g' \<and> tenant_ids g \<subseteq> tenant_ids g' \<and> plans g' = plans g"

lemma grows_refl: "linked g \<Longrightarrow> grows g g"
  by (simp add: grows_def)

lemma grows_trans: "grows a b \<Longrightarrow> grows b c \<Longrightarrow> grows a c"
  by (auto simp: grows_def)

lemma grows_linked: "grows g g' \<Longrightarrow> linked g'"
  by (simp add: grows_def)

lemma grows_ids: "grows g g' \<Longrightarrow> i \<in> user_ids g \<Longrightarrow> i \<in> user_ids g'" "grows g g' \<Longrightarrow> t \<in> tenant_ids g \<Longrightarrow> t \<in> tenant_ids g'"
  by (auto simp: grows_def)

lemmas linked_defs = linked_def gdb_ok_def account_fks_defs user_ids_def tenant_ids_def

text \<open>One table is replaced.\<close>
lemma grows_users:
  "linked g \<Longrightarrow> sat_all users_cs rows \<Longrightarrow> user_ids g \<subseteq> e_id ` set rows \<Longrightarrow> grows g (g\<lparr>users := rows\<rparr>)"
  by (auto simp: grows_def linked_defs)

lemma grows_tenants:
  "linked g \<Longrightarrow> sat_all tenants_cs rows \<Longrightarrow> tenant_ids g \<subseteq> e_id ` set rows \<Longrightarrow> grows g (g\<lparr>tenants := rows\<rparr>)"
  by (auto simp: grows_def linked_defs)

lemma grows_memberships:
  "linked g \<Longrightarrow> sat_all memberships_cs rows \<Longrightarrow>
     (\<And>m. m \<in> set rows \<Longrightarrow> mb_userId m \<in> user_ids g \<and> mb_tenantId m \<in> tenant_ids g) \<Longrightarrow> grows g (g\<lparr>memberships := rows\<rparr>)"
  by (auto simp: grows_def linked_defs)

lemma grows_tokens:
  "linked g \<Longrightarrow> sat_all refresh_tokens_cs rows \<Longrightarrow> (\<And>r. r \<in> set rows \<Longrightarrow> rt_userId r \<in> user_ids g) \<Longrightarrow>
     grows g (g\<lparr>refresh_tokens := rows\<rparr>)"
  by (auto simp: grows_def linked_defs)

lemma grows_invites:
  "linked g \<Longrightarrow> sat_all invites_cs rows \<Longrightarrow> (\<And>i. i \<in> set rows \<Longrightarrow> e_tenantId i \<in> tenant_ids g) \<Longrightarrow>
     grows g (g\<lparr>invites := rows\<rparr>)"
  by (auto simp: grows_def linked_defs)

lemma grows_audit: "linked g \<Longrightarrow> sat_all audit_logs_cs rows \<Longrightarrow> grows g (g\<lparr>audit_logs := rows\<rparr>)"
  by (auto simp: grows_def linked_defs)

lemma linked_tables:
  assumes "linked g"
  shows "sat_all tenants_cs (tenants g)" "sat_all users_cs (users g)" "sat_all memberships_cs (memberships g)"
    "sat_all refresh_tokens_cs (refresh_tokens g)" "sat_all invites_cs (invites g)" "sat_all audit_logs_cs (audit_logs g)"
    "m \<in> set (memberships g) \<Longrightarrow> mb_userId m \<in> user_ids g \<and> mb_tenantId m \<in> tenant_ids g"
    "r \<in> set (refresh_tokens g) \<Longrightarrow> rt_userId r \<in> user_ids g"
    "i \<in> set (invites g) \<Longrightarrow> e_tenantId i \<in> tenant_ids g"
  using assms by (auto simp: linked_def gdb_ok_def account_fks_defs)

text \<open>Users.\<close>
lemma user_create_grows:
  assumes "linked g" "user_create u g = (r, g')"
  shows "grows g g'" "r = Inr v \<Longrightarrow> v = u \<and> e_id v \<in> user_ids g'"
proof -
  have "grows g g' \<and> (r = Inr v \<longrightarrow> v = u \<and> e_id v \<in> user_ids g')"
  proof (cases "insert_checked users_cs u (users g)")
    case (Inl e)
    then show ?thesis using assms by (auto simp: user_create_def intro: grows_refl)
  next
    case (Inr rows)
    note eq = insert_checked_eq [OF Inr]
    have "grows g (g\<lparr>users := rows\<rparr>)"
      by (rule grows_users [OF assms(1) users_tbl.insert_sat [OF linked_tables(2) [OF assms(1)] Inr]]) (auto simp: eq user_ids_def)
    then show ?thesis using assms(2) Inr by (auto simp: user_create_def eq user_ids_def)
  qed
  then show "grows g g'" "r = Inr v \<Longrightarrow> v = u \<and> e_id v \<in> user_ids g'" by blast+
qed

lemma linkProvider_grows:
  assumes "linked g"
  shows "grows g (snd (linkProvider i p acc g))"
proof (cases "update_checked users_cs (\<lambda>u. e_id u = i)
    (\<lambda>u. u\<lparr>us_provider := Some p, us_providerAccountId := Some acc\<rparr>) (users g)")
  case (Inl e)
  then show ?thesis by (simp add: linkProvider_def grows_refl assms)
next
  case (Inr rows)
  have "map e_id rows = map e_id (users g)" unfolding update_checked_eq [OF Inr] by (rule map_update_where) simp
  then have "e_id ` set rows = user_ids g" by (metis list.set_map user_ids_def)
  then show ?thesis using grows_users [OF assms users_tbl.update_sat [OF Inr]] by (simp add: linkProvider_def Inr)
qed

lemma found_user: "find p (users g) = Some u \<Longrightarrow> e_id u \<in> user_ids g"
  by (auto simp: user_ids_def dest!: find_Some_mem)

text \<open>Refresh tokens.\<close>
lemma tokens_updated_grows:
  assumes "linked g" "\<And>r. rt_userId (f r) = rt_userId r" "\<And>r. tok_le r (f r)"
  shows "grows g (g\<lparr>refresh_tokens := update_where p f (refresh_tokens g)\<rparr>)"
proof (rule grows_tokens [OF assms(1)])
  show "sat_all refresh_tokens_cs (update_where p f (refresh_tokens g))"
    using tokens_evolve_update [of f g p] assms(3) linked_tables(4) [OF assms(1)] by (simp add: tokens_evolve_def)
  show "rt_userId r \<in> user_ids g" if "r \<in> set (update_where p f (refresh_tokens g))" for r
    using that linked_tables(8) [OF assms(1)] assms(2) by (auto simp: set_update_where)
qed

lemma revokeFamily_grows: "linked g \<Longrightarrow> grows g (revokeFamily fam stamp g)"
  unfolding revokeFamily_def by (rule tokens_updated_grows) (simp_all add: tok_le_def live_def)

lemma markUsed_grows: "linked g \<Longrightarrow> grows g (snd (markUsedIfUnused i stamp g))"
  unfolding markUsedIfUnused_def Let_def snd_conv by (rule tokens_updated_grows) (simp_all add: tok_le_def live_def)

lemma refresh_issue_grows:
  assumes "linked g" "u \<in> user_ids g"
  shows "grows g (snd (refresh_issue env dr now u sc fam g))"
proof (cases "insert_checked refresh_tokens_cs (refresh_row env dr now u sc fam) (refresh_tokens g)")
  case (Inl e)
  then show ?thesis by (simp add: refresh_issue_def grows_refl assms)
next
  case (Inr rows)
  have "grows g (g\<lparr>refresh_tokens := rows\<rparr>)"
  proof (rule grows_tokens [OF assms(1) refresh_tokens_tbl.insert_sat [OF linked_tables(4) [OF assms(1)] Inr]])
    show "rt_userId r \<in> user_ids g" if "r \<in> set rows" for r
      using that assms linked_tables(8) [OF assms(1)] by (auto simp: insert_checked_eq [OF Inr] refresh_row_def)
  qed
  then show ?thesis by (simp add: refresh_issue_def Inr)
qed

lemma issueSession_grows: "linked g \<Longrightarrow> u \<in> user_ids g \<Longrightarrow> grows g (snd (issueSession env dr u sc g))"
  using refresh_issue_grows [of g u env dr "dr_js dr 3" sc None]
  by (auto simp: issueSession_def split: sum.splits prod.splits)

lemma refresh_claim_grows:
  assumes "linked g" "refresh_claim env dr pt g = (r, g1)"
  shows "grows g g1" "r = Inr cl \<Longrightarrow> cl_userId cl \<in> user_ids g"
proof -
  have "grows g g1 \<and> (r = Inr cl \<longrightarrow> cl_userId cl \<in> user_ids g)"
  proof (cases "refresh_check env (dr_js dr 0) pt g")
    case (Inl e)
    then show ?thesis using assms by (auto simp: refresh_claim_def intro: grows_refl)
  next
    case (Inr t)
    have u: "rt_userId t \<in> user_ids g"
      using linked_tables(8) [OF assms(1)] findByHash_mem [OF refresh_check_Inr(1) [OF Inr]] by blast
    obtain won g0 where m: "markUsedIfUnused (e_id t) (dr_js dr 1) g = (won, g0)" by fastforce
    then have g0: "grows g g0" using markUsed_grows [OF assms(1), of "e_id t" "dr_js dr 1"] by simp
    then show ?thesis using assms(2) Inr m u revokeFamily_grows [OF grows_linked [OF g0]]
      by (auto simp: refresh_claim_def refresh_consume_def split: if_splits intro: grows_trans)
  qed
  then show "grows g g1" "r = Inr cl \<Longrightarrow> cl_userId cl \<in> user_ids g" by simp_all
qed


text \<open>Sessions.\<close>
lemma register_grows:
  assumes "linked g"
  shows "grows g (snd (register env dr d g))"
proof (cases "user_findByEmail (rd_email d) g")
  case (Some u)
  then show ?thesis by (simp add: register_def grows_refl assms)
next
  case None
  let ?u = "user_row (dr_id dr 1) (dr_now dr) (rd_email d) (rd_name d) (Some (ae_bcrypt_hash env (rd_password d))) None None"
  obtain r g1 where c: "user_create ?u g = (r, g1)" by fastforce
  note g1 = user_create_grows(1) [OF assms c]
  have "grows g (snd (issueSession env dr (e_id v) identity_only g1))" if "r = Inr v" for v
    using issueSession_grows [OF grows_linked [OF g1]] user_create_grows(2) [OF assms c that] grows_trans [OF g1] by blast
  then show ?thesis using None c g1 by (cases r) (auto simp: register_def)
qed

lemma issueSessionFor_grows: "linked g \<Longrightarrow> e_id u \<in> user_ids g \<Longrightarrow> grows g (snd (issueSessionFor env dr u g))"
  unfolding issueSessionFor_def by (rule issueSession_grows)

lemma login_grows: "linked g \<Longrightarrow> grows g (snd (login env dr em pw g))"
  by (auto simp: login_def user_findByEmail_def grows_refl split: option.splits intro!: issueSessionFor_grows dest: found_user)

lemma switchTenant_grows: "linked g \<Longrightarrow> e_id u \<in> user_ids g \<Longrightarrow> grows g (snd (switchTenant env dr u t g))"
  by (auto simp: switchTenant_def Let_def grows_refl intro: issueSession_grows)

lemma resolveGoogleUser_grows:
  assumes "linked g" "resolveGoogleUser dr ident g = (r, g')"
  shows "grows g g'" "r = Inr v \<Longrightarrow> e_id v \<in> user_ids g'"
proof -
  have "grows g g' \<and> (r = Inr v \<longrightarrow> e_id v \<in> user_ids g')"
  proof (cases "gi_emailVerified ident \<and> user_findByProviderAccount ''google'' (gi_sub ident) g = None")
    case False
    then show ?thesis using assms
      by (auto simp: resolveGoogleUser_def user_findByProviderAccount_def grows_refl split: if_splits dest: found_user)
  next
    case new: True
    show ?thesis
    proof (cases "user_findByEmail (gi_email ident) g")
      case None
      then show ?thesis using assms new user_create_grows [OF assms(1)] by (auto simp: resolveGoogleUser_def)
    next
      case (Some u)
      obtain x g1 where l: "linkProvider (e_id u) ''google'' (gi_sub ident) g = (x, g1)" by fastforce
      then have g1: "grows g g1" using linkProvider_grows [OF assms(1)] by (metis snd_conv)
      have "e_id u \<in> user_ids g" using Some by (auto simp: user_findByEmail_def dest: found_user)
      then show ?thesis using assms(2) new Some l g1 by (cases x) (auto simp: resolveGoogleUser_def intro: grows_ids)
    qed
  qed
  then show "grows g g'" "r = Inr v \<Longrightarrow> e_id v \<in> user_ids g'" by blast+
qed

lemma google_callback_grows:
  assumes "linked g"
  shows "grows g (snd (google_callback env dr outcome g))"
proof (cases outcome)
  case Google_Refuses
  then show ?thesis by (simp add: google_callback_def grows_refl assms)
next
  case (Google_Profile p)
  show ?thesis
  proof (cases "toIdentity p")
    case (Inl e)
    then show ?thesis by (simp add: google_callback_def google_verify_def Google_Profile grows_refl assms)
  next
    case (Inr ident)
    obtain r g1 where c: "resolveGoogleUser dr ident g = (r, g1)" by fastforce
    note g1 = resolveGoogleUser_grows(1) [OF assms c]
    have "grows g (snd (issueSessionFor env dr v g1))" if "r = Inr v" for v
      using issueSessionFor_grows [OF grows_linked [OF g1]] resolveGoogleUser_grows(2) [OF assms c that] grows_trans [OF g1] by blast
    then show ?thesis using Google_Profile Inr c g1
      by (cases r) (auto simp: google_callback_def google_verify_def split: prod.splits sum.splits)
  qed
qed

lemma refresh_grows:
  assumes "linked g"
  shows "grows g (snd (refresh env dr pt g))"
proof -
  obtain r g1 where c: "refresh_claim env dr pt g = (r, g1)" by fastforce
  note g1 = refresh_claim_grows(1) [OF assms c]
  note l1 = grows_linked [OF g1]
  show ?thesis
  proof (cases r)
    case (Inl e)
    then show ?thesis using c g1 by (simp add: refresh_def)
  next
    case (Inr cl)
    have u: "cl_userId cl \<in> user_ids g1" by (rule grows_ids(1) [OF g1 refresh_claim_grows(2) [OF assms c Inr]])
    have i: "grows g (snd (refresh_issue env dr now (cl_userId cl) sc fam g1))" for now sc fam
      by (rule grows_trans [OF g1 refresh_issue_grows [OF l1 u]])
    have v: "grows g (revokeFamily fam stamp g1)" for fam stamp
      by (rule grows_trans [OF g1 revokeFamily_grows [OF l1]])
    show ?thesis using c Inr v i
      by (auto simp: refresh_def Let_def split: option.splits prod.splits sum.splits) (metis snd_conv)+
  qed
qed

lemma logout_grows: "linked g \<Longrightarrow> grows g (logout env dr pt g)"
  by (auto simp: logout_def refresh_revoke_def revokeFamily_grows grows_refl split: option.splits)

text \<open>Tenants, invitations and administration.\<close>
lemma membership_create_grows:
  assumes "linked g" "membership_create mid now u t role g = Inr (m, g')" "u \<in> user_ids g" "t \<in> tenant_ids g"
  shows "grows g g'"
proof -
  note m = membership_create_Inr [OF assms(2)]
  show ?thesis unfolding m(2)
  proof (rule grows_memberships [OF assms(1) memberships_tbl.insert_sat [OF linked_tables(3) [OF assms(1)] m(3)]])
    show "mb_userId x \<in> user_ids g \<and> mb_tenantId x \<in> tenant_ids g" if "x \<in> set (memberships g @ [m])" for x
      using that assms(3,4) linked_tables(7) [OF assms(1)] by (auto simp: m(1))
  qed
qed

lemma onboard_grows:
  assumes "linked g" "onboard tid mid now u d g = Inr (tn, g')" "u \<in> user_ids g"
  shows "grows g g'"
proof -
  obtain rows m where o: "insert_checked tenants_cs (tenant_row tid now d) (tenants g) = Inr rows"
      "membership_create mid now u tid Owner (g\<lparr>tenants := rows\<rparr>) = Inr (m, g')"
    using assms(2) by (auto simp: onboard_def result_simps tenant_row_def)
  note eq = insert_checked_eq [OF o(1)]
  have g1: "grows g (g\<lparr>tenants := rows\<rparr>)"
    by (rule grows_tenants [OF assms(1) tenants_tbl.insert_sat [OF linked_tables(1) [OF assms(1)] o(1)]]) (auto simp: eq tenant_ids_def)
  have "tid \<in> tenant_ids (g\<lparr>tenants := rows\<rparr>)" by (auto simp: eq tenant_ids_def tenant_row_def)
  from membership_create_grows [OF grows_linked [OF g1] o(2) grows_ids(1) [OF g1 assms(3)] this] show ?thesis
    by (rule grows_trans [OF g1])
qed

lemma tenant_create_grows:
  assumes "linked g" "e_id u \<in> user_ids g"
  shows "grows g (snd (tenant_create_endpoint env dr u d g))"
proof (cases "onboard (dr_id dr 1) (dr_id dr 2) (dr_now dr) (e_id u) d g")
  case (Inl e)
  then show ?thesis by (simp add: tenant_create_endpoint_def grows_refl assms)
next
  case (Inr p)
  obtain tn g1 where p: "p = (tn, g1)" by fastforce
  note g1 = onboard_grows [OF assms(1) Inr [unfolded p] assms(2)]
  have "grows g (snd (startTenantSession env dr (e_id u) (e_id tn) Owner g1))" unfolding startTenantSession_def
    by (rule grows_trans [OF g1 issueSession_grows [OF grows_linked [OF g1] grows_ids(1) [OF g1 assms(2)]]])
  then show ?thesis using Inr p by (auto simp: tenant_create_endpoint_def split: prod.splits sum.splits)
qed

lemma invite_create_grows:
  assumes "linked g" "\<And>t. getTenantId c = Inr t \<Longrightarrow> t \<in> tenant_ids g"
  shows "grows g (snd (invite_create env c i now js_now token em role g))"
proof (cases "getTenantId c")
  case (Inl e)
  then show ?thesis by (simp add: invite_create_def grows_refl assms(1))
next
  case t: (Inr t)
  show ?thesis
  proof (cases "insert_checked invites_cs (invite_row env i now js_now t token em role) (invites g)")
    case (Inl e)
    then show ?thesis by (simp add: invite_create_def t Let_def grows_refl assms(1))
  next
    case (Inr rows)
    have "grows g (g\<lparr>invites := rows\<rparr>)"
    proof (rule grows_invites [OF assms(1) invites_tbl.insert_sat [OF linked_tables(5) [OF assms(1)] Inr]])
      show "e_tenantId x \<in> tenant_ids g" if "x \<in> set rows" for x
        using that assms(2) [OF t] linked_tables(9) [OF assms(1)] by (auto simp: insert_checked_eq [OF Inr] invite_row_def)
    qed
    then show ?thesis by (simp add: invite_create_def t Let_def Inr)
  qed
qed

lemma invites_marked_grows:
  assumes "linked g"
  shows "grows g (snd (markAcceptedIfPending i stamp g))"
  unfolding markAcceptedIfPending_def Let_def snd_conv
proof (rule grows_invites [OF assms invites_tbl.update_harmless [OF linked_tables(5) [OF assms]]])
  show "e_tenantId x \<in> tenant_ids g"
    if "x \<in> set (update_where (\<lambda>r. e_id r = i \<and> inv_acceptedAt r = None) (\<lambda>r. r\<lparr>inv_acceptedAt := Some stamp\<rparr>) (invites g))" for x
    using that linked_tables(9) [OF assms] by (auto simp: set_update_where)
qed (auto simp: invites_cs_def pk_conflict_def split: if_splits)

lemma invite_accept_grows:
  assumes "linked g" "e_id u \<in> user_ids g"
  shows "grows g (snd (invite_accept env mid now js_now stamp u token g))"
proof (cases "invite_check env js_now u token g")
  case (Inl e)
  then show ?thesis by (simp add: invite_accept_def grows_refl assms)
next
  case (Inr iv)
  have iv: "e_tenantId iv \<in> tenant_ids g"
    using invite_check_Inr(1) [OF Inr] linked_tables(9) [OF assms(1)] by (auto simp: invite_findByHash_def dest: find_Some_mem)
  show ?thesis
  proof (cases "membership_create mid now (e_id u) (e_tenantId iv) (inv_role iv) g")
    case (Inl e)
    then show ?thesis by (simp add: invite_accept_def invite_redeem_def Inr grows_refl assms)
  next
    case (Inr p)
    obtain m g1 where p: "p = (m, g1)" by fastforce
    note g1 = membership_create_grows [OF assms(1) Inr [unfolded p] assms(2) iv]
    from grows_trans [OF g1 invites_marked_grows [OF grows_linked [OF g1]]] show ?thesis
      by (simp add: invite_accept_def invite_redeem_def \<open>invite_check env js_now u token g = Inr iv\<close> Inr p)
  qed
qed

lemma audit_record_grows: "linked g \<Longrightarrow> audit_record r g = Inr g' \<Longrightarrow> grows g g'"
  using audit_logs_tbl.insert_sat [OF linked_tables(6)] by (auto simp: audit_record_def result_simps intro: grows_audit)

lemma changeStatus_grows:
  assumes "linked g" "changeStatus i now actor t st act reason g = Inr (tn, g')"
  shows "grows g g'"
proof -
  obtain old rows where "tenant_findById t g = Some old" and o: "update_checked tenants_cs (\<lambda>r. e_id r = e_id old) (\<lambda>r. r\<lparr>tn_status := st\<rparr>) (tenants g) = Inr rows"
      "audit_record (audit_row i now actor act t (audit_reason reason)) (g\<lparr>tenants := rows\<rparr>) = Inr g'"
    using assms(2) by (auto simp: changeStatus_def result_simps)
  have "map e_id rows = map e_id (tenants g)" unfolding update_checked_eq [OF o(1)] by (rule map_update_where) simp
  then have "e_id ` set rows = tenant_ids g" by (metis list.set_map tenant_ids_def)
  then have g1: "grows g (g\<lparr>tenants := rows\<rparr>)" using grows_tenants [OF assms(1) tenants_tbl.update_sat [OF o(1)]] by simp
  from audit_record_grows [OF grows_linked [OF g1] o(2)] show ?thesis by (rule grows_trans [OF g1])
qed

lemma getTenantDetail_grows: "linked g \<Longrightarrow> grows g (snd (getTenantDetail i now actor t db g))"
  by (auto simp: getTenantDetail_def grows_refl split: sum.splits intro: audit_record_grows)


section \<open>Account requests\<close>

lemma snd_answers [simp]: "snd (answers v r) = snd r"
  by (auto simp: answers_def split: prod.splits sum.splits)

lemma as_user_grows:
  assumes "linked g" "\<And>x. u = Some x \<Longrightarrow> grows g (snd (f x g))"
  shows "grows g (snd (as_user env u f g))"
  using assms by (cases u) (simp_all add: as_user_def grows_refl)

lemma in_tx_grows: "linked g \<Longrightarrow> (\<And>x g'. r = Inr (x, g') \<Longrightarrow> grows g g') \<Longrightarrow> grows g (snd (in_tx g r))"
  by (auto simp: in_tx_def grows_refl split: sum.splits)

lemma account_controller_grows:
  assumes "linked g" "\<And>x. u = Some x \<Longrightarrow> e_id x \<in> user_ids g" "\<And>t. getTenantId c = Inr t \<Longrightarrow> t \<in> tenant_ids g"
  shows "grows g (snd (account_controller env c u k db g))"
  by (cases k rule: account_route.cases)
    (auto simp: account_controller_def tenant_controller_def plan_controller_def suspend_def reactivate_def assms(1)
      intro!: grows_refl register_grows login_grows refresh_grows logout_grows as_user_grows in_tx_grows switchTenant_grows
        tenant_create_grows invite_create_grows invite_accept_grows getTenantDetail_grows assms
      intro: changeStatus_grows)

lemma entry_tenant: "getTenantId (entry_ctx (tenant_middleware penv header g)) = Inr t \<Longrightarrow> t \<in> tenant_ids g"
  using pinned_tenant(4) [of penv header g _ t]
  by (auto simp: entry_ctx_def getTenantId_def tenant_tx_def tenant_findById_def tenant_ids_def split: entry.splits if_splits
      dest!: find_Some_mem)

lemma current_user_known: "current_user penv header g = Some u \<Longrightarrow> e_id u \<in> user_ids g"
  by (auto simp: current_user_def jwt_user_def user_findById_def split: option.splits dest: found_user)

lemma account_answer_grows:
  assumes "linked g"
  shows "grows g (snd (account_answer env penv header r k db g))"
proof -
  have "grows g (snd (account_controller env (entry_ctx (tenant_middleware penv header g))
      (if rt_roles r = None then None else current_user penv header g) k db g))"
    by (rule account_controller_grows [OF assms]) (auto intro: entry_tenant current_user_known split: if_splits)
  then show ?thesis by (auto simp: account_answer_def grows_refl assms split: prod.splits sum.splits)
qed

lemma platform_dispatch_grows:
  assumes "linked g" "platform_dispatch pf limited trace rq g db = (x, g', db')"
  shows "grows g g'"
  using assms
  by (auto simp: platform_dispatch_def account_effect_def google_effect_def Let_def grows_refl
      split: prod.splits response.splits option.splits if_splits
      intro: account_answer_grows google_callback_grows)


section \<open>Tenant operations\<close>

text \<open>Staff rows name known users and subscriptions known plans, if they did before.\<close>
definition bound_to :: "gdb \<Rightarrow> tdb \<Rightarrow> tdb \<Rightarrow> bool" where
  "bound_to g db db' \<longleftrightarrow>
     st_userId ` set (staff_tbl db') \<subseteq> st_userId ` set (staff_tbl db) \<union> user_ids g \<and>
     sub_planId ` set (subscriptions db') \<subseteq> sub_planId ` set (subscriptions db) \<union> plan_ids g"

lemma bound_to_transp: "transp (bound_to g)"
  unfolding bound_to_def by (rule transpI) blast

lemma bound_to_same: "staff_tbl db' = staff_tbl db \<Longrightarrow> subscriptions db' = subscriptions db \<Longrightarrow> bound_to g db db'"
  by (auto simp: bound_to_def)

lemma persist_set: "persist c cs r rows = Inr (r', rows') \<Longrightarrow> \<exists>t. set rows' = insert (r\<lparr>e_tenantId := t\<rparr>) (set rows)"
  by (fastforce simp: persist_def Let_def result_simps split: if_splits dest!: insert_checked_eq)

lemma rls_update_image:
  assumes "rls_update c cs p f rows = Inr (n, rows')" "\<And>r. h (f r) = h r"
  shows "h ` set rows' = h ` set rows"
proof -
  obtain q where "rows' = update_where q f rows"
    using assms(1) by (auto simp: rls_update_def Let_def result_simps dest!: update_checked_eq)
  then have "map h rows' = map h rows" using assms(2) by (simp add: map_update_where)
  then show ?thesis by (metis list.set_map)
qed

text \<open>Operations of the other components leave both tables.\<close>
lemma others_bound:
  "effects (bound_to g) db (service_create c i now cd db)"
  "effects (bound_to g) db (service_update c i ud db)"
  "effects (bound_to g) db (service_remove c now i db)"
  "effects (bound_to g) db (customer_create c i now cc db)"
  "effects (bound_to g) db (link c i now st sv db)"
  "effects (bound_to g) db (unlink c st sv db)"
  "effects (bound_to g) db (working_hours_create c i now st wd db)"
  "effects (bound_to g) db (working_hours_remove c i db)"
  "effects (bound_to g) db (time_off_create c i now st td db)"
  "effects (bound_to g) db (time_off_remove c i db)"
  "effects (bound_to g) db (webhook_create parse c i now secret url db)"
  "effects (bound_to g) db (webhook_remove c now i db)"
  unfolding service_create_def service_update_def service_repo_update_def service_remove_def service_softRemove_def
    customer_create_def link_def unlink_def capability_repo_unlink_def working_hours_create_def
    working_hours_remove_def working_hours_repo_remove_def time_off_create_def time_off_remove_def
    time_off_repo_remove_def webhook_create_def webhook_remove_def webhook_repo_remove_def
  by (auto simp: effects_def Let_def rls_delete_def result_simps split: sum.splits option.splits if_splits prod.splits
      intro!: bound_to_same)

text \<open>A new staff member is a member of the tenant, hence a user.\<close>
lemma resolved_member: "linked g \<Longrightarrow> resolveRole u t g \<noteq> None \<Longrightarrow> u \<in> user_ids g"
  using linked_tables(7) [of g] by (auto simp: resolveRole_def dest!: find_Some_mem)

lemma staff_bound:
  "linked g \<Longrightarrow> effects (bound_to g) db (staff_create c i now sd g db)"
  "effects (bound_to g) db (staff_update c i su db)"
  "effects (bound_to g) db (staff_remove c now i db)"
proof -
  have new: "bound_to g db (db\<lparr>staff_tbl := rows\<rparr>)"
    if "linked g" "resolveRole (csd_userId sd) t g \<noteq> None"
      "persist c staff_cs (staff_of_dto i now sd) (staff_tbl db) = Inr (r, rows)" for t r rows
    using persist_set [OF that(3)] resolved_member [OF that(1,2)] by (auto simp: bound_to_def staff_of_dto_def)
  show "linked g \<Longrightarrow> effects (bound_to g) db (staff_create c i now sd g db)"
    unfolding staff_create_def by (intro safe_intros safe_read) (auto simp: guardE_eq dest: new)
  have keep: "bound_to g db (db\<lparr>staff_tbl := rows\<rparr>)"
    if "rls_update c staff_cs q f (staff_tbl db) = Inr (n, rows)" "\<And>r. st_userId (f r) = st_userId r" for q f n rows
    using rls_update_image [where h = st_userId, OF that] by (auto simp: bound_to_def)
  note wr = effects_write [OF bound_to_transp]
  have "effects (bound_to g) db (staff_repo_update c i su db)" unfolding staff_repo_update_def
    by (intro safe_intros safe_read) (auto intro!: keep simp: apply_staff_update_def)
  then show "effects (bound_to g) db (staff_update c i su db)" unfolding staff_update_def
    by (intro wr safe_prod safe_read safe_Inr) (auto intro: bound_to_same)
  have "effects (bound_to g) db (staff_softRemove c now i db)" unfolding staff_softRemove_def
    by (intro safe_intros safe_read) (auto intro!: keep)
  then show "effects (bound_to g) db (staff_remove c now i db)" unfolding staff_remove_def
    by (intro wr safe_intros) (auto intro: bound_to_same)
qed

lemma subscribe_bound: "effects (bound_to g) db (subscribe env (tenant_tx t) nonce i now planId p g db)"
proof -
  have "effects (bound_to g) db (subscription_create (tenant_tx t) (subscription_row i now (e_id pl) p ref st) db)"
    if "plan_findById planId g = Some pl" for pl ref st
  proof -
    have "e_id pl \<in> plan_ids g" using that by (auto simp: plan_findById_def plan_ids_def dest: find_Some_mem)
    then have "bound_to g db (db\<lparr>subscriptions := rows\<rparr>)"
      if "persist (tenant_tx t) subscriptions_cs (subscription_row i now (e_id pl) p ref st) (subscriptions db) = Inr (s, rows)" for s rows
      using persist_set [OF that] by (auto simp: bound_to_def subscription_row_def)
    then show ?thesis unfolding subscription_create_def by (intro safe_intros safe_read) auto
  qed
  then show ?thesis unfolding subscribe_def
    by (intro safe_read safe_Let safe_mapErr) (auto simp: requireE_eq intro!: safe_Inr dest!: effectsD)
qed

text \<open>Bookings and series.\<close>
lemma booking_frame_parties: "booking_frame db db' \<Longrightarrow> staff_tbl db' = staff_tbl db \<and> subscriptions db' = subscriptions db"
  unfolding booking_frame_def by (cases db; cases db') simp

lemma booking_step_bound:
  "booking_step t db db' \<Longrightarrow> t \<noteq> [] \<Longrightarrow> services_wf db \<Longrightarrow> sat_all bookings_cs (bookings db) \<Longrightarrow> bound_to g db db'"
  by (drule (3) booking_step_effect) (auto dest: booking_frame_parties intro: bound_to_same)

lemma createOccurrence_bound:
  assumes "t \<noteq> []" "\<And>s e. bd_startsAt spec = Some s \<Longrightarrow> bd_endsAt spec = Some e \<Longrightarrow> s < e"
  shows "effects (bound_to g) db (createOccurrence (tenant_tx t) i ev now spec rid db)"
proof (cases "createOccurrence (tenant_tx t) i ev now spec rid db")
  case (Inr p)
  then obtain b db' where r: "createOccurrence (tenant_tx t) i ev now spec rid db = Inr (b, db')" by (cases p) simp
  have "booking_frame db db'" by (rule booking_frameI [OF createOccurrence_inserts(5) [OF assms(1) r assms(2)]])
  then show ?thesis by (auto simp: r effects_def dest: booking_frame_parties intro: bound_to_same)
qed (simp add: effects_def)

lemma recurrence_create_bound:
  "t \<noteq> [] \<Longrightarrow> services_wf db \<Longrightarrow> effects (bound_to g) db (recurrence_create lx (tenant_tx t) rid bid evid now d g' db)"
  by (rule recurrence_create_effects [OF bound_to_transp _ recurrence_createOne_row createOccurrence_bound])
    (auto intro: bound_to_same)

lemma controller_bound:
  assumes "linked g" "t \<noteq> []" "services_wf db" "sat_all bookings_cs (bookings db)"
    and "controller env g call (tenant_tx t) db = Inr (v, db')"
  shows "bound_to g db db'"
proof -
  note bk = booking_step_bound [OF _ assms(2-4)]
  show ?thesis using assms(5)
    by (cases call rule: call_route.cases)
      (auto simp: controller_simps confirm_def complete_booking_def cancel_def noShow_def reschedule_endpoint_def
        dest!: reads_db writes_Inr intro: bound_to_same others_bound [THEN effectsD] staff_bound(1) [OF assms(1), THEN effectsD]
          staff_bound(2,3) [THEN effectsD] subscribe_bound [THEN effectsD]
          recurrence_create_bound [OF assms(2,3), THEN effectsD] bk booking_step.requested booking_step.moved
          booking_step.rescheduled booking_step.series_cancelled)
qed


section \<open>Every reachable state\<close>

text \<open>A tenant's operation leaves rows of known tenants and of its own.\<close>
lemma foreign_rows_owners:
  assumes "foreign_rows t rows' = foreign_rows t rows"
  shows "e_tenantId ` set rows' \<subseteq> insert t (e_tenantId ` set rows)"
proof -
  have "r \<in> set rows" if "r \<in> set rows'" "e_tenantId r \<noteq> t" for r
    using that assms by (metis (mono_tags, lifting) foreign_rows_def mem_Collect_eq set_filter)
  then show ?thesis by auto
qed

lemma insert_Un_mono: "A' \<subseteq> insert t A \<Longrightarrow> B' \<subseteq> insert t B \<Longrightarrow> A' \<union> B' \<subseteq> insert t (A \<union> B)"
  by blast

lemma foreign_unchanged_owners:
  assumes "foreign_unchanged t db db'"
  shows "set (owners db') \<subseteq> insert t (set (owners db))"
  using assms unfolding foreign_unchanged_def owners_def set_append set_map
  by (elim conjE) (intro insert_Un_mono foreign_rows_owners; assumption)

lemma tenancy_fks_step:
  assumes "tenancy_fks g db" "bound_to g db db'" "set (owners db') \<subseteq> set (owners db) \<union> tenant_ids g"
  shows "tenancy_fks g db'"
  using assms by (auto simp: tenancy_fks_defs bound_to_def list_all_iff)

lemma tenancy_fks_grows: "tenancy_fks g db \<Longrightarrow> grows g g' \<Longrightarrow> tenancy_fks g' db"
  by (auto simp: tenancy_fks_defs grows_def list_all_iff plan_ids_def)

text \<open>The payment webhook notes a receipt and moves a subscription; the relay marks events.\<close>
lemma apply_event_owners:
  assumes "apply_event i now p e ty r (tenant_tx t) db = Inr (u, db')"
  shows "bound_to g db db' \<and> owners db' = owners db"
  using assms
proof (cases rule: apply_event_cases)
  case noted
  then show ?thesis by (auto simp: claimEvent_def owners_def intro: bound_to_same split: sum.splits)
next
  case (applied s db1)
  have "owners db1 = owners db" "staff_tbl db1 = staff_tbl db" "subscriptions db1 = subscriptions db"
    using applied(1) by (auto simp: claimEvent_def owners_def split: sum.splits)
  moreover have "map e_tenantId (update_where q (\<lambda>s. s\<lparr>sub_status := st\<rparr>) rows) = map e_tenantId rows"
      "map sub_planId (update_where q (\<lambda>s. s\<lparr>sub_status := st\<rparr>) rows) = map sub_planId rows" for q st and rows :: "subscription list"
    by (simp_all add: map_update_where)
  ultimately show ?thesis using subscription_updateStatus_tx(1) [OF applied(4)]
    by (simp add: owners_def bound_to_def) (metis list.set_map sup_ge1)
qed (auto intro: bound_to_same)

lemma process_events_owners:
  "process_events dispatch clk evs q rows n = (m, q', rows') \<Longrightarrow> map e_tenantId rows' = map e_tenantId rows"
proof (induction evs arbitrary: q rows n)
  case (Cons ev evs)
  have kept: "map e_tenantId (update_where p f rows) = map e_tenantId rows" if "\<And>e. e_tenantId (f e) = e_tenantId e"
    for p and f :: "outbox_event \<Rightarrow> outbox_event" and rows
    using that by (simp add: map_update_where)
  from Cons show ?case
    by (auto simp: markDispatched_def markFailed_def kept Let_def split: prod.splits if_splits)
qed simp

lemma relay_owners:
  "processBatch dispatch clk now locked batchSize q (outbox_events db) = (n, q', rows) \<Longrightarrow>
     owners (db\<lparr>outbox_events := rows\<rparr>) = owners db"
  unfolding processBatch_def by (drule process_events_owners) (simp add: owners_def)

lemma payment_owners:
  assumes "handleWebhook penv isUUID pg_text now_ms i now provider raw header db = Inr (u, db')"
  shows "bound_to g db db' \<and> owners db' = owners db"
proof -
  obtain p ev where c: "consumeWebhook isUUID pg_text i now p ev db = Inr (u, db')"
    using assms by (auto simp: handleWebhook_def result_simps Let_def)
  show ?thesis
  proof (cases rule: consumeWebhook_cases [OF c])
    case (2 r t)
    from apply_event_owners [OF 2(3)] show ?thesis .
  qed (auto intro: bound_to_same)
qed

lemma platform_request_tables:
  assumes "platform_dispatch pf limited trace rq g db = (x, g', db')" "linked g" "tenancy_fks g db" "tdb_ok db" "data_ok db"
  shows "tenancy_fks g db'"
proof (cases "db' = db")
  case False
  obtain other where d: "app_dispatch (pf_express pf) (pf_server pf) (pf_pipeline pf)
      (api_handler (pf_call pf) (pf_decode pf) other g) limited trace rq g db = (x, db')"
    using assms(1) by (fastforce simp: platform_dispatch_def Let_def split: prod.splits)
  obtain r y where "serve (pf_pipeline pf) (rt_roles r) (api_handler (pf_call pf) (pf_decode pf) other g r) (hr_authorization rq) g db = (y, db')"
    by (rule dispatch_served [OF d False])
  then obtain claims t call v where p: "tenant_middleware (pf_pipeline pf) (hr_authorization rq) g = Pinned claims t"
      "valid_call (pf_call pf) call" "controller (pf_call pf) g call (tenant_tx t) db = Inr (v, db')"
    using served_call False by metis
  have ne: "t \<noteq> []" by (rule pinned_tenant(1) [OF p(1)])
  have "services_wf db" "sat_all bookings_cs (bookings db)" using assms(4,5) by (simp_all add: data_ok_def tdb_ok_def)
  from controller_bound [OF assms(2) ne this p(3)] have "bound_to g db db'" .
  moreover have "t \<in> tenant_ids g"
    using pinned_tenant(4) [OF p(1)] by (auto simp: tenant_findById_def tenant_ids_def dest!: find_Some_mem)
  moreover have "db_safe t db db'" using controller_op [OF p(3,2)] False by (blast intro: tenant_op_safe)
  then have "set (owners db') \<subseteq> insert t (set (owners db))" by (simp add: db_safe_def foreign_unchanged_owners)
  ultimately show ?thesis by (intro tenancy_fks_step [OF assms(3)]) auto
qed (use assms in simp)

lemma platform_reach_linked: "platform_reach lx dispatch g db \<Longrightarrow> linked g \<and> tenancy_fks g db"
proof (induction rule: platform_reach.induct)
  case (platform_start ps us)
  then show ?case
    by (simp add: linked_def gdb_ok_def account_fks_defs tenancy_fks_defs empty_gdb_def empty_tdb_def owners_def sat_all_def violates_def
        split: prod.splits)
next
  case (platform_request g db pf limited trace rq x g' db')
  have "tdb_ok db" "data_ok db"
    using system_reach_ok [OF http_reach_system [OF platform_reach_http [OF platform_request.hyps(1)]]] by simp_all
  then have "tenancy_fks g db'"
    using platform_request_tables [OF platform_request.hyps(3)] platform_request.IH by blast
  moreover have "grows g g'" using platform_dispatch_grows [OF _ platform_request.hyps(3)] platform_request.IH by blast
  ultimately show ?case using tenancy_fks_grows grows_linked by blast
next
  case (platform_payment g db paenv isUUID pg_text now_ms i now provider raw header u db')
  then show ?case using payment_owners [OF platform_payment.hyps(2), of g] by (auto intro: tenancy_fks_step)
next
  case (platform_relay g db clk now locked batchSize q n q' rows)
  then show ?case using relay_owners [OF platform_relay.hyps(2)] by (simp add: tenancy_fks_defs)
qed


section \<open>Who gains and who administers\<close>

text \<open>Sessions leave tenants, memberships, invitations and the audit trail.\<close>
definition sessions_only :: "gdb \<Rightarrow> gdb \<Rightarrow> bool" where
  "sessions_only g g' \<longleftrightarrow>
     tenants g' = tenants g \<and> memberships g' = memberships g \<and> invites g' = invites g \<and> audit_logs g' = audit_logs g"

lemma sessions_only_trans: "sessions_only a b \<Longrightarrow> sessions_only b c \<Longrightarrow> sessions_only a c"
  by (simp add: sessions_only_def)

lemma sessions_only_simps [simp]:
  "sessions_only g g" "sessions_only g (g\<lparr>users := us\<rparr>)" "sessions_only g (g\<lparr>refresh_tokens := ts\<rparr>)"
  by (simp_all add: sessions_only_def)

lemma user_create_only: "sessions_only g (snd (user_create u g))"
  by (auto simp: user_create_def split: sum.splits)

lemma linkProvider_only: "sessions_only g (snd (linkProvider i p acc g))"
  by (auto simp: linkProvider_def split: sum.splits)

lemma revokeFamily_only: "sessions_only g (revokeFamily fam stamp g)"
  by (simp add: revokeFamily_def)

lemma refresh_issue_only: "sessions_only g (snd (refresh_issue env dr now u sc fam g))"
  by (auto simp: refresh_issue_def split: sum.splits)

lemma issueSession_only: "sessions_only g (snd (issueSession env dr u sc g))"
  using refresh_issue_only [of g env dr "dr_js dr 3" u sc None] by (auto simp: issueSession_def split: sum.splits prod.splits)

lemma refresh_claim_only: "sessions_only g (snd (refresh_claim env dr pt g))"
  by (auto simp: refresh_claim_def refresh_consume_def markUsedIfUnused_def Let_def revokeFamily_def sessions_only_def split: sum.splits)

lemma register_only: "sessions_only g (snd (register env dr d g))"
proof (cases "user_findByEmail (rd_email d) g")
  case None
  let ?u = "user_row (dr_id dr 1) (dr_now dr) (rd_email d) (rd_name d) (Some (ae_bcrypt_hash env (rd_password d))) None None"
  obtain r g1 where c: "user_create ?u g = (r, g1)" by fastforce
  then have "sessions_only g g1" using user_create_only [of g ?u] by simp
  then show ?thesis using None c
    by (cases r) (auto simp: register_def intro: sessions_only_trans issueSession_only)
qed (simp add: register_def)

lemma issueSessionFor_only: "sessions_only g (snd (issueSessionFor env dr u g))"
  unfolding issueSessionFor_def by (rule issueSession_only)

lemma login_only: "sessions_only g (snd (login env dr em pw g))"
  by (auto simp: login_def issueSessionFor_only split: option.splits)

lemma switchTenant_only: "sessions_only g (snd (switchTenant env dr u t g))"
  by (simp add: switchTenant_def Let_def issueSession_only)

lemma refresh_only: "sessions_only g (snd (refresh env dr pt g))"
proof -
  obtain r g1 where c: "refresh_claim env dr pt g = (r, g1)" by fastforce
  then have g1: "sessions_only g g1" using refresh_claim_only [of g env dr pt] by simp
  have i: "sessions_only g (snd (refresh_issue env dr now u sc fam g1))" for now u sc fam
    by (rule sessions_only_trans [OF g1 refresh_issue_only])
  have v: "sessions_only g (revokeFamily fam stamp g1)" for fam stamp
    by (rule sessions_only_trans [OF g1 revokeFamily_only])
  show ?thesis using c v i g1
    by (cases r) (auto simp: refresh_def Let_def split: option.splits prod.splits sum.splits, (metis snd_conv)+)
qed

lemma resolveGoogleUser_only: "sessions_only g (snd (resolveGoogleUser dr ident g))"
  using linkProvider_only [of g _ "''google''" "gi_sub ident"]
  by (auto simp: resolveGoogleUser_def user_create_only split: option.splits sum.splits prod.splits) (metis snd_conv)+

lemma google_callback_only: "sessions_only g (snd (google_callback env dr outcome g))"
proof (cases outcome)
  case (Google_Profile p)
  obtain r g1 where c: "google_verify dr p g = (r, g1)" by fastforce
  then have g1: "sessions_only g g1"
    using resolveGoogleUser_only [of g dr] by (auto simp: google_verify_def split: sum.splits) (metis snd_conv)
  have "sessions_only g (snd (issueSessionFor env dr v g1))" for v
    by (rule sessions_only_trans [OF g1 issueSessionFor_only])
  then show ?thesis using Google_Profile c g1
    by (cases r) (auto simp: google_callback_def split: prod.splits sum.splits, (metis snd_conv)+)
qed (simp add: google_callback_def)


text \<open>What an account action of a caller may do to the global tables.\<close>
inductive account_change :: "account_call \<Rightarrow> user option \<Rightarrow> gdb \<Rightarrow> gdb \<Rightarrow> bool" for k :: account_call and u :: "user option" and g :: gdb where
  changed_sessions: "sessions_only g g' \<Longrightarrow> account_change k u g g'"
| changed_invited: "account_change k u g (g\<lparr>invites := invites g @ [iv]\<rparr>)"
| changed_onboarded: "u = Some x \<Longrightarrow> onboard tid mid now (e_id x) d g = Inr (tn, g1) \<Longrightarrow> sessions_only g1 g' \<Longrightarrow>
     account_change k u g g'"
| changed_joined: "u = Some x \<Longrightarrow> invite_check ienv js_now x token g = Inr iv \<Longrightarrow> mb_userId m = e_id x \<Longrightarrow>
     mb_tenantId m = e_tenantId iv \<Longrightarrow> mb_role m = inv_role iv \<Longrightarrow>
     account_change k u g (g\<lparr>memberships := memberships g @ [m], invites := map (mark_row (e_id iv) stamp) (invites g)\<rparr>)"
| changed_status: "u = Some x \<Longrightarrow>
     k = On_Admin (Admin_Suspend t reason) \<and> st = TenantSuspended \<and> act = TenantSuspend \<or>
     k = On_Admin (Admin_Reactivate t) \<and> st = TenantActive \<and> act = TenantReactivate \<Longrightarrow>
     changeStatus i now (e_id x) t st act reason' g = Inr (tn, g') \<Longrightarrow> account_change k u g g'"
| changed_viewed: "account_change k u g (g\<lparr>audit_logs := audit_logs g @ [l]\<rparr>)"

inductive_cases account_changeE: "account_change k u g g'"

lemma unchanged [simp, intro]: "account_change k u g g"
  by (rule changed_sessions) simp

lemma as_user_change: "(\<And>x. u = Some x \<Longrightarrow> account_change k u g (snd (f x g))) \<Longrightarrow> account_change k u g (snd (as_user env u f g))"
  by (cases u) (simp_all add: as_user_def)

lemma tenant_create_change: "u = Some x \<Longrightarrow> account_change k u g (snd (tenant_create_endpoint env dr x d g))"
proof (cases "onboard (dr_id dr 1) (dr_id dr 2) (dr_now dr) (e_id x) d g")
  case (Inr p)
  obtain tn g1 where p: "p = (tn, g1)" by fastforce
  have "sessions_only g1 (snd (startTenantSession env dr (e_id x) (e_id tn) Owner g1))"
    unfolding startTenantSession_def by (rule issueSession_only)
  then have "sessions_only g1 (snd (tenant_create_endpoint env dr x d g))"
    using Inr p by (auto simp: tenant_create_endpoint_def split: prod.splits sum.splits)
  then show "u = Some x \<Longrightarrow> ?thesis" using Inr p by (blast intro: changed_onboarded)
qed (simp add: tenant_create_endpoint_def)

lemma invite_create_change: "account_change k u g (snd (invite_create env c i now js_now token em role g))"
  using invite_create_effect [OF prod.collapse [symmetric], of env c i now js_now token em role g] by (auto intro: changed_invited)

lemma invite_accept_change: "u = Some x \<Longrightarrow> account_change k u g (snd (invite_accept env mid now js_now stamp x token g))"
proof -
  assume u: "u = Some x"
  show ?thesis using invite_accept_effect [OF prod.collapse [symmetric], of env mid now js_now stamp x token g]
  proof (elim disjE exE conjE)
    fix iv m
    assume c: "invite_check env js_now x token g = Inr iv"
      "m = \<lparr>e_id = mid, e_createdAt = now, e_deletedAt = None, mb_userId = e_id x, mb_tenantId = e_tenantId iv, mb_role = inv_role iv\<rparr>"
      "snd (invite_accept env mid now js_now stamp x token g) =
        g\<lparr>memberships := memberships g @ [m], invites := map (mark_row (e_id iv) stamp) (invites g)\<rparr>"
    show ?thesis unfolding c(3) by (rule changed_joined [OF u c(1)]) (simp_all add: c(2))
  qed simp
qed

lemma status_change:
  "u = Some x \<Longrightarrow> account_change (On_Admin (Admin_Suspend t reason)) u g (snd (in_tx g (suspend i now (e_id x) t reason' g)))"
  "u = Some x \<Longrightarrow> account_change (On_Admin (Admin_Reactivate t)) u g (snd (in_tx g (reactivate i now (e_id x) t g)))"
  by (auto simp: in_tx_def suspend_def reactivate_def split: sum.splits intro: changed_status)

lemma getTenantDetail_change: "account_change k u g (snd (getTenantDetail i now actor t db g))"
  using getTenantDetail_effect [OF prod.collapse [symmetric], of i now actor t db g] by (auto intro: changed_viewed)

lemma account_controller_change: "account_change k u g (snd (account_controller env c u k db g))"
  by (cases k rule: account_route.cases)
    (auto simp: account_controller_def tenant_controller_def plan_controller_def logout_def refresh_revoke_def
      intro!: as_user_change tenant_create_change invite_create_change invite_accept_change status_change getTenantDetail_change
      intro: changed_sessions register_only login_only switchTenant_only refresh_only revokeFamily_only split: option.splits)

text \<open>A request that changes more than sessions is an account action of the matched route.\<close>
lemma platform_account_change:
  assumes "platform_dispatch pf limited trace rq g db = (x, g', db')" "\<not> sessions_only g g'"
  obtains r k where "matched_route (pf_express pf) rq = Some r" "pf_account_decode pf r = Some k"
    "admitted (pf_pipeline pf) (rt_roles r) (hr_authorization rq) g"
    "account_change k (if rt_roles r = None then None else current_user (pf_pipeline pf) (hr_authorization rq) g) g g'"
proof -
  have "g' = account_effect pf rq db g"
    using assms google_callback_only [of g]
    by (auto simp: platform_dispatch_def google_effect_def Let_def split: prod.splits response.splits if_splits)
  moreover from this assms(2) obtain r k where r: "matched_route (pf_express pf) rq = Some r" "pf_account_decode pf r = Some k"
      "admitted (pf_pipeline pf) (rt_roles r) (hr_authorization rq) g"
      "g' = snd (account_answer (pf_account pf) (pf_pipeline pf) (hr_authorization rq) r k db g)"
    by (auto simp: account_effect_def split: option.splits if_splits)
  moreover have "account_change k (if rt_roles r = None then None else current_user (pf_pipeline pf) (hr_authorization rq) g) g g'"
    unfolding r(4) account_answer_def
    using account_controller_change [of k "if rt_roles r = None then None else current_user (pf_pipeline pf) (hr_authorization rq) g" g
        "pf_account pf" "entry_ctx (tenant_middleware (pf_pipeline pf) (hr_authorization rq) g)" db]
    by (auto split: prod.splits sum.splits)
  ultimately show thesis using that by blast
qed


text \<open>The administration routes admit super admins only.\<close>
lemma admin_guarded:
  "list_all (\<lambda>r. take 7 (rt_path r) = ''/admin/'' \<longrightarrow> rt_roles r = Some SUPER_ADMIN_ONLY) routes"
  by code_simp

lemma admin_roles:
  assumes "matched_route ex rq = Some r" "account_route (On_Admin a) = (rt_method r, rt_path r)"
  shows "rt_roles r = Some SUPER_ADMIN_ONLY"
proof -
  have "r \<in> set routes" using assms(1) by (auto simp: matched_route_def dest: find_Some_mem)
  moreover have "take 7 (snd (account_route (On_Admin a))) = ''/admin/''" by (cases a) simp_all
  ultimately show ?thesis using admin_guarded assms(2) by (simp add: list_all_iff)
qed

lemma admitted_super_admin:
  assumes "admitted penv (Some SUPER_ADMIN_ONLY) header g"
  shows "\<exists>u. current_user penv header g = Some u \<and> us_isSuperAdmin u"
proof -
  obtain claims where "authorized penv header claims g SUPER_ADMIN_ONLY"
    using assms by (auto simp: admitted_def Let_def split: entry.splits)
  then show ?thesis
    by (auto simp: authorized_def current_user_def SUPER_ADMIN_ONLY_def split: option.splits)
qed

section \<open>Properties\<close>

text \<open>
  C3. The platform stays consistent: whatever requests of whomever, payment callbacks and relay batches follow a
  fresh installation, in every state reached every table, global or of a tenant, satisfies its unique indexes and
  EXCLUDE constraints, and every foreign key of the migrations resolves: members, tokens, invitations, staff and
  plans refer to existing rows, each tenant row belongs to an existing tenant, and references between tenant rows
  stay inside their tenant.
\<close>
theorem platform_consistent:
  assumes "platform_reach lx dispatch g db"
  shows "gdb_ok g \<and> account_fks g \<and> tenancy_fks g db \<and> tdb_ok db \<and> own_references db \<and> foreign_keys db"
proof -
  have "system_reach lx dispatch db" by (rule http_reach_system [OF platform_reach_http [OF assms]])
  then have "tdb_ok db" "own_references db" using system_reach_ok resolved_own [OF system_reach_resolved] by blast+
  then show ?thesis using platform_reach_linked [OF assms] own_foreign_keys by (simp add: linked_def)
qed

text \<open>
  C24. Nobody joins a tenant uninvited: a request that changes the memberships adds one, the caller's own, and
  either the caller has created that tenant with this request and is its owner, or an invitation was pending for
  the caller's address, to that tenant and with that role, and it is spent now.
\<close>
theorem membership_gained:
  assumes "platform_dispatch pf limited trace rq g db = (x, g', db')" "memberships g' \<noteq> memberships g"
  shows "\<exists>u m. current_user (pf_pipeline pf) (hr_authorization rq) g = Some u \<and>
    memberships g' = memberships g @ [m] \<and> mb_userId m = e_id u \<and>
    (mb_role m = Owner \<and> mb_tenantId m \<notin> tenant_ids g \<and> mb_tenantId m \<in> tenant_ids g' \<or>
     (\<exists>iv \<in> set (invites g). live iv \<and> inv_acceptedAt iv = None \<and> to_lower (inv_email iv) = to_lower (us_email u) \<and>
        e_tenantId iv = mb_tenantId m \<and> inv_role iv = mb_role m \<and>
        list_all (\<lambda>i. e_id i = e_id iv \<longrightarrow> inv_acceptedAt i \<noteq> None) (invites g')))"
proof -
  have "\<not> sessions_only g g'" using assms(2) by (auto simp: sessions_only_def)
  then obtain r k where "matched_route (pf_express pf) rq = Some r" "pf_account_decode pf r = Some k"
      "admitted (pf_pipeline pf) (rt_roles r) (hr_authorization rq) g"
    and c: "account_change k (if rt_roles r = None then None else current_user (pf_pipeline pf) (hr_authorization rq) g) g g'"
    by (rule platform_account_change [OF assms(1)])
  let ?u = "current_user (pf_pipeline pf) (hr_authorization rq) g"
  have caller: "?u = Some v" if "(if rt_roles r = None then None else ?u) = Some v" for v using that by (simp split: if_splits)
  from c show ?thesis
  proof cases
    case (changed_onboarded v tid mid now d tn g1)
    from onboard_Inr [OF changed_onboarded(2)] obtain m where m: "tn = tenant_row tid now d"
        "mb_userId m = e_id v" "mb_tenantId m = tid" "mb_role m = Owner" "g1 = g\<lparr>tenants := tenants g @ [tn], memberships := memberships g @ [m]\<rparr>"
      by (metis membership.select_convs(1-3))
    have "tid \<notin> tenant_ids g"
      using changed_onboarded(2)
      by (auto simp: onboard_def result_simps insert_checked_Inr_iff tenants_cs_def pk_conflict_def tenant_row_def tenant_ids_def)
    moreover have "tid \<in> tenant_ids g'" "memberships g' = memberships g @ [m]"
      using changed_onboarded(3) m(1,5) by (simp_all add: sessions_only_def tenant_ids_def tenant_row_def)
    ultimately show ?thesis using caller [OF changed_onboarded(1)] m(2-4) by blast
  next
    case (changed_joined v ienv js_now token iv m stamp)
    note i = invite_check_Inr [OF changed_joined(3)]
    have "iv \<in> set (invites g)" "live iv" using i(1) by (auto simp: invite_findByHash_def dest!: find_Some_mem)
    moreover have "list_all (\<lambda>i. e_id i = e_id iv \<longrightarrow> inv_acceptedAt i \<noteq> None) (invites g')"
      by (auto simp: changed_joined(1) list_all_iff mark_row_def)
    ultimately show ?thesis using caller [OF changed_joined(2)] changed_joined i(2,4) by auto
  next
    case changed_status
    then show ?thesis using assms(2) by (elim changeStatus_Inr) simp
  qed (use assms(2) in \<open>auto simp: sessions_only_def\<close>)
qed

text \<open>
  C25. Only a super admin changes a tenant, and never off the record: a request after which a tenant's row is not
  what it was came from a super admin; it set the status of one tenant, nothing else of any, and the audit trail
  gained exactly the entry that names the caller, the tenant and what was done. Account calls are decoded for
  their own routes.
\<close>
theorem tenants_changed_by_admins:
  assumes "platform_dispatch pf limited trace rq g db = (x, g', db')" "\<not> set (tenants g) \<subseteq> set (tenants g')"
    and "\<And>r k. pf_account_decode pf r = Some k \<Longrightarrow> account_route k = (rt_method r, rt_path r)"
  shows "\<exists>u t st l. current_user (pf_pipeline pf) (hr_authorization rq) g = Some u \<and> us_isSuperAdmin u \<and>
    tenants g' = update_where (\<lambda>r. e_id r = t) (\<lambda>r. r\<lparr>tn_status := st\<rparr>) (tenants g) \<and>
    audit_logs g' = audit_logs g @ [l] \<and> al_actorUserId l = e_id u \<and> al_targetTenantId l = t \<and>
    al_action l = (if st = TenantSuspended then TenantSuspend else TenantReactivate)"
proof -
  have "\<not> sessions_only g g'" using assms(2) by (auto simp: sessions_only_def)
  then obtain r k where r: "matched_route (pf_express pf) rq = Some r"
      "pf_account_decode pf r = Some k" "admitted (pf_pipeline pf) (rt_roles r) (hr_authorization rq) g"
      "account_change k (if rt_roles r = None then None else current_user (pf_pipeline pf) (hr_authorization rq) g) g g'"
    by (rule platform_account_change [OF assms(1)])
  from r(4) show ?thesis
  proof cases
    case (changed_onboarded v tid mid now d tn g1)
    then have "set (tenants g) \<subseteq> set (tenants g')" by (elim onboard_Inr) (auto simp: sessions_only_def)
    then show ?thesis using assms(2) by simp
  next
    case (changed_status v t reason st act i now reason' tn)
    then obtain a where "k = On_Admin a" by blast
    then have roles: "rt_roles r = Some SUPER_ADMIN_ONLY" using admin_roles [OF r(1)] assms(3) [OF r(2)] by simp
    then have "current_user (pf_pipeline pf) (hr_authorization rq) g = Some v" "us_isSuperAdmin v"
      using changed_status(1) admitted_super_admin [OF r(3) [unfolded roles]] by auto
    moreover have "act = (if st = TenantSuspended then TenantSuspend else TenantReactivate)" using changed_status(2) by auto
    ultimately show ?thesis using changed_status(3) by (elim changeStatus_Inr) (auto simp: audit_row_def)
  qed (use assms(2) in \<open>auto simp: sessions_only_def\<close>)
qed


section \<open>Account requests on a fresh installation\<close>

text \<open>A visitor whose token names a user and no tenant; the Express patterns match literally.\<close>
definition visitor :: pipeline_env where
  "visitor = sample_pipeline\<lparr>pl_verify := (\<lambda>_. None)\<rparr>"

definition sample_account_env :: account_env where
  "sample_account_env =
     \<lparr>ac_auth = sample_aenv, ac_invite = sample_ienv,
      ac_draws = \<lparr>dr_now = 5, dr_js = (\<lambda>n. 10 + int n), dr_id = (\<lambda>n. ''n'' @ nat_str n), dr_token = ''tok2'', dr_family = ''f''\<rparr>,
      ac_ilike = (\<lambda>_ _. True), ac_isEmail = (\<lambda>_. True), ac_isUUID = (\<lambda>_. True), ac_isTimeZone = (\<lambda>_. True),
      ac_invalid = BadRequestException ''Invalid body'', ac_no_user = PlainError ''AuthorizationRequiredError'',
      ac_render = (\<lambda>_. None)\<rparr>"

definition sample_platform :: "account_call \<Rightarrow> int platform_env" where
  "sample_platform k =
     \<lparr>pf_express = exact_paths, pf_server = sample_server, pf_pipeline = visitor, pf_call = sample_call_env,
      pf_account = sample_account_env, pf_google = Google_Refuses, pf_decode = (\<lambda>_. None),
      pf_account_decode = (\<lambda>r. if account_route k = (rt_method r, rt_path r) then Some k else None),
      pf_other = (\<lambda>_. Inr None)\<rparr>"

definition sample_account_post :: "account_call \<Rightarrow> http_request_line" where
  "sample_account_post k =
     \<lparr>hr_method = ''POST'', hr_path = routePrefix @ snd (account_route k), hr_originalUrl = routePrefix @ snd (account_route k),
      hr_authorization = Some ''Bearer x''\<rparr>"

abbreviation sample_request :: "account_call \<Rightarrow> gdb \<Rightarrow> response \<times> gdb \<times> tdb" where
  "sample_request k g \<equiv> platform_dispatch (sample_platform k) False None (sample_account_post k) g empty_tdb"

lemma sample_caller:
  "current_user (pf_pipeline (sample_platform k)) (hr_authorization (sample_account_post k')) g =
     current_user visitor (Some ''Bearer x'') g"
  by (simp add: sample_platform_def sample_account_post_def)

definition sample_admin :: user where
  "sample_admin = user_row ''u1'' 0 ''an@x.vn'' ''An'' None None None\<lparr>us_isSuperAdmin := True\<rparr>"

definition fresh_gdb :: gdb where
  "fresh_gdb = empty_gdb\<lparr>plans := [], users := [sample_admin]\<rparr>"

abbreviation sample_onboard :: account_call where
  "sample_onboard \<equiv> On_Tenants \<lparr>ct_name = ''Spa'', ct_slug = ''spa'', ct_timezone = None\<rparr>"

definition onboarded_gdb :: gdb where
  "onboarded_gdb = fst (snd (sample_request sample_onboard fresh_gdb))"

lemma sample_onboarded:
  "map (\<lambda>m. (mb_userId m, mb_tenantId m, mb_role m)) (memberships onboarded_gdb) = [(''u1'', ''n1'', Owner)]"
  "map tn_slug (tenants onboarded_gdb) = [''spa'']" "map rt_userId (refresh_tokens onboarded_gdb) = [''u1'']"
  by code_simp+

theorem platform_consistent_witness:
  "\<exists>db. platform_reach sample_luxon (\<lambda>e (q :: unit). (True, q)) onboarded_gdb db \<and> memberships onboarded_gdb \<noteq> [] \<and>
     gdb_ok onboarded_gdb \<and> account_fks onboarded_gdb \<and> tenancy_fks onboarded_gdb db"
proof -
  have start: "platform_reach sample_luxon (\<lambda>e (q :: unit). (True, q)) fresh_gdb empty_tdb"
    unfolding fresh_gdb_def by (rule platform_start) (simp_all add: sat_all_def violates_def plans_cs_def users_cs_def)
  obtain x g' db where d: "sample_request sample_onboard fresh_gdb = (x, g', db)" by (metis surj_pair)
  have "platform_reach sample_luxon (\<lambda>e (q :: unit). (True, q)) g' db"
    by (rule platform_request [OF start _ d]) (simp add: sample_platform_def sample_call_env_def)
  moreover have "g' = onboarded_gdb" by (simp add: onboarded_gdb_def d)
  ultimately show ?thesis using platform_consistent sample_onboarded(1) by fastforce
qed

theorem membership_gained_witness:
  "\<exists>u m. current_user visitor (Some ''Bearer x'') fresh_gdb = Some u \<and> memberships onboarded_gdb = [m] \<and> mb_userId m = e_id u"
proof -
  obtain x g' db where d: "sample_request sample_onboard fresh_gdb = (x, g', db)" by (metis surj_pair)
  have g': "g' = onboarded_gdb" by (simp add: onboarded_gdb_def d)
  have old: "memberships fresh_gdb = []" by (simp add: fresh_gdb_def empty_gdb_def)
  have "memberships g' \<noteq> memberships fresh_gdb" using sample_onboarded(1) old by (auto simp: g')
  from membership_gained [OF d this] show ?thesis unfolding sample_caller g' old append_Nil by blast
qed

abbreviation sample_suspend :: account_call where
  "sample_suspend \<equiv> On_Admin (Admin_Suspend ''n1'' None)"

lemma sample_suspended: "map tn_status (tenants (fst (snd (sample_request sample_suspend onboarded_gdb)))) = [TenantSuspended]"
  "map tn_status (tenants onboarded_gdb) = [TenantActive]"
  by code_simp+

theorem tenants_changed_by_admins_witness:
  "\<exists>u l. current_user visitor (Some ''Bearer x'') onboarded_gdb = Some u \<and> us_isSuperAdmin u \<and>
     audit_logs (fst (snd (sample_request sample_suspend onboarded_gdb))) = audit_logs onboarded_gdb @ [l] \<and> al_actorUserId l = e_id u"
proof -
  obtain x g' db where d: "sample_request sample_suspend onboarded_gdb = (x, g', db)" by (metis surj_pair)
  have s: "map tn_status (tenants g') = [TenantSuspended]" using sample_suspended(1) by (simp add: d)
  have changed: "\<not> set (tenants onboarded_gdb) \<subseteq> set (tenants g')"
  proof
    assume "set (tenants onboarded_gdb) \<subseteq> set (tenants g')"
    then have "set (map tn_status (tenants onboarded_gdb)) \<subseteq> set (map tn_status (tenants g'))" by auto
    then show False unfolding s sample_suspended(2) by simp
  qed
  have own: "account_route k = (rt_method r, rt_path r)" if "pf_account_decode (sample_platform sample_suspend) r = Some k" for r k
    using that by (auto simp: sample_platform_def split: if_splits)
  show ?thesis using tenants_changed_by_admins [OF d changed own] unfolding sample_caller d fst_conv snd_conv by blast
qed

end
