(* ===== verification/Processes.thy ===== *)
theory Processes
  imports Exceptions
begin

text \<open>
  The two processes. The worker (\<open>worker.ts\<close> with the life of \<open>startOutboxRelay\<close> in
  \<open>jobs/workers/outbox-relay.worker.ts\<close>) is an event loop: its state is what its pending promises wait
  for, and each event is one callback that runs to its next \<open>await\<close>. The API (\<open>index.ts\<close>) is its
  start-up guard and its health checks over \<open>common/utils/timeout.ts\<close>.
\<close>

section \<open>The relay's timer and tick\<close>

text \<open>What the tick in flight waits for.\<close>
datatype tick_wait = OnBatch | OnStats

record relay_state =
  rl_inFlight :: "tick_wait option"
  rl_stopped :: bool
  rl_timer :: bool

definition startOutboxRelay :: relay_state where
  "startOutboxRelay = \<lparr>rl_inFlight = None, rl_stopped = False, rl_timer = True\<rparr>"

definition tick :: "relay_state \<Rightarrow> relay_state" where
  "tick r = (if rl_inFlight r \<noteq> None \<or> rl_stopped r then r else r\<lparr>rl_inFlight := Some OnBatch\<rparr>)"

text \<open>\<open>do .. while (processed > 0 && !stopped)\<close>, then the backlog's statistics.\<close>
definition batch_done :: "nat \<Rightarrow> relay_state \<Rightarrow> relay_state" where
  "batch_done processed r =
     r\<lparr>rl_inFlight := Some (if 0 < processed \<and> \<not> rl_stopped r then OnBatch else OnStats)\<rparr>"

text \<open>The \<open>finally\<close>: after the statistics, or after an error the \<open>catch\<close> has logged.\<close>
definition tick_over :: "relay_state \<Rightarrow> relay_state" where
  "tick_over r = r\<lparr>rl_inFlight := None\<rparr>"

text \<open>The closure \<open>startOutboxRelay\<close> returns; its promise resolves when no tick is in flight.\<close>
definition stop_relay :: "relay_state \<Rightarrow> relay_state" where
  "stop_relay r = r\<lparr>rl_stopped := True, rl_timer := False\<rparr>"

definition relay_drained :: "relay_state \<Rightarrow> bool" where
  "relay_drained r \<longleftrightarrow> rl_inFlight r = None"

section \<open>The worker process\<close>

text \<open>
  A BullMQ worker runs at most \<open>concurrency\<close> jobs; \<open>close()\<close> takes no new job and resolves when the
  active ones have ended.
\<close>
record queue_worker =
  qw_active :: nat
  qw_open :: bool

definition worker_concurrency :: nat where
  "worker_concurrency = 5"

datatype connection = Unopened | Connected | Disconnecting | Disconnected

text \<open>Where a run of \<open>shutdown\<close> waits: one constructor per \<open>await\<close>.\<close>
datatype shutdown_wait = AwaitRelay | AwaitWorkers | AwaitDb | AwaitRedis

record worker_process =
  wp_db :: connection
  wp_relay :: relay_state
  wp_email :: queue_worker
  wp_webhook :: queue_worker
  wp_metrics :: bool
  wp_shutdowns :: "shutdown_wait list"
  wp_exit :: "nat option"

definition worker_start :: worker_process where
  "worker_start =
     \<lparr>wp_db = Unopened, wp_relay = \<lparr>rl_inFlight = None, rl_stopped = False, rl_timer = False\<rparr>,
      wp_email = \<lparr>qw_active = 0, qw_open = False\<rparr>, wp_webhook = \<lparr>qw_active = 0, qw_open = False\<rparr>,
      wp_metrics = False, wp_shutdowns = [], wp_exit = None\<rparr>"

text \<open>The rest of \<open>bootstrap\<close>, once the database is connected.\<close>
definition worker_booted :: "worker_process \<Rightarrow> worker_process" where
  "worker_booted s =
     s\<lparr>wp_db := Connected, wp_email := \<lparr>qw_active = 0, qw_open = True\<rparr>,
       wp_webhook := \<lparr>qw_active = 0, qw_open = True\<rparr>, wp_relay := startOutboxRelay, wp_metrics := True\<rparr>"

text \<open>A signal runs \<open>shutdown\<close> to its first \<open>await\<close>; a second signal starts a second run.\<close>
definition shutdown_begins :: "worker_process \<Rightarrow> worker_process" where
  "shutdown_begins s = s\<lparr>wp_relay := stop_relay (wp_relay s), wp_shutdowns := wp_shutdowns s @ [AwaitRelay]\<rparr>"

text \<open>Run \<open>i\<close> goes on when what it waits for has resolved; \<open>None\<close> while it has not.\<close>
fun shutdown_continues :: "nat \<Rightarrow> shutdown_wait \<Rightarrow> worker_process \<Rightarrow> worker_process option" where
  "shutdown_continues i AwaitRelay s =
     (if relay_drained (wp_relay s)
      then Some (s\<lparr>wp_email := (wp_email s)\<lparr>qw_open := False\<rparr>, wp_webhook := (wp_webhook s)\<lparr>qw_open := False\<rparr>,
                   wp_shutdowns := (wp_shutdowns s)[i := AwaitWorkers]\<rparr>)
      else None)"
| "shutdown_continues i AwaitWorkers s =
     (if qw_active (wp_email s) = 0 \<and> qw_active (wp_webhook s) = 0
      then Some (s\<lparr>wp_metrics := False, wp_db := (if wp_db s = Connected then Disconnecting else wp_db s),
                   wp_shutdowns := (wp_shutdowns s)[i := AwaitDb]\<rparr>)
      else None)"
| "shutdown_continues i AwaitDb s = Some (s\<lparr>wp_db := Disconnected, wp_shutdowns := (wp_shutdowns s)[i := AwaitRedis]\<rparr>)"
| "shutdown_continues i AwaitRedis s = Some (s\<lparr>wp_exit := Some 0\<rparr>)"

datatype process_event =
    Booted | BootFails
  | TimerFires | BatchDone nat | StatsDone | TickFails
  | EmailStarts | EmailEnds | WebhookStarts | WebhookEnds
  | SignalArrives | ShutdownContinues nat | ShutdownRejects nat

definition job_starts :: "queue_worker \<Rightarrow> queue_worker option" where
  "job_starts w =
     (if qw_open w \<and> qw_active w < worker_concurrency then Some (w\<lparr>qw_active := qw_active w + 1\<rparr>) else None)"

definition job_ends :: "queue_worker \<Rightarrow> queue_worker option" where
  "job_ends w = (if 0 < qw_active w then Some (w\<lparr>qw_active := qw_active w - 1\<rparr>) else None)"

definition relay_event :: "bool \<Rightarrow> (relay_state \<Rightarrow> relay_state) \<Rightarrow> worker_process \<Rightarrow> worker_process option" where
  "relay_event enabled f s = (if enabled then Some (s\<lparr>wp_relay := f (wp_relay s)\<rparr>) else None)"

text \<open>
  One event of a process that has not exited; \<open>None\<close> when the event cannot happen. A rejected promise in
  \<open>shutdown\<close> is unhandled and ends the process with 1 (the relay's stop never rejects: the tick catches).
\<close>
fun react :: "process_event \<Rightarrow> worker_process \<Rightarrow> worker_process option" where
  "react Booted s = (if wp_db s = Unopened then Some (worker_booted s) else None)"
| "react BootFails s = (if wp_db s = Unopened then Some (s\<lparr>wp_exit := Some 1\<rparr>) else None)"
| "react TimerFires s = relay_event (rl_timer (wp_relay s)) tick s"
| "react (BatchDone n) s = relay_event (rl_inFlight (wp_relay s) = Some OnBatch) (batch_done n) s"
| "react StatsDone s = relay_event (rl_inFlight (wp_relay s) = Some OnStats) tick_over s"
| "react TickFails s = relay_event (rl_inFlight (wp_relay s) \<noteq> None) tick_over s"
| "react EmailStarts s = map_option (\<lambda>w. s\<lparr>wp_email := w\<rparr>) (job_starts (wp_email s))"
| "react EmailEnds s = map_option (\<lambda>w. s\<lparr>wp_email := w\<rparr>) (job_ends (wp_email s))"
| "react WebhookStarts s = map_option (\<lambda>w. s\<lparr>wp_webhook := w\<rparr>) (job_starts (wp_webhook s))"
| "react WebhookEnds s = map_option (\<lambda>w. s\<lparr>wp_webhook := w\<rparr>) (job_ends (wp_webhook s))"
| "react SignalArrives s = (if wp_db s = Unopened then None else Some (shutdown_begins s))"
| "react (ShutdownContinues i) s =
     (if i < length (wp_shutdowns s) then shutdown_continues i (wp_shutdowns s ! i) s else None)"
| "react (ShutdownRejects i) s =
     (if i < length (wp_shutdowns s) \<and> wp_shutdowns s ! i \<noteq> AwaitRelay then Some (s\<lparr>wp_exit := Some 1\<rparr>) else None)"

definition worker_event :: "process_event \<Rightarrow> worker_process \<Rightarrow> worker_process option" where
  "worker_event e s = (if wp_exit s = None then react e s else None)"

inductive worker_reach :: "worker_process \<Rightarrow> bool" where
  worker_starts: "worker_reach worker_start"
| worker_steps: "worker_reach s \<Longrightarrow> worker_event e s = Some s' \<Longrightarrow> worker_reach s'"

section \<open>The invariant of the worker\<close>

text \<open>What has been reached when a run of \<open>shutdown\<close> waits at \<open>p\<close>.\<close>
fun waits_right :: "shutdown_wait \<Rightarrow> worker_process \<Rightarrow> bool" where
  "waits_right AwaitRelay s \<longleftrightarrow> True"
| "waits_right AwaitWorkers s \<longleftrightarrow> relay_drained (wp_relay s) \<and> \<not> qw_open (wp_email s) \<and> \<not> qw_open (wp_webhook s)"
| "waits_right AwaitDb s \<longleftrightarrow> wp_db s \<in> {Disconnecting, Disconnected}"
| "waits_right AwaitRedis s \<longleftrightarrow> wp_db s = Disconnected"

text \<open>Nothing of the process uses the database or can start to.\<close>
definition quiescent :: "worker_process \<Rightarrow> bool" where
  "quiescent s \<longleftrightarrow>
     rl_inFlight (wp_relay s) = None \<and> rl_stopped (wp_relay s) \<and> \<not> rl_timer (wp_relay s) \<and>
     wp_email s = \<lparr>qw_active = 0, qw_open = False\<rparr> \<and> wp_webhook s = \<lparr>qw_active = 0, qw_open = False\<rparr>"

definition process_ok :: "worker_process \<Rightarrow> bool" where
  "process_ok s \<longleftrightarrow>
     (wp_db s = Unopened \<longrightarrow> s = worker_start\<lparr>wp_exit := wp_exit s\<rparr>) \<and>
     (wp_shutdowns s \<noteq> [] \<longrightarrow> rl_stopped (wp_relay s) \<and> \<not> rl_timer (wp_relay s)) \<and>
     list_all (\<lambda>p. waits_right p s) (wp_shutdowns s) \<and>
     (wp_db s \<in> {Disconnecting, Disconnected} \<longrightarrow> quiescent s) \<and>
     (wp_exit s = Some 0 \<longrightarrow> wp_db s = Disconnected)"

lemma list_all_set: "list_all P xs \<Longrightarrow> P y \<Longrightarrow> list_all P (xs[i := y])"
  using set_update_subset_insert [of xs i y] by (auto simp: list_all_iff)

lemma list_all_waits: "list_all (\<lambda>p. waits_right p s) ps \<Longrightarrow> (\<And>p. waits_right p s \<Longrightarrow> waits_right p s') \<Longrightarrow> list_all (\<lambda>p. waits_right p s') ps"
  by (auto simp: list_all_iff)

text \<open>What waiting depends on.\<close>
lemma waits_right_mono:
  assumes "waits_right p s" "relay_drained (wp_relay s) \<Longrightarrow> relay_drained (wp_relay s')"
    "\<not> qw_open (wp_email s) \<Longrightarrow> \<not> qw_open (wp_email s')" "\<not> qw_open (wp_webhook s) \<Longrightarrow> \<not> qw_open (wp_webhook s')"
    "wp_db s \<in> {Disconnecting, Disconnected} \<Longrightarrow> wp_db s' \<in> {Disconnecting, Disconnected}" "wp_db s = Disconnected \<Longrightarrow> wp_db s' = Disconnected"
  shows "waits_right p s'"
  using assms by (cases p) auto

lemma process_okI:
  assumes "wp_db s' \<noteq> Unopened" "wp_shutdowns s' \<noteq> [] \<Longrightarrow> rl_stopped (wp_relay s') \<and> \<not> rl_timer (wp_relay s')"
    "list_all (\<lambda>p. waits_right p s') (wp_shutdowns s')" "wp_db s' \<in> {Disconnecting, Disconnected} \<Longrightarrow> quiescent s'"
    "wp_exit s' = Some 0 \<Longrightarrow> wp_db s' = Disconnected"
  shows "process_ok s'"
  using assms by (simp add: process_ok_def)

lemmas react_defs = relay_event_def tick_def batch_done_def tick_over_def job_starts_def job_ends_def

lemma boot_ok: "process_ok s \<Longrightarrow> wp_exit s = None \<Longrightarrow> wp_db s = Unopened \<Longrightarrow> react e s = Some s' \<Longrightarrow> process_ok s'"
  by (cases e)
    (auto simp: process_ok_def worker_start_def worker_booted_def react_defs split: if_splits)

text \<open>Events that leave \<open>shutdown\<close> and the connection alone.\<close>
lemma quiet_event_ok:
  assumes "process_ok s" "wp_db s \<noteq> Unopened" "wp_exit s = None"
    and same: "wp_db s' = wp_db s" "wp_shutdowns s' = wp_shutdowns s" "wp_exit s' = None"
    and relay: "rl_stopped (wp_relay s) \<Longrightarrow> rl_stopped (wp_relay s')" "\<not> rl_timer (wp_relay s) \<Longrightarrow> \<not> rl_timer (wp_relay s')"
      "wp_shutdowns s \<noteq> [] \<Longrightarrow> relay_drained (wp_relay s) \<Longrightarrow> relay_drained (wp_relay s')"
    and queues: "\<not> qw_open (wp_email s) \<Longrightarrow> \<not> qw_open (wp_email s')" "\<not> qw_open (wp_webhook s) \<Longrightarrow> \<not> qw_open (wp_webhook s')"
    and quiet: "quiescent s \<Longrightarrow> quiescent s'"
  shows "process_ok s'"
proof (rule process_okI)
  show "list_all (\<lambda>p. waits_right p s') (wp_shutdowns s')"
  proof (cases "wp_shutdowns s = []")
    case False
    have "list_all (\<lambda>p. waits_right p s) (wp_shutdowns s)" using assms(1) by (simp add: process_ok_def)
    moreover have "waits_right p s'" if "waits_right p s" for p
      using that relay(3) [OF False] queues by (rule waits_right_mono) (simp_all add: same)
    ultimately show ?thesis unfolding same by (rule list_all_waits)
  qed (simp add: same)
qed (use assms in \<open>auto simp: process_ok_def\<close>)

lemma relay_event_ok:
  assumes "process_ok s" "wp_db s \<noteq> Unopened" "wp_exit s = None" "relay_event b f s = Some s'"
    and f: "rl_stopped (wp_relay s) \<Longrightarrow> rl_stopped (f (wp_relay s))" "\<not> rl_timer (wp_relay s) \<Longrightarrow> \<not> rl_timer (f (wp_relay s))"
      "b \<Longrightarrow> rl_stopped (wp_relay s) \<Longrightarrow> rl_inFlight (wp_relay s) = None \<Longrightarrow> rl_inFlight (f (wp_relay s)) = None"
  shows "process_ok s'"
proof -
  have s': "b" "s' = s\<lparr>wp_relay := f (wp_relay s)\<rparr>" using assms(4) by (auto simp: relay_event_def split: if_splits)
  show ?thesis using assms(1-3)
  proof (rule quiet_event_ok)
    show "relay_drained (wp_relay s')" if "wp_shutdowns s \<noteq> []" "relay_drained (wp_relay s)"
      using f(3) that assms(1) s'(1) by (simp add: s'(2) process_ok_def relay_drained_def)
    show "quiescent s'" if "quiescent s" using that f s'(1) by (simp add: s'(2) quiescent_def)
  qed (use f assms(3) s'(2) in auto)
qed

lemma job_event_ok:
  assumes "process_ok s" "wp_db s \<noteq> Unopened" "wp_exit s = None"
  shows "job_starts (wp_email s) = Some w \<Longrightarrow> process_ok (s\<lparr>wp_email := w\<rparr>)"
    "job_ends (wp_email s) = Some w \<Longrightarrow> process_ok (s\<lparr>wp_email := w\<rparr>)"
    "job_starts (wp_webhook s) = Some w \<Longrightarrow> process_ok (s\<lparr>wp_webhook := w\<rparr>)"
    "job_ends (wp_webhook s) = Some w \<Longrightarrow> process_ok (s\<lparr>wp_webhook := w\<rparr>)"
  by (rule quiet_event_ok [OF assms]; use assms(3) in \<open>auto simp: quiescent_def job_starts_def job_ends_def split: if_splits\<close>)+

lemma shutdown_begins_ok:
  assumes "process_ok s" "wp_db s \<noteq> Unopened" "wp_exit s = None"
  shows "process_ok (shutdown_begins s)"
proof (rule process_okI)
  let ?s = "shutdown_begins s"
  have "waits_right p ?s" if "waits_right p s" for p
    using that by (rule waits_right_mono) (simp_all add: shutdown_begins_def stop_relay_def relay_drained_def)
  then show "list_all (\<lambda>p. waits_right p ?s) (wp_shutdowns ?s)"
    using assms(1) list_all_waits by (auto simp: shutdown_begins_def process_ok_def)
qed (use assms in \<open>auto simp: shutdown_begins_def stop_relay_def process_ok_def quiescent_def\<close>)

lemma shutdown_continues_ok:
  assumes "process_ok s" "wp_db s \<noteq> Unopened" "wp_exit s = None" "i < length (wp_shutdowns s)"
    and "shutdown_continues i (wp_shutdowns s ! i) s = Some s'"
  shows "process_ok s'"
proof -
  note ok = assms(1) [unfolded process_ok_def]
  have here: "waits_right (wp_shutdowns s ! i) s" using ok assms(4) by (simp add: list_all_length)
  have some: "wp_shutdowns s \<noteq> []" using assms(4) by auto
  have old: "list_all (\<lambda>p. waits_right p s) (wp_shutdowns s)" using ok by blast
  have step: "process_ok s'"
    if upd: "wp_shutdowns s' = (wp_shutdowns s)[i := q]" "waits_right q s'" "wp_relay s' = wp_relay s"
      "\<not> qw_open (wp_email s) \<Longrightarrow> \<not> qw_open (wp_email s')" "\<not> qw_open (wp_webhook s) \<Longrightarrow> \<not> qw_open (wp_webhook s')"
      "wp_db s \<in> {Disconnecting, Disconnected} \<Longrightarrow> wp_db s' \<in> {Disconnecting, Disconnected}" "wp_db s = Disconnected \<Longrightarrow> wp_db s' = Disconnected"
      "wp_db s' \<noteq> Unopened" "wp_db s' \<in> {Disconnecting, Disconnected} \<Longrightarrow> quiescent s'" "wp_exit s' = None" for q
  proof (rule process_okI)
    have "waits_right p s'" if w: "waits_right p s" for p
      using upd by (intro waits_right_mono [OF w]) simp_all
    then show "list_all (\<lambda>p. waits_right p s') (wp_shutdowns s')"
      unfolding upd(1) using list_all_set [OF list_all_waits [OF old] upd(2)] by blast
  qed (use upd ok some in auto)
  show ?thesis
  proof (cases "wp_shutdowns s ! i")
    case AwaitRelay
    with assms(5) have s': "relay_drained (wp_relay s)" "s' = s\<lparr>wp_email := (wp_email s)\<lparr>qw_open := False\<rparr>,
        wp_webhook := (wp_webhook s)\<lparr>qw_open := False\<rparr>, wp_shutdowns := (wp_shutdowns s)[i := AwaitWorkers]\<rparr>"
      by (auto split: if_splits)
    show ?thesis by (rule step [of AwaitWorkers]) (use s' assms(2,3) ok in \<open>auto simp: quiescent_def\<close>)
  next
    case AwaitWorkers
    with assms(5) have s': "qw_active (wp_email s) = 0" "qw_active (wp_webhook s) = 0"
        "s' = s\<lparr>wp_metrics := False, wp_db := (if wp_db s = Connected then Disconnecting else wp_db s),
                wp_shutdowns := (wp_shutdowns s)[i := AwaitDb]\<rparr>"
      by (auto split: if_splits)
    have "quiescent s"
      using here AwaitWorkers s'(1,2) ok some by (simp add: quiescent_def relay_drained_def)
    then show ?thesis
      by (intro step [of AwaitDb]) (use s' assms(2,3) in \<open>auto simp: quiescent_def\<close>, cases "wp_db s", auto)
  next
    case AwaitDb
    with assms(5) have s': "s' = s\<lparr>wp_db := Disconnected, wp_shutdowns := (wp_shutdowns s)[i := AwaitRedis]\<rparr>" by simp
    have "quiescent s" using here AwaitDb ok by simp
    then show ?thesis by (intro step [of AwaitRedis]) (use s' assms(3) in \<open>auto simp: quiescent_def\<close>)
  next
    case AwaitRedis
    with assms(5) have s': "s' = s\<lparr>wp_exit := Some 0\<rparr>" by simp
    have "wp_db s = Disconnected" using here AwaitRedis by simp
    have "waits_right p s'" if w: "waits_right p s" for p
      using w by (rule waits_right_mono) (simp_all add: s')
    then have "list_all (\<lambda>p. waits_right p s') (wp_shutdowns s')" using old list_all_waits by (simp add: s')
    then show ?thesis
      by (intro process_okI) (use s' \<open>wp_db s = Disconnected\<close> ok some in \<open>auto simp: quiescent_def\<close>)
  qed
qed

lemma react_ok:
  assumes "process_ok s" "wp_exit s = None" "react e s = Some s'"
  shows "process_ok s'"
proof (cases "wp_db s = Unopened")
  case True
  then show ?thesis using boot_ok assms by blast
next
  case up: False
  note relay = relay_event_ok [OF assms(1) up assms(2)] and job = job_event_ok [OF assms(1) up assms(2)]
  show ?thesis
  proof (cases e)
    case TimerFires
    with assms(3) have "relay_event (rl_timer (wp_relay s)) tick s = Some s'" by simp
    then show ?thesis by (rule relay) (auto simp: tick_def)
  next
    case (BatchDone n)
    with assms(3) have "relay_event (rl_inFlight (wp_relay s) = Some OnBatch) (batch_done n) s = Some s'" by simp
    then show ?thesis by (rule relay) (auto simp: batch_done_def)
  next
    case SignalArrives
    then show ?thesis using assms(3) up shutdown_begins_ok [OF assms(1) up assms(2)] by simp
  next
    case (ShutdownContinues i)
    then show ?thesis using assms(3) shutdown_continues_ok [OF assms(1) up assms(2)] by (auto split: if_splits)
  next
    case (ShutdownRejects i)
    then have s': "s' = s\<lparr>wp_exit := Some 1\<rparr>" using assms(3) by (auto split: if_splits)
    have "waits_right p s'" if "waits_right p s" for p
      using that by (rule waits_right_mono) (simp_all add: s')
    then have "list_all (\<lambda>p. waits_right p s') (wp_shutdowns s')"
      using assms(1) list_all_waits by (auto simp: s' process_ok_def)
    then show ?thesis by (intro process_okI) (use assms(1) up in \<open>auto simp: s' process_ok_def quiescent_def\<close>)
  qed (use assms(3) up in \<open>auto intro: relay job simp: tick_over_def\<close>)
qed

lemma worker_reach_ok: "worker_reach s \<Longrightarrow> process_ok s"
proof (induction rule: worker_reach.induct)
  case worker_starts
  show ?case by (simp add: process_ok_def worker_start_def)
next
  case (worker_steps s e s')
  then show ?case using react_ok by (auto simp: worker_event_def split: if_splits)
qed

section \<open>A shutdown ends\<close>

text \<open>Events that finish work already begun; no timer, no new job, no further signal.\<close>
fun finishing :: "process_event \<Rightarrow> bool" where
  "finishing (BatchDone n) \<longleftrightarrow> True"
| "finishing StatsDone \<longleftrightarrow> True"
| "finishing TickFails \<longleftrightarrow> True"
| "finishing EmailEnds \<longleftrightarrow> True"
| "finishing WebhookEnds \<longleftrightarrow> True"
| "finishing (ShutdownContinues i) \<longleftrightarrow> True"
| "finishing (ShutdownRejects i) \<longleftrightarrow> True"
| "finishing _ \<longleftrightarrow> False"

fun waits_left :: "shutdown_wait \<Rightarrow> nat" where
  "waits_left AwaitRelay = 3" | "waits_left AwaitWorkers = 2" | "waits_left AwaitDb = 1" | "waits_left AwaitRedis = 0"

definition tick_left :: "relay_state \<Rightarrow> nat" where
  "tick_left r = (case rl_inFlight r of None \<Rightarrow> 0 | Some OnStats \<Rightarrow> 1 | Some OnBatch \<Rightarrow> 2)"

text \<open>How many events are left at most.\<close>
definition work_left :: "worker_process \<Rightarrow> nat" where
  "work_left s =
     (if wp_exit s = None then 1 + tick_left (wp_relay s) + qw_active (wp_email s) + qw_active (wp_webhook s) +
        sum_list (map waits_left (wp_shutdowns s)) else 0)"

lemma sum_list_waits:
  assumes "i < length ps" "waits_left q < waits_left (ps ! i)"
  shows "sum_list (map waits_left (ps[i := q])) < sum_list (map waits_left ps)"
  using assms by (induction ps arbitrary: i) (auto split: nat.splits)

lemma finishing_decreases:
  assumes "process_ok s" "wp_exit s = None" "wp_shutdowns s \<noteq> []" "finishing e" "react e s = Some s'"
  shows "work_left s' < work_left s"
proof -
  have stopped: "rl_stopped (wp_relay s)" using assms(1,3) by (simp add: process_ok_def)
  show ?thesis
  proof (cases e)
    case (ShutdownContinues i)
    then have i: "i < length (wp_shutdowns s)" "shutdown_continues i (wp_shutdowns s ! i) s = Some s'"
      using assms(5) by (auto split: if_splits)
    have down: "sum_list (map waits_left ((wp_shutdowns s)[i := q])) < sum_list (map waits_left (wp_shutdowns s))"
      if "waits_left q < waits_left (wp_shutdowns s ! i)" for q
      using that i(1) by (rule sum_list_waits [rotated])
    show ?thesis
    proof (cases "wp_shutdowns s ! i")
      case AwaitRelay
      then show ?thesis using i(2) down [of AwaitWorkers] assms(2) by (auto simp: work_left_def split: if_splits)
    next
      case AwaitWorkers
      then show ?thesis using i(2) down [of AwaitDb] assms(2) by (auto simp: work_left_def split: if_splits)
    next
      case AwaitDb
      then show ?thesis using i(2) down [of AwaitRedis] assms(2) by (auto simp: work_left_def)
    next
      case AwaitRedis
      then show ?thesis using i(2) assms(2) by (auto simp: work_left_def)
    qed
  qed (use assms stopped in \<open>auto simp: work_left_def tick_left_def relay_event_def batch_done_def tick_over_def job_ends_def
      split: if_splits option.splits tick_wait.splits\<close>)
qed

lemma shutdown_enabled:
  assumes "wp_shutdowns s \<noteq> []"
  shows "\<exists>e s'. finishing e \<and> react e s = Some s'"
proof (cases "rl_inFlight (wp_relay s)")
  case (Some w)
  then have "finishing TickFails" "react TickFails s \<noteq> None" by (simp_all add: relay_event_def)
  then show ?thesis by blast
next
  case drained: None
  show ?thesis
  proof (cases "0 < qw_active (wp_email s) \<or> 0 < qw_active (wp_webhook s)")
    case True
    then have "react EmailEnds s \<noteq> None \<or> react WebhookEnds s \<noteq> None" by (auto simp: job_ends_def)
    moreover have "finishing EmailEnds" "finishing WebhookEnds" by simp_all
    ultimately show ?thesis by blast
  next
    case False
    then have "react (ShutdownContinues 0) s \<noteq> None"
      using drained assms by (cases "wp_shutdowns s ! 0") (auto simp: relay_drained_def)
    moreover have "finishing (ShutdownContinues 0)" by simp
    ultimately show ?thesis by blast
  qed
qed

section \<open>The API process\<close>

text \<open>
  The guard of \<open>bootstrap\<close> in \<open>index.ts\<close>: \<open>connect\<close> is the error the database connection fails with,
  \<open>is_superuser\<close> and \<open>bypass\<close> what PostgreSQL says of the role. The result is the error that ends the
  process with 1, or the server listens.
\<close>
definition api_bootstrap :: "exn option \<Rightarrow> bool \<Rightarrow> string \<Rightarrow> bool \<Rightarrow> exn + unit" where
  "api_bootstrap connect isProduction is_superuser bypass =
     (case connect of
        Some e \<Rightarrow> Inl e
      | None \<Rightarrow>
          guardE (\<not> (isProduction \<and> (is_superuser = ''on'' \<or> bypass)))
            (PlainError ''Refusing to start: the database role bypasses RLS (superuser/BYPASSRLS). Use a non-superuser role in production.''))"

text \<open>A promise by the time (in ms from its creation) at which it settles and its outcome, if it ever does.\<close>
datatype 'a promise = Settles nat "exn + 'a" | Never

text \<open>\<open>Promise.race\<close> of two: the one that settles first, the first of the list on a tie.\<close>
fun promise_race :: "'a promise \<Rightarrow> 'a promise \<Rightarrow> 'a promise" where
  "promise_race (Settles t r) (Settles t' r') = (if t \<le> t' then Settles t r else Settles t' r')"
| "promise_race Never q = q"
| "promise_race p Never = p"

definition withTimeout :: "'a promise \<Rightarrow> nat \<Rightarrow> string \<Rightarrow> 'a promise" where
  "withTimeout p ms label =
     promise_race p (Settles ms (Inl (PlainError (label @ '' timed out after '' @ nat_str ms @ ''ms''))))"

text \<open>\<open>await\<close>: what follows starts when the promise has resolved; a rejection ends the function.\<close>
fun promise_await :: "'a promise \<Rightarrow> ('a \<Rightarrow> 'b promise) \<Rightarrow> 'b promise" where
  "promise_await (Settles t (Inr x)) f = (case f x of Settles t' r \<Rightarrow> Settles (t + t') r | Never \<Rightarrow> Never)"
| "promise_await (Settles t (Inl e)) f = Settles t (Inl e)"
| "promise_await Never f = Never"

text \<open>\<open>/health/ready\<close>; \<open>db\<close> and \<open>redis\<close> are the promises of \<open>SELECT 1\<close> and \<open>PING\<close>.\<close>
definition health_ready :: "unit promise \<Rightarrow> unit promise \<Rightarrow> string promise" where
  "health_ready db redis =
     promise_await (withTimeout db 2000 ''database'') (\<lambda>_.
     promise_await (withTimeout redis 1000 ''redis'') (\<lambda>_. Settles 0 (Inr ''ready'')))"

text \<open>The worker's metrics server: the status and whether the registry's text is the body.\<close>
definition worker_metrics :: "string \<Rightarrow> (exn + string) \<Rightarrow> nat \<times> string" where
  "worker_metrics url metrics =
     (if url = ''/metrics'' then (case metrics of Inr body \<Rightarrow> (200, body) | Inl _ \<Rightarrow> (500, [])) else (404, []))"

definition resolves_by :: "nat \<Rightarrow> unit promise \<Rightarrow> bool" where
  "resolves_by ms p \<longleftrightarrow> (case p of Settles t (Inr _) \<Rightarrow> t \<le> ms | _ \<Rightarrow> False)"

lemma withTimeout_cases:
  obtains t where "withTimeout p ms l = Settles t (Inr ())" "t \<le> ms" "resolves_by ms p"
  | t e where "withTimeout p ms l = Settles t (Inl e)" "t \<le> ms" "\<not> resolves_by ms p"
proof (cases p)
  case (Settles t r)
  then show thesis using that by (cases r; cases "t \<le> ms") (auto simp: withTimeout_def resolves_by_def)
next
  case Never
  then show thesis using that by (simp add: withTimeout_def resolves_by_def)
qed

section \<open>Properties\<close>

text \<open>
  C18. The worker shuts down in order: in every state the worker can reach, whatever signals, ticks, jobs and
  failures have happened in whatever order, once the database connection is being torn down no tick and no
  job is running and none can start any more (the timer is cleared, both queues are closed), so no
  transaction is cut off; and the process exits with 0 only after the connection is gone.
\<close>
theorem worker_shutdown_orderly:
  assumes "worker_reach s"
  shows "(wp_db s \<in> {Disconnecting, Disconnected} \<longrightarrow>
      rl_inFlight (wp_relay s) = None \<and> qw_active (wp_email s) = 0 \<and> qw_active (wp_webhook s) = 0 \<and>
      worker_event TimerFires s = None \<and> worker_event EmailStarts s = None \<and> worker_event WebhookStarts s = None) \<and>
    (wp_exit s = Some 0 \<longrightarrow> wp_db s = Disconnected)"
  using worker_reach_ok [OF assms]
  by (simp add: process_ok_def quiescent_def worker_event_def relay_event_def job_starts_def)

text \<open>
  C19. A shutdown ends: from every reachable state after a signal some pending work can finish, and finishing
  it leaves strictly less, whatever it is (a batch, the tick's statistics, a job, a step of \<open>shutdown\<close>, even
  a failure). So without further signals and jobs the process exits after at most \<open>work_left\<close> events, the
  relay's loop running at most the batch it was in.
\<close>
theorem shutdown_ends:
  assumes "worker_reach s" "wp_exit s = None" "wp_shutdowns s \<noteq> []"
  shows "(\<exists>e s'. finishing e \<and> worker_event e s = Some s') \<and>
    (\<forall>e s'. finishing e \<and> worker_event e s = Some s' \<longrightarrow> work_left s' < work_left s)"
  using shutdown_enabled [OF assms(3)] finishing_decreases [OF worker_reach_ok [OF assms(1)] assms(2,3)] assms(2)
  by (auto simp: worker_event_def)

fun worker_run :: "process_event list \<Rightarrow> worker_process \<Rightarrow> worker_process option" where
  "worker_run [] s = Some s"
| "worker_run (e # es) s = (case worker_event e s of None \<Rightarrow> None | Some s' \<Rightarrow> worker_run es s')"

lemma worker_run_reach: "worker_run es s = Some s' \<Longrightarrow> worker_reach s \<Longrightarrow> worker_reach s'"
  by (induction es arbitrary: s) (auto split: option.splits intro: worker_steps)

text \<open>A signal while a tick and a mail are running.\<close>
definition sample_busy :: "process_event list" where
  "sample_busy = [Booted, TimerFires, EmailStarts, BatchDone 3, SignalArrives]"

theorem worker_shutdown_orderly_witness:
  "\<exists>s. worker_run (sample_busy @ [BatchDone 2, StatsDone, ShutdownContinues 0, EmailEnds, ShutdownContinues 0]) worker_start = Some s \<and>
     wp_db s = Disconnecting \<and> worker_event TimerFires s = None"
proof -
  let ?es = "sample_busy @ [BatchDone 2, StatsDone, ShutdownContinues 0, EmailEnds, ShutdownContinues 0]"
  have r: "worker_run ?es worker_start = Some (the (worker_run ?es worker_start)) \<and>
      wp_db (the (worker_run ?es worker_start)) = Disconnecting" by code_simp
  with worker_shutdown_orderly [OF worker_run_reach [OF conjunct1 [OF r] worker_starts]] show ?thesis by auto
qed

theorem shutdown_ends_witness:
  "\<exists>s. worker_run sample_busy worker_start = Some s \<and> work_left s = 7 \<and> (\<exists>e s'. finishing e \<and> worker_event e s = Some s')"
proof -
  let ?s = "the (worker_run sample_busy worker_start)"
  have r: "worker_run sample_busy worker_start = Some ?s \<and> wp_exit ?s = None \<and> wp_shutdowns ?s = [AwaitRelay] \<and> work_left ?s = 7"
    by code_simp
  then have "worker_reach ?s" using worker_run_reach worker_starts by blast
  from shutdown_ends [OF this] r show ?thesis by auto
qed

text \<open>
  The readiness check always answers within three seconds, and answers "ready" exactly when the database
  answered within two seconds and Redis within one, even when a connection hangs for ever.
\<close>
theorem readiness_bounded:
  "\<exists>t r. health_ready db redis = Settles t r \<and> t \<le> 3000 \<and>
     (r = Inr ''ready'' \<longleftrightarrow> resolves_by 2000 db \<and> resolves_by 1000 redis)"
proof (cases rule: withTimeout_cases [of db 2000 "''database''"])
  case (1 t)
  then show ?thesis
    by (cases rule: withTimeout_cases [of redis 1000 "''redis''"]) (auto simp: health_ready_def)
next
  case (2 t e)
  then show ?thesis by (simp add: health_ready_def)
qed

end
