(* ===== verification/Queues.thy ===== *)
theory Queues
  imports Announcements
begin

text \<open>
  The producers of \<open>jobs/queues\<close>: what each hands to BullMQ's \<open>Queue.add\<close>, and what the ids of its jobs are
  worth when the relay delivers an event again. \<open>Queue.add\<close> is a parameter of each queue; \<open>holds q i\<close> says that
  a queue has a job with the id \<open>i\<close>.
\<close>

section \<open>Producers\<close>

record job_options =
  jo_attempts :: nat
  jo_delay :: nat
  jo_removeOnComplete :: bool
  jo_removeOnFail :: nat
  jo_jobId :: "string option"

text \<open>The name of the job, its data and its options; whether it resolved, and the queue after it.\<close>
type_synonym ('j, 'q) queue_add = "string \<Rightarrow> 'j \<Rightarrow> job_options \<Rightarrow> 'q \<Rightarrow> bool \<times> 'q"

definition JOB_OPTIONS :: job_options where
  "JOB_OPTIONS =
     \<lparr>jo_attempts = 3, jo_delay = 1000, jo_removeOnComplete = True, jo_removeOnFail = 100, jo_jobId = None\<rparr>"

definition enqueueWelcomeEmail :: "(email_job, 'q) queue_add \<Rightarrow> uuid \<Rightarrow> string \<Rightarrow> 'q \<Rightarrow> bool \<times> 'q" where
  "enqueueWelcomeEmail add userId email = add ''welcome'' (WelcomeEmail userId email) JOB_OPTIONS"

definition enqueueInviteEmail :: "(email_job, 'q) queue_add \<Rightarrow> invite_email_job \<Rightarrow> 'q \<Rightarrow> bool \<times> 'q" where
  "enqueueInviteEmail add data = add ''invite'' (InviteEmail data) JOB_OPTIONS"

definition enqueueBookingEmail ::
  "(email_job, 'q) queue_add \<Rightarrow> booking_email_job \<Rightarrow> string option \<Rightarrow> 'q \<Rightarrow> bool \<times> 'q" where
  "enqueueBookingEmail add data jobId = add ''booking'' (BookingEmail data) (JOB_OPTIONS\<lparr>jo_jobId := jobId\<rparr>)"

definition enqueueWebhook :: "(webhook_job, 'q) queue_add \<Rightarrow> webhook_job \<Rightarrow> string option \<Rightarrow> 'q \<Rightarrow> bool \<times> 'q" where
  "enqueueWebhook add data jobId =
     add ''deliver'' data
       \<lparr>jo_attempts = 5, jo_delay = 2000, jo_removeOnComplete = True, jo_removeOnFail = 500, jo_jobId = jobId\<rparr>"

text \<open>What the relay's dispatch calls for a job, on the two queues.\<close>
fun enqueue_job ::
  "(email_job, 'e) queue_add \<Rightarrow> (webhook_job, 'w) queue_add \<Rightarrow> queued_job \<Rightarrow> string \<Rightarrow> 'e \<times> 'w \<Rightarrow> bool \<times> 'e \<times> 'w" where
  "enqueue_job eadd wadd (EmailJob m) i (eq, wq) = (let (ok, eq') = enqueueBookingEmail eadd m (Some i) eq in (ok, eq', wq))"
| "enqueue_job eadd wadd (WebhookJob w) i (eq, wq) = (let (ok, wq') = enqueueWebhook wadd w (Some i) wq in (ok, eq, wq'))"

section \<open>Job ids\<close>

text \<open>
  BullMQ on ids: a second job under an id the queue holds is ignored, an accepted one is held, and adding
  removes nothing.
\<close>
definition ids_respected :: "('q \<Rightarrow> string \<Rightarrow> bool) \<Rightarrow> ('j, 'q) queue_add \<Rightarrow> bool" where
  "ids_respected holds add \<longleftrightarrow>
     (\<forall>n j o' q i. jo_jobId o' = Some i \<and> holds q i \<longrightarrow> add n j o' q = (True, q)) \<and>
     (\<forall>n j o' q q' i. jo_jobId o' = Some i \<and> add n j o' q = (True, q') \<longrightarrow> holds q' i) \<and>
     (\<forall>n j o' q i. holds q i \<longrightarrow> holds (snd (add n j o' q)) i)"

lemma add_ignored: "ids_respected holds add \<Longrightarrow> jo_jobId o' = Some i \<Longrightarrow> holds q i \<Longrightarrow> add n j o' q = (True, q)"
  by (simp add: ids_respected_def)

lemma add_held:
  assumes "ids_respected holds add" "add n j o' q = (True, q')" "jo_jobId o' = Some i"
  shows "holds q' i"
  using assms unfolding ids_respected_def by blast

lemma add_keeps:
  assumes "ids_respected holds add" "add n j o' q = (ok, q')" "holds q i"
  shows "holds q' i"
proof -
  have "holds (snd (add n j o' q)) i" using assms(1,3) by (simp add: ids_respected_def)
  then show ?thesis by (simp add: assms(2))
qed

text \<open>Both jobs of an event are in their queues.\<close>
definition event_held ::
  "('e \<Rightarrow> string \<Rightarrow> bool) \<Rightarrow> ('w \<Rightarrow> string \<Rightarrow> bool) \<Rightarrow> outbox_event \<Rightarrow> 'e \<times> 'w \<Rightarrow> bool" where
  "event_held eholds wholds e q \<longleftrightarrow>
     ob_aggregateType e \<noteq> ''booking'' \<or>
     eholds (fst q) (''email-'' @ e_id e) \<and> wholds (snd q) (''webhook-'' @ e_id e)"

lemma enqueue_job_kept:
  assumes "ids_respected eholds eadd" "ids_respected wholds wadd" "enqueue_job eadd wadd j i q = (ok, q')"
    "event_held eholds wholds e q"
  shows "event_held eholds wholds e q'"
  using assms(3,4)
  by (cases j; cases q)
    (auto simp: event_held_def enqueueBookingEmail_def enqueueWebhook_def
      dest: add_keeps [OF assms(1)] add_keeps [OF assms(2)] split: prod.splits)

lemma dispatch_kept:
  assumes "ids_respected eholds eadd" "ids_respected wholds wadd" "relay_dispatch (enqueue_job eadd wadd) x q = (ok, q')"
    "event_held eholds wholds e q"
  shows "event_held eholds wholds e q'"
  using assms(3,4) unfolding relay_dispatch_def Let_def
  by (auto dest: enqueue_job_kept [OF assms(1,2)] split: if_splits prod.splits)

lemma dispatch_held:
  assumes "ids_respected eholds eadd" "ids_respected wholds wadd" "relay_dispatch (enqueue_job eadd wadd) e q = (True, q')"
  shows "event_held eholds wholds e q'"
proof (cases "ob_aggregateType e = ''booking''")
  case True
  then obtain q1 where 1: "enqueue_job eadd wadd (EmailJob (mail_job e)) (''email-'' @ e_id e) q = (True, q1)"
    "enqueue_job eadd wadd (WebhookJob (hook_job e)) (''webhook-'' @ e_id e) q1 = (True, q')"
    using assms(3) by (auto simp: relay_dispatch_def mail_job_def hook_job_def Let_def split: if_splits prod.splits)
  have "eholds (fst q1) (''email-'' @ e_id e)"
    using 1(1) by (cases q) (auto simp: enqueueBookingEmail_def intro: add_held [OF assms(1)] split: prod.splits)
  moreover have "wholds (snd q') (''webhook-'' @ e_id e)" "fst q' = fst q1"
    using 1(2) by (cases q1; auto simp: enqueueWebhook_def intro: add_held [OF assms(2)] split: prod.splits)+
  ultimately show ?thesis by (simp add: event_held_def)
qed (simp add: event_held_def)

lemma dispatch_again:
  assumes "ids_respected eholds eadd" "ids_respected wholds wadd" "event_held eholds wholds e q"
  shows "relay_dispatch (enqueue_job eadd wadd) e q = (True, q)"
  using assms(3) add_ignored [OF assms(1)] add_ignored [OF assms(2)]
  by (cases q) (auto simp: relay_dispatch_def event_held_def enqueueBookingEmail_def enqueueWebhook_def Let_def)

lemma outcomes_kept:
  assumes "ids_respected eholds eadd" "ids_respected wholds wadd"
  shows "outcomes (relay_dispatch (enqueue_job eadd wadd)) evs q = (os, q') \<Longrightarrow> event_held eholds wholds e q \<Longrightarrow>
    event_held eholds wholds e q'"
  by (induction evs arbitrary: q os) (auto dest: dispatch_kept [OF assms] split: prod.splits)

lemma outcomes_held:
  assumes "ids_respected eholds eadd" "ids_respected wholds wadd"
  shows "outcomes (relay_dispatch (enqueue_job eadd wadd)) evs q = (os, q') \<Longrightarrow> (e, True) \<in> set os \<Longrightarrow>
    event_held eholds wholds e q'"
proof (induction evs arbitrary: q os)
  case (Cons x evs)
  obtain ok q1 where d: "relay_dispatch (enqueue_job eadd wadd) x q = (ok, q1)" by (metis surj_pair)
  obtain os1 where o: "outcomes (relay_dispatch (enqueue_job eadd wadd)) evs q1 = (os1, q')" "os = (x, ok) # os1"
    using Cons.prems(1) d by (auto split: prod.splits)
  show ?case
  proof (cases "(e, True) \<in> set os1")
    case True
    then show ?thesis using Cons.IH o(1) by blast
  next
    case False
    then have "relay_dispatch (enqueue_job eadd wadd) e q = (True, q1)" using Cons.prems(2) o(2) d by auto
    then show ?thesis by (rule outcomes_kept [OF assms o(1) dispatch_held [OF assms]])
  qed
qed simp

text \<open>Events whose jobs are held might as well not be delivered.\<close>
lemma outcomes_skip:
  assumes "ids_respected eholds eadd" "ids_respected wholds wadd"
  shows "(\<And>e. e \<in> S \<Longrightarrow> event_held eholds wholds e q) \<Longrightarrow>
    snd (outcomes (relay_dispatch (enqueue_job eadd wadd)) evs q) =
    snd (outcomes (relay_dispatch (enqueue_job eadd wadd)) (filter (\<lambda>e. e \<notin> S) evs) q)"
proof (induction evs arbitrary: q)
  case (Cons x evs)
  let ?d = "relay_dispatch (enqueue_job eadd wadd)"
  obtain ok q1 where d: "?d x q = (ok, q1)" by (metis surj_pair)
  have "event_held eholds wholds e q1" if "e \<in> S" for e by (rule dispatch_kept [OF assms d Cons.prems [OF that]])
  then have ih: "snd (outcomes ?d evs q1) = snd (outcomes ?d (filter (\<lambda>e. e \<notin> S) evs) q1)" by (rule Cons.IH)
  show ?case
  proof (cases "x \<in> S")
    case True
    then have "?d x q = (True, q)" by (intro dispatch_again [OF assms] Cons.prems)
    then show ?thesis using True ih d by (simp add: case_prod_beta Let_def)
  next
    case False
    then show ?thesis using ih d by (simp add: case_prod_beta Let_def)
  qed
qed simp

lemma outcomes_true:
  assumes "ids_respected eholds eadd" "ids_respected wholds wadd"
  shows "event_held eholds wholds e q \<Longrightarrow> e \<in> set evs \<Longrightarrow> 
    (e, True) \<in> set (fst (outcomes (relay_dispatch (enqueue_job eadd wadd)) evs q))"
proof (induction evs arbitrary: q)
  case (Cons x evs)
  obtain ok q1 where d: "relay_dispatch (enqueue_job eadd wadd) x q = (ok, q1)" by (metis surj_pair)
  have k: "event_held eholds wholds e q1" by (rule dispatch_kept [OF assms d Cons.prems(1)])
  show ?case
  proof (cases "x = e")
    case True
    then have "ok" using d dispatch_again [OF assms Cons.prems(1)] by simp
    then show ?thesis using d True by (simp add: case_prod_beta Let_def)
  next
    case False
    then show ?thesis using d Cons.IH [OF k] Cons.prems(2) by (simp add: case_prod_beta Let_def)
  qed
qed simp

lemma all_delivered:
  assumes "processBatch dispatch clk now locked n q rows = (length (claimBatch now locked n rows), q1, rows1)"
  obtains os where "outcomes dispatch (claimBatch now locked n rows) q = (os, q1)"
    "\<And>e. e \<in> set (claimBatch now locked n rows) \<Longrightarrow> (e, True) \<in> set os"
proof -
  let ?evs = "claimBatch now locked n rows"
  obtain os q' where o: "outcomes dispatch ?evs q = (os, q')" by (metis surj_pair)
  have evs: "map fst os = ?evs" using outcomes_events [of dispatch ?evs q] o by simp
  have "length (filter snd os) = length ?evs" "q' = q1"
    using assms o by (simp_all add: processBatch_def process_events_eq)
  then have "length (filter snd os) = length os" by (metis evs length_map)
  then have all: "x \<in> set os \<Longrightarrow> snd x" for x by (metis length_filter_less less_irrefl)
  have "(e, True) \<in> set os" if "e \<in> set ?evs" for e
  proof -
    have "e \<in> fst ` set os" using that by (metis evs list.set_map)
    then show ?thesis using all by force
  qed
  then show thesis using that o \<open>q' = q1\<close> by blast
qed

text \<open>
  C17. Redelivery after a lost commit. A batch whose every event was queued but whose transaction did not commit is
  run again, at another time and against other locks: the queues take only the jobs of events the first run had not
  claimed, as long as they still hold the jobs of the first run, and every event both runs claimed is now settled as
  dispatched.
\<close>
theorem lost_commit_repeats_nothing:
  assumes "ids_respected eholds eadd" "ids_respected wholds wadd" "distinct (map e_id rows)"
    and "processBatch (relay_dispatch (enqueue_job eadd wadd)) clk now locked n q rows =
           (length (claimBatch now locked n rows), q1, rows1)"
    and "processBatch (relay_dispatch (enqueue_job eadd wadd)) clk' now' locked' n' q1 rows = (m, q2, rows2)"
  shows "q2 = snd (outcomes (relay_dispatch (enqueue_job eadd wadd))
                    (filter (\<lambda>e. e \<notin> set (claimBatch now locked n rows)) (claimBatch now' locked' n' rows)) q1) \<and>
         (\<forall>e \<in> set (claimBatch now locked n rows) \<inter> set (claimBatch now' locked' n' rows). set_dispatched e \<in> set rows2)"
proof
  let ?d = "relay_dispatch (enqueue_job eadd wadd)"
  let ?old = "claimBatch now locked n rows" and ?new = "claimBatch now' locked' n' rows"
  obtain os where os: "outcomes ?d ?old q = (os, q1)" "\<And>e. e \<in> set ?old \<Longrightarrow> (e, True) \<in> set os"
    using all_delivered [OF assms(4)] by blast
  have held: "event_held eholds wholds e q1" if "e \<in> set ?old" for e
    by (rule outcomes_held [OF assms(1,2) os(1) os(2) [OF that]])
  obtain os2 where os2: "outcomes ?d ?new q1 = (os2, q2)"
    using assms(5) by (auto simp: processBatch_def process_events_eq split: prod.splits)
  show "q2 = snd (outcomes ?d (filter (\<lambda>e. e \<notin> set ?old) ?new) q1)"
    using outcomes_skip [OF assms(1,2) held, of "set ?old" ?new] os2 by simp
  show "\<forall>e \<in> set ?old \<inter> set ?new. set_dispatched e \<in> set rows2"
  proof
    fix e assume e: "e \<in> set ?old \<inter> set ?new"
    then have "(e, True) \<in> set os2" using outcomes_true [OF assms(1,2) held, of e ?new] os2 by simp
    moreover have "distinct (map fst os2)"
      using distinct_claimBatch [OF assms(3)] outcomes_events [of ?d ?new q1] os2 by (auto simp: distinct_map)
    ultimately have "map_of os2 e = Some True" by simp
    moreover have "e \<in> set rows" using e set_claimBatch by blast
    ultimately show "set_dispatched e \<in> set rows2"
      unfolding processBatch_rows(1) [OF assms(3,5) os2] by force
  qed
qed

section \<open>A sample queue\<close>

text \<open>Jobs under their ids with their options; completing one removes it if its options say so.\<close>
definition sample_add :: "('j, (string \<times> 'j \<times> job_options) list) queue_add" where
  "sample_add n j o' q =
     (case jo_jobId o' of
        None \<Rightarrow> (True, q @ [([], j, o')])
      | Some i \<Rightarrow> if i \<in> fst ` set q then (True, q) else (True, q @ [(i, j, o')]))"

definition sample_holds :: "(string \<times> 'j \<times> job_options) list \<Rightarrow> string \<Rightarrow> bool" where
  "sample_holds q i \<longleftrightarrow> i \<in> fst ` set q"

definition sample_complete :: "string \<Rightarrow> (string \<times> 'j \<times> job_options) list \<Rightarrow> (string \<times> 'j \<times> job_options) list" where
  "sample_complete i q = filter (\<lambda>(k, _, o'). k \<noteq> i \<or> \<not> jo_removeOnComplete o') q"

lemma sample_ids: "ids_respected sample_holds sample_add"
  by (auto simp: ids_respected_def sample_holds_def sample_add_def split: option.splits if_splits)

definition run_twice :: "outbox_event list" where
  "run_twice = [sample_event_row ''e1'' OutPending 0, sample_event_row ''e2'' OutDispatched 0, sample_event_row ''e3'' OutPending 1]"

text \<open>The first run could claim one event only; the second sees both pending ones and queues the other.\<close>
theorem lost_commit_repeats_nothing_witness:
  "\<exists>q1 rows1 m q2 rows2.
     processBatch (relay_dispatch (enqueue_job sample_add sample_add)) (\<lambda>_. 5) 5 (\<lambda>i. i = ''e3'') 10 ([], []) run_twice = (1, q1, rows1) \<and>
     processBatch (relay_dispatch (enqueue_job sample_add sample_add)) (\<lambda>_. 6) 6 (\<lambda>_. False) 10 q1 run_twice = (m, q2, rows2) \<and>
     q2 = snd (outcomes (relay_dispatch (enqueue_job sample_add sample_add)) [sample_event_row ''e3'' OutPending 1] q1) \<and>
     set_dispatched (sample_event_row ''e1'' OutPending 0) \<in> set rows2"
proof -
  let ?d = "relay_dispatch (enqueue_job sample_add sample_add)"
  have c: "claimBatch 5 (\<lambda>i. i = ''e3'') 10 run_twice = [sample_event_row ''e1'' OutPending 0]"
    "claimBatch 6 (\<lambda>_. False) 10 run_twice = [sample_event_row ''e1'' OutPending 0, sample_event_row ''e3'' OutPending 1]"
    by code_simp+
  have d: "distinct (map e_id run_twice)" by (simp add: run_twice_def sample_event_row_def)
  have ne: "sample_event_row ''e3'' OutPending 1 \<noteq> sample_event_row ''e1'' OutPending 0" by (simp add: sample_event_row_def)
  obtain m1 q1 rows1 where 1: "processBatch ?d (\<lambda>_. 5) 5 (\<lambda>i. i = ''e3'') 10 ([], []) run_twice = (m1, q1, rows1)" by (metis surj_pair)
  obtain m q2 rows2 where 2: "processBatch ?d (\<lambda>_. 6) 6 (\<lambda>_. False) 10 q1 run_twice = (m, q2, rows2)" by (metis surj_pair)
  have "m1 = 1" using 1 c
    by (simp add: processBatch_def relay_dispatch_def sample_event_row_def enqueueBookingEmail_def enqueueWebhook_def sample_add_def)
  then have "processBatch ?d (\<lambda>_. 5) 5 (\<lambda>i. i = ''e3'') 10 ([], []) run_twice =
      (length (claimBatch 5 (\<lambda>i. i = ''e3'') 10 run_twice), q1, rows1)" using 1 c by simp
  note t = lost_commit_repeats_nothing [OF sample_ids sample_ids d this 2]
  have "q2 = snd (outcomes ?d [sample_event_row ''e3'' OutPending 1] q1) \<and>
      set_dispatched (sample_event_row ''e1'' OutPending 0) \<in> set rows2"
    using t ne by (simp add: c del: outcomes.simps)
  then show ?thesis using 1 2 \<open>m1 = 1\<close> by blast
qed

section \<open>Known gaps\<close>

text \<open>
  The comments promise that redelivery is a no-op. Completed jobs are removed, so an event delivered again after
  its jobs were worked off is queued, and mailed, a second time.
\<close>
lemma redelivered_after_completion:
  "relay_dispatch (enqueue_job sample_add sample_add) (sample_event_row ''e1'' OutPending 0) ([], []) = (True, qe, qw) \<Longrightarrow>
   qe \<noteq> [] \<and> qw \<noteq> [] \<and>
   relay_dispatch (enqueue_job sample_add sample_add) (sample_event_row ''e1'' OutPending 0)
     (sample_complete ''email-e1'' qe, sample_complete ''webhook-e1'' qw) = (True, qe, qw)"
  by (auto simp: relay_dispatch_def sample_event_row_def enqueueBookingEmail_def enqueueWebhook_def sample_add_def
      sample_complete_def JOB_OPTIONS_def Let_def)

end
