(* ===== verification/Seeds.thy ===== *)
theory Seeds
  imports References Sessions
begin

text \<open>
  The demo data set of \<open>database/seeds/database.seeder.ts\<close>, with the \<open>ON DELETE\<close> actions of the foreign
  keys its clean-up relies on. Both directions are one transaction over the global and the tenant tables;
  \<open>gen k\<close> is the id the database gives the \<open>k\<close>-th seeded row.
\<close>

section \<open>Deletes and their cascades\<close>

definition ids_where :: "('a base_entity_scheme \<Rightarrow> bool) \<Rightarrow> 'a base_entity_scheme list \<Rightarrow> uuid list" where
  "ids_where p rows = map e_id (filter p rows)"

definition delete_staff :: "(staff_row \<Rightarrow> bool) \<Rightarrow> tdb \<Rightarrow> tdb" where
  "delete_staff p db =
     (let gone = \<lambda>i. i \<in> set (ids_where p (staff_tbl db)) in
      db\<lparr>staff_tbl := delete_where p (staff_tbl db),
         staff_services := delete_where (\<lambda>r. gone (ss_staffId r)) (staff_services db),
         working_hours := delete_where (\<lambda>r. gone (wh_staffId r)) (working_hours db),
         time_off := delete_where (\<lambda>r. gone (to_staffId r)) (time_off db),
         bookings := delete_where (\<lambda>b. gone (bk_staffId b)) (bookings db)\<rparr>)"

definition delete_services :: "(service_row \<Rightarrow> bool) \<Rightarrow> tdb \<Rightarrow> tdb" where
  "delete_services p db =
     (let gone = \<lambda>i. i \<in> set (ids_where p (services db)) in
      db\<lparr>services := delete_where p (services db),
         staff_services := delete_where (\<lambda>r. gone (ss_serviceId r)) (staff_services db),
         bookings := delete_where (\<lambda>b. gone (bk_serviceId b)) (bookings db)\<rparr>)"

definition delete_customers :: "(customer_row \<Rightarrow> bool) \<Rightarrow> tdb \<Rightarrow> tdb" where
  "delete_customers p db =
     (let gone = \<lambda>i. i \<in> set (ids_where p (customers db)) in
      db\<lparr>customers := delete_where p (customers db),
         bookings := delete_where (\<lambda>b. gone (bk_customerId b)) (bookings db)\<rparr>)"

text \<open>\<open>ON DELETE SET NULL\<close>.\<close>
definition delete_recurrences :: "(recurrence_row \<Rightarrow> bool) \<Rightarrow> tdb \<Rightarrow> tdb" where
  "delete_recurrences p db =
     (let gone = \<lambda>r. (case r of None \<Rightarrow> False | Some i \<Rightarrow> i \<in> set (ids_where p (recurrences db))) in
      db\<lparr>recurrences := delete_where p (recurrences db),
         bookings := update_where (\<lambda>b. gone (bk_recurrenceId b)) (\<lambda>b. b\<lparr>bk_recurrenceId := None\<rparr>) (bookings db)\<rparr>)"

text \<open>The rows of the tenant tables that go with the tenants \<open>gone\<close>.\<close>
definition cascade_tenants :: "(uuid \<Rightarrow> bool) \<Rightarrow> tdb \<Rightarrow> tdb" where
  "cascade_tenants gone db =
     (let db1 = delete_recurrences (\<lambda>r. gone (e_tenantId r)) (delete_customers (\<lambda>r. gone (e_tenantId r))
                  (delete_services (\<lambda>r. gone (e_tenantId r)) (delete_staff (\<lambda>r. gone (e_tenantId r)) db))) in
      db1\<lparr>staff_services := delete_where (\<lambda>r. gone (e_tenantId r)) (staff_services db1),
          working_hours := delete_where (\<lambda>r. gone (e_tenantId r)) (working_hours db1),
          time_off := delete_where (\<lambda>r. gone (e_tenantId r)) (time_off db1),
          bookings := delete_where (\<lambda>r. gone (e_tenantId r)) (bookings db1),
          idempotency_keys := delete_where (\<lambda>r. gone (e_tenantId r)) (idempotency_keys db1),
          outbox_events := delete_where (\<lambda>r. gone (e_tenantId r)) (outbox_events db1),
          subscriptions := delete_where (\<lambda>r. gone (e_tenantId r)) (subscriptions db1),
          webhook_endpoints := delete_where (\<lambda>r. gone (e_tenantId r)) (webhook_endpoints db1)\<rparr>)"

definition delete_tenants :: "(tenant \<Rightarrow> bool) \<Rightarrow> gdb \<times> tdb \<Rightarrow> gdb \<times> tdb" where
  "delete_tenants p s =
     (let (g, db) = s; gone = \<lambda>i. i \<in> set (ids_where p (tenants g)) in
      (g\<lparr>tenants := delete_where p (tenants g),
         memberships := delete_where (\<lambda>m. gone (mb_tenantId m)) (memberships g),
         invites := delete_where (\<lambda>i. gone (e_tenantId i)) (invites g)\<rparr>,
       cascade_tenants gone db))"

definition delete_users :: "(user \<Rightarrow> bool) \<Rightarrow> gdb \<times> tdb \<Rightarrow> gdb \<times> tdb" where
  "delete_users p s =
     (let (g, db) = s; gone = \<lambda>i. i \<in> set (ids_where p (users g)) in
      (g\<lparr>users := delete_where p (users g),
         memberships := delete_where (\<lambda>m. gone (mb_userId m)) (memberships g),
         refresh_tokens := delete_where (\<lambda>r. gone (rt_userId r)) (refresh_tokens g)\<rparr>,
       delete_staff (\<lambda>r. gone (st_userId r)) db))"

section \<open>Clearing\<close>

definition TENANT_SLUG :: string where
  "TENANT_SLUG = ''demo-salon''"

definition USER_EMAILS :: "string list" where
  "USER_EMAILS =
     [''admin@example.com'', ''owner@example.com'', ''anna@example.com'', ''ben@example.com''] @
     map (\<lambda>i. ''user'' @ nat_str (i + 1) @ ''@example.com'') [0..<6]"

text \<open>The child-first deletes of one tenant's rows.\<close>
definition clear_rows :: "uuid \<Rightarrow> gdb \<times> tdb \<Rightarrow> gdb \<times> tdb" where
  "clear_rows t s =
     (let (g, db) = s;
          db1 = db\<lparr>bookings := delete_where (\<lambda>r. e_tenantId r = t) (bookings db)\<rparr>;
          db2 = db1\<lparr>time_off := delete_where (\<lambda>r. e_tenantId r = t) (time_off db1)\<rparr>;
          db3 = db2\<lparr>working_hours := delete_where (\<lambda>r. e_tenantId r = t) (working_hours db2)\<rparr>;
          db4 = db3\<lparr>staff_services := delete_where (\<lambda>r. e_tenantId r = t) (staff_services db3)\<rparr>;
          db5 = db4\<lparr>subscriptions := delete_where (\<lambda>r. e_tenantId r = t) (subscriptions db4)\<rparr>;
          db6 = delete_services (\<lambda>r. e_tenantId r = t) db5;
          db7 = delete_staff (\<lambda>r. e_tenantId r = t) db6;
          db8 = delete_customers (\<lambda>r. e_tenantId r = t) db7 in
      (g\<lparr>memberships := delete_where (\<lambda>m. mb_tenantId m = t) (memberships g)\<rparr>, db8))"

definition clear :: "gdb \<times> tdb \<Rightarrow> gdb \<times> tdb" where
  "clear s =
     delete_users (\<lambda>u. us_email u \<in> set USER_EMAILS)
       (case find (\<lambda>tn. live tn \<and> tn_slug tn = TENANT_SLUG) (tenants (fst s)) of
          None \<Rightarrow> s
        | Some tn \<Rightarrow> delete_tenants (\<lambda>x. e_id x = e_id tn) (clear_rows (e_id tn) s))"

section \<open>The data set\<close>

text \<open>\<open>m.save\<close> of new entities: one INSERT after the other, each checked.\<close>
fun save_rows :: "'r constraint list \<Rightarrow> 'r list \<Rightarrow> 'r list \<Rightarrow> exn + 'r list" where
  "save_rows cs [] rows = Inr rows"
| "save_rows cs (r # rs) rows = bindE (insert_checked cs r rows) (save_rows cs rs)"

text \<open>The accounts: e-mail, name and whether super admin, in the order they are created.\<close>
definition seed_accounts :: "(string \<times> string \<times> bool) list" where
  "seed_accounts =
     [(''admin@example.com'', ''Admin'', True), (''owner@example.com'', ''Olivia Owner'', False),
      (''anna@example.com'', ''Anna Stylist'', False), (''ben@example.com'', ''Ben Barber'', False)] @
     map (\<lambda>i. (''user'' @ nat_str (i + 1) @ ''@example.com'', ''User '' @ nat_str (i + 1), False)) [0..<6]"

text \<open>What the database and the process supply: ids, clock, bcrypt's hash of \<open>SEED_PASSWORD\<close>, two readings of \<open>Date.now()\<close>.\<close>
record seed_env =
  sd_gen :: "nat \<Rightarrow> uuid"
  sd_now :: instant
  sd_hash :: string
  sd_date1 :: instant
  sd_date2 :: instant

definition seed_users :: "seed_env \<Rightarrow> user list" where
  "seed_users env =
     map (\<lambda>(k, em, nm, sa). (user_row (sd_gen env k) (sd_now env) em nm (Some (sd_hash env)) None None)\<lparr>us_isSuperAdmin := sa\<rparr>)
       (enumerate 0 seed_accounts)"

abbreviation seed_owner :: "seed_env \<Rightarrow> uuid" where "seed_owner env \<equiv> sd_gen env 1"
abbreviation seed_anna :: "seed_env \<Rightarrow> uuid" where "seed_anna env \<equiv> sd_gen env 2"
abbreviation seed_ben :: "seed_env \<Rightarrow> uuid" where "seed_ben env \<equiv> sd_gen env 3"
abbreviation seed_tenant_id :: "seed_env \<Rightarrow> uuid" where "seed_tenant_id env \<equiv> sd_gen env 10"
abbreviation staffAnna :: "seed_env \<Rightarrow> uuid" where "staffAnna env \<equiv> sd_gen env 14"
abbreviation staffBen :: "seed_env \<Rightarrow> uuid" where "staffBen env \<equiv> sd_gen env 15"
abbreviation haircut :: "seed_env \<Rightarrow> uuid" where "haircut env \<equiv> sd_gen env 16"
abbreviation color :: "seed_env \<Rightarrow> uuid" where "color env \<equiv> sd_gen env 17"
abbreviation massage :: "seed_env \<Rightarrow> uuid" where "massage env \<equiv> sd_gen env 18"
abbreviation jane :: "seed_env \<Rightarrow> uuid" where "jane env \<equiv> sd_gen env 33"
abbreviation john :: "seed_env \<Rightarrow> uuid" where "john env \<equiv> sd_gen env 34"

definition seed_tenant :: "seed_env \<Rightarrow> tenant" where
  "seed_tenant env =
     \<lparr>e_id = seed_tenant_id env, e_createdAt = sd_now env, e_deletedAt = None, tn_name = ''Demo Salon'',
      tn_slug = TENANT_SLUG, tn_timezone = ''Asia/Ho_Chi_Minh'', tn_status = TenantActive\<rparr>"

definition seed_memberships :: "seed_env \<Rightarrow> membership list" where
  "seed_memberships env =
     map (\<lambda>(k, u, role). \<lparr>e_id = sd_gen env k, e_createdAt = sd_now env, e_deletedAt = None, mb_userId = u,
                          mb_tenantId = seed_tenant_id env, mb_role = role\<rparr>)
       [(11, seed_owner env, Owner), (12, seed_anna env, Staff), (13, seed_ben env, Staff)]"

definition seed_staff :: "seed_env \<Rightarrow> staff_row list" where
  "seed_staff env =
     map (\<lambda>(i, u, nm). \<lparr>e_id = i, e_createdAt = sd_now env, e_deletedAt = None, e_tenantId = seed_tenant_id env,
                        st_userId = u, st_displayName = nm, st_active = True\<rparr>)
       [(staffAnna env, seed_anna env, ''Anna''), (staffBen env, seed_ben env, ''Ben'')]"

text \<open>Columns left out take the entity's defaults: currency VND, no buffers, active.\<close>
definition seed_services :: "seed_env \<Rightarrow> service_row list" where
  "seed_services env =
     map (\<lambda>(i, nm, dur, price, buf). \<lparr>e_id = i, e_createdAt = sd_now env, e_deletedAt = None, e_tenantId = seed_tenant_id env,
             svc_name = nm, svc_durationMin = dur, svc_priceAmount = price, svc_priceCurrency = ''VND'',
             svc_bufferBeforeMin = buf, svc_bufferAfterMin = buf, svc_active = True\<rparr>)
       [(haircut env, ''Haircut'', 30, 150000, 0), (color env, ''Hair color'', 90, 500000, 15),
        (massage env, ''Massage'', 60, 400000, 0)]"

definition seed_links :: "seed_env \<Rightarrow> staff_service_row list" where
  "seed_links env =
     map (\<lambda>(k, st, sv). \<lparr>e_id = sd_gen env k, e_createdAt = sd_now env, e_deletedAt = None, e_tenantId = seed_tenant_id env,
                         ss_staffId = st, ss_serviceId = sv\<rparr>)
       [(19, staffAnna env, haircut env), (20, staffAnna env, color env),
        (21, staffBen env, haircut env), (22, staffBen env, massage env)]"

text \<open>Anna works on Monday to Friday, Ben on Tuesday to Saturday.\<close>
definition seed_hours :: "seed_env \<Rightarrow> working_hours_row list" where
  "seed_hours env =
     map (\<lambda>(k, st, d, a, b). \<lparr>e_id = sd_gen env k, e_createdAt = sd_now env, e_deletedAt = None, e_tenantId = seed_tenant_id env,
                              wh_staffId = st, wh_weekday = d, wh_startMin = a, wh_endMin = b\<rparr>)
       (map (\<lambda>d. (22 + d, staffAnna env, int d, 540, 1020)) [1..<6] @
        map (\<lambda>d. (26 + d, staffBen env, int d, 600, 1080)) [2..<7])"

definition seed_customers :: "seed_env \<Rightarrow> customer_row list" where
  "seed_customers env =
     map (\<lambda>(i, nm, em, ph). \<lparr>e_id = i, e_createdAt = sd_now env, e_deletedAt = None, e_tenantId = seed_tenant_id env,
                             cu_name = nm, cu_email = em, cu_phone = ph\<rparr>)
       [(jane env, ''Jane Doe'', ''jane@example.com'', Some ''+84900000001''),
        (john env, ''John Smith'', ''john@example.com'', None),
        (sd_gen env 35, ''Mai Nguyen'', ''mai@example.com'', None)]"

definition seed_subscription :: "seed_env \<Rightarrow> uuid \<Rightarrow> subscription" where
  "seed_subscription env planId =
     \<lparr>e_id = sd_gen env 36, e_createdAt = sd_now env, e_deletedAt = None, e_tenantId = seed_tenant_id env,
      sub_planId = planId, sub_provider = Sepay, sub_providerReference = ''seed-'' @ seed_tenant_id env,
      sub_status = Active\<rparr>"

text \<open>\<open>new Date(ms + n * DAY_MS)\<close> with \<open>setUTCHours(h, 0, 0, 0)\<close>.\<close>
definition at_utc_hour :: "instant \<Rightarrow> int \<Rightarrow> int \<Rightarrow> instant" where
  "at_utc_hour ms n h = (ms + n * DAY_MS) div DAY_MS * DAY_MS + h * 60 * MINUTE_MS"

definition seed_bookings :: "seed_env \<Rightarrow> booking list" where
  "seed_bookings env =
     map (\<lambda>(k, st, sv, cu, a, mins, price). \<lparr>e_id = sd_gen env k, e_createdAt = sd_now env, e_deletedAt = None,
             e_tenantId = seed_tenant_id env, bk_staffId = st, bk_serviceId = sv, bk_customerId = cu, bk_startsAt = a,
             bk_endsAt = a + mins * MINUTE_MS, bk_status = Confirmed, bk_priceAmount = price,
             bk_priceCurrency = ''VND'', bk_recurrenceId = None, bk_version = 1\<rparr>)
       [(37, staffAnna env, haircut env, jane env, at_utc_hour (sd_date1 env) 3 2, 30, 150000),
        (38, staffBen env, massage env, john env, at_utc_hour (sd_date2 env) 4 3, 60, 400000)]"

definition plan_missing :: exn where
  "plan_missing = PlainError ''Plan 'pro' not found -- run `pnpm migration:run` first.''"

definition seed_insert :: "seed_env \<Rightarrow> gdb \<times> tdb \<Rightarrow> exn + gdb \<times> tdb" where
  "seed_insert env s =
     (let (g, db) = s in
      bindE (save_rows users_cs (seed_users env) (users g)) (\<lambda>us.
      bindE (requireE (find (\<lambda>p. live p \<and> pl_code p = plan_code_str ProPlan) (plans g)) plan_missing) (\<lambda>pro.
      bindE (save_rows tenants_cs [seed_tenant env] (tenants g)) (\<lambda>ts.
      bindE (save_rows memberships_cs (seed_memberships env) (memberships g)) (\<lambda>ms.
      bindE (save_rows staff_cs (seed_staff env) (staff_tbl db)) (\<lambda>sts.
      bindE (save_rows services_cs (seed_services env) (services db)) (\<lambda>svs.
      bindE (save_rows staff_services_cs (seed_links env) (staff_services db)) (\<lambda>lks.
      bindE (save_rows working_hours_cs (seed_hours env) (working_hours db)) (\<lambda>hs.
      bindE (save_rows customers_cs (seed_customers env) (customers db)) (\<lambda>cus.
      bindE (save_rows subscriptions_cs [seed_subscription env (e_id pro)] (subscriptions db)) (\<lambda>subs.
      bindE (save_rows bookings_cs (seed_bookings env) (bookings db)) (\<lambda>bs.
        Inr (g\<lparr>users := us, tenants := ts, memberships := ms\<rparr>,
             db\<lparr>staff_tbl := sts, services := svs, staff_services := lks, working_hours := hs, customers := cus,
                subscriptions := subs, bookings := bs\<rparr>)))))))))))))"

definition seedAll :: "seed_env \<Rightarrow> gdb \<times> tdb \<Rightarrow> (exn + unit) \<times> (gdb \<times> tdb)" where
  "seedAll env s = (case seed_insert env (clear s) of Inl e \<Rightarrow> (Inl e, s) | Inr s' \<Rightarrow> (Inr (), s'))"

definition unseedAll :: "gdb \<times> tdb \<Rightarrow> gdb \<times> tdb" where
  "unseedAll s = clear s"

text \<open>The script: its exit code, given whether the data source initialises.\<close>
definition run_seed :: "string list \<Rightarrow> bool \<Rightarrow> seed_env \<Rightarrow> gdb \<times> tdb \<Rightarrow> nat \<times> (gdb \<times> tdb)" where
  "run_seed argv initialized env s =
     (if \<not> initialized then (1, s)
      else if ''--down'' \<in> set argv then (0, unseedAll s)
      else (case seedAll env s of (Inl _, s') \<Rightarrow> (1, s') | (Inr _, s') \<Rightarrow> (0, s')))"

section \<open>What clearing may do\<close>

lemma delete_where_none [simp]: "(\<And>r. r \<in> set rows \<Longrightarrow> \<not> p r) \<Longrightarrow> delete_where p rows = rows"
  by (simp add: delete_where_def)

lemma delete_where_append: "delete_where p (xs @ ys) = delete_where p xs @ delete_where p ys"
  by (simp add: delete_where_def)

lemma delete_where_all: "(\<And>r. r \<in> set rows \<Longrightarrow> p r) \<Longrightarrow> delete_where p rows = []"
  by (simp add: delete_where_def)

definition strip :: "booking \<Rightarrow> booking" where
  "strip b = b\<lparr>bk_recurrenceId := None\<rparr>"

text \<open>Rows only go; a booking may lose its series.\<close>
definition trimmed :: "'a list \<Rightarrow> 'a list \<Rightarrow> bool" where
  "trimmed rows rows' \<longleftrightarrow> (\<exists>p. rows' = filter p rows)"

definition tdb_trims :: "tdb \<Rightarrow> tdb \<Rightarrow> bool" where
  "tdb_trims db db' \<longleftrightarrow>
     trimmed (services db) (services db') \<and> trimmed (customers db) (customers db') \<and>
     trimmed (staff_tbl db) (staff_tbl db') \<and> trimmed (staff_services db) (staff_services db') \<and>
     trimmed (working_hours db) (working_hours db') \<and> trimmed (time_off db) (time_off db') \<and>
     trimmed (map strip (bookings db)) (map strip (bookings db')) \<and>
     trimmed (idempotency_keys db) (idempotency_keys db') \<and> trimmed (outbox_events db) (outbox_events db') \<and>
     trimmed (recurrences db) (recurrences db') \<and> trimmed (subscriptions db) (subscriptions db') \<and>
     trimmed (webhook_endpoints db) (webhook_endpoints db') \<and> webhook_receipts db' = webhook_receipts db"

definition trims :: "gdb \<times> tdb \<Rightarrow> gdb \<times> tdb \<Rightarrow> bool" where
  "trims s s' \<longleftrightarrow>
     plans (fst s') = plans (fst s) \<and> trimmed (tenants (fst s)) (tenants (fst s')) \<and>
     trimmed (users (fst s)) (users (fst s')) \<and> trimmed (memberships (fst s)) (memberships (fst s')) \<and>
     trimmed (refresh_tokens (fst s)) (refresh_tokens (fst s')) \<and> trimmed (invites (fst s)) (invites (fst s')) \<and>
     tdb_trims (snd s) (snd s')"

lemma trimmed_refl [simp]: "trimmed rows rows"
  unfolding trimmed_def by (rule exI [of _ "\<lambda>_. True"]) simp

lemma trimmed_delete [simp]: "trimmed rows (delete_where p rows)"
  by (auto simp: trimmed_def delete_where_def)

lemma trimmed_trans: "trimmed a b \<Longrightarrow> trimmed b c \<Longrightarrow> trimmed a c"
  unfolding trimmed_def by (metis filter_filter)

lemma trimmed_set: "trimmed rows rows' \<Longrightarrow> set rows' \<subseteq> set rows"
  by (auto simp: trimmed_def)

lemma strip_simps [simp]:
  "e_id (strip b) = e_id b" "e_tenantId (strip b) = e_tenantId b" "bk_staffId (strip b) = bk_staffId b"
  "bk_serviceId (strip b) = bk_serviceId b" "bk_customerId (strip b) = bk_customerId b" "strip (strip b) = strip b"
  by (simp_all add: strip_def)

lemma trimmed_strip [simp]:
  assumes "\<And>b. p (strip b) = p b"
  shows "trimmed (map strip rows) (map strip (delete_where p rows))"
proof -
  have "map strip (delete_where p rows) = filter (\<lambda>b. \<not> p b) (map strip rows)"
    using assms by (induction rows) (simp_all add: delete_where_def)
  then show ?thesis by (auto simp: trimmed_def)
qed

lemma strip_update [simp]: "map strip (update_where p (\<lambda>b. b\<lparr>bk_recurrenceId := None\<rparr>) rows) = map strip rows"
  by (induction rows) (simp_all add: update_where_def strip_def)

lemma tdb_trims_refl [simp]: "tdb_trims db db"
  by (simp add: tdb_trims_def)

lemma tdb_trims_trans: "tdb_trims a b \<Longrightarrow> tdb_trims b c \<Longrightarrow> tdb_trims a c"
  unfolding tdb_trims_def by (elim conjE) (intro conjI; (erule (1) trimmed_trans | simp))

lemma delete_trims:
  "tdb_trims db (delete_staff p1 db)" "tdb_trims db (delete_services p2 db)"
  "tdb_trims db (delete_customers p3 db)" "tdb_trims db (delete_recurrences p4 db)"
  by (simp_all add: tdb_trims_def delete_staff_def delete_services_def delete_customers_def delete_recurrences_def Let_def)

lemma cascade_trims: "tdb_trims db (cascade_tenants gone db)"
proof -
  let ?p = "\<lambda>r. gone (e_tenantId r)"
  let ?db = "delete_recurrences ?p (delete_customers ?p (delete_services ?p (delete_staff ?p db)))"
  have "tdb_trims db ?db" using delete_trims tdb_trims_trans by meson
  moreover have "tdb_trims ?db (cascade_tenants gone db)" by (simp add: cascade_tenants_def Let_def tdb_trims_def)
  ultimately show ?thesis by (rule tdb_trims_trans)
qed

lemma clear_rows_trims: "tdb_trims db (snd (clear_rows t (g, db)))"
proof -
  let ?p = "\<lambda>r. e_tenantId r = t"
  let ?db = "db\<lparr>bookings := delete_where ?p (bookings db), time_off := delete_where ?p (time_off db),
      working_hours := delete_where ?p (working_hours db), staff_services := delete_where ?p (staff_services db),
      subscriptions := delete_where ?p (subscriptions db)\<rparr>"
  have "tdb_trims db ?db" by (simp add: tdb_trims_def)
  moreover have "tdb_trims ?db (delete_customers ?p (delete_staff ?p (delete_services ?p ?db)))"
    using delete_trims tdb_trims_trans by meson
  ultimately have "tdb_trims db (delete_customers ?p (delete_staff ?p (delete_services ?p ?db)))" by (rule tdb_trims_trans)
  then show ?thesis by (simp add: clear_rows_def Let_def)
qed

lemma trims_refl [simp]: "trims s s"
  by (simp add: trims_def)

lemma trims_trans: "trims a b \<Longrightarrow> trims b c \<Longrightarrow> trims a c"
  unfolding trims_def by (elim conjE) (intro conjI; (erule (1) trimmed_trans tdb_trims_trans | simp))

lemma clear_trims: "trims s (clear s)"
proof -
  have users: "trims s (delete_users p s)" for p s
    by (cases s) (simp add: trims_def delete_users_def Let_def delete_trims)
  have tenants: "trims s (delete_tenants p s)" for p s
    by (cases s) (simp add: trims_def delete_tenants_def Let_def cascade_trims)
  have rows: "trims s (clear_rows t s)" for t
    using clear_rows_trims [of "snd s" t "fst s"] by (cases s) (simp add: trims_def clear_rows_def Let_def)
  show ?thesis unfolding clear_def
    by (simp add: users trims_trans [OF trims_trans [OF rows tenants] users] split: option.splits)
qed

section \<open>Consistency and fresh ids\<close>

definition consistent_db :: "gdb \<times> tdb \<Rightarrow> bool" where
  "consistent_db s \<longleftrightarrow>
     sat_all users_cs (users (fst s)) \<and> sat_all tenants_cs (tenants (fst s)) \<and>
     sat_all memberships_cs (memberships (fst s)) \<and> tdb_ok (snd s)"

text \<open>Every id a row carries or refers to.\<close>
definition mentioned :: "gdb \<times> tdb \<Rightarrow> uuid set" where
  "mentioned s =
     e_id ` set (users (fst s)) \<union> e_id ` set (tenants (fst s)) \<union>
     (\<Union>m \<in> set (memberships (fst s)). {e_id m, mb_userId m, mb_tenantId m}) \<union>
     rt_userId ` set (refresh_tokens (fst s)) \<union> e_tenantId ` set (invites (fst s)) \<union>
     (\<Union>r \<in> set (staff_tbl (snd s)). {e_id r, e_tenantId r, st_userId r}) \<union>
     (\<Union>r \<in> set (services (snd s)). {e_id r, e_tenantId r}) \<union>
     (\<Union>r \<in> set (customers (snd s)). {e_id r, e_tenantId r}) \<union>
     (\<Union>r \<in> set (staff_services (snd s)). {e_id r, e_tenantId r, ss_staffId r, ss_serviceId r}) \<union>
     (\<Union>r \<in> set (working_hours (snd s)). {e_id r, e_tenantId r, wh_staffId r}) \<union>
     (\<Union>r \<in> set (time_off (snd s)). {e_id r, e_tenantId r, to_staffId r}) \<union>
     (\<Union>b \<in> set (map strip (bookings (snd s))). {e_id b, e_tenantId b, bk_staffId b, bk_serviceId b, bk_customerId b}) \<union>
     (\<Union>r \<in> set (subscriptions (snd s)). {e_id r, e_tenantId r}) \<union>
     e_tenantId ` set (recurrences (snd s)) \<union> e_tenantId ` set (idempotency_keys (snd s)) \<union>
     e_tenantId ` set (outbox_events (snd s)) \<union> e_tenantId ` set (webhook_endpoints (snd s))"

definition fresh_seed :: "seed_env \<Rightarrow> gdb \<times> tdb \<Rightarrow> bool" where
  "fresh_seed env s \<longleftrightarrow>
     inj (sd_gen env) \<and> range (sd_gen env) \<inter> mentioned s = {} \<and>
     ''seed-'' @ seed_tenant_id env \<notin> sub_providerReference ` set (subscriptions (snd s))"

text \<open>The slug and the addresses are free.\<close>
definition cleared :: "gdb \<times> tdb \<Rightarrow> bool" where
  "cleared s \<longleftrightarrow>
     (\<forall>tn \<in> set (tenants (fst s)). tn_slug tn \<noteq> TENANT_SLUG) \<and>
     (\<forall>u \<in> set (users (fst s)). us_email u \<notin> set USER_EMAILS)"

lemma mentioned_trims: "trims s s' \<Longrightarrow> mentioned s' \<subseteq> mentioned s"
  unfolding mentioned_def trims_def tdb_trims_def
  by (elim conjE) (intro Un_mono UN_mono image_mono trimmed_set; (assumption | rule subset_refl))

lemma fresh_trims:
  assumes "trims s s'" "fresh_seed env s"
  shows "fresh_seed env s'"
proof -
  have "trimmed (subscriptions (snd s)) (subscriptions (snd s'))" using assms(1) by (simp add: trims_def tdb_trims_def)
  then have "set (subscriptions (snd s')) \<subseteq> set (subscriptions (snd s))" by (rule trimmed_set)
  then show ?thesis using assms(2) mentioned_trims [OF assms(1)] by (auto simp: fresh_seed_def)
qed

lemma trimmed_sat:
  assumes "keyed_table cs key" "trimmed rows rows'" "sat_all cs rows"
  shows "sat_all cs rows'"
proof -
  obtain p where "rows' = delete_where (\<lambda>r. \<not> p r) rows" using assms(2) by (auto simp: trimmed_def delete_where_def)
  then show ?thesis using table_constraints.delete_sat [OF keyed_table.axioms(1) [OF assms(1)] assms(3)] by simp
qed

lemma bookings_strip: "sat_all bookings_cs (map strip rows) \<longleftrightarrow> sat_all bookings_cs rows"
proof -
  have "booking_conflict (strip a) (strip b) = booking_conflict a b" "pk_conflict (strip a) (strip b) = pk_conflict a b" for a b
    by (simp_all add: booking_conflict_def booking_occupies_def strip_def live_def pk_conflict_def)
  then show ?thesis by (simp add: sat_all_def bookings_cs_def violates_def sorted_wrt_map)
qed

lemmas trimmed_sats =
  trimmed_sat [OF services_tbl.keyed_table_axioms] trimmed_sat [OF customers_tbl.keyed_table_axioms]
  trimmed_sat [OF staff_tbl_t.keyed_table_axioms] trimmed_sat [OF staff_services_tbl.keyed_table_axioms]
  trimmed_sat [OF working_hours_tbl.keyed_table_axioms] trimmed_sat [OF time_off_tbl.keyed_table_axioms]
  trimmed_sat [OF bookings_tbl.keyed_table_axioms] trimmed_sat [OF idempotency_tbl.keyed_table_axioms]
  trimmed_sat [OF outbox_tbl.keyed_table_axioms] trimmed_sat [OF recurrences_tbl.keyed_table_axioms]
  trimmed_sat [OF subscriptions_tbl.keyed_table_axioms] trimmed_sat [OF webhook_endpoints_tbl.keyed_table_axioms]
  trimmed_sat [OF users_tbl.keyed_table_axioms] trimmed_sat [OF tenants_tbl.keyed_table_axioms]
  trimmed_sat [OF memberships_tbl.keyed_table_axioms]

lemma consistent_trims:
  assumes "trims s s'" "consistent_db s"
  shows "consistent_db s'"
proof -
  have "trimmed (map strip (bookings (snd s))) (map strip (bookings (snd s')))"
    using assms(1) by (simp add: trims_def tdb_trims_def)
  moreover have "sat_all bookings_cs (map strip (bookings (snd s)))"
    using assms(2) by (simp add: bookings_strip consistent_db_def tdb_ok_def)
  ultimately have "sat_all bookings_cs (map strip (bookings (snd s')))" by (rule trimmed_sats)
  then have "sat_all bookings_cs (bookings (snd s'))" by (simp add: bookings_strip)
  then show ?thesis using assms unfolding consistent_db_def tdb_ok_def trims_def tdb_trims_def
    by (elim conjE) (intro conjI; (assumption | erule (1) trimmed_sats | simp))
qed

text \<open>No tenant with the slug is soft-deleted, so the lookup finds the one there is.\<close>
lemma clear_cleared:
  assumes "consistent_db s" "\<And>tn. tn \<in> set (tenants (fst s)) \<Longrightarrow> tn_slug tn = TENANT_SLUG \<Longrightarrow> live tn"
  shows "cleared (clear s)"
proof -
  let ?s = "case find (\<lambda>tn. live tn \<and> tn_slug tn = TENANT_SLUG) (tenants (fst s)) of None \<Rightarrow> s
     | Some tn \<Rightarrow> delete_tenants (\<lambda>x. e_id x = e_id tn) (clear_rows (e_id tn) s)"
  have "\<forall>tn \<in> set (tenants (fst ?s)). tn_slug tn \<noteq> TENANT_SLUG"
  proof (cases "find (\<lambda>tn. live tn \<and> tn_slug tn = TENANT_SLUG) (tenants (fst s))")
    case None
    then have same: "?s = s" by simp
    show ?thesis unfolding same using assms(2) None by (auto simp: find_None_iff)
  next
    case (Some tn)
    then have tn: "tn \<in> set (tenants (fst s))" "tn_slug tn = TENANT_SLUG" by (auto dest!: find_Some_mem)
    have "x = tn" if "x \<in> set (tenants (fst s))" "tn_slug x = TENANT_SLUG" for x
    proof (rule ccontr)
      assume "x \<noteq> tn"
      moreover have "sat_all tenants_cs (tenants (fst s))" using assms(1) by (simp add: consistent_db_def)
      ultimately have "\<not> tn_slug x = tn_slug tn"
        using tenants_tbl.no_conflict [of "tenants (fst s)" unique_violation "\<lambda>a b. tn_slug a = tn_slug b" x tn] that tn
        by (simp add: tenants_cs_def)
      then show False using that tn by simp
    qed
    then show ?thesis using Some
      by (cases s) (auto simp: delete_tenants_def clear_rows_def Let_def delete_where_def)
  qed
  then show ?thesis unfolding clear_def cleared_def
    by (cases ?s) (simp add: delete_users_def Let_def delete_where_def)
qed

section \<open>The inserts succeed\<close>

text \<open>Rows that differ pairwise in what the constraints compare, and conflict with no stored row, are saved.\<close>
lemma save_rows_ok:
  assumes "\<And>code C a b. (code, C) \<in> set cs \<Longrightarrow> a \<in> set rs \<Longrightarrow> b \<in> set rs \<Longrightarrow> C a b \<Longrightarrow> k1 a = k1 b \<or> k2 a = k2 b"
    and "distinct (map k1 rs)" "distinct (map k2 rs)"
    and "\<And>code C r x. (code, C) \<in> set cs \<Longrightarrow> r \<in> set rs \<Longrightarrow> x \<in> set rows \<Longrightarrow> \<not> C r x"
  shows "save_rows cs rs rows = Inr (rows @ rs)"
  using assms
proof (induction rs arbitrary: rows)
  case Nil
  then show ?case by simp
next
  case (Cons r rs)
  have "insert_checked cs r rows = Inr (rows @ [r])"
    using Cons.prems(4) by (auto simp: insert_checked_Inr_iff)
  moreover have "save_rows cs rs (rows @ [r]) = Inr ((rows @ [r]) @ rs)"
  proof (rule Cons.IH)
    fix code C x y
    assume "(code, C) \<in> set cs" "x \<in> set rs" "y \<in> set rs" "C x y"
    then show "k1 x = k1 y \<or> k2 x = k2 y" by (intro Cons.prems(1) [of code C x y]) simp_all
  next
    fix code C x y
    assume c: "(code, C) \<in> set cs" "x \<in> set rs" "y \<in> set (rows @ [r])"
    show "\<not> C x y"
    proof (cases "y = r")
      case True
      then have "k1 x \<noteq> k1 y \<and> k2 x \<noteq> k2 y" 
        using imageI [OF c(2), of k1] imageI [OF c(2), of k2] Cons.prems(2,3) by auto
      then show ?thesis using Cons.prems(1) [OF c(1), of x y] c(2) True by auto
    next
      case False
      then show ?thesis using c Cons.prems(4) [OF c(1), of x y] by simp
    qed
  qed (use Cons.prems in simp_all)
  ultimately show ?case by simp
qed

lemma save_rows_sat: "keyed_table cs key \<Longrightarrow> sat_all cs rows \<Longrightarrow> save_rows cs rs rows = Inr rows' \<Longrightarrow> sat_all cs rows'"
  by (induction rs arbitrary: rows)
    (auto simp: result_simps dest: table_constraints.insert_sat [OF keyed_table.axioms(1)])

lemma seed_account_emails: "map fst seed_accounts = USER_EMAILS" "length seed_accounts = 10" "distinct USER_EMAILS"
  by code_simp+

lemma seed_users_maps:
  "map e_id (seed_users env) = map (sd_gen env) [0..<10]" "map us_email (seed_users env) = USER_EMAILS"
proof -
  have e: "map fst (enumerate 0 seed_accounts) = [0..<10]" by (simp add: seed_account_emails)
  have "map e_id (seed_users env) = map (sd_gen env) (map fst (enumerate 0 seed_accounts))"
    unfolding seed_users_def map_map by (rule map_cong) (auto simp: user_row_def)
  then show "map e_id (seed_users env) = map (sd_gen env) [0..<10]" by (simp only: e)
  have "map us_email (seed_users env) = map fst (map snd (enumerate 0 seed_accounts))"
    unfolding seed_users_def map_map by (rule map_cong) (auto simp: user_row_def)
  then show "map us_email (seed_users env) = USER_EMAILS" by (simp only: map_snd_enumerate seed_account_emails)
qed

lemma seed_users_rows: "r \<in> set (seed_users env) \<Longrightarrow> us_provider r = None \<and> us_email r \<in> set USER_EMAILS \<and> e_id r \<in> range (sd_gen env)"
proof -
  assume r: "r \<in> set (seed_users env)"
  have "us_email r \<in> set (map us_email (seed_users env))" "e_id r \<in> set (map e_id (seed_users env))" using r by auto
  then have "us_email r \<in> set USER_EMAILS" "e_id r \<in> range (sd_gen env)" unfolding seed_users_maps by auto
  moreover have "us_provider r = None" using r by (auto simp: seed_users_def user_row_def)
  ultimately show ?thesis by simp
qed

lemma gen_distinct: "inj (sd_gen env) \<Longrightarrow> distinct ks \<Longrightarrow> distinct (map (sd_gen env) ks)"
  by (simp add: distinct_map inj_on_def inj_def)

text \<open>What the constraints of a tenant's table compare.\<close>
lemma tenant_conflicts:
  "(code, C1) \<in> set memberships_cs \<Longrightarrow> C1 m1 m2 \<Longrightarrow> e_id m1 = e_id m2 \<or> mb_userId m1 = mb_userId m2 \<and> mb_tenantId m1 = mb_tenantId m2"
  "(code, C2) \<in> set staff_cs \<Longrightarrow> C2 s1 s2 \<Longrightarrow> e_id s1 = e_id s2 \<or> st_userId s1 = st_userId s2 \<and> e_tenantId s1 = e_tenantId s2"
  "(code, C3) \<in> set services_cs \<Longrightarrow> C3 v1 v2 \<Longrightarrow> e_id v1 = e_id v2 \<or> svc_name v1 = svc_name v2 \<and> e_tenantId v1 = e_tenantId v2"
  "(code, C4) \<in> set staff_services_cs \<Longrightarrow> C4 l1 l2 \<Longrightarrow> e_id l1 = e_id l2 \<or>
     (ss_staffId l1, ss_serviceId l1) = (ss_staffId l2, ss_serviceId l2) \<and> e_tenantId l1 = e_tenantId l2"
  "(code, C5) \<in> set working_hours_cs \<Longrightarrow> C5 h1 h2 \<Longrightarrow> e_id h1 = e_id h2 \<or>
     (wh_staffId h1, wh_weekday h1) = (wh_staffId h2, wh_weekday h2) \<and> e_tenantId h1 = e_tenantId h2"
  "(code, C6) \<in> set customers_cs \<Longrightarrow> C6 c1 c2 \<Longrightarrow> e_id c1 = e_id c2 \<or> cu_email c1 = cu_email c2 \<and> e_tenantId c1 = e_tenantId c2"
  "(code, C7) \<in> set bookings_cs \<Longrightarrow> C7 b1 b2 \<Longrightarrow> e_id b1 = e_id b2 \<or> bk_staffId b1 = bk_staffId b2 \<and> e_tenantId b1 = e_tenantId b2"
  by (auto simp: table_cs_defs pk_conflict_def booking_conflict_def working_hours_conflict_def)

lemma fresh_mentioned: "fresh_seed env s \<Longrightarrow> i \<in> mentioned s \<Longrightarrow> i \<noteq> sd_gen env k"
  by (auto simp: fresh_seed_def)

lemma mentioned_ids:
  "u \<in> set (users (fst s)) \<Longrightarrow> e_id u \<in> mentioned s" "tn \<in> set (tenants (fst s)) \<Longrightarrow> e_id tn \<in> mentioned s"
  "m \<in> set (memberships (fst s)) \<Longrightarrow> {e_id m, mb_userId m, mb_tenantId m} \<subseteq> mentioned s"
  "rt \<in> set (refresh_tokens (fst s)) \<Longrightarrow> rt_userId rt \<in> mentioned s"
  "iv \<in> set (invites (fst s)) \<Longrightarrow> e_tenantId iv \<in> mentioned s"
  "st \<in> set (staff_tbl (snd s)) \<Longrightarrow> {e_id st, e_tenantId st, st_userId st} \<subseteq> mentioned s"
  "sv \<in> set (services (snd s)) \<Longrightarrow> {e_id sv, e_tenantId sv} \<subseteq> mentioned s"
  "cu \<in> set (customers (snd s)) \<Longrightarrow> {e_id cu, e_tenantId cu} \<subseteq> mentioned s"
  "l \<in> set (staff_services (snd s)) \<Longrightarrow> {e_id l, e_tenantId l, ss_staffId l, ss_serviceId l} \<subseteq> mentioned s"
  "h \<in> set (working_hours (snd s)) \<Longrightarrow> {e_id h, e_tenantId h, wh_staffId h} \<subseteq> mentioned s"
  "off \<in> set (time_off (snd s)) \<Longrightarrow> {e_id off, e_tenantId off, to_staffId off} \<subseteq> mentioned s"
  "b \<in> set (bookings (snd s)) \<Longrightarrow> {e_id b, e_tenantId b, bk_staffId b, bk_serviceId b, bk_customerId b} \<subseteq> mentioned s"
  "sub \<in> set (subscriptions (snd s)) \<Longrightarrow> {e_id sub, e_tenantId sub} \<subseteq> mentioned s"
  "rc \<in> set (recurrences (snd s)) \<Longrightarrow> e_tenantId rc \<in> mentioned s"
  "ik \<in> set (idempotency_keys (snd s)) \<Longrightarrow> e_tenantId ik \<in> mentioned s"
  "ev \<in> set (outbox_events (snd s)) \<Longrightarrow> e_tenantId ev \<in> mentioned s"
  "we \<in> set (webhook_endpoints (snd s)) \<Longrightarrow> e_tenantId we \<in> mentioned s"
  unfolding mentioned_def by auto

text \<open>Ids and tenants of the seeded rows.\<close>
lemma seed_row_ids:
  "map e_id (seed_memberships env) = map (sd_gen env) [11, 12, 13]" "map e_id (seed_staff env) = map (sd_gen env) [14, 15]"
  "map e_id (seed_services env) = map (sd_gen env) [16, 17, 18]" "map e_id (seed_links env) = map (sd_gen env) [19, 20, 21, 22]"
  "map e_id (seed_hours env) = map (sd_gen env) [23, 24, 25, 26, 27, 28, 29, 30, 31, 32]"
  "map e_id (seed_customers env) = map (sd_gen env) [33, 34, 35]" "map e_id (seed_bookings env) = map (sd_gen env) [37, 38]"
  by (simp_all add: seed_memberships_def seed_staff_def seed_services_def seed_links_def seed_hours_def seed_customers_def
      seed_bookings_def upt_rec)

lemma seed_row_tenants:
  "m \<in> set (seed_memberships env) \<Longrightarrow> mb_tenantId m = seed_tenant_id env"
  "st \<in> set (seed_staff env) \<Longrightarrow> e_tenantId st = seed_tenant_id env"
  "sv \<in> set (seed_services env) \<Longrightarrow> e_tenantId sv = seed_tenant_id env"
  "l \<in> set (seed_links env) \<Longrightarrow> e_tenantId l = seed_tenant_id env"
  "h \<in> set (seed_hours env) \<Longrightarrow> e_tenantId h = seed_tenant_id env"
  "cu \<in> set (seed_customers env) \<Longrightarrow> e_tenantId cu = seed_tenant_id env"
  "b \<in> set (seed_bookings env) \<Longrightarrow> e_tenantId b = seed_tenant_id env"
  by (auto simp: seed_memberships_def seed_staff_def seed_services_def seed_links_def seed_hours_def seed_customers_def
      seed_bookings_def)

text \<open>What the constraints compare is distinct among the seeded rows.\<close>
lemma seed_row_keys:
  assumes "inj (sd_gen env)"
  shows "distinct (map mb_userId (seed_memberships env))" "distinct (map st_userId (seed_staff env))"
    "distinct (map svc_name (seed_services env))" "distinct (map (\<lambda>r. (ss_staffId r, ss_serviceId r)) (seed_links env))"
    "distinct (map (\<lambda>r. (wh_staffId r, wh_weekday r)) (seed_hours env))" "distinct (map cu_email (seed_customers env))"
    "distinct (map bk_staffId (seed_bookings env))"
  by (simp_all add: seed_memberships_def seed_staff_def seed_services_def seed_links_def seed_hours_def seed_customers_def
      seed_bookings_def upt_rec inj_eq [OF assms])

lemma seed_ids_distinct:
  assumes "inj (sd_gen env)"
  shows "distinct (map e_id (seed_users env))" "distinct (map e_id (seed_memberships env))" "distinct (map e_id (seed_staff env))"
    "distinct (map e_id (seed_services env))" "distinct (map e_id (seed_links env))" "distinct (map e_id (seed_hours env))"
    "distinct (map e_id (seed_customers env))" "distinct (map e_id (seed_bookings env))"
  unfolding seed_users_maps seed_row_ids by (rule gen_distinct [OF assms], simp)+

lemma map_in_range: "map f xs = map g ks \<Longrightarrow> x \<in> set xs \<Longrightarrow> f x \<in> range g"
  by (metis image_subset_iff list.set_map rangeI subset_UNIV image_mono imageI subsetD)

lemma seed_ids_range:
  "m \<in> set (seed_memberships env) \<Longrightarrow> e_id m \<in> range (sd_gen env)"
  "st \<in> set (seed_staff env) \<Longrightarrow> e_id st \<in> range (sd_gen env)"
  "sv \<in> set (seed_services env) \<Longrightarrow> e_id sv \<in> range (sd_gen env)"
  "l \<in> set (seed_links env) \<Longrightarrow> e_id l \<in> range (sd_gen env)"
  "h \<in> set (seed_hours env) \<Longrightarrow> e_id h \<in> range (sd_gen env)"
  "cu \<in> set (seed_customers env) \<Longrightarrow> e_id cu \<in> range (sd_gen env)"
  "b \<in> set (seed_bookings env) \<Longrightarrow> e_id b \<in> range (sd_gen env)"
  by (erule map_in_range [OF seed_row_ids(1)] map_in_range [OF seed_row_ids(2)] map_in_range [OF seed_row_ids(3)]
      map_in_range [OF seed_row_ids(4)] map_in_range [OF seed_row_ids(5)] map_in_range [OF seed_row_ids(6)]
      map_in_range [OF seed_row_ids(7)])+

definition seeded :: "seed_env \<Rightarrow> uuid \<Rightarrow> gdb \<times> tdb \<Rightarrow> gdb \<times> tdb" where
  "seeded env pid s =
     ((fst s)\<lparr>users := users (fst s) @ seed_users env, tenants := tenants (fst s) @ [seed_tenant env],
              memberships := memberships (fst s) @ seed_memberships env\<rparr>,
      (snd s)\<lparr>staff_tbl := staff_tbl (snd s) @ seed_staff env, services := services (snd s) @ seed_services env,
              staff_services := staff_services (snd s) @ seed_links env,
              working_hours := working_hours (snd s) @ seed_hours env,
              customers := customers (snd s) @ seed_customers env,
              subscriptions := subscriptions (snd s) @ [seed_subscription env pid],
              bookings := bookings (snd s) @ seed_bookings env\<rparr>)"

lemma save_one: "insert_checked cs r rows = Inr rows' \<Longrightarrow> save_rows cs [r] rows = Inr rows'"
  by simp

lemma distinct_mapD: "distinct (map f xs) \<Longrightarrow> distinct xs"
  by (simp add: distinct_map)

lemma seed_global_rows:
  assumes "fresh_seed env s" "cleared s"
  shows "save_rows users_cs (seed_users env) (users (fst s)) = Inr (users (fst s) @ seed_users env)"
    "save_rows tenants_cs [seed_tenant env] (tenants (fst s)) = Inr (tenants (fst s) @ [seed_tenant env])"
    "save_rows memberships_cs (seed_memberships env) (memberships (fst s)) = Inr (memberships (fst s) @ seed_memberships env)"
proof -
  have inj: "inj (sd_gen env)" using assms(1) by (simp add: fresh_seed_def)
  have new: "i \<in> mentioned s \<Longrightarrow> i \<notin> range (sd_gen env)" for i using assms(1) by (auto simp: fresh_seed_def)
  show "save_rows users_cs (seed_users env) (users (fst s)) = Inr (users (fst s) @ seed_users env)"
  proof (rule save_rows_ok [where ?k1.0 = e_id and ?k2.0 = us_email])
    show "distinct (map e_id (seed_users env))" by (rule seed_ids_distinct [OF inj])
    show "distinct (map us_email (seed_users env))" by (simp only: seed_users_maps seed_account_emails)
    fix code C a b
    assume "(code, C) \<in> set users_cs" "a \<in> set (seed_users env)" "C a b"
    then show "e_id a = e_id b \<or> us_email a = us_email b"
      using seed_users_rows [of a env] by (auto simp: users_cs_def pk_conflict_def)
  next
    fix code C r x
    assume m: "(code, C) \<in> set users_cs" "r \<in> set (seed_users env)" "x \<in> set (users (fst s))"
    have "e_id r \<noteq> e_id x" using seed_users_rows [OF m(2)] new [OF mentioned_ids(1) [OF m(3)]] by auto
    moreover have "us_email r \<noteq> us_email x" using seed_users_rows [OF m(2)] assms(2) m(3) by (auto simp: cleared_def)
    ultimately show "\<not> C r x" using m(1) seed_users_rows [OF m(2)] by (auto simp: users_cs_def pk_conflict_def)
  qed
  show "save_rows tenants_cs [seed_tenant env] (tenants (fst s)) = Inr (tenants (fst s) @ [seed_tenant env])"
    using assms(2) fresh_mentioned [OF assms(1) mentioned_ids(2)] fresh_mentioned [OF assms(1) mentioned_ids(2), THEN not_sym]
    by (intro save_one) (auto simp: insert_checked_Inr_iff tenants_cs_def pk_conflict_def seed_tenant_def cleared_def)
  show "save_rows memberships_cs (seed_memberships env) (memberships (fst s)) = Inr (memberships (fst s) @ seed_memberships env)"
  proof (rule save_rows_ok [where ?k1.0 = e_id and ?k2.0 = mb_userId])
    fix code C r x
    assume "(code, C) \<in> set memberships_cs" "r \<in> set (seed_memberships env)" "x \<in> set (memberships (fst s))"
    then show "\<not> C r x"
      using seed_ids_range(1) [of r env] seed_row_tenants(1) [of r env] mentioned_ids(3) [of x s] new
      by (fastforce dest: tenant_conflicts)
  qed (use seed_ids_distinct [OF inj] seed_row_keys [OF inj] in \<open>auto dest: tenant_conflicts\<close>)
qed

lemma seed_tenant_rows:
  assumes "fresh_seed env s"
  shows "save_rows staff_cs (seed_staff env) (staff_tbl (snd s)) = Inr (staff_tbl (snd s) @ seed_staff env)"
    "save_rows services_cs (seed_services env) (services (snd s)) = Inr (services (snd s) @ seed_services env)"
    "save_rows staff_services_cs (seed_links env) (staff_services (snd s)) = Inr (staff_services (snd s) @ seed_links env)"
    "save_rows working_hours_cs (seed_hours env) (working_hours (snd s)) = Inr (working_hours (snd s) @ seed_hours env)"
    "save_rows customers_cs (seed_customers env) (customers (snd s)) = Inr (customers (snd s) @ seed_customers env)"
    "save_rows subscriptions_cs [seed_subscription env pid] (subscriptions (snd s)) = Inr (subscriptions (snd s) @ [seed_subscription env pid])"
    "save_rows bookings_cs (seed_bookings env) (bookings (snd s)) = Inr (bookings (snd s) @ seed_bookings env)"
proof -
  have inj: "inj (sd_gen env)" using assms by (simp add: fresh_seed_def)
  note keys = seed_ids_distinct [OF inj] seed_row_keys [OF inj]
  have new: "e_id r \<noteq> e_id x \<and> e_tenantId r \<noteq> e_tenantId x"
    if "{e_id x, e_tenantId x} \<subseteq> mentioned s" "e_id r \<in> range (sd_gen env)" "e_tenantId r = seed_tenant_id env"
    for r :: "'a tenant_entity_scheme" and x :: "'a tenant_entity_scheme"
    using that fresh_mentioned [OF assms] by (metis insert_subset rangeE)
  show "save_rows staff_cs (seed_staff env) (staff_tbl (snd s)) = Inr (staff_tbl (snd s) @ seed_staff env)"
    by (rule save_rows_ok [where ?k1.0 = e_id and ?k2.0 = st_userId])
      (use keys tenant_conflicts(2) new [OF _ seed_ids_range(2) seed_row_tenants(2)] mentioned_ids(6) in \<open>blast+\<close>)
  show "save_rows services_cs (seed_services env) (services (snd s)) = Inr (services (snd s) @ seed_services env)"
    by (rule save_rows_ok [where ?k1.0 = e_id and ?k2.0 = svc_name])
      (use keys tenant_conflicts(3) new [OF _ seed_ids_range(3) seed_row_tenants(3)] mentioned_ids(7) in \<open>blast+\<close>)
  show "save_rows staff_services_cs (seed_links env) (staff_services (snd s)) = Inr (staff_services (snd s) @ seed_links env)"
    by (rule save_rows_ok [where ?k1.0 = e_id and ?k2.0 = "\<lambda>r. (ss_staffId r, ss_serviceId r)"])
      (use keys tenant_conflicts(4) new [OF _ seed_ids_range(4) seed_row_tenants(4)] mentioned_ids(9) in \<open>blast+\<close>)
  show "save_rows working_hours_cs (seed_hours env) (working_hours (snd s)) = Inr (working_hours (snd s) @ seed_hours env)"
    by (rule save_rows_ok [where ?k1.0 = e_id and ?k2.0 = "\<lambda>r. (wh_staffId r, wh_weekday r)"])
      (use keys tenant_conflicts(5) new [OF _ seed_ids_range(5) seed_row_tenants(5)] mentioned_ids(10) in \<open>blast+\<close>)
  show "save_rows customers_cs (seed_customers env) (customers (snd s)) = Inr (customers (snd s) @ seed_customers env)"
    by (rule save_rows_ok [where ?k1.0 = e_id and ?k2.0 = cu_email])
      (use keys tenant_conflicts(6) new [OF _ seed_ids_range(6) seed_row_tenants(6)] mentioned_ids(8) in \<open>blast+\<close>)
  show "save_rows bookings_cs (seed_bookings env) (bookings (snd s)) = Inr (bookings (snd s) @ seed_bookings env)"
    by (rule save_rows_ok [where ?k1.0 = e_id and ?k2.0 = bk_staffId])
      (use keys tenant_conflicts(7) new [OF _ seed_ids_range(7) seed_row_tenants(7)] mentioned_ids(12) in \<open>blast+\<close>)
  show "save_rows subscriptions_cs [seed_subscription env pid] (subscriptions (snd s)) =
      Inr (subscriptions (snd s) @ [seed_subscription env pid])"
  proof (rule save_one)
    have "\<not> C (seed_subscription env pid) x" if m: "(code, C) \<in> set subscriptions_cs" "x \<in> set (subscriptions (snd s))" for code C x
    proof -
      let ?r = "seed_subscription env pid"
      have r: "e_id ?r = sd_gen env 36" "e_tenantId ?r = seed_tenant_id env" "sub_providerReference ?r = ''seed-'' @ seed_tenant_id env"
        by (simp_all add: seed_subscription_def)
      have "e_id ?r \<noteq> e_id x \<and> e_tenantId ?r \<noteq> e_tenantId x"
        using mentioned_ids(13) [OF m(2)] by (intro new) (simp_all add: r)
      moreover have "sub_providerReference ?r \<noteq> sub_providerReference x"
        using assms m(2) unfolding r fresh_seed_def by (auto simp del: append.simps)
      ultimately show ?thesis using m(1) by (auto simp: subscriptions_cs_def pk_conflict_def)
    qed
    then show "insert_checked subscriptions_cs (seed_subscription env pid) (subscriptions (snd s)) =
        Inr (subscriptions (snd s) @ [seed_subscription env pid])"
      unfolding insert_checked_Inr_iff by blast
  qed
qed

lemma seed_insert_ok:
  assumes "fresh_seed env s" "cleared s" "find (\<lambda>p. live p \<and> pl_code p = plan_code_str ProPlan) (plans (fst s)) = Some pro"
  shows "seed_insert env s = Inr (seeded env (e_id pro) s)"
  using assms(3)
  by (simp add: seed_insert_def seeded_def case_prod_beta seed_global_rows [OF assms(1,2)] seed_tenant_rows [OF assms(1)]
      requireE_def del: save_rows.simps)

lemma seeded_consistent:
  assumes "fresh_seed env s" "cleared s" "consistent_db s"
  shows "consistent_db (seeded env pid s)"
proof -
  note g = seed_global_rows [OF assms(1,2)]
  note t = seed_tenant_rows(1-5,7) [OF assms(1)] seed_tenant_rows(6) [OF assms(1), of pid]
  have "sat_all users_cs (users (fst s) @ seed_users env)" "sat_all tenants_cs (tenants (fst s) @ [seed_tenant env])"
    "sat_all memberships_cs (memberships (fst s) @ seed_memberships env)"
    using assms(3) save_rows_sat [OF users_tbl.keyed_table_axioms _ g(1)] save_rows_sat [OF tenants_tbl.keyed_table_axioms _ g(2)]
      save_rows_sat [OF memberships_tbl.keyed_table_axioms _ g(3)] by (simp_all add: consistent_db_def)
  moreover have "sat_all staff_cs (staff_tbl (snd s) @ seed_staff env)" "sat_all services_cs (services (snd s) @ seed_services env)"
    "sat_all staff_services_cs (staff_services (snd s) @ seed_links env)"
    "sat_all working_hours_cs (working_hours (snd s) @ seed_hours env)"
    "sat_all customers_cs (customers (snd s) @ seed_customers env)"
    "sat_all subscriptions_cs (subscriptions (snd s) @ [seed_subscription env pid])"
    "sat_all bookings_cs (bookings (snd s) @ seed_bookings env)"
    using assms(3) save_rows_sat [OF staff_tbl_t.keyed_table_axioms _ t(1)] save_rows_sat [OF services_tbl.keyed_table_axioms _ t(2)]
      save_rows_sat [OF staff_services_tbl.keyed_table_axioms _ t(3)] save_rows_sat [OF working_hours_tbl.keyed_table_axioms _ t(4)]
      save_rows_sat [OF customers_tbl.keyed_table_axioms _ t(5)] save_rows_sat [OF subscriptions_tbl.keyed_table_axioms _ t(7)]
      save_rows_sat [OF bookings_tbl.keyed_table_axioms _ t(6)]
    by (simp_all add: consistent_db_def tdb_ok_def)
  ultimately show ?thesis using assms(3) by (simp add: consistent_db_def tdb_ok_def seeded_def)
qed

section \<open>Clearing what was seeded\<close>

text \<open>A delete that matches exactly the appended rows, to which no child row refers, undoes the append.\<close>
lemma delete_where_appended:
  assumes "\<And>r. r \<in> set old \<Longrightarrow> \<not> p r" "\<And>r. r \<in> set new \<Longrightarrow> p r"
  shows "delete_where p (old @ new) = old" "ids_where p (old @ new) = map e_id new"
  using assms by (simp_all add: delete_where_def ids_where_def filter_False filter_True)

lemma ids_where_none [simp]: "(\<And>r. r \<in> set rows \<Longrightarrow> \<not> p r) \<Longrightarrow> ids_where p rows = []"
  by (simp add: ids_where_def filter_False)

lemma delete_identity:
  "(\<And>r. r \<in> set (staff_tbl db) \<Longrightarrow> \<not> p1 r) \<Longrightarrow> delete_staff p1 db = db"
  "(\<And>r. r \<in> set (services db) \<Longrightarrow> \<not> p2 r) \<Longrightarrow> delete_services p2 db = db"
  "(\<And>r. r \<in> set (customers db) \<Longrightarrow> \<not> p3 r) \<Longrightarrow> delete_customers p3 db = db"
  "(\<And>r. r \<in> set (recurrences db) \<Longrightarrow> \<not> p4 r) \<Longrightarrow> delete_recurrences p4 db = db"
  by (simp_all add: delete_staff_def delete_services_def delete_customers_def delete_recurrences_def update_where_none
      split: option.splits)

lemma cascade_identity:
  assumes "\<And>i. gone i \<Longrightarrow> i \<notin> mentioned s"
  shows "cascade_tenants gone (snd s) = snd s"
proof -
  have new: "i \<in> mentioned s \<Longrightarrow> \<not> gone i" for i using assms by blast
  have "delete_recurrences (\<lambda>r. gone (e_tenantId r)) (delete_customers (\<lambda>r. gone (e_tenantId r))
      (delete_services (\<lambda>r. gone (e_tenantId r)) (delete_staff (\<lambda>r. gone (e_tenantId r)) (snd s)))) = snd s"
    using mentioned_ids [of _ s] by (simp add: delete_identity new)
  then show ?thesis unfolding cascade_tenants_def Let_def using mentioned_ids [of _ s] by (simp add: new)
qed

lemma clear_rows_seeded:
  assumes "fresh_seed env s"
  shows "clear_rows (seed_tenant_id env) (seeded env pid s) =
     ((fst s)\<lparr>users := users (fst s) @ seed_users env, tenants := tenants (fst s) @ [seed_tenant env]\<rparr>, snd s)"
proof -
  let ?t = "seed_tenant_id env"
  let ?p = "\<lambda>r. e_tenantId r = ?t"
  note m = mentioned_ids [of _ s]
  have new: "i \<in> mentioned s \<Longrightarrow> i \<notin> range (sd_gen env)" for i using assms by (auto simp: fresh_seed_def)
  have tid: "i \<in> mentioned s \<Longrightarrow> i \<noteq> ?t" for i using new by blast
  have sub: "x \<in> set [seed_subscription env pid] \<Longrightarrow> e_tenantId x = ?t" for x by (simp add: seed_subscription_def)
  have old: "x1 \<in> set (memberships (fst s)) \<Longrightarrow> mb_tenantId x1 \<noteq> ?t" "x2 \<in> set (bookings (snd s)) \<Longrightarrow> e_tenantId x2 \<noteq> ?t"
    "x3 \<in> set (time_off (snd s)) \<Longrightarrow> e_tenantId x3 \<noteq> ?t" "x4 \<in> set (working_hours (snd s)) \<Longrightarrow> e_tenantId x4 \<noteq> ?t"
    "x5 \<in> set (staff_services (snd s)) \<Longrightarrow> e_tenantId x5 \<noteq> ?t" "x6 \<in> set (subscriptions (snd s)) \<Longrightarrow> e_tenantId x6 \<noteq> ?t"
    "x7 \<in> set (services (snd s)) \<Longrightarrow> e_tenantId x7 \<noteq> ?t" "x8 \<in> set (staff_tbl (snd s)) \<Longrightarrow> e_tenantId x8 \<noteq> ?t"
    "x9 \<in> set (customers (snd s)) \<Longrightarrow> e_tenantId x9 \<noteq> ?t" for x1 x2 x3 x4 x5 x6 x7 x8 x9
    by (rule tid, drule m, simp)+
  note app = delete_where_appended [OF old(1) seed_row_tenants(1)] delete_where_appended [OF old(2) seed_row_tenants(7)]
    delete_where_appended [OF old(4) seed_row_tenants(5)] delete_where_appended [OF old(5) seed_row_tenants(4)]
    delete_where_appended [OF old(6) sub] delete_where_appended [OF old(7) seed_row_tenants(3)]
    delete_where_appended [OF old(8) seed_row_tenants(2)] delete_where_appended [OF old(9) seed_row_tenants(6)]
  have off: "delete_where ?p (time_off (snd s)) = time_off (snd s)" by (simp add: old)
  have gone: "i \<in> mentioned s \<Longrightarrow> i \<notin> e_id ` set (seed_services env)" "i \<in> mentioned s \<Longrightarrow> i \<notin> e_id ` set (seed_staff env)"
    "i \<in> mentioned s \<Longrightarrow> i \<notin> e_id ` set (seed_customers env)" for i
    using new [of i] seed_ids_range [of _ env] by blast+
  have kids: "delete_where (\<lambda>r. ss_staffId r \<in> e_id ` set (seed_staff env)) (staff_services (snd s)) = staff_services (snd s)"
    "delete_where (\<lambda>r. ss_serviceId r \<in> e_id ` set (seed_services env)) (staff_services (snd s)) = staff_services (snd s)"
    "delete_where (\<lambda>r. wh_staffId r \<in> e_id ` set (seed_staff env)) (working_hours (snd s)) = working_hours (snd s)"
    "delete_where (\<lambda>r. to_staffId r \<in> e_id ` set (seed_staff env)) (time_off (snd s)) = time_off (snd s)"
    "delete_where (\<lambda>b. bk_staffId b \<in> e_id ` set (seed_staff env)) (bookings (snd s)) = bookings (snd s)"
    "delete_where (\<lambda>b. bk_serviceId b \<in> e_id ` set (seed_services env)) (bookings (snd s)) = bookings (snd s)"
    "delete_where (\<lambda>b. bk_customerId b \<in> e_id ` set (seed_customers env)) (bookings (snd s)) = bookings (snd s)"
    by (rule delete_where_none, rule gone, drule m, simp)+
  have one: "delete_where ?p (subscriptions (snd s) @ [seed_subscription env pid]) = subscriptions (snd s)"
    by (rule delete_where_appended(1) [OF old(6) sub])
  show ?thesis
    by (simp add: clear_rows_def seeded_def Let_def app one off delete_services_def delete_staff_def delete_customers_def kids)
qed

lemma delete_tenant_seeded:
  assumes "fresh_seed env s"
  shows "delete_tenants (\<lambda>x. e_id x = seed_tenant_id env)
      ((fst s)\<lparr>users := us, tenants := tenants (fst s) @ [seed_tenant env]\<rparr>, snd s) = ((fst s)\<lparr>users := us\<rparr>, snd s)"
proof -
  have tid: "i \<in> mentioned s \<Longrightarrow> i \<noteq> seed_tenant_id env" for i using fresh_mentioned [OF assms] by blast
  have old: "tn \<in> set (tenants (fst s)) \<Longrightarrow> e_id tn \<noteq> seed_tenant_id env" for tn by (rule tid, drule mentioned_ids, simp)
  have new: "tn \<in> set [seed_tenant env] \<Longrightarrow> e_id tn = seed_tenant_id env" for tn by (simp add: seed_tenant_def)
  have ids: "map e_id [seed_tenant env] = [seed_tenant_id env]" by (simp add: seed_tenant_def)
  have kids: "delete_where (\<lambda>m. mb_tenantId m = seed_tenant_id env) (memberships (fst s)) = memberships (fst s)"
    "delete_where (\<lambda>i. e_tenantId i = seed_tenant_id env) (invites (fst s)) = invites (fst s)"
    by (rule delete_where_none, rule tid, drule mentioned_ids, simp)+
  have cascade: "cascade_tenants (\<lambda>i. i = seed_tenant_id env) (snd s) = snd s"
    by (rule cascade_identity) (use tid in blast)
  have del: "delete_where (\<lambda>x. e_id x = seed_tenant_id env) (tenants (fst s) @ [seed_tenant env]) = tenants (fst s)"
    "ids_where (\<lambda>x. e_id x = seed_tenant_id env) (tenants (fst s) @ [seed_tenant env]) = [seed_tenant_id env]"
    by (rule delete_where_appended(1), erule old, erule new)
      (subst delete_where_appended(2), erule old, erule new, rule ids)
  show ?thesis using kids cascade by (simp add: delete_tenants_def del)
qed

lemma delete_users_seeded:
  assumes "fresh_seed env s" "cleared s"
  shows "delete_users (\<lambda>u. us_email u \<in> set USER_EMAILS) ((fst s)\<lparr>users := users (fst s) @ seed_users env\<rparr>, snd s) = s"
proof -
  have old: "u \<in> set (users (fst s)) \<Longrightarrow> us_email u \<notin> set USER_EMAILS" for u using assms(2) by (simp add: cleared_def)
  have new: "u \<in> set (seed_users env) \<Longrightarrow> us_email u \<in> set USER_EMAILS" for u using seed_users_rows [of u env] by simp
  have gone: "i \<in> mentioned s \<Longrightarrow> i \<notin> e_id ` set (seed_users env)" for i
    using fresh_mentioned [OF assms(1)] seed_users_rows by blast
  have kids: "delete_where (\<lambda>m. mb_userId m \<in> e_id ` set (seed_users env)) (memberships (fst s)) = memberships (fst s)"
    "delete_where (\<lambda>r. rt_userId r \<in> e_id ` set (seed_users env)) (refresh_tokens (fst s)) = refresh_tokens (fst s)"
    by (rule delete_where_none, rule gone, drule mentioned_ids, simp)+
  have staff: "delete_staff (\<lambda>r. st_userId r \<in> e_id ` set (seed_users env)) (snd s) = snd s"
    by (rule delete_identity, rule gone, drule mentioned_ids, simp)
  have "delete_where (\<lambda>u. us_email u \<in> set USER_EMAILS) (users (fst s) @ seed_users env) = users (fst s)"
    "ids_where (\<lambda>u. us_email u \<in> set USER_EMAILS) (users (fst s) @ seed_users env) = map e_id (seed_users env)"
    by (rule delete_where_appended, erule old, erule new)+
  then show ?thesis using kids staff by (simp add: delete_users_def)
qed

lemma clear_seeded:
  assumes "fresh_seed env s" "cleared s"
  shows "clear (seeded env pid s) = s"
proof -
  have "find (\<lambda>tn. live tn \<and> tn_slug tn = TENANT_SLUG) (tns @ [seed_tenant env]) = Some (seed_tenant env)"
    if "\<forall>tn \<in> set tns. tn_slug tn \<noteq> TENANT_SLUG" for tns
    using that by (induction tns) (simp_all add: seed_tenant_def live_def)
  from this [of "tenants (fst s)"] assms(2)
  have f: "find (\<lambda>tn. live tn \<and> tn_slug tn = TENANT_SLUG) (tenants (fst (seeded env pid s))) = Some (seed_tenant env)"
    by (simp add: seeded_def cleared_def)
  have id: "e_id (seed_tenant env) = seed_tenant_id env" by (simp add: seed_tenant_def)
  show ?thesis unfolding clear_def f id option.case clear_rows_seeded [OF assms(1)] delete_tenant_seeded [OF assms(1)]
    by (rule delete_users_seeded [OF assms])
qed

text \<open>
  C39. Seeding. From any consistent database in which no soft-deleted tenant holds the demo slug and the Pro plan
  exists, with fresh ids, \<open>seedAll\<close> succeeds: none of its inserts violates a constraint. The result is consistent,
  has the ten accounts and the two bookings, and unseeding it gives exactly the database unseeding would have given before: only what \<open>clear\<close> removes is lost.
\<close>
theorem seeding_resets:
  assumes "consistent_db s" "fresh_seed env s"
    "find (\<lambda>p. live p \<and> pl_code p = plan_code_str ProPlan) (plans (fst s)) \<noteq> None"
    "\<forall>tn \<in> set (tenants (fst s)). tn_slug tn = TENANT_SLUG \<longrightarrow> live tn"
  shows "\<exists>s'. seedAll env s = (Inr (), s') \<and> consistent_db s' \<and> unseedAll s' = unseedAll s \<and>
           users (fst s') = users (fst (unseedAll s)) @ seed_users env \<and>
           bookings (snd s') = bookings (snd (unseedAll s)) @ seed_bookings env"
proof -
  obtain pro where pro: "find (\<lambda>p. live p \<and> pl_code p = plan_code_str ProPlan) (plans (fst s)) = Some pro" using assms(3) by blast
  let ?c = "clear s"
  have c: "cleared ?c" using clear_cleared [OF assms(1)] assms(4) by blast
  have f: "fresh_seed env ?c" by (rule fresh_trims [OF clear_trims assms(2)])
  have "consistent_db ?c" by (rule consistent_trims [OF clear_trims assms(1)])
  then have ok: "consistent_db (seeded env (e_id pro) ?c)" by (rule seeded_consistent [OF f c])
  have "plans (fst ?c) = plans (fst s)" using clear_trims [of s] by (simp add: trims_def)
  then have "seed_insert env ?c = Inr (seeded env (e_id pro) ?c)" using seed_insert_ok [OF f c] pro by simp
  then have "seedAll env s = (Inr (), seeded env (e_id pro) ?c)" by (simp add: seedAll_def)
  then show ?thesis using ok clear_seeded [OF f c, of "e_id pro"] by (simp add: unseedAll_def seeded_def)
qed

text \<open>A database that already holds the demo tenant with bookings, one of the accounts, and another tenant.\<close>
definition seed_gen :: "nat \<Rightarrow> uuid" where
  "seed_gen k = replicate (k + 1) CHR ''z''"

definition sample_seed_env :: seed_env where
  "sample_seed_env = \<lparr>sd_gen = seed_gen, sd_now = 0, sd_hash = ''h'', sd_date1 = 5, sd_date2 = 6\<rparr>"

definition half_seeded :: "gdb \<times> tdb" where
  "half_seeded =
     (empty_gdb\<lparr>plans := [sample_plan\<lparr>pl_code := ''pro''\<rparr>], tenants := [sample_tenant ''t1'' TENANT_SLUG, sample_tenant ''t2'' ''spa''],
                users := [user_row ''u1'' 0 ''anna@example.com'' ''Anna'' None None None]\<rparr>, sample_db)"

lemma half_seeded_ok:
  "consistent_db half_seeded" "fresh_seed sample_seed_env half_seeded"
  "find (\<lambda>p. live p \<and> pl_code p = plan_code_str ProPlan) (plans (fst half_seeded)) \<noteq> None"
  "\<forall>tn \<in> set (tenants (fst half_seeded)). tn_slug tn = TENANT_SLUG \<longrightarrow> live tn"
proof -
  show "consistent_db half_seeded" by code_simp
  have "inj seed_gen" by (auto simp: inj_def seed_gen_def dest: arg_cong [where f = length])
  moreover have "hd i = CHR ''z''" if "i \<in> range seed_gen" for i using that by (auto simp: seed_gen_def)
  then have "i \<notin> range seed_gen" if "hd i \<noteq> CHR ''z''" for i using that by blast
  moreover have "\<forall>i \<in> mentioned half_seeded. hd i \<noteq> CHR ''z''" by code_simp
  moreover have "subscriptions (snd half_seeded) = []" by code_simp
  ultimately show "fresh_seed sample_seed_env half_seeded" by (auto simp: fresh_seed_def sample_seed_env_def)
qed (simp_all add: half_seeded_def sample_plan_def sample_tenant_def live_def)

theorem seeding_resets_witness:
  "\<exists>s'. seedAll sample_seed_env half_seeded = (Inr (), s') \<and> consistent_db s' \<and> unseedAll s' = unseedAll half_seeded \<and>
     users (fst s') = users (fst (unseedAll half_seeded)) @ seed_users sample_seed_env \<and>
     bookings (snd s') = bookings (snd (unseedAll half_seeded)) @ seed_bookings sample_seed_env"
  by (rule seeding_resets [OF half_seeded_ok])

end
