(* ===== verification/Spec2Isabelle.thy ===== *)
theory Spec2Isabelle
  imports Calendar Config Contract Platform Processes Queues Seeds
begin

text \<open>
  A model of the booking platform API in \<open>src/\<close>: a multi-tenant booking backend in TypeScript (Express,
  routing-controllers, TypeORM, PostgreSQL, BullMQ).

  THE PROGRAM. A request enters through the tenant middleware, which reads the access token, refuses blocked
  tenants and opens one PostgreSQL transaction pinned to the token's tenant (\<open>app.tenant_id\<close>). The
  controller's action runs on that transaction through a service and its repositories; success commits it,
  and any error, or the client closing its connection before that, rolls it back. Services signal errors with the exception classes of
  \<open>common/exceptions\<close>, which the error middleware turns into RFC 7807 bodies. A booking operation
  also records an outbox event on the same transaction; the relay later hands the event to the mail and
  webhook queues, whose workers deliver it. Payment providers call back on an unauthenticated endpoint whose
  tenant is the one named in the event's reference. Users, tenants, memberships, invitations, refresh
  tokens, plans and the audit trail are global rows, written on pooled connections.

  HOW THE CODE IS READ. Two records of \<open>Schema\<close> hold the database: \<open>tdb\<close> the tables that carry a
  tenant id (with the outbox and the webhook receipts) and \<open>gdb\<close> the global ones; a table is the list
  of its rows in insertion order. An entity is a record, an enum a datatype.
  An operation on the request's transaction is a function \<open>tdb \<Rightarrow> exn + 'a \<times> tdb\<close>: \<open>Inl e\<close> is the thrown
  exception and the transaction's writes are gone. An operation on pooled connections, whose statements
  commit one by one, is \<open>gdb \<Rightarrow> (exn + 'a) \<times> gdb\<close>: what was written before the error stays. The ids and
  timestamps the database generates, the process clock and the random bytes are arguments. A
  \<open>js_date\<close> is an optional instant in milliseconds, \<open>None\<close> for an invalid \<open>Date\<close>; comparisons with it
  are false, as with \<open>NaN\<close>. The SQL of a repository method is a filter, sort or update of the table
  under the \<open>where\<close> clause of the method, the soft-delete filter and the row-level security policy;
  every write passes the table's unique indexes and EXCLUDE constraints and fails with their code and
  name.

  THEORIES AND THE FILES THEY MODEL (below \<open>src/src\<close>).
  \<^item> \<open>Prelude\<close>: identifiers, results and their combinators, string helpers, rows of a table;
    \<open>Json\<close>: JSON values, \<open>JSON.stringify\<close>, \<open>toISOString\<close>; \<open>Text_Codec\<close>: UTF-8, hex,
    \<open>timingSafeEqual\<close>, \<open>Number\<close> and \<open>parseInt\<close>, URL search parameters.
  \<^item> \<open>Exceptions\<close>: \<open>common/exceptions\<close>, the problem details and
    \<open>common/middlewares/error-handler.middleware.ts\<close>.
  \<^item> \<open>Schema\<close>: \<open>common/types/enums\<close>, \<open>common/constants\<close>, \<open>common/base\<close> and every entity of
    \<open>modules\<close>; \<open>Constraints\<close>: the unique indexes and EXCLUDE constraints of
    \<open>database/migrations\<close>; \<open>Tenancy\<close>: \<open>common/tenant\<close>, the policies, the tenant repository
    base class and paging.
  \<^item> \<open>Catalog\<close>: \<open>modules/service\<close>, \<open>modules/customer\<close>; \<open>Directory\<close>: \<open>modules/membership\<close>,
    \<open>staff\<close>, \<open>staff-service\<close>, \<open>working-hours\<close>, \<open>time-off\<close>.
  \<^item> \<open>Lifecycle\<close>: \<open>booking-state-machine.ts\<close> and \<open>subscription-state-machine.ts\<close>;
    \<open>Claims_Once\<close>: the contract of every claim that only the first caller wins.
  \<^item> \<open>Booking\<close> (with \<open>Booking_Facts\<close> and \<open>Booking_Props\<close>): \<open>modules/booking\<close>;
    \<open>Idempotency\<close>: \<open>modules/idempotency\<close>.
  \<^item> \<open>Outbox\<close>: \<open>modules/outbox\<close>, \<open>jobs/workers/outbox-relay.worker.ts\<close> and the payloads of
    \<open>jobs/queues\<close>.
  \<^item> \<open>Payments\<close>: \<open>modules/payment\<close> (both provider adapters, registry, receipts);
    \<open>Billing\<close>: \<open>modules/plan\<close>, \<open>modules/subscription\<close> and the payment webhook.
  \<^item> \<open>Onboarding\<close>: \<open>modules/tenant\<close>, \<open>modules/invite\<close>, \<open>modules/admin\<close>;
    \<open>Sessions\<close>: \<open>modules/user\<close>, \<open>modules/refresh-token\<close>, \<open>modules/auth\<close>.
  \<^item> \<open>Deliveries\<close>: \<open>modules/webhook\<close>, \<open>modules/mail\<close> and their two workers.
  \<^item> \<open>Availability\<close>: \<open>modules/availability\<close>; \<open>Recurrence\<close>: \<open>modules/recurrence\<close>;
    \<open>Reporting\<close>: \<open>modules/reporting\<close>.
  \<^item> \<open>Isolation\<close> and \<open>System\<close>: all tenant operations, the payment webhook and the relay as one
    transition system (\<open>system_step\<close>, \<open>system_reach\<close>); \<open>Announcements\<close> adds the job queues and the
    mail and webhook workers to it (\<open>delivery_reach\<close>); \<open>Calendar\<close>: an abstract appointment book and
    the map from databases to it; \<open>References\<close>: the foreign keys of \<open>database/migrations\<close> between tenant
    tables.
  \<^item> \<open>Queues\<close>: the producers of \<open>jobs/queues\<close>; \<open>Processes\<close>: \<open>worker.ts\<close>, \<open>index.ts\<close>,
    \<open>jobs/metrics-server.ts\<close>, \<open>common/utils/timeout.ts\<close> and the timer of the relay, as event loops.
  \<^item> \<open>Http_Pipeline\<close>: \<open>common/middlewares/tenant-context.middleware.ts\<close>, \<open>common/interceptors\<close> and
    the authorization checker of \<open>server.ts\<close>; \<open>Routes\<close>: the route decorators of the controllers;
    \<open>Server\<close>: the application of \<open>server.ts\<close> and \<open>modules/auth/strategies/google.strategy.ts\<close>;
    \<open>Contract\<close>: \<open>config/swagger.ts\<close>; \<open>Config\<close>: \<open>config/env.ts\<close>.
  \<^item> \<open>Controllers\<close>: the actions of the tenant controllers (\<open>modules/*/*.controller.ts\<close>) with their DTO rules, and
    the application with them as handlers (\<open>http_reach\<close>); \<open>Accounts\<close>: the actions of the controllers on the global
    tables and the whole platform, global and tenant tables together (\<open>platform_dispatch\<close>,
    \<open>platform_reach\<close>); \<open>Platform\<close>: its invariants and the foreign keys to users, tenants and plans.
  \<^item> \<open>Seeds\<close>: \<open>database/seeds\<close>, with the cascades of the foreign keys it relies on.

  INTERFACES. \<open>table_constraints\<close>, \<open>keyed_table\<close> and \<open>tenant_table\<close> state what a table
  with constraints, with a unique key and with a tenant column promises its repository, and are
  interpreted on every table of the schema. \<open>claim_once\<close> is interpreted on the idempotency key, the
  webhook receipt, the refresh token and the invitation. \<open>payment_provider\<close> (a verifier accepts what the
  provider signs and nothing else) is interpreted on SePay, Stripe, the registry and the outbound webhook
  signature. \<open>lifecycle\<close> and \<open>ranked_lifecycle\<close> are interpreted on the two status tables.

  WHAT IS SHOWN.
  \<^item> The platform (\<open>Platform\<close>): in every state that requests, payment callbacks and the relay reach from a fresh
    installation, every constraint and every foreign key of the migrations holds; a membership is gained only by
    founding the tenant or by an invitation to the caller's address, and only super admins change a tenant, on the
    record.
  \<^item> Tenancy (\<open>System\<close>): no operation of a tenant writes another tenant's rows (that no GET request and no replayed
    answer depends on them is shown in \<open>Controllers\<close>), and every database reachable from the empty one satisfies all constraints and the data invariants.
  \<^item> Refinement (\<open>Calendar\<close>) and references (\<open>References\<close>): every step of the system is a step of the
    appointment book, in which a staff member is never booked twice at a time, or leaves it alone; in every
    reachable database the foreign keys between tenant tables resolve within the tenant.
  \<^item> Requests (\<open>Http_Pipeline\<close>, \<open>Server\<close>, \<open>Contract\<close>): a request's transaction is all or nothing on the
    tenant tables, also when the client leaves while the handler runs, and is settled exactly once whatever the
    order of the events (what a handler writes to global tables on other connections is not part of it); blocked tenants are refused, and error bodies
    conform to the published schema except for lists of validation errors.
  \<^item> Actions (\<open>Controllers\<close>): whatever requests arrive, the tenant tables stay within the states of \<open>System\<close>, and
    a request that changes tenant data has run exactly one operation of the tenant its token names, under a role of
    the matched route.
  \<^item> Bookings (\<open>Booking_Props\<close>): contested slots go to one request, status changes follow the state
    machine and the version (a version once used up is never accepted again, whatever commits in between), events and
    rows are written together, and creation under a key is
    idempotent.
  \<^item> Outbox (\<open>Outbox\<close>, \<open>Announcements\<close>, \<open>Queues\<close>): a batch settles each event on its own outcome, a tick
    enqueues every due event exactly once, and in every reachable state what the workers can send about a
    booking goes to that booking's customer and to its tenant's endpoint only; a batch run again after a lost
    commit queues nothing twice while the queues hold its jobs.
  \<^item> Worker (\<open>Processes\<close>): a shutdown closes the connections only after the relay has drained and the workers are
    closed, and it ends.
  \<^item> Billing (\<open>Billing\<close>): a redelivered webhook changes nothing however much later it comes, forged and unsigned ones are refused, subscriptions
    move along the state machine, and there is one live subscription.
  \<^item> Accounts (\<open>Sessions\<close>, \<open>Onboarding\<close>): refresh tokens rotate once and replays burn the family,
    tokens claim only real authority, a Google sign-in opens a session of the account linked to the Google id or
    holding the profile's address (which need not be the one the verified flag is about), invitations work once, and status changes are audited.
  \<^item> Deliveries (\<open>Deliveries\<close>): the address filter is exact on the 32-bit IPv4 addresses, a delivery
    sends at most one request, to the target it has checked, and follows no redirect; that its address is outside
    the blocked ranges holds as long as the name resolves as it did at the check; signatures authenticate.
  \<^item> Availability and series (\<open>Availability\<close>, \<open>Recurrence\<close>): the offered slots are exactly the
    free ones and can be booked; the expansion loops equal their reference, stay within their bounds
    and reach their count; both conflict policies do what they promise.
  \<^item> Reports (\<open>Reporting\<close>): the buckets account for every booking and for all revenue once, over the range read
    in the tenant's timezone.
  \<^item> Seeds (\<open>Seeds\<close>): seeding succeeds from any consistent database, and unseeding removes all it added.
  The sections "Known gaps" prove the places where the code does less than its comments say.

  LOOPS AND BOUNDS. \<open>slot_loop\<close> is a \<open>partial_function (option)\<close>: with a duration of zero the code
  does not end, and with a positive one it is proved to return. The expander stops at
  \<open>MAX_OCCURRENCES\<close> = 100; its scan bound for weekly rules is the code's own, and is proved to be large
  enough. The relay's tick (at most \<open>OUTBOX_BATCH_SIZE\<close> events per round) ends because each round of the loop settles at least one pending event. A booking's
  version is a 32-bit column: an update that would take it past 2147483647 fails with 22003
  (\<open>version_overflows\<close>). The attempt counters never exceed \<open>OUTBOX_MAX_ATTEMPTS\<close>; the range of the integer columns that
  requests set is checked by the DTO rules. A delivery's fetch has at most \<open>MAX_REDIRECTS\<close> = 20 further hops, the
  platform's own limit, and uses none.

  NOT MODELLED. The column types beyond the integer bounds of
  the DTOs; ids are taken to be well-formed UUIDs where the code relies on it. Parameters, because their code is
  not in the repository: luxon's \<open>DateTime\<close> and time zones, PostgreSQL's time zone conversion and collation,
  HMAC, SHA-256, bcrypt and JSON Web Tokens, the URL parser, DNS and the network behind \<open>fetch\<close>, the
  decoding of requests and the rendering of answers (routing-controllers, class-transformer), \<open>JSON.parse\<close>, envalid's validators, the generators of the OpenAPI document, BullMQ's queues and
  retries, Express's path matching, passport, the mail provider. Left out as wiring around third-party
  packages: logging, tracing, metrics, the data source and the Redis client; the Redis cache helpers are called by
  no module. Statements of concurrent transactions are taken one at a time, as the unique indexes, the
  compare-and-set updates and the row locks order them; where a service decides on an earlier read, the races
  are stated as interleavings of its steps.
  Three readings of the language are narrower than the runtime: \<open>js_Number\<close> gives exact rationals where JavaScript
  rounds to 53 bits; a thrown value carries its message, code and status as text and numbers; and a text that is
  no UUID finds no row, where PostgreSQL fails with 22P02.
  A request of the platform is one step, so the interleaved statements of two account requests are covered by the
  lemmas of \<open>Sessions\<close> and \<open>Onboarding\<close> on claims only. The webhook of a payment provider is a step of its own,
  not a route of \<open>platform_dispatch\<close>, as its body is read raw. Bookings per month, which plans declare, are
  enforced nowhere in the code.
\<close>

end
